(* ===== verification/Prelude.thy ===== *)
theory Prelude
  imports Complex_Main "HOL-Library.Multiset" "HOL-Library.Sublist"
begin

text \<open>
  Shared vocabulary of the development: the fact collections, the pieces of Go's language and
  standard library that the components use (\<^verbatim>\<open>int\<close> wrap-around, the ASCII part of package
  \<^verbatim>\<open>strings\<close>, \<^verbatim>\<open>strconv.Atoi\<close>, the \<^verbatim>\<open>%d\<close> verb, JSON values), and the
  contract every stateful component offers to its clients (locale \<open>component\<close>).

  A Go string is a list of bytes (\<^typ>\<open>string\<close>). Case folding and white space follow Go on
  ASCII input; bytes of multi-byte runes are left unchanged.
\<close>

section \<open>Collections\<close>

named_theorems go_simps "evaluation rules of the Go vocabulary"
named_theorems inv_intros "an operation keeps the invariant of its component"

section \<open>Machine integers\<close>

text \<open>A Go \<^verbatim>\<open>int\<close> on the supported platforms has 64 bits and wraps around.\<close>

definition maxInt :: int where
  "maxInt = 9223372036854775807"

definition minInt :: int where
  "minInt = - 9223372036854775808"

definition wrap64 :: "int \<Rightarrow> int" where
  "wrap64 x = (x + 9223372036854775808) mod 18446744073709551616 - 9223372036854775808"

abbreviation int64 :: "int \<Rightarrow> bool" where
  "int64 x \<equiv> minInt \<le> x \<and> x \<le> maxInt"

lemma wrap64_range [simp]: "minInt \<le> wrap64 x" "wrap64 x \<le> maxInt"
proof -
  have "0 \<le> (x + 9223372036854775808) mod 18446744073709551616"
    and "(x + 9223372036854775808) mod 18446744073709551616 < 18446744073709551616"
    by simp_all
  then show "minInt \<le> wrap64 x" "wrap64 x \<le> maxInt"
    by (simp_all add: wrap64_def minInt_def maxInt_def)
qed

lemma wrap64_id: "int64 x \<Longrightarrow> wrap64 x = x"
  by (simp add: wrap64_def minInt_def maxInt_def)

lemma wrap64_small: "0 \<le> x \<Longrightarrow> x \<le> 9223372036854775807 \<Longrightarrow> wrap64 x = x"
  by (simp add: wrap64_id minInt_def maxInt_def)

text \<open>Go's integer division truncates towards zero.\<close>

definition go_div :: "int \<Rightarrow> int \<Rightarrow> int" where
  "go_div a b = sgn a * sgn b * (\<bar>a\<bar> div \<bar>b\<bar>)"

definition go_mod :: "int \<Rightarrow> int \<Rightarrow> int" where
  "go_mod a b = a - b * go_div a b"

lemma go_div_nonneg: "0 \<le> a \<Longrightarrow> 0 < b \<Longrightarrow> go_div a b = a div b"
  by (cases "a = 0") (simp_all add: go_div_def)

lemma go_mod_nonneg: "0 \<le> a \<Longrightarrow> 0 < b \<Longrightarrow> go_mod a b = a mod b"
  by (simp add: go_mod_def go_div_nonneg minus_mult_div_eq_mod)

section \<open>Strings\<close>

definition lower_char :: "char \<Rightarrow> char" where
  "lower_char c = (let n = (of_char c :: nat) in if 65 \<le> n \<and> n \<le> 90 then char_of (n + 32) else c)"

definition ToLower :: "string \<Rightarrow> string" where
  "ToLower s = map lower_char s"

definition EqualFold :: "string \<Rightarrow> string \<Rightarrow> bool" where
  "EqualFold s t \<longleftrightarrow> ToLower s = ToLower t"

definition is_space :: "char \<Rightarrow> bool" where
  "is_space c = (let n = (of_char c :: nat) in n = 32 \<or> (9 \<le> n \<and> n \<le> 13))"

definition TrimSpace :: "string \<Rightarrow> string" where
  "TrimSpace s = rev (dropWhile is_space (rev (dropWhile is_space s)))"

definition HasPrefix :: "string \<Rightarrow> string \<Rightarrow> bool" where
  "HasPrefix s p \<longleftrightarrow> take (length p) s = p"

definition HasSuffix :: "string \<Rightarrow> string \<Rightarrow> bool" where
  "HasSuffix s p \<longleftrightarrow> HasPrefix (rev s) (rev p)"

definition TrimSuffix :: "string \<Rightarrow> string \<Rightarrow> string" where
  "TrimSuffix s p = (if HasSuffix s p then take (length s - length p) s else s)"

fun Contains :: "string \<Rightarrow> string \<Rightarrow> bool" where
  "Contains [] p \<longleftrightarrow> p = []"
| "Contains (c # s) p \<longleftrightarrow> HasPrefix (c # s) p \<or> Contains s p"

text \<open>The bytes of the dash in some messages.\<close>

definition em_dash :: string where
  "em_dash = map char_of [226, 128, 148 :: nat]"

text \<open>\<^verbatim>\<open>strings.Split\<close> with a one-character separator: one piece more than separators.\<close>

fun Split :: "string \<Rightarrow> char \<Rightarrow> string list" where
  "Split [] sep = [[]]"
| "Split (c # s) sep =
     (if c = sep then [] # Split s sep
      else (case Split s sep of [] \<Rightarrow> [[c]] | w # ws \<Rightarrow> (c # w) # ws))"

text \<open>\<^verbatim>\<open>strings.Join\<close>.\<close>

fun Join :: "string list \<Rightarrow> string \<Rightarrow> string" where
  "Join [] sep = ''''"
| "Join [x] sep = x"
| "Join (x # y # xs) sep = x @ sep @ Join (y # xs) sep"

text \<open>\<^verbatim>\<open>strings.Fields\<close>: the maximal runs of non-space characters.\<close>

fun Fields_aux :: "string \<Rightarrow> string \<Rightarrow> string list" where
  "Fields_aux [] w = (if w = [] then [] else [rev w])"
| "Fields_aux (c # s) w =
     (if is_space c then (if w = [] then Fields_aux s [] else rev w # Fields_aux s [])
      else Fields_aux s (c # w))"

definition Fields :: "string \<Rightarrow> string list" where
  "Fields s = Fields_aux s []"

text \<open>\<^verbatim>\<open>strings.Index\<close> of a one-character needle.\<close>

fun Index :: "string \<Rightarrow> char \<Rightarrow> nat option" where
  "Index [] x = None"
| "Index (c # s) x = (if c = x then Some 0 else map_option Suc (Index s x))"

lemma Split_not_Nil [simp]: "Split s sep \<noteq> []"
  by (induction s) (auto split: list.splits)

lemma Split_no_sep: "sep \<notin> set s \<Longrightarrow> Split s sep = [s]"
  by (induction s) auto

lemma Index_None_iff: "Index s x = None \<longleftrightarrow> x \<notin> set s"
  by (induction s) auto

lemma Index_no_occurrence [simp]: "x \<notin> set s \<Longrightarrow> Index s x = None"
  by (simp add: Index_None_iff)

lemma Index_Some_split:
  "Index s x = Some i \<Longrightarrow> i < length s \<and> s ! i = x \<and> x \<notin> set (take i s)"
  by (induction s arbitrary: i) (auto split: if_splits)

lemma Fields_aux_word:
  "w \<noteq> [] \<or> v \<noteq> [] \<Longrightarrow> \<forall>c \<in> set v. \<not> is_space c \<Longrightarrow> Fields_aux v w = [rev w @ v]"
  by (induction v arbitrary: w) auto

lemma Fields_aux_word_space:
  "w \<noteq> [] \<or> v \<noteq> [] \<Longrightarrow> \<forall>c \<in> set v. \<not> is_space c \<Longrightarrow>
   Fields_aux (v @ CHR '' '' # s) w = (rev w @ v) # Fields_aux s []"
  by (induction v arbitrary: w) (auto simp: is_space_def)

lemma Contains_iff: "Contains s p \<longleftrightarrow> (\<exists>a b. s = a @ p @ b)"
proof (induction s)
  case Nil
  then show ?case by simp
next
  case (Cons c s)
  have prefix: "HasPrefix (c # s) p \<longleftrightarrow> (\<exists>b. c # s = p @ b)"
    unfolding HasPrefix_def by (metis append_eq_conv_conj)
  have "(\<exists>a b. c # s = a @ p @ b) \<longleftrightarrow> (\<exists>b. c # s = p @ b) \<or> (\<exists>a b. s = a @ p @ b)"
    by (metis (no_types, opaque_lifting) append_Cons append_Nil append_eq_Cons_conv)
  with Cons.IH prefix show ?case by simp
qed

lemma Contains_self [simp]: "Contains s s"
  unfolding Contains_iff by (metis append_Nil append_Nil2)

lemma Contains_set: "Contains s p \<Longrightarrow> set p \<subseteq> set s"
  unfolding Contains_iff by auto

lemma lower_char_not_upper: "\<not> (65 \<le> (of_char (lower_char c) :: nat) \<and> (of_char (lower_char c) :: nat) \<le> 90)"
proof -
  have "(of_char c :: nat) < 256" by (cases c) (simp add: of_char_def)
  then show ?thesis by (auto simp: lower_char_def Let_def of_char_of)
qed

lemma ToLower_no_upper: "c \<in> set (ToLower s) \<Longrightarrow> \<not> (65 \<le> (of_char c :: nat) \<and> (of_char c :: nat) \<le> 90)"
  unfolding ToLower_def using lower_char_not_upper by auto

lemma EqualFold_refl [simp]: "EqualFold s s"
  by (simp add: EqualFold_def)

lemma EqualFold_sym: "EqualFold s t \<longleftrightarrow> EqualFold t s"
  by (auto simp: EqualFold_def)

section \<open>Decimal numbers\<close>

definition digit_val :: "char \<Rightarrow> int option" where
  "digit_val c = (let n = (of_char c :: int) in if 48 \<le> n \<and> n \<le> 57 then Some (n - 48) else None)"

definition digit_char :: "nat \<Rightarrow> char" where
  "digit_char d = char_of (48 + d)"

fun digits_val :: "int \<Rightarrow> string \<Rightarrow> int option" where
  "digits_val acc [] = Some acc"
| "digits_val acc (c # s) =
     (case digit_val c of None \<Rightarrow> None | Some d \<Rightarrow> digits_val (10 * acc + d) s)"

definition parse_nat :: "string \<Rightarrow> int option" where
  "parse_nat s = (if s = [] then None else digits_val 0 s)"

text \<open>\<^verbatim>\<open>strconv.Atoi\<close>: an optional sign, at least one digit, the value in the range of \<^verbatim>\<open>int\<close>.\<close>

definition Atoi :: "string \<Rightarrow> int option" where
  "Atoi s =
     (case s of
        [] \<Rightarrow> None
      | c # r \<Rightarrow>
          (if c = CHR ''-'' then
             (case parse_nat r of None \<Rightarrow> None
              | Some n \<Rightarrow> if - n < minInt then None else Some (- n))
           else
             (case parse_nat (if c = CHR ''+'' then r else s) of None \<Rightarrow> None
              | Some n \<Rightarrow> if n > maxInt then None else Some n)))"

text \<open>The verb \<^verbatim>\<open>%d\<close> of package \<^verbatim>\<open>fmt\<close>.\<close>

fun show_nat :: "nat \<Rightarrow> string" where
  "show_nat n = (if n < 10 then [digit_char n] else show_nat (n div 10) @ [digit_char (n mod 10)])"

declare show_nat.simps [simp del]

definition Itoa :: "int \<Rightarrow> string" where
  "Itoa i = (if i < 0 then CHR ''-'' # show_nat (nat (- i)) else show_nat (nat i))"

lemma of_char_digit_char: "d < 10 \<Longrightarrow> (of_char (digit_char d) :: nat) = 48 + d"
  by (simp add: digit_char_def)

lemma of_char_int: "(of_char c :: int) = int (of_char c)"
  by (simp only: of_nat_of_char)

lemma digit_val_digit_char [simp]: "d < 10 \<Longrightarrow> digit_val (digit_char d) = Some (int d)"
  unfolding digit_val_def Let_def of_char_int by (simp add: of_char_digit_char)

lemma show_nat_not_Nil [simp]: "show_nat n \<noteq> []"
  by (subst show_nat.simps) simp

lemma digits_val_append:
  "digits_val acc (s @ t) = (case digits_val acc s of None \<Rightarrow> None | Some v \<Rightarrow> digits_val v t)"
  by (induction s arbitrary: acc) (auto split: option.splits)

lemma digits_val_show_nat: "digits_val 0 (show_nat n) = Some (int n)"
proof (induction n rule: show_nat.induct)
  case (1 n)
  show ?case
  proof (cases "n < 10")
    case True
    then show ?thesis by (simp add: show_nat.simps [of n])
  next
    case False
    with "1.IH" show ?thesis
      by (simp add: show_nat.simps [of n] digits_val_append zdiv_int zmod_int)
  qed
qed

lemma parse_nat_show_nat [simp]: "parse_nat (show_nat n) = Some (int n)"
  by (simp add: parse_nat_def digits_val_show_nat)

lemma show_nat_digit: "c \<in> set (show_nat n) \<Longrightarrow> \<exists>d < 10. c = digit_char d"
proof (induction n rule: show_nat.induct)
  case (1 n)
  show ?case
  proof (cases "n < 10")
    case True
    with "1.prems" show ?thesis by (auto simp: show_nat.simps [of n])
  next
    case False
    with "1.prems" have "c \<in> set (show_nat (n div 10)) \<or> c = digit_char (n mod 10)"
      by (auto simp: show_nat.simps [of n])
    with False "1.IH" show ?thesis
      by (metis mod_less_divisor zero_less_numeral)
  qed
qed

lemma show_nat_char_range:
  "c \<in> set (show_nat n) \<Longrightarrow> 48 \<le> (of_char c :: nat) \<and> (of_char c :: nat) \<le> 57"
  using show_nat_digit [of c n] by (auto simp: of_char_digit_char)

lemma show_nat_other_char:
  "\<not> (48 \<le> (of_char c :: nat) \<and> (of_char c :: nat) \<le> 57) \<Longrightarrow> c \<notin> set (show_nat n)"
  using show_nat_char_range by blast

lemma Atoi_Itoa:
  assumes "int64 i"
  shows "Atoi (Itoa i) = Some i"
proof (cases "i < 0")
  case True
  with assms show ?thesis by (simp add: Atoi_def Itoa_def)
next
  case False
  obtain c r where s: "show_nat (nat i) = c # r"
    by (cases "show_nat (nat i)") auto
  have "c \<in> set (show_nat (nat i))" by (simp add: s)
  then have "c \<noteq> CHR ''-''" "c \<noteq> CHR ''+''"
    using show_nat_char_range [of c "nat i"] by auto
  moreover have "parse_nat (c # r) = Some (int (nat i))"
    using parse_nat_show_nat [of "nat i"] by (simp add: s)
  ultimately show ?thesis using False assms by (simp add: Atoi_def Itoa_def s)
qed

section \<open>JSON values\<close>

text \<open>
  \<^verbatim>\<open>model.JSONMap\<close> is \<^verbatim>\<open>map[string]interface{}\<close> filled from JSON: numbers arrive as
  \<^verbatim>\<open>float64\<close>, a finite binary fraction, here a rational.
\<close>

datatype jval = JNull | JBool bool | JNum rat | JStr string | JArr "jval list" | JObj "(string \<times> jval) list"

type_synonym jmap = "(string \<times> jval) list"

definition jget :: "jmap \<Rightarrow> string \<Rightarrow> jval option" where
  "jget m k = map_of m k"

text \<open>The comma-ok assertion \<^verbatim>\<open>m[k].(string)\<close>.\<close>

definition jstring :: "jmap \<Rightarrow> string \<Rightarrow> string option" where
  "jstring m k = (case jget m k of Some (JStr s) \<Rightarrow> Some s | _ \<Rightarrow> None)"

text \<open>\<^verbatim>\<open>s, _ := m[k].(string)\<close>: the empty string when the assertion fails.\<close>

definition jstring0 :: "jmap \<Rightarrow> string \<Rightarrow> string" where
  "jstring0 m k = (case jstring m k of Some s \<Rightarrow> s | None \<Rightarrow> [])"

definition jnum :: "jmap \<Rightarrow> string \<Rightarrow> rat option" where
  "jnum m k = (case jget m k of Some (JNum r) \<Rightarrow> Some r | _ \<Rightarrow> None)"

subsection \<open>JSON values decoded into Go types\<close>

text \<open>A \<^verbatim>\<open>null\<close> leaves the zero value in place; any other value of the wrong kind is an error.\<close>

fun decode_string :: "jval \<Rightarrow> string option" where
  "decode_string JNull = Some ''''"
| "decode_string (JStr s) = Some s"
| "decode_string _ = None"

fun decode_int :: "jval \<Rightarrow> int option" where
  "decode_int JNull = Some 0"
| "decode_int (JNum q) = (if of_int \<lfloor>q\<rfloor> = q \<and> int64 \<lfloor>q\<rfloor> then Some \<lfloor>q\<rfloor> else None)"
| "decode_int _ = None"

fun decode_list :: "(jval \<Rightarrow> 'a option) \<Rightarrow> jval list \<Rightarrow> 'a list option" where
  "decode_list f [] = Some []"
| "decode_list f (v # vs) = (case f v of None \<Rightarrow> None | Some x \<Rightarrow> map_option ((#) x) (decode_list f vs))"

fun decode_slice :: "(jval \<Rightarrow> 'a option) \<Rightarrow> jval \<Rightarrow> 'a list option" where
  "decode_slice f JNull = Some []"
| "decode_slice f (JArr vs) = decode_list f vs"
| "decode_slice f _ = None"

text \<open>Member names are matched without regard to case, and a later member replaces an earlier one.\<close>

definition member :: "string \<Rightarrow> (string \<times> jval) list \<Rightarrow> jval" where
  "member name ms = (case find (\<lambda>(k, v). EqualFold k name \<and> v \<noteq> JNull) (rev ms) of None \<Rightarrow> JNull | Some (_, v) \<Rightarrow> v)"

definition all_members :: "string \<Rightarrow> (jval \<Rightarrow> 'a option) \<Rightarrow> (string \<times> jval) list \<Rightarrow> bool" where
  "all_members name f ms = (\<forall>(k, v) \<in> set ms. EqualFold k name \<longrightarrow> f v \<noteq> None)"

text \<open>An optional field of an update request replaces the old value when it is given.\<close>

definition set_opt :: "'a option \<Rightarrow> 'a \<Rightarrow> 'a" where
  "set_opt x old = (case x of None \<Rightarrow> old | Some v \<Rightarrow> v)"

section \<open>Identifiers\<close>

text \<open>
  The UUID library: parsing to the canonical text form, and a supply of new identifiers. The zero
  UUID is what Go code holds after a parse error it ignores.
\<close>

record uuid_lib =
  uuid_parse :: "string \<Rightarrow> string option"
  uuid_new :: "nat \<Rightarrow> string"

definition nil_uuid :: string where
  "nil_uuid = ''00000000-0000-0000-0000-000000000000''"

definition uuid_or_nil :: "uuid_lib \<Rightarrow> string \<Rightarrow> string" where
  "uuid_or_nil U s = (case uuid_parse U s of None \<Rightarrow> nil_uuid | Some u \<Rightarrow> u)"

text \<open>What is used of the UUID library: new identifiers are fresh, parsing is idempotent, and a new identifier is in canonical form.\<close>

locale uuids =
  fixes U :: uuid_lib
  assumes new_inj: "inj (uuid_new U)"
    and parse_canonical: "uuid_parse U s = Some u \<Longrightarrow> uuid_parse U u = Some u"
    and parse_new: "uuid_parse U (uuid_new U n) = Some (uuid_new U n)"
begin

lemma or_nil_new [simp]: "uuid_or_nil U (uuid_new U n) = uuid_new U n"
  by (simp add: uuid_or_nil_def parse_new)

lemma new_eq_iff: "uuid_new U m = uuid_new U n \<longleftrightarrow> m = n"
  using new_inj by (rule inj_eq)

end

text \<open>A library whose identifiers are numerals.\<close>

definition plain_uuids :: uuid_lib where
  "plain_uuids = \<lparr>uuid_parse = (\<lambda>s. if s = '''' then None else Some s), uuid_new = show_nat\<rparr>"

lemma show_nat_inj: "inj show_nat"
  by (rule injI) (metis digits_val_show_nat of_nat_eq_iff option.inject)

interpretation plain: uuids plain_uuids
  by unfold_locales (auto simp: plain_uuids_def show_nat_inj split: if_splits)

section \<open>The contract of a stateful component\<close>

text \<open>
  Every stateful component of the program is a state with an initial value and a function that
  performs one operation. What it promises its clients is an invariant: it holds initially, every
  operation keeps it, and so it holds after every sequence of operations.
\<close>

fun run :: "('s \<Rightarrow> 'op \<Rightarrow> 's) \<Rightarrow> 's \<Rightarrow> 'op list \<Rightarrow> 's" where
  "run f s [] = s"
| "run f s (x # xs) = run f (f s x) xs"

lemma run_append: "run f s (xs @ ys) = run f (run f s xs) ys"
  by (induction xs arbitrary: s) auto

locale component =
  fixes init :: 's
    and step :: "'s \<Rightarrow> 'op \<Rightarrow> 's"
    and inv :: "'s \<Rightarrow> bool"
  assumes inv_init: "inv init"
    and inv_step: "inv s \<Longrightarrow> inv (step s x)"
begin

lemma inv_run: "inv s \<Longrightarrow> inv (run step s xs)"
  by (induction xs arbitrary: s) (auto intro: inv_step)

lemma inv_reachable: "inv (run step init xs)"
  by (rule inv_run) (rule inv_init)

lemma inv_prefix: "inv (run step init (take n xs))"
  by (rule inv_reachable)

end

end
