(* ===== verification/ProviderCore.thy ===== *)
theory ProviderCore
  imports Prelude
begin

text \<open>
  The provider package's own core (\<^verbatim>\<open>internal/provider\<close>): its error type and the mapping of
  errors to HTTP status codes (\<^verbatim>\<open>errors.go\<close>), the API errors of the Nutanix and Proxmox clients,
  the connection state shared by the providers (\<^verbatim>\<open>base.go\<close>), the registry
  (\<^verbatim>\<open>registry.go\<close>) and the health tracker (\<^verbatim>\<open>health_tracker.go\<close>).

  A Go \<^verbatim>\<open>error\<close> is a value of \<open>go_error\<close>; \<^verbatim>\<open>nil\<close> is \<open>None\<close> of the option type. Wrapping with
  \<^verbatim>\<open>fmt.Errorf("...: %w", err)\<close> and the field \<^verbatim>\<open>Cause\<close> of a provider error are the links
  of the chain that \<^verbatim>\<open>errors.Is\<close> and \<^verbatim>\<open>errors.As\<close> walk.
\<close>

section \<open>Errors\<close>

datatype ErrorCode =
    CodeNotConnected | CodeNotFound | CodeUnsupported | CodeAuthFailed | CodeTimeout
  | CodeInvalidState | CodeQuotaExceeded | CodeConflict | CodeInternal

text \<open>
  The errors the program compares by identity: those of this package, of package \<^verbatim>\<open>context\<close>,
  \<^verbatim>\<open>redis.Nil\<close> and the two of the task engine.
\<close>

datatype sentinel =
    ErrNotConnected | ErrNotFound | ErrUnsupported | ErrAuthFailed | ErrTimeout
  | ErrInvalidState | ErrQuotaExceeded | ErrConflict
  | CtxCanceled | CtxDeadlineExceeded | RedisNil
  | ErrTaskCancelled | ErrTaskPermanentFailure

datatype api_vendor = NutanixAPI | ProxmoxAPI

text \<open>
  \<open>Errorf\<close>: an error with no cause. \<open>Wrapf\<close>: a message prefix and the wrapped error; \<open>Suffixf\<close>: the wrapped error and a
  message after it. The fields of
  \<open>ProviderError\<close> are code, provider, operation, message and cause; those of \<open>ApiError\<close> the package
  that declares it, status code, path and message.
\<close>

datatype go_error =
    Sentinel sentinel
  | Errorf string
  | Wrapf string go_error
  | Suffixf go_error string
  | ProviderError ErrorCode string string string "go_error option"
  | ApiError api_vendor int string string

fun sentinel_text :: "sentinel \<Rightarrow> string" where
  "sentinel_text ErrNotConnected = ''provider: not connected''"
| "sentinel_text ErrNotFound = ''provider: resource not found''"
| "sentinel_text ErrUnsupported = ''provider: operation not supported''"
| "sentinel_text ErrAuthFailed = ''provider: authentication failed''"
| "sentinel_text ErrTimeout = ''provider: operation timed out''"
| "sentinel_text ErrInvalidState = ''provider: invalid vm state for operation''"
| "sentinel_text ErrQuotaExceeded = ''provider: resource quota exceeded''"
| "sentinel_text ErrConflict = ''provider: resource already exists''"
| "sentinel_text CtxCanceled = ''context canceled''"
| "sentinel_text CtxDeadlineExceeded = ''context deadline exceeded''"
| "sentinel_text RedisNil = ''redis: nil''"
| "sentinel_text ErrTaskCancelled = ''task cancelled''"
| "sentinel_text ErrTaskPermanentFailure = ''task permanent failure''"

fun vendor_text :: "api_vendor \<Rightarrow> string" where
  "vendor_text NutanixAPI = ''nutanix''"
| "vendor_text ProxmoxAPI = ''proxmox''"

definition apiError_Error :: "api_vendor \<Rightarrow> int \<Rightarrow> string \<Rightarrow> string \<Rightarrow> string" where
  "apiError_Error v code path msg =
     vendor_text v @ '' API error '' @ Itoa code @ '' on '' @ path @ '': '' @ msg"

fun Error_text :: "go_error \<Rightarrow> string" where
  "Error_text (Sentinel s) = sentinel_text s"
| "Error_text (Errorf m) = m"
| "Error_text (Wrapf p e) = p @ '': '' @ Error_text e"
| "Error_text (Suffixf e m) = Error_text e @ '': '' @ m"
| "Error_text (ProviderError c p oper m (Some e)) =
     ''provider['' @ p @ ''] '' @ oper @ '': '' @ m @ '': '' @ Error_text e"
| "Error_text (ProviderError c p oper m None) = ''provider['' @ p @ ''] '' @ oper @ '': '' @ m"
| "Error_text (ApiError v code path m) = apiError_Error v code path m"

fun Unwrap :: "go_error \<Rightarrow> go_error option" where
  "Unwrap (Wrapf p e) = Some e"
| "Unwrap (Suffixf e m) = Some e"
| "Unwrap (ProviderError c p oper m cause) = cause"
| "Unwrap _ = None"

text \<open>\<^verbatim>\<open>errors.Is\<close> against a sentinel, and \<^verbatim>\<open>errors.As\<close> for a provider error: its code.\<close>

fun errors_Is :: "go_error \<Rightarrow> sentinel \<Rightarrow> bool" where
  "errors_Is (Sentinel s) t \<longleftrightarrow> s = t"
| "errors_Is (Errorf m) t \<longleftrightarrow> False"
| "errors_Is (Wrapf p e) t \<longleftrightarrow> errors_Is e t"
| "errors_Is (Suffixf e m) t \<longleftrightarrow> errors_Is e t"
| "errors_Is (ProviderError c p oper m (Some e)) t \<longleftrightarrow> errors_Is e t"
| "errors_Is (ProviderError c p oper m None) t \<longleftrightarrow> False"
| "errors_Is (ApiError v code path m) t \<longleftrightarrow> False"

fun errors_As_code :: "go_error \<Rightarrow> ErrorCode option" where
  "errors_As_code (Wrapf p e) = errors_As_code e"
| "errors_As_code (Suffixf e m) = errors_As_code e"
| "errors_As_code (ProviderError c p oper m cause) = Some c"
| "errors_As_code _ = None"

fun HTTPStatus :: "ErrorCode \<Rightarrow> int" where
  "HTTPStatus CodeNotFound = 404"
| "HTTPStatus CodeAuthFailed = 401"
| "HTTPStatus CodeUnsupported = 501"
| "HTTPStatus CodeConflict = 409"
| "HTTPStatus CodeInvalidState = 422"
| "HTTPStatus CodeQuotaExceeded = 402"
| "HTTPStatus CodeTimeout = 504"
| "HTTPStatus CodeNotConnected = 503"
| "HTTPStatus CodeInternal = 500"

definition New :: "string \<Rightarrow> string \<Rightarrow> ErrorCode \<Rightarrow> string \<Rightarrow> go_error" where
  "New providerName operation code msg = ProviderError code providerName operation msg None"

definition Wrap :: "string \<Rightarrow> string \<Rightarrow> ErrorCode \<Rightarrow> string \<Rightarrow> go_error \<Rightarrow> go_error" where
  "Wrap providerName operation code msg cause = ProviderError code providerName operation msg (Some cause)"

definition IsNotFound :: "go_error \<Rightarrow> bool" where "IsNotFound err \<longleftrightarrow> errors_Is err ErrNotFound"

definition IsUnsupported :: "go_error \<Rightarrow> bool" where "IsUnsupported err \<longleftrightarrow> errors_Is err ErrUnsupported"

definition IsAuthFailed :: "go_error \<Rightarrow> bool" where "IsAuthFailed err \<longleftrightarrow> errors_Is err ErrAuthFailed"

definition IsTimeout :: "go_error \<Rightarrow> bool" where "IsTimeout err \<longleftrightarrow> errors_Is err ErrTimeout"

definition IsInvalidState :: "go_error \<Rightarrow> bool" where "IsInvalidState err \<longleftrightarrow> errors_Is err ErrInvalidState"

definition HTTPStatusFor :: "go_error \<Rightarrow> int" where
  "HTTPStatusFor err =
     (case errors_As_code err of
        Some c \<Rightarrow> HTTPStatus c
      | None \<Rightarrow>
          (if errors_Is err ErrNotFound then 404
           else if errors_Is err ErrAuthFailed then 401
           else if errors_Is err ErrUnsupported then 501
           else if errors_Is err ErrTimeout then 504
           else if errors_Is err ErrNotConnected then 503
           else if errors_Is err ErrInvalidState then 422
           else if errors_Is err ErrConflict then 409
           else 500))"

text \<open>\<^verbatim>\<open>apiError.isNotFound\<close> and \<^verbatim>\<open>apiError.isAuthError\<close>, on the status code.\<close>

definition api_isNotFound :: "int \<Rightarrow> bool" where
  "api_isNotFound code \<longleftrightarrow> code = 404"

definition api_isAuthError :: "int \<Rightarrow> bool" where
  "api_isAuthError code \<longleftrightarrow> code = 401 \<or> code = 403"

text \<open>The code that names the same condition as a sentinel of the package.\<close>

fun sentinel_code :: "sentinel \<Rightarrow> ErrorCode option" where
  "sentinel_code ErrNotConnected = Some CodeNotConnected"
| "sentinel_code ErrNotFound = Some CodeNotFound"
| "sentinel_code ErrUnsupported = Some CodeUnsupported"
| "sentinel_code ErrAuthFailed = Some CodeAuthFailed"
| "sentinel_code ErrTimeout = Some CodeTimeout"
| "sentinel_code ErrInvalidState = Some CodeInvalidState"
| "sentinel_code ErrQuotaExceeded = Some CodeQuotaExceeded"
| "sentinel_code ErrConflict = Some CodeConflict"
| "sentinel_code _ = None"

text \<open>\<open>wrapped k e\<close>: the error \<open>e\<close> behind any number of message prefixes.\<close>

fun wrapped :: "string list \<Rightarrow> go_error \<Rightarrow> go_error" where
  "wrapped [] e = e"
| "wrapped (p # ps) e = Wrapf p (wrapped ps e)"

lemma errors_Is_wrapped [simp]: "errors_Is (wrapped ps e) t \<longleftrightarrow> errors_Is e t"
  by (induction ps) auto

lemma errors_As_wrapped [simp]: "errors_As_code (wrapped ps e) = errors_As_code e"
  by (induction ps) auto

lemma HTTPStatusFor_wrapped [simp]: "HTTPStatusFor (wrapped ps e) = HTTPStatusFor e"
  by (simp add: HTTPStatusFor_def)

lemma errors_Is_unwrap:
  "errors_Is e t \<longleftrightarrow> e = Sentinel t \<or> (\<exists>e'. Unwrap e = Some e' \<and> errors_Is e' t)"
  by (cases "(e, t)" rule: errors_Is.cases) auto

section \<open>Connection state and registry\<close>

record 'creds BaseProvider =
  bp_connected :: bool
  bp_credentials :: 'creds

definition IsConnected :: "'c BaseProvider \<Rightarrow> bool" where
  "IsConnected b = bp_connected b"

definition SetConnected :: "bool \<Rightarrow> 'c BaseProvider \<Rightarrow> 'c BaseProvider" where
  "SetConnected v b = b\<lparr>bp_connected := v\<rparr>"

definition Credentials :: "'c BaseProvider \<Rightarrow> 'c" where
  "Credentials b = bp_credentials b"

definition StoreCredentials :: "'c \<Rightarrow> 'c BaseProvider \<Rightarrow> 'c BaseProvider" where
  "StoreCredentials creds b = b\<lparr>bp_credentials := creds\<rparr>"

definition EnsureConnected :: "'c BaseProvider \<Rightarrow> go_error option" where
  "EnsureConnected b = (if \<not> IsConnected b then Some (Sentinel ErrNotConnected) else None)"

text \<open>The registry: provider type to provider. Registering a type twice panics (\<open>None\<close>).\<close>

type_synonym 'p Registry = "(string \<times> 'p) list"

definition NewRegistry :: "'p Registry" where
  "NewRegistry = []"

definition Register :: "('p \<Rightarrow> string) \<Rightarrow> 'p Registry \<Rightarrow> 'p \<Rightarrow> 'p Registry option" where
  "Register ptype r p =
     (case map_of r (ptype p) of Some _ \<Rightarrow> None | None \<Rightarrow> Some ((ptype p, p) # r))"

definition Get :: "'p Registry \<Rightarrow> string \<Rightarrow> go_error + 'p" where
  "Get r t =
     (case map_of r t of
        None \<Rightarrow> Inl (Errorf (''provider \"'' @ t @ ''\" not registered''))
      | Some p \<Rightarrow> Inr p)"

definition registry_List :: "'p Registry \<Rightarrow> string list" where
  "registry_List r = map fst r"

fun register_all :: "('p \<Rightarrow> string) \<Rightarrow> 'p Registry \<Rightarrow> 'p list \<Rightarrow> 'p Registry option" where
  "register_all ptype r [] = Some r"
| "register_all ptype r (p # ps) =
     (case Register ptype r p of None \<Rightarrow> None | Some r' \<Rightarrow> register_all ptype r' ps)"

definition registry_wf :: "('p \<Rightarrow> string) \<Rightarrow> 'p Registry \<Rightarrow> bool" where
  "registry_wf ptype r \<longleftrightarrow> distinct (map fst r) \<and> (\<forall>(t, p) \<in> set r. ptype p = t)"

lemma registry_wf_Register:
  "registry_wf ptype r \<Longrightarrow> Register ptype r p = Some r' \<Longrightarrow> registry_wf ptype r'"
  by (auto simp: registry_wf_def Register_def map_of_eq_None_iff split: option.splits)

lemma register_all_Some:
  "register_all ptype r ps = Some r' \<longleftrightarrow>
     distinct (map ptype ps) \<and> (\<forall>p \<in> set ps. map_of r (ptype p) = None) \<and>
     r' = rev (map (\<lambda>p. (ptype p, p)) ps) @ r"
proof (induction ps arbitrary: r)
  case (Cons p ps)
  show ?case
  proof (cases "map_of r (ptype p)")
    case None
    then have "(\<forall>q \<in> set ps. map_of ((ptype p, p) # r) (ptype q) = None) \<longleftrightarrow>
        ptype p \<notin> ptype ` set ps \<and> (\<forall>q \<in> set ps. map_of r (ptype q) = None)"
      by (auto simp: image_iff)
    with None Cons.IH [of "(ptype p, p) # r"] show ?thesis by (simp add: Register_def conj_ac)
  qed (simp add: Register_def)
qed auto

section \<open>The health tracker\<close>

record HealthStats =
  hs_HypervisorID :: string
  hs_TotalCalls :: int
  hs_SuccessCalls :: int
  hs_FailureCalls :: int
  hs_ConsecFailures :: int
  hs_LastFailureAt :: int
  hs_LastSuccessAt :: int
  hs_AvgLatencyMs :: rat
  hs_latencySum :: rat
  hs_latencyCount :: int

definition new_stats :: "string \<Rightarrow> HealthStats" where
  "new_stats h = \<lparr>hs_HypervisorID = h, hs_TotalCalls = 0, hs_SuccessCalls = 0, hs_FailureCalls = 0,
     hs_ConsecFailures = 0, hs_LastFailureAt = 0, hs_LastSuccessAt = 0, hs_AvgLatencyMs = 0,
     hs_latencySum = 0, hs_latencyCount = 0\<rparr>"

type_synonym ProviderHealthTracker = "string \<rightharpoonup> HealthStats"

definition NewProviderHealthTracker :: ProviderHealthTracker where
  "NewProviderHealthTracker = Map.empty"

definition SuccessRate :: "HealthStats \<Rightarrow> rat" where
  "SuccessRate h =
     (if hs_TotalCalls h = 0 then 100
      else rat_of_int (hs_SuccessCalls h) / rat_of_int (hs_TotalCalls h) * 100)"

definition getOrCreate :: "ProviderHealthTracker \<Rightarrow> string \<Rightarrow> HealthStats" where
  "getOrCreate t h = (case t h of Some s \<Rightarrow> s | None \<Rightarrow> new_stats h)"

definition RecordSuccess :: "ProviderHealthTracker \<Rightarrow> int \<Rightarrow> string \<Rightarrow> rat \<Rightarrow> ProviderHealthTracker" where
  "RecordSuccess t now h latencyMs =
     (let s = getOrCreate t h;
          s = s\<lparr>hs_TotalCalls := hs_TotalCalls s + 1, hs_SuccessCalls := hs_SuccessCalls s + 1,
                hs_ConsecFailures := 0, hs_LastSuccessAt := now,
                hs_latencySum := hs_latencySum s + latencyMs, hs_latencyCount := hs_latencyCount s + 1\<rparr>;
          s = (if hs_latencyCount s > 0
               then s\<lparr>hs_AvgLatencyMs := hs_latencySum s / rat_of_int (hs_latencyCount s)\<rparr> else s)
      in t(h \<mapsto> s))"

text \<open>The result also says whether the warning on consecutive failures is logged.\<close>

definition RecordFailure :: "ProviderHealthTracker \<Rightarrow> int \<Rightarrow> string \<Rightarrow> ProviderHealthTracker \<times> bool" where
  "RecordFailure t now h =
     (let s = getOrCreate t h;
          s = s\<lparr>hs_TotalCalls := hs_TotalCalls s + 1, hs_FailureCalls := hs_FailureCalls s + 1,
                hs_ConsecFailures := hs_ConsecFailures s + 1, hs_LastFailureAt := now\<rparr>
      in (t(h \<mapsto> s), hs_ConsecFailures s \<ge> 3))"

definition Stats :: "ProviderHealthTracker \<Rightarrow> string \<Rightarrow> HealthStats" where
  "Stats t h = (case t h of Some s \<Rightarrow> s | None \<Rightarrow> new_stats h)"

definition Reset :: "ProviderHealthTracker \<Rightarrow> string \<Rightarrow> ProviderHealthTracker" where
  "Reset t h = t(h := None)"

text \<open>\<open>fn\<close>'s error and the two clock readings around the call are arguments.\<close>

definition TrackCall ::
  "ProviderHealthTracker \<Rightarrow> string \<Rightarrow> int \<Rightarrow> int \<Rightarrow> go_error option \<Rightarrow> ProviderHealthTracker \<times> go_error option" where
  "TrackCall t h start now result =
     (let latencyMs = rat_of_int (go_div (now - start) 1000000) in
      case result of
        Some err \<Rightarrow> (fst (RecordFailure t now h), Some err)
      | None \<Rightarrow> (RecordSuccess t now h latencyMs, None))"

datatype health_op =
    HSuccess int string rat
  | HFailure int string
  | HReset string
  | HTrack string int int "go_error option"

fun health_step :: "ProviderHealthTracker \<Rightarrow> health_op \<Rightarrow> ProviderHealthTracker" where
  "health_step t (HSuccess now h ms) = RecordSuccess t now h ms"
| "health_step t (HFailure now h) = fst (RecordFailure t now h)"
| "health_step t (HReset h) = Reset t h"
| "health_step t (HTrack h start now r) = fst (TrackCall t h start now r)"

text \<open>The specification: what one operation contributes to the history of a hypervisor.\<close>

datatype call = CallOk rat | CallFailed

fun calls_of :: "string \<Rightarrow> call list \<Rightarrow> health_op \<Rightarrow> call list" where
  "calls_of h cs (HSuccess now g ms) = (if g = h then cs @ [CallOk ms] else cs)"
| "calls_of h cs (HFailure now g) = (if g = h then cs @ [CallFailed] else cs)"
| "calls_of h cs (HReset g) = (if g = h then [] else cs)"
| "calls_of h cs (HTrack g start now r) =
     (if g \<noteq> h then cs
      else cs @ [case r of None \<Rightarrow> CallOk (rat_of_int (go_div (now - start) 1000000)) | Some _ \<Rightarrow> CallFailed])"

definition history :: "string \<Rightarrow> health_op list \<Rightarrow> call list" where
  "history h ops = run (calls_of h) [] ops"

definition latencies :: "call list \<Rightarrow> rat list" where
  "latencies cs = concat (map (\<lambda>c. case c of CallOk ms \<Rightarrow> [ms] | CallFailed \<Rightarrow> []) cs)"

definition trailing_failures :: "call list \<Rightarrow> nat" where
  "trailing_failures cs = length (takeWhile (\<lambda>c. c = CallFailed) (rev cs))"

definition health_counts :: "call list \<Rightarrow> HealthStats \<Rightarrow> bool" where
  "health_counts cs s \<longleftrightarrow>
     hs_TotalCalls s = int (length cs) \<and>
     hs_SuccessCalls s = int (length (latencies cs)) \<and>
     hs_FailureCalls s = int (count_list cs CallFailed) \<and>
     hs_ConsecFailures s = int (trailing_failures cs) \<and>
     hs_latencyCount s = int (length (latencies cs)) \<and>
     hs_latencySum s = sum_list (latencies cs) \<and>
     hs_AvgLatencyMs s =
       (if latencies cs = [] then 0 else sum_list (latencies cs) / of_nat (length (latencies cs)))"

lemma latencies_snoc [simp]:
  "latencies [] = []"
  "latencies (cs @ [CallOk ms]) = latencies cs @ [ms]"
  "latencies (cs @ [CallFailed]) = latencies cs"
  by (simp_all add: latencies_def)

lemma trailing_snoc [simp]:
  "trailing_failures [] = 0"
  "trailing_failures (cs @ [CallOk ms]) = 0"
  "trailing_failures (cs @ [CallFailed]) = Suc (trailing_failures cs)"
  by (simp_all add: trailing_failures_def)

lemma Stats_getOrCreate: "Stats t h = getOrCreate t h"
  by (simp add: Stats_def getOrCreate_def)

lemma health_counts_success:
  assumes "health_counts cs (getOrCreate t h)"
  shows "health_counts (cs @ [CallOk ms]) (getOrCreate (RecordSuccess t now h ms) h)"
  using assms
  by (simp add: health_counts_def RecordSuccess_def getOrCreate_def [of "t(h \<mapsto> x)" for x] Let_def add.commute)

lemma health_counts_failure:
  assumes "health_counts cs (getOrCreate t h)"
  shows "health_counts (cs @ [CallFailed]) (getOrCreate (fst (RecordFailure t now h)) h)"
  using assms
  by (simp add: health_counts_def RecordFailure_def getOrCreate_def [of "t(h \<mapsto> x)" for x] Let_def)

lemma getOrCreate_other:
  "g \<noteq> h \<Longrightarrow> getOrCreate (RecordSuccess t now g ms) h = getOrCreate t h"
  "g \<noteq> h \<Longrightarrow> getOrCreate (fst (RecordFailure t now g)) h = getOrCreate t h"
  "g \<noteq> h \<Longrightarrow> getOrCreate (Reset t g) h = getOrCreate t h"
  by (simp_all add: getOrCreate_def RecordSuccess_def RecordFailure_def Reset_def Let_def)

lemma health_counts_new: "health_counts [] (new_stats h)"
  by (simp add: health_counts_def new_stats_def)

lemma health_counts_step:
  assumes "health_counts cs (getOrCreate t h)"
  shows "health_counts (calls_of h cs x) (getOrCreate (health_step t x) h)"
proof (cases x)
  case (HReset g)
  with assms show ?thesis
    by (cases "g = h") (simp_all add: getOrCreate_other, simp add: getOrCreate_def Reset_def health_counts_new)
next
  case (HTrack g start now r)
  with assms show ?thesis
    by (cases r) (auto simp: TrackCall_def Let_def getOrCreate_other health_counts_success health_counts_failure)
qed (use assms in \<open>auto simp: getOrCreate_other health_counts_success health_counts_failure\<close>)

text \<open>The tracker, kept beside the histories it summarises, is a component of the program.\<close>

definition tracked_step ::
  "ProviderHealthTracker \<times> (string \<Rightarrow> call list) \<Rightarrow> health_op \<Rightarrow> ProviderHealthTracker \<times> (string \<Rightarrow> call list)" where
  "tracked_step s x = (health_step (fst s) x, \<lambda>h. calls_of h (snd s h) x)"

definition tracked :: "ProviderHealthTracker \<times> (string \<Rightarrow> call list) \<Rightarrow> bool" where
  "tracked s \<longleftrightarrow> (\<forall>h. health_counts (snd s h) (getOrCreate (fst s) h))"

interpretation health: component "(NewProviderHealthTracker, \<lambda>_. [])" tracked_step tracked
  by unfold_locales
    (auto simp: tracked_def tracked_step_def NewProviderHealthTracker_def getOrCreate_def [of Map.empty]
      health_counts_new health_counts_step)

lemma run_tracked_step:
  "run tracked_step (t, H) ops = (run health_step t ops, \<lambda>h. run (calls_of h) (H h) ops)"
  by (induction ops arbitrary: t H) (simp_all add: tracked_step_def)

section \<open>Properties\<close>

text \<open>
  The status code of an error is that of the outermost provider error in its chain; an error that
  wraps a sentinel of the package has the status code of the provider error with the corresponding
  code, whatever message prefixes are added, except for the quota sentinel, which falls through to 500
  although its code stands for 402.
\<close>

theorem HTTPStatusFor_sentinels:
  assumes "sentinel_code s = Some c"
  shows "HTTPStatusFor (wrapped ps (Wrap p oper c msg (wrapped qs (Sentinel t)))) = HTTPStatus c \<and>
    HTTPStatusFor (wrapped ps (Sentinel s)) = (if s = ErrQuotaExceeded then 500 else HTTPStatus c)"
  using assms by (cases s) (auto simp: HTTPStatusFor_def Wrap_def)

theorem HTTPStatusFor_sentinels_witness:
  "HTTPStatusFor (Wrapf ''sync'' (Sentinel ErrConflict)) = 409 \<and>
   HTTPStatusFor (Wrapf ''create'' (Sentinel ErrQuotaExceeded)) = 500 \<and> HTTPStatus CodeQuotaExceeded = 402"
  using HTTPStatusFor_sentinels [of ErrConflict CodeConflict "[''sync'']"]
    HTTPStatusFor_sentinels [of ErrQuotaExceeded CodeQuotaExceeded "[''create'']"] by simp


text \<open>
  Wiring a list of providers into a fresh registry panics exactly when two of them have the same
  type; otherwise every lookup by type returns the provider registered under it.
\<close>

theorem register_all_lookup:
  "register_all ptype NewRegistry ps =
     (if distinct (map ptype ps) then Some (rev (map (\<lambda>p. (ptype p, p)) ps)) else None) \<and>
   (\<forall>r p. register_all ptype NewRegistry ps = Some r \<and> p \<in> set ps \<longrightarrow> Get r (ptype p) = Inr p)"
proof (intro conjI allI impI)
  show "register_all ptype NewRegistry ps =
     (if distinct (map ptype ps) then Some (rev (map (\<lambda>p. (ptype p, p)) ps)) else None)"
    using register_all_Some [of ptype NewRegistry ps]
    by (cases "register_all ptype NewRegistry ps") (auto simp: NewRegistry_def)
  fix r p assume "register_all ptype NewRegistry ps = Some r \<and> p \<in> set ps"
  then have r: "r = rev (map (\<lambda>p. (ptype p, p)) ps)" and d: "distinct (map ptype ps)" and p: "p \<in> set ps"
    by (auto simp: register_all_Some NewRegistry_def)
  have "distinct (map fst r)" using d by (simp add: r rev_map [symmetric] comp_def)
  moreover have "(ptype p, p) \<in> set r" using p by (simp add: r)
  ultimately show "Get r (ptype p) = Inr p" by (simp add: Get_def)
qed

theorem register_all_lookup_witness:
  "\<exists>r. register_all fst NewRegistry [(''vmware'', 1), (''proxmox'', 2 :: int)] = Some r \<and>
       Get r ''proxmox'' = Inr (''proxmox'', 2)"
proof -
  let ?ps = "[(''vmware'', 1), (''proxmox'', 2 :: int)]"
  have d: "distinct (map fst ?ps)" by simp
  have "register_all fst NewRegistry ?ps = Some (rev (map (\<lambda>p. (fst p, p)) ?ps))"
    using conjunct1 [OF register_all_lookup [of fst ?ps]] d by simp
  then show ?thesis using conjunct2 [OF register_all_lookup [of fst ?ps]] by force
qed

end
