(* ===== verification/Retry.thy ===== *)
theory Retry
  imports ProviderCore
begin

text \<open>
  Retrying with exponential backoff: \<^verbatim>\<open>BackoffStrategy\<close> of \<^verbatim>\<open>internal/task/retry.go\<close> and
  the \<^verbatim>\<open>retry.go\<close> of the VMware, Nutanix and Proxmox providers. The three packages carry the
  same loop \<^verbatim>\<open>withRetry\<close> and the same \<^verbatim>\<open>backoffDelay\<close> word for word; they differ in the
  error classes they retry, which the locale \<open>retry_classes\<close> abstracts.

  The operation under retry works on a state of any type. \<open>ctxErr\<close> is \<^verbatim>\<open>ctx.Err()\<close> in a state
  and \<open>sleep\<close> the \<^verbatim>\<open>select\<close> between \<^verbatim>\<open>ctx.Done()\<close> and \<^verbatim>\<open>time.After(delay)\<close>: it returns an
  error when the context ends first.
\<close>

section \<open>Backoff of the task engine\<close>

text \<open>
  Durations are nanoseconds. The \<^verbatim>\<open>float64\<close> product is computed exactly: for the strategies of
  \<^verbatim>\<open>DefaultBackoff\<close> every product up to the cap of ten minutes is an integer below \<open>2\<^sup>5\<^sup>3\<close>, which
  \<^verbatim>\<open>float64\<close> represents exactly, and a larger one takes the branch of the cap.
\<close>

record BackoffStrategy =
  bs_Base :: int
  bs_Multiplier :: rat
  bs_MaxDelay :: int

definition DefaultBackoff :: "int \<Rightarrow> BackoffStrategy" where
  "DefaultBackoff base = \<lparr>bs_Base = base, bs_Multiplier = 5, bs_MaxDelay = 600000000000\<rparr>"

definition trunc :: "rat \<Rightarrow> int" where
  "trunc r = (if 0 \<le> r then \<lfloor>r\<rfloor> else \<lceil>r\<rceil>)"

definition Delay :: "BackoffStrategy \<Rightarrow> int \<Rightarrow> int" where
  "Delay b attempt =
     (if attempt \<le> 0 then 0
      else (let d = rat_of_int (bs_Base b) * bs_Multiplier b ^ nat (attempt - 1) in
            if d > rat_of_int (bs_MaxDelay b) then bs_MaxDelay b else trunc d))"

lemma Delay_Default:
  "0 < attempt \<Longrightarrow> 0 \<le> base \<Longrightarrow>
   Delay (DefaultBackoff base) attempt = min 600000000000 (base * 5 ^ nat (attempt - 1))"
proof -
  assume "0 < attempt" "0 \<le> base"
  have e: "rat_of_int base * 5 ^ nat (attempt - 1) = rat_of_int (base * 5 ^ nat (attempt - 1))" by simp
  have "0 \<le> base * 5 ^ nat (attempt - 1)" using \<open>0 \<le> base\<close> by simp
  then have "trunc (rat_of_int (base * 5 ^ nat (attempt - 1))) = base * 5 ^ nat (attempt - 1)"
    unfolding trunc_def by (simp only: of_int_0_le_iff floor_of_int if_True)
  moreover have "rat_of_int 600000000000 < rat_of_int (base * 5 ^ nat (attempt - 1)) \<longleftrightarrow>
      600000000000 < base * 5 ^ nat (attempt - 1)" by (simp only: of_int_less_iff)
  ultimately show ?thesis using \<open>0 < attempt\<close>
    by (simp only: Delay_def DefaultBackoff_def Let_def e BackoffStrategy.simps min_def) auto
qed

section \<open>The retry loop of the providers\<close>

record retryConfig =
  rc_maxAttempts :: int
  rc_baseDelay :: int
  rc_maxDelay :: int
  rc_shouldRetry :: "(go_error \<Rightarrow> bool) option"

text \<open>
  \<^verbatim>\<open>time.Duration(float64(base) * math.Pow(2, attempt-1))\<close>, capped. Scaling by a power of two is
  exact. A product outside the range of \<^verbatim>\<open>int64\<close> is converted as the processor does it, which Go
  leaves open: \<open>oor\<close> is that value (the smallest \<^verbatim>\<open>int64\<close> on amd64). The loop passes
  \<open>attempt \<ge> 1\<close>.
\<close>

definition backoffDelay :: "int \<Rightarrow> int \<Rightarrow> int \<Rightarrow> int \<Rightarrow> int" where
  "backoffDelay oor base mx attempt =
     (let p = base * 2 ^ nat (attempt - 1);
          d = (if int64 p then p else oor)
      in if d > mx then mx else d)"

definition retry_defaults :: "retryConfig \<Rightarrow> retryConfig" where
  "retry_defaults cfg =
     cfg\<lparr>rc_maxAttempts := (if rc_maxAttempts cfg \<le> 0 then 1 else rc_maxAttempts cfg),
         rc_baseDelay := (if rc_baseDelay cfg = 0 then 1000000000 else rc_baseDelay cfg),
         rc_maxDelay := (if rc_maxDelay cfg = 0 then 30000000000 else rc_maxDelay cfg)\<rparr>"

definition may_retry :: "retryConfig \<Rightarrow> go_error \<Rightarrow> bool" where
  "may_retry cfg e \<longleftrightarrow> (case rc_shouldRetry cfg of None \<Rightarrow> True | Some f \<Rightarrow> f e)"

function retry_loop ::
  "int \<Rightarrow> ('s \<Rightarrow> go_error option) \<Rightarrow> (int \<Rightarrow> 's \<Rightarrow> 's \<times> go_error option) \<Rightarrow> retryConfig \<Rightarrow>
   (int \<Rightarrow> 's \<Rightarrow> 's \<times> go_error option) \<Rightarrow> int \<Rightarrow> go_error option \<Rightarrow> 's \<Rightarrow> 's \<times> go_error option" where
  "retry_loop oor ctxErr sleep cfg fn attempt lastErr s =
     (if attempt \<le> rc_maxAttempts cfg then
        (case fn attempt s of
           (s1, None) \<Rightarrow> (s1, None)
         | (s1, Some e) \<Rightarrow>
             (case ctxErr s1 of
                Some ce \<Rightarrow> (s1, Some ce)
              | None \<Rightarrow>
                  (if attempt = rc_maxAttempts cfg then (s1, Some e)
                   else if \<not> may_retry cfg e then (s1, Some e)
                   else (case sleep (backoffDelay oor (rc_baseDelay cfg) (rc_maxDelay cfg) attempt) s1 of
                           (s2, Some ce) \<Rightarrow> (s2, Some ce)
                         | (s2, None) \<Rightarrow> retry_loop oor ctxErr sleep cfg fn (attempt + 1) (Some e) s2))))
      else (s, lastErr))"
  by pat_completeness auto
termination
  by (relation "measure (\<lambda>(_, _, _, cfg, _, attempt, _, _). nat (rc_maxAttempts cfg + 1 - attempt))") auto

declare retry_loop.simps [simp del]

definition withRetry ::
  "int \<Rightarrow> ('s \<Rightarrow> go_error option) \<Rightarrow> (int \<Rightarrow> 's \<Rightarrow> 's \<times> go_error option) \<Rightarrow> retryConfig \<Rightarrow>
   (int \<Rightarrow> 's \<Rightarrow> 's \<times> go_error option) \<Rightarrow> 's \<Rightarrow> 's \<times> go_error option" where
  "withRetry oor ctxErr sleep cfg fn s = retry_loop oor ctxErr sleep (retry_defaults cfg) fn 1 None s"

section \<open>Error classes of the three providers\<close>

definition mentions :: "go_error \<Rightarrow> string list \<Rightarrow> bool" where
  "mentions err kws \<longleftrightarrow> (let msg = ToLower (Error_text err) in list_ex (\<lambda>kw. Contains msg kw) kws)"

definition vmware_isAuthError :: "go_error option \<Rightarrow> bool" where
  "vmware_isAuthError err \<longleftrightarrow>
     (case err of None \<Rightarrow> False
      | Some e \<Rightarrow> mentions e [''invalid login'', ''authentication'', ''permission denied'', ''not authenticated'',
                            ''cannot complete login'', ''incorrect user''])"

definition vmware_isRetryableConnectError :: "go_error option \<Rightarrow> bool" where
  "vmware_isRetryableConnectError err \<longleftrightarrow>
     (case err of None \<Rightarrow> False
      | Some e \<Rightarrow> \<not> vmware_isAuthError err \<and>
          mentions e [''connection refused'', ''connection reset'', ''timeout'', ''temporary failure'',
                      ''no such host'', ''eof'', ''broken pipe'', ''i/o timeout'', ''network is unreachable''])"

definition vmware_isRetryableOperationError :: "go_error option \<Rightarrow> bool" where
  "vmware_isRetryableOperationError err \<longleftrightarrow>
     (case err of None \<Rightarrow> False
      | Some e \<Rightarrow> mentions e [''resource in use'', ''task in progress'', ''concurrent access'', ''locked'', ''busy'', ''timeout''])"

definition isNutanixAuthError :: "go_error option \<Rightarrow> bool" where
  "isNutanixAuthError err \<longleftrightarrow>
     (case err of None \<Rightarrow> False
      | Some (ApiError NutanixAPI code path msg) \<Rightarrow> api_isAuthError code
      | Some e \<Rightarrow> mentions e [''401'', ''403'', ''unauthorized'', ''forbidden'', ''permission denied'', ''authentication''])"

definition nutanix_isRetryableConnectError :: "go_error option \<Rightarrow> bool" where
  "nutanix_isRetryableConnectError err \<longleftrightarrow>
     (case err of None \<Rightarrow> False
      | Some e \<Rightarrow> \<not> isNutanixAuthError err \<and>
          mentions e [''connection refused'', ''connection reset'', ''timeout'', ''temporary failure'',
                      ''no such host'', ''eof'', ''broken pipe'', ''i/o timeout'', ''network is unreachable'',
                      ''tls handshake''])"

definition nutanix_isRetryableOperationError :: "go_error option \<Rightarrow> bool" where
  "nutanix_isRetryableOperationError err \<longleftrightarrow>
     (case err of None \<Rightarrow> False
      | Some e \<Rightarrow> mentions e [''resource in use'', ''task in progress'', ''locked'', ''busy'', ''timeout'',
                            ''eof'', ''connection reset'', ''kRetry'', ''kInternalError''])"

definition isProxmoxAuthError :: "go_error option \<Rightarrow> bool" where
  "isProxmoxAuthError err \<longleftrightarrow>
     (case err of None \<Rightarrow> False
      | Some (ApiError ProxmoxAPI code path msg) \<Rightarrow> api_isAuthError code
      | Some e \<Rightarrow> mentions e [''401'', ''403'', ''unauthorized'', ''forbidden'', ''permission denied'', ''authentication''])"

definition proxmox_isRetryableConnectError :: "go_error option \<Rightarrow> bool" where
  "proxmox_isRetryableConnectError err \<longleftrightarrow>
     (case err of None \<Rightarrow> False
      | Some e \<Rightarrow> \<not> isProxmoxAuthError err \<and>
          mentions e [''connection refused'', ''connection reset'', ''timeout'', ''temporary failure'',
                      ''no such host'', ''eof'', ''broken pipe'', ''i/o timeout'', ''network is unreachable'',
                      ''tls handshake''])"

definition proxmox_isRetryableOperationError :: "go_error option \<Rightarrow> bool" where
  "proxmox_isRetryableOperationError err \<longleftrightarrow>
     (case err of None \<Rightarrow> False
      | Some e \<Rightarrow> mentions e [''resource in use'', ''task in progress'', ''locked'', ''busy'', ''timeout'',
                            ''eof'', ''connection reset''])"

definition withOperationRetry ::
  "(go_error option \<Rightarrow> bool) \<Rightarrow> int \<Rightarrow> ('s \<Rightarrow> go_error option) \<Rightarrow> (int \<Rightarrow> 's \<Rightarrow> 's \<times> go_error option) \<Rightarrow>
   (int \<Rightarrow> 's \<Rightarrow> 's \<times> go_error option) \<Rightarrow> 's \<Rightarrow> 's \<times> go_error option" where
  "withOperationRetry isRetryable oor ctxErr sleep fn =
     withRetry oor ctxErr sleep \<lparr>rc_maxAttempts = 3, rc_baseDelay = 1000000000, rc_maxDelay = 10000000000,
       rc_shouldRetry = Some (\<lambda>e. isRetryable (Some e))\<rparr> fn"

text \<open>Each package's instance of the shared loop and wrapper.\<close>

definition vmware_withOperationRetry ::
  "int \<Rightarrow> ('s \<Rightarrow> go_error option) \<Rightarrow> (int \<Rightarrow> 's \<Rightarrow> 's \<times> go_error option) \<Rightarrow>
   (int \<Rightarrow> 's \<Rightarrow> 's \<times> go_error option) \<Rightarrow> 's \<Rightarrow> 's \<times> go_error option" where
  "vmware_withOperationRetry = withOperationRetry vmware_isRetryableOperationError"

definition nutanix_withRetry ::
  "int \<Rightarrow> ('s \<Rightarrow> go_error option) \<Rightarrow> (int \<Rightarrow> 's \<Rightarrow> 's \<times> go_error option) \<Rightarrow> retryConfig \<Rightarrow>
   (int \<Rightarrow> 's \<Rightarrow> 's \<times> go_error option) \<Rightarrow> 's \<Rightarrow> 's \<times> go_error option" where
  "nutanix_withRetry = withRetry"

definition nutanix_backoffDelay :: "int \<Rightarrow> int \<Rightarrow> int \<Rightarrow> int \<Rightarrow> int" where
  "nutanix_backoffDelay = backoffDelay"

definition nutanix_withOperationRetry ::
  "int \<Rightarrow> ('s \<Rightarrow> go_error option) \<Rightarrow> (int \<Rightarrow> 's \<Rightarrow> 's \<times> go_error option) \<Rightarrow>
   (int \<Rightarrow> 's \<Rightarrow> 's \<times> go_error option) \<Rightarrow> 's \<Rightarrow> 's \<times> go_error option" where
  "nutanix_withOperationRetry = withOperationRetry nutanix_isRetryableOperationError"

definition proxmox_withRetry ::
  "int \<Rightarrow> ('s \<Rightarrow> go_error option) \<Rightarrow> (int \<Rightarrow> 's \<Rightarrow> 's \<times> go_error option) \<Rightarrow> retryConfig \<Rightarrow>
   (int \<Rightarrow> 's \<Rightarrow> 's \<times> go_error option) \<Rightarrow> 's \<Rightarrow> 's \<times> go_error option" where
  "proxmox_withRetry = withRetry"

definition proxmox_backoffDelay :: "int \<Rightarrow> int \<Rightarrow> int \<Rightarrow> int \<Rightarrow> int" where
  "proxmox_backoffDelay = backoffDelay"

definition proxmox_withOperationRetry ::
  "int \<Rightarrow> ('s \<Rightarrow> go_error option) \<Rightarrow> (int \<Rightarrow> 's \<Rightarrow> 's \<times> go_error option) \<Rightarrow>
   (int \<Rightarrow> 's \<Rightarrow> 's \<times> go_error option) \<Rightarrow> 's \<Rightarrow> 's \<times> go_error option" where
  "proxmox_withOperationRetry = withOperationRetry proxmox_isRetryableOperationError"

section \<open>What the loop does\<close>

text \<open>
  \<open>retried n\<close>: the state before attempt \<open>n + 1\<close>, when the first \<open>n\<close> attempts failed with errors that
  may be retried, the context was alive after each and every wait completed.
\<close>

fun retried ::
  "int \<Rightarrow> ('s \<Rightarrow> go_error option) \<Rightarrow> (int \<Rightarrow> 's \<Rightarrow> 's \<times> go_error option) \<Rightarrow> retryConfig \<Rightarrow>
   (int \<Rightarrow> 's \<Rightarrow> 's \<times> go_error option) \<Rightarrow> nat \<Rightarrow> 's \<Rightarrow> 's option" where
  "retried oor ctxErr sleep cfg fn 0 s = Some s"
| "retried oor ctxErr sleep cfg fn (Suc n) s =
     (case retried oor ctxErr sleep cfg fn n s of
        None \<Rightarrow> None
      | Some s0 \<Rightarrow>
          (case fn (int n + 1) s0 of
             (s1, None) \<Rightarrow> None
           | (s1, Some e) \<Rightarrow>
               (if ctxErr s1 \<noteq> None \<or> \<not> may_retry cfg e then None
                else (case sleep (backoffDelay oor (rc_baseDelay cfg) (rc_maxDelay cfg) (int n + 1)) s1 of
                        (s2, None) \<Rightarrow> Some s2
                      | (s2, Some _) \<Rightarrow> None))))"

text \<open>How the loop ends after attempt \<open>n\<close> in state \<open>s0\<close>.\<close>

definition retry_ends ::
  "int \<Rightarrow> ('s \<Rightarrow> go_error option) \<Rightarrow> (int \<Rightarrow> 's \<Rightarrow> 's \<times> go_error option) \<Rightarrow> retryConfig \<Rightarrow>
   (int \<Rightarrow> 's \<Rightarrow> 's \<times> go_error option) \<Rightarrow> int \<Rightarrow> 's \<Rightarrow> 's \<times> go_error option \<Rightarrow> bool" where
  "retry_ends oor ctxErr sleep cfg fn n s0 r \<longleftrightarrow>
     (case fn n s0 of
        (s1, None) \<Rightarrow> r = (s1, None)
      | (s1, Some e) \<Rightarrow>
          (case ctxErr s1 of
             Some ce \<Rightarrow> r = (s1, Some ce)
           | None \<Rightarrow>
               if n = rc_maxAttempts cfg \<or> \<not> may_retry cfg e then r = (s1, Some e)
               else (\<exists>s2 ce. sleep (backoffDelay oor (rc_baseDelay cfg) (rc_maxDelay cfg) n) s1 = (s2, Some ce)
                       \<and> r = (s2, Some ce))))"

lemma retry_loop_ends:
  assumes "retried oor ctxErr sleep cfg fn n s = Some s0" "int n + 1 \<le> rc_maxAttempts cfg"
  shows "\<exists>m sm. n \<le> m \<and> int m < rc_maxAttempts cfg \<and> retried oor ctxErr sleep cfg fn m s = Some sm \<and>
    retry_ends oor ctxErr sleep cfg fn (int m + 1) sm
      (retry_loop oor ctxErr sleep cfg fn (int n + 1) lastErr s0)"
  using assms
proof (induction "nat (rc_maxAttempts cfg - int n)" arbitrary: n s0 lastErr)
  case 0
  then show ?case by simp
next
  case (Suc k)
  let ?R = "retry_loop oor ctxErr sleep cfg fn (int n + 1) lastErr s0"
  show ?case
  proof (cases "retried oor ctxErr sleep cfg fn (Suc n) s")
    case None
    then have "retry_ends oor ctxErr sleep cfg fn (int n + 1) s0 ?R"
      using Suc.prems by (subst retry_loop.simps) (auto simp: retry_ends_def split: prod.splits option.splits if_splits)
    then show ?thesis using Suc.prems by (intro exI [of _ n] exI [of _ s0]) auto
  next
    case (Some s2)
    show ?thesis
    proof (cases "int n + 1 = rc_maxAttempts cfg")
      case True
      then have "retry_ends oor ctxErr sleep cfg fn (int n + 1) s0 ?R"
        using Suc.prems by (subst retry_loop.simps) (auto simp: retry_ends_def split: prod.splits option.splits if_splits)
      then show ?thesis using Suc.prems by (intro exI [of _ n] exI [of _ s0]) auto
    next
      case False
      have next_attempt: "int (Suc n) + 1 = int n + 1 + 1" by simp
      from False obtain e where "?R = retry_loop oor ctxErr sleep cfg fn (int (Suc n) + 1) (Some e) s2"
        unfolding next_attempt
        using Some Suc.prems retry_loop.simps [of oor ctxErr sleep cfg fn "int n + 1" lastErr s0]
        by (auto split: prod.splits option.splits if_splits)
      moreover have "k = nat (rc_maxAttempts cfg - int (Suc n))" "int (Suc n) + 1 \<le> rc_maxAttempts cfg"
        using False Suc.hyps(2) Suc.prems(2) by auto
      ultimately show ?thesis using Suc.hyps(1) [of "Suc n" s2 "Some e"] Some by (metis Suc_leD)
    qed
  qed
qed

lemma retry_defaults_attempts: "1 \<le> rc_maxAttempts (retry_defaults cfg)"
  by (simp add: retry_defaults_def)

text \<open>
  What the loop relies on in the error classes of a provider: an authentication failure is never a
  retryable connection error.
\<close>

locale retry_classes =
  fixes isAuth isConn :: "go_error option \<Rightarrow> bool"
  assumes auth_not_retryable: "isAuth err \<Longrightarrow> \<not> isConn err"
begin

lemma auth_failure_stops:
  assumes "rc_shouldRetry cfg = Some (\<lambda>e. isConn (Some e))"
    and "fn 1 s = (s1, Some e)" "ctxErr s1 = None" "isAuth (Some e)"
  shows "withRetry oor ctxErr sleep cfg fn s = (s1, Some e)"
proof -
  have "rc_shouldRetry (retry_defaults cfg) = rc_shouldRetry cfg" by (simp add: retry_defaults_def)
  then have "\<not> may_retry (retry_defaults cfg) e"
    using assms auth_not_retryable by (simp add: may_retry_def)
  with assms retry_defaults_attempts [of cfg] show ?thesis
    unfolding withRetry_def by (subst retry_loop.simps) simp
qed

end

interpretation vmware: retry_classes vmware_isAuthError vmware_isRetryableConnectError
  by unfold_locales (auto simp: vmware_isRetryableConnectError_def split: option.splits)

interpretation nutanix: retry_classes isNutanixAuthError nutanix_isRetryableConnectError
  by unfold_locales (auto simp: nutanix_isRetryableConnectError_def split: option.splits)

interpretation proxmox: retry_classes isProxmoxAuthError proxmox_isRetryableConnectError
  by unfold_locales (auto simp: proxmox_isRetryableConnectError_def split: option.splits)

text \<open>A recording environment: the attempts made and the delays slept, an operation that always fails.\<close>

definition failing :: "go_error \<Rightarrow> int \<Rightarrow> int list \<times> int list \<Rightarrow> (int list \<times> int list) \<times> go_error option" where
  "failing e attempt s = ((fst s @ [attempt], snd s), Some e)"

definition recording_sleep :: "int \<Rightarrow> int list \<times> int list \<Rightarrow> (int list \<times> int list) \<times> go_error option" where
  "recording_sleep d s = ((fst s, snd s @ [d]), None)"

definition delay_at :: "int \<Rightarrow> retryConfig \<Rightarrow> nat \<Rightarrow> int" where
  "delay_at oor cfg i = backoffDelay oor (rc_baseDelay cfg) (rc_maxDelay cfg) (int i + 1)"

lemma retried_failing:
  assumes "may_retry cfg e"
  shows "retried oor (\<lambda>_. None) recording_sleep cfg (failing e) n ([], []) =
    Some (map (\<lambda>i. int i + 1) [0..<n], map (delay_at oor cfg) [0..<n])"
  using assms by (induction n) (simp_all add: failing_def recording_sleep_def delay_at_def)

lemma retry_ends_failing:
  "retry_ends oor (\<lambda>_. None) recording_sleep cfg (failing e) n s0 r \<longleftrightarrow>
     (n = rc_maxAttempts cfg \<or> \<not> may_retry cfg e) \<and> r = ((fst s0 @ [n], snd s0), Some e)"
  by (auto simp: retry_ends_def failing_def recording_sleep_def)

lemma Contains_upper:
  assumes "c \<in> set kw" "65 \<le> (of_char c :: nat)" "(of_char c :: nat) \<le> 90"
  shows "\<not> Contains (ToLower s) kw"
  using assms Contains_set [of "ToLower s" kw] ToLower_no_upper [of c s] by blast

section \<open>Properties\<close>

text \<open>
  C19. The retry loop always ends after between one and \<^verbatim>\<open>maxAttempts\<close> attempts, numbered from
  one: all but the last failed with errors that may be retried, in a live context and followed by a
  completed wait; the last one succeeded, or its error is returned because it is not retryable or the
  attempts are used up, or the context ended and its error is returned.
\<close>

theorem withRetry_outcome:
  "\<exists>m s0. int m < rc_maxAttempts (retry_defaults cfg) \<and>
     retried oor ctxErr sleep (retry_defaults cfg) fn m s = Some s0 \<and>
     retry_ends oor ctxErr sleep (retry_defaults cfg) fn (int m + 1) s0 (withRetry oor ctxErr sleep cfg fn s)"
  using retry_loop_ends [of oor ctxErr sleep "retry_defaults cfg" fn 0 s s None] retry_defaults_attempts [of cfg]
  by (auto simp: withRetry_def)

text \<open>
  An operation that keeps failing with a retryable error in a live context is attempted exactly
  \<^verbatim>\<open>maxAttempts\<close> times, in order, with the backoff delays between the attempts and none after
  the last; its error is returned.
\<close>

theorem withRetry_exhausts:
  assumes "may_retry cfg e"
  shows "let N = nat (rc_maxAttempts (retry_defaults cfg)) in
    withRetry oor (\<lambda>_. None) recording_sleep cfg (failing e) ([], []) =
    ((map (\<lambda>i. int i + 1) [0..<N], map (delay_at oor (retry_defaults cfg)) [0..<N - 1]), Some e)"
proof -
  let ?c = "retry_defaults cfg"
  have may: "may_retry ?c e" using assms by (simp add: may_retry_def retry_defaults_def)
  obtain m s0 where m: "int m < rc_maxAttempts ?c"
    "retried oor (\<lambda>_. None) recording_sleep ?c (failing e) m ([], []) = Some s0"
    "retry_ends oor (\<lambda>_. None) recording_sleep ?c (failing e) (int m + 1) s0
       (withRetry oor (\<lambda>_. None) recording_sleep cfg (failing e) ([], []))"
    using retry_loop_ends [of oor "\<lambda>_. None" recording_sleep ?c "failing e" 0 "([], [])" "([], [])" None]
      retry_defaults_attempts [of cfg] by (auto simp: withRetry_def)
  then have "rc_maxAttempts ?c = int (Suc m)" using may by (simp add: retry_ends_failing)
  then have "nat (rc_maxAttempts ?c) = Suc m" by simp
  with m may show ?thesis by (auto simp: retry_ends_failing retried_failing)
qed

theorem withRetry_exhausts_witness:
  "withOperationRetry proxmox_isRetryableOperationError 0 (\<lambda>_. None) recording_sleep
     (failing (Errorf ''VM is locked'')) ([], []) =
   (([1, 2, 3], [1000000000, 2000000000]), Some (Errorf ''VM is locked''))"
proof -
  let ?cfg = "\<lparr>rc_maxAttempts = 3, rc_baseDelay = 1000000000, rc_maxDelay = 10000000000,
    rc_shouldRetry = Some (\<lambda>e. proxmox_isRetryableOperationError (Some e))\<rparr>"
  have "may_retry ?cfg (Errorf ''VM is locked'')" by code_simp
  from withRetry_exhausts [OF this, of 0] show ?thesis
    by (simp add: withOperationRetry_def retry_defaults_def upt_rec delay_at_def backoffDelay_def
        maxInt_def minInt_def)
qed

text \<open>
  In all three providers a connection attempt that fails with an authentication error in a live
  context is not repeated: the operation runs once and its error is returned.
\<close>

theorem auth_failures_not_retried:
  assumes "(isAuth, isConn) \<in> {(vmware_isAuthError, vmware_isRetryableConnectError),
      (isNutanixAuthError, nutanix_isRetryableConnectError), (isProxmoxAuthError, proxmox_isRetryableConnectError)}"
    and "rc_shouldRetry cfg = Some (\<lambda>e. isConn (Some e))"
    and "fn 1 s = (s1, Some e)" "ctxErr s1 = None" "isAuth (Some e)"
  shows "withRetry oor ctxErr sleep cfg fn s = (s1, Some e)"
  using assms vmware.auth_failure_stops [of cfg fn s s1 e ctxErr oor sleep]
    nutanix.auth_failure_stops [of cfg fn s s1 e ctxErr oor sleep]
    proxmox.auth_failure_stops [of cfg fn s s1 e ctxErr oor sleep] by auto

theorem auth_failures_not_retried_witness:
  "withRetry 0 (\<lambda>_. None) recording_sleep \<lparr>rc_maxAttempts = 3, rc_baseDelay = 2000000000, rc_maxDelay = 10000000000,
     rc_shouldRetry = Some (\<lambda>e. nutanix_isRetryableConnectError (Some e))\<rparr>
     (failing (ApiError NutanixAPI 401 ''/clusters/list'' ''timeout'')) ([], []) =
   (([1], []), Some (ApiError NutanixAPI 401 ''/clusters/list'' ''timeout''))"
  by (rule auth_failures_not_retried [of isNutanixAuthError nutanix_isRetryableConnectError])
    (simp_all add: failing_def isNutanixAuthError_def api_isAuthError_def)

text \<open>
  The keywords \<^verbatim>\<open>kRetry\<close> and \<^verbatim>\<open>kInternalError\<close> of the Nutanix provider never match,
  because the message is lower-cased first: the class of retried errors is the one of the Proxmox
  provider, and an error that only carries one of these Nutanix reasons is not retried.
\<close>

theorem nutanix_reason_keywords_dead:
  "nutanix_isRetryableOperationError = proxmox_isRetryableOperationError \<and>
   \<not> nutanix_isRetryableOperationError (Some (ApiError NutanixAPI 500 ''/vms'' ''kInternalError: kRetry''))"
proof
  have dead: "\<not> Contains (ToLower s) ''kRetry''" "\<not> Contains (ToLower s) ''kInternalError''" for s
    by (rule Contains_upper [of "CHR ''R''"], simp_all) (rule Contains_upper [of "CHR ''I''"], simp_all)
  show "nutanix_isRetryableOperationError = proxmox_isRetryableOperationError"
    by (intro ext) (simp add: nutanix_isRetryableOperationError_def proxmox_isRetryableOperationError_def
        mentions_def Let_def dead split: option.split)
  show "\<not> nutanix_isRetryableOperationError (Some (ApiError NutanixAPI 500 ''/vms'' ''kInternalError: kRetry''))"
    by code_simp
qed

text \<open>
  The delays of the task engine's default strategy for a non-negative base never exceed ten
  minutes, never decrease from one attempt to the next, and start at the base (capped).
\<close>

theorem DefaultBackoff_monotone_capped:
  assumes "0 \<le> base" "i \<le> j"
  shows "Delay (DefaultBackoff base) i \<le> Delay (DefaultBackoff base) j \<and>
    0 \<le> Delay (DefaultBackoff base) i \<and> Delay (DefaultBackoff base) j \<le> 600000000000 \<and>
    Delay (DefaultBackoff base) 1 = min 600000000000 base"
proof -
  have nonneg: "0 \<le> Delay (DefaultBackoff base) k" "Delay (DefaultBackoff base) k \<le> 600000000000" for k
    using assms(1) by (cases "0 < k"; simp add: Delay_Default; simp add: Delay_def)+
  have "Delay (DefaultBackoff base) i \<le> Delay (DefaultBackoff base) j"
  proof (cases "0 < i")
    case True
    have "base * 5 ^ nat (i - 1) \<le> base * 5 ^ nat (j - 1)"
      using assms by (intro mult_left_mono power_increasing) auto
    with True assms show ?thesis by (simp add: Delay_Default min.coboundedI2)
  next
    case False
    then show ?thesis using nonneg [of j] by (simp add: Delay_def)
  qed
  with nonneg show ?thesis using assms(1) by (simp add: Delay_Default)
qed

theorem DefaultBackoff_monotone_capped_witness:
  "Delay (DefaultBackoff 5000000000) 3 \<le> Delay (DefaultBackoff 5000000000) 4 \<and>
   Delay (DefaultBackoff 5000000000) 4 = 600000000000 \<and> Delay (DefaultBackoff 5000000000) 3 = 125000000000"
  using DefaultBackoff_monotone_capped [of 5000000000 3 4] by (simp add: Delay_Default)

end
