(* ===== verification/TaskQueue.thy ===== *)
theory TaskQueue
  imports Retry "HOL-Library.AList"
begin

text \<open>
  The task queue of \<^verbatim>\<open>internal/task/queue.go\<close>. The Redis client is not part of the program: it
  is the parameter \<open>redis\<close>, a record of the commands the queue issues on a server state of any type,
  and locale \<open>redis_server\<close> states the documented effect of these commands while the server is
  reachable. A value of a Redis list is a string or the JSON text of a log entry, represented by the
  entry itself. Locale \<open>priority_queue\<close> is the contract the task engine relies on; the queue
  implements it on every Redis server.
\<close>

section \<open>Redis\<close>

record logEntry =
  le_Timestamp :: int
  le_Level :: string
  le_Message :: string
  le_Fields :: jmap

datatype redis_value = RStr string | RLog logEntry

text \<open>The text of a hash field: a string, a decimal number or an RFC 3339 time, represented by its value.\<close>

datatype hash_value = HStr string | HInt int | HTime int

record 'r redis =
  r_LPush :: "string \<Rightarrow> redis_value \<Rightarrow> 'r \<Rightarrow> 'r \<times> go_error option"
  r_RPush :: "string \<Rightarrow> redis_value \<Rightarrow> 'r \<Rightarrow> 'r \<times> go_error option"
  r_LTrim :: "string \<Rightarrow> int \<Rightarrow> int \<Rightarrow> 'r \<Rightarrow> 'r \<times> go_error option"
  r_LRange :: "string \<Rightarrow> int \<Rightarrow> int \<Rightarrow> 'r \<Rightarrow> 'r \<times> (go_error + redis_value list)"
  r_LLen :: "string \<Rightarrow> 'r \<Rightarrow> 'r \<times> (go_error + int)"
  r_BRPop :: "string list \<Rightarrow> 'r \<Rightarrow> 'r \<times> (go_error + string list)"
  r_SetNX :: "string \<Rightarrow> string \<Rightarrow> int \<Rightarrow> 'r \<Rightarrow> 'r \<times> (go_error + bool)"
  r_Set :: "string \<Rightarrow> string \<Rightarrow> int \<Rightarrow> 'r \<Rightarrow> 'r \<times> go_error option"
  r_Del :: "string \<Rightarrow> 'r \<Rightarrow> 'r \<times> go_error option"
  r_Expire :: "string \<Rightarrow> int \<Rightarrow> 'r \<Rightarrow> 'r \<times> go_error option"
  r_Exists :: "string \<Rightarrow> 'r \<Rightarrow> 'r \<times> (go_error + int)"
  r_HSet :: "string \<Rightarrow> (string \<times> hash_value) list \<Rightarrow> 'r \<Rightarrow> 'r \<times> go_error option"
  r_HGetAll :: "string \<Rightarrow> 'r \<Rightarrow> 'r \<times> (go_error + (string \<times> hash_value) list)"

section \<open>The queue\<close>

definition keyQueue :: "int \<Rightarrow> string" where "keyQueue p = ''task:queue:'' @ Itoa p"
definition keyLock :: "string \<Rightarrow> string" where "keyLock i = ''task:lock:'' @ i"
definition keyCancel :: "string \<Rightarrow> string" where "keyCancel i = ''task:cancel:'' @ i"
definition keyState :: "string \<Rightarrow> string" where "keyState i = ''task:state:'' @ i"
definition keyLogs :: "string \<Rightarrow> string" where "keyLogs i = ''task:logs:'' @ i"

definition priorityQueues :: "string list" where
  "priorityQueues = map (\<lambda>i. keyQueue (i + 1)) [0..9]"

definition clamp_priority :: "int \<Rightarrow> int" where
  "clamp_priority priority =
     (let priority = (if priority < 1 then 1 else priority) in if priority > 10 then 10 else priority)"

definition q_Enqueue :: "'r redis \<Rightarrow> string \<Rightarrow> int \<Rightarrow> 'r \<Rightarrow> 'r \<times> go_error option" where
  "q_Enqueue R taskID priority = r_LPush R (keyQueue (clamp_priority priority)) (RStr taskID)"

text \<open>\<^verbatim>\<open>EnqueueDelayed\<close> arms a timer; \<open>fire_timer\<close> is what the timer's function does when it is due.\<close>

type_synonym timer = "int \<times> string \<times> int"

definition EnqueueDelayed :: "int \<Rightarrow> string \<Rightarrow> int \<Rightarrow> int \<Rightarrow> timer list \<Rightarrow> timer list" where
  "EnqueueDelayed now taskID priority delay timers = timers @ [(now + delay, taskID, priority)]"

definition fire_timer :: "'r redis \<Rightarrow> timer \<Rightarrow> 'r \<Rightarrow> 'r" where
  "fire_timer R tm s = (case tm of (due, taskID, priority) \<Rightarrow> fst (q_Enqueue R taskID priority s))"

definition Dequeue :: "'r redis \<Rightarrow> 'r \<Rightarrow> 'r \<times> (go_error + string)" where
  "Dequeue R s =
     (case r_BRPop R priorityQueues s of
        (s', Inl err) \<Rightarrow>
          (if err = Sentinel CtxCanceled \<or> err = Sentinel CtxDeadlineExceeded \<or> err = Sentinel RedisNil
           then (s', Inr '''') else (s', Inl (Wrapf ''queue dequeue'' err)))
      | (s', Inr result) \<Rightarrow> if length result < 2 then (s', Inr '''') else (s', Inr (result ! 1)))"

definition AcquireLock :: "'r redis \<Rightarrow> string \<Rightarrow> int \<Rightarrow> 'r \<Rightarrow> 'r \<times> (go_error + bool)" where
  "AcquireLock R taskID ttl = r_SetNX R (keyLock taskID) ''1'' ttl"

definition ReleaseLock :: "'r redis \<Rightarrow> string \<Rightarrow> 'r \<Rightarrow> 'r \<times> go_error option" where
  "ReleaseLock R taskID = r_Del R (keyLock taskID)"

definition RefreshLock :: "'r redis \<Rightarrow> string \<Rightarrow> int \<Rightarrow> 'r \<Rightarrow> 'r \<times> go_error option" where
  "RefreshLock R taskID ttl = r_Expire R (keyLock taskID) ttl"

definition SignalCancel :: "'r redis \<Rightarrow> string \<Rightarrow> int \<Rightarrow> 'r \<Rightarrow> 'r \<times> go_error option" where
  "SignalCancel R taskID ttl = r_Set R (keyCancel taskID) ''1'' ttl"

definition q_IsCancelled :: "'r redis \<Rightarrow> string \<Rightarrow> 'r \<Rightarrow> 'r \<times> bool" where
  "q_IsCancelled R taskID s =
     (case r_Exists R (keyCancel taskID) s of (s', Inl _) \<Rightarrow> (s', False) | (s', Inr n) \<Rightarrow> (s', n > 0))"

definition ClearCancel :: "'r redis \<Rightarrow> string \<Rightarrow> 'r \<Rightarrow> 'r \<times> go_error option" where
  "ClearCancel R taskID = r_Del R (keyCancel taskID)"

text \<open>A pipeline runs all its commands and returns the first error.\<close>

definition pipe2 ::
  "('r \<Rightarrow> 'r \<times> go_error option) \<Rightarrow> ('r \<Rightarrow> 'r \<times> go_error option) \<Rightarrow> 'r \<Rightarrow> 'r \<times> go_error option" where
  "pipe2 f g s = (case f s of (s1, e1) \<Rightarrow> case g s1 of (s2, e2) \<Rightarrow> (s2, case e1 of Some e \<Rightarrow> Some e | None \<Rightarrow> e2))"

definition SetState :: "'r redis \<Rightarrow> string \<Rightarrow> (string \<times> hash_value) list \<Rightarrow> int \<Rightarrow> 'r \<Rightarrow> 'r \<times> go_error option" where
  "SetState R taskID flds ttl =
     pipe2 (r_HSet R (keyState taskID) flds) (r_Expire R (keyState taskID) ttl)"

definition GetState :: "'r redis \<Rightarrow> string \<Rightarrow> 'r \<Rightarrow> 'r \<times> (go_error + (string \<times> hash_value) list)" where
  "GetState R taskID = r_HGetAll R (keyState taskID)"

definition AppendLog ::
  "'r redis \<Rightarrow> int \<Rightarrow> int \<Rightarrow> string \<Rightarrow> string \<Rightarrow> string \<Rightarrow> jmap \<Rightarrow> 'r \<Rightarrow> 'r \<times> go_error option" where
  "AppendLog R maxLogLines now taskID level message flds =
     (let entry = \<lparr>le_Timestamp = now, le_Level = level, le_Message = message, le_Fields = flds\<rparr>;
          key = keyLogs taskID
      in pipe2 (r_RPush R key (RLog entry)) (r_LTrim R key (- maxLogLines) (- 1)))"

fun decode_entries :: "redis_value list \<Rightarrow> logEntry list" where
  "decode_entries [] = []"
| "decode_entries (RLog e # vs) = e # decode_entries vs"
| "decode_entries (RStr s # vs) = decode_entries vs"

definition GetLogs :: "'r redis \<Rightarrow> string \<Rightarrow> 'r \<Rightarrow> 'r \<times> (go_error + logEntry list)" where
  "GetLogs R taskID s =
     (case r_LRange R (keyLogs taskID) 0 (- 1) s of
        (s', Inl err) \<Rightarrow> (s', Inl err)
      | (s', Inr raw) \<Rightarrow> (s', Inr (decode_entries raw)))"

definition ClearLogs :: "'r redis \<Rightarrow> string \<Rightarrow> 'r \<Rightarrow> 'r \<times> go_error option" where
  "ClearLogs R taskID = r_Del R (keyLogs taskID)"

section \<open>The contract of a priority queue\<close>

text \<open>
  \<open>content s p\<close>: the tasks waiting at priority \<open>p\<close>, oldest first. \<open>ready\<close>: the queue can be used.
\<close>

definition first_priority :: "(int \<Rightarrow> 'a list) \<Rightarrow> int option" where
  "first_priority c = find (\<lambda>p. c p \<noteq> []) [1..10]"

fun enq_all :: "(string \<Rightarrow> int \<Rightarrow> 's \<Rightarrow> 's \<times> go_error option) \<Rightarrow> (string \<times> int) list \<Rightarrow> 's \<Rightarrow> 's" where
  "enq_all enq [] s = s"
| "enq_all enq ((i, p) # xs) s = enq_all enq xs (fst (enq i p s))"

fun deq_n :: "('s \<Rightarrow> 's \<times> (go_error + string)) \<Rightarrow> nat \<Rightarrow> 's \<Rightarrow> string list" where
  "deq_n deq 0 s = []"
| "deq_n deq (Suc n) s = (case deq s of (s', Inr i) \<Rightarrow> i # deq_n deq n s' | (s', Inl e) \<Rightarrow> [])"

definition in_order :: "(int \<Rightarrow> 'a list) \<Rightarrow> 'a list" where
  "in_order c = concat (map c [1..10])"

lemma concat_find:
  assumes "find (\<lambda>p. c p \<noteq> []) ks = Some p" "distinct ks"
    "\<forall>q \<in> set ks. c' q = (if q = p then tl (c q) else c q)"
  shows "concat (map c ks) = hd (c p) # concat (map c' ks)"
  using assms
proof (induction ks)
  case (Cons k ks)
  show ?case
  proof (cases "c k = []")
    case True
    with Cons show ?thesis by (auto simp: find_Some_iff)
  next
    case False
    with Cons.prems have "k = p" by simp
    moreover from this Cons.prems have "map c ks = map c' ks" by auto
    moreover have "c p = hd (c p) # tl (c p)" using False \<open>k = p\<close> by simp
    ultimately show ?thesis using Cons.prems(3) by (metis append_Cons concat.simps(2) list.set_intros(1) list.simps(9))
  qed
qed simp

lemma in_order_step:
  assumes "first_priority c = Some p" "\<forall>q \<in> {1..10}. c' q = (if q = p then tl (c q) else c q)"
  shows "in_order c = hd (c p) # in_order c'"
  using concat_find [of c "[1..10]" p c'] assms by (simp add: first_priority_def in_order_def)

lemma in_order_empty: "first_priority c = None \<Longrightarrow> in_order c = []"
  by (auto simp: first_priority_def in_order_def find_None_iff)

lemma sorted_concat_filter:
  assumes "sorted ks" "distinct ks"
  shows "sorted (map f (concat (map (\<lambda>k. filter (\<lambda>x. f x = k) xs) ks)))"
  using assms
proof (induction ks)
  case (Cons k ks)
  have "map f (filter (\<lambda>x. f x = k) xs) = replicate (length (filter (\<lambda>x. f x = k) xs)) k"
    by (induction xs) auto
  moreover from Cons.prems have "\<forall>j \<in> set ks. k \<le> j" by simp
  ultimately show ?case using Cons by (auto simp: sorted_append)
qed simp

lemma count_concat_filter:
  assumes "distinct ks" "\<forall>x \<in> set xs. f x \<in> set ks"
  shows "mset (concat (map (\<lambda>k. filter (\<lambda>x. f x = k) xs) ks)) = mset xs"
  using assms
proof (induction xs)
  case (Cons x xs)
  have "mset (concat (map (\<lambda>k. filter (\<lambda>y. f y = k) (x # xs)) ks)) =
      add_mset x (mset (concat (map (\<lambda>k. filter (\<lambda>y. f y = k) xs) ks)))"
    if "distinct ks" "f x \<in> set ks" for ks
    using that
  proof (induction ks)
    case (Cons k ks)
    show ?case
    proof (cases "f x = k")
      case True
      with Cons.prems have same: "map (\<lambda>k. filter (\<lambda>y. f y = k) (x # xs)) ks = map (\<lambda>k. filter (\<lambda>y. f y = k) xs) ks"
        by auto
      have "mset (filter (\<lambda>y. f y = k) (x # xs)) = add_mset x (mset (filter (\<lambda>y. f y = k) xs))"
        using True by simp
      then show ?thesis by (simp only: list.map concat.simps mset_append same) simp
    qed (use Cons in simp)
  qed simp
  with Cons show ?case by simp
qed simp

lemma filter_concat_filter:
  assumes "distinct ks" "k \<in> set ks"
  shows "filter (\<lambda>x. f x = k) (concat (map (\<lambda>k. filter (\<lambda>x. f x = k) xs) ks)) = filter (\<lambda>x. f x = k) xs"
proof -
  have none: "filter (\<lambda>x. f x = k) (concat (map (\<lambda>k. filter (\<lambda>x. f x = k) xs) ks)) = []" if "k \<notin> set ks" for ks
    using that by (auto simp: filter_empty_conv)
  show ?thesis using assms
  proof (induction ks)
    case (Cons j ks)
    then show ?case using none [of ks] by (cases "j = k") (auto simp: filter_empty_conv)
  qed simp
qed

lemma sort_key_by_class:
  assumes "\<forall>x \<in> set xs. f x \<in> set ks" "sorted ks" "distinct ks"
  shows "sort_key f xs = concat (map (\<lambda>k. filter (\<lambda>x. f x = k) xs) ks)"
proof (rule properties_for_sort_key)
  show "mset (concat (map (\<lambda>k. filter (\<lambda>x. f x = k) xs) ks)) = mset xs"
    using assms by (intro count_concat_filter)
  show "sorted (map f (concat (map (\<lambda>k. filter (\<lambda>x. f x = k) xs) ks)))"
    using assms by (intro sorted_concat_filter)
  fix y assume "y \<in> set (concat (map (\<lambda>k. filter (\<lambda>x. f x = k) xs) ks))"
  then have "f y \<in> set ks" by auto
  then show "filter (\<lambda>x. f y = f x) (concat (map (\<lambda>k. filter (\<lambda>x. f x = k) xs) ks)) = filter (\<lambda>x. f y = f x) xs"
    using filter_concat_filter [OF assms(3), of "f y" f xs] by (simp add: eq_commute)
qed

lemma clamp_priority_range [simp]: "1 \<le> clamp_priority p" "clamp_priority p \<le> 10"
  by (simp_all add: clamp_priority_def Let_def)

locale priority_queue =
  fixes enq :: "string \<Rightarrow> int \<Rightarrow> 's \<Rightarrow> 's \<times> go_error option"
    and deq :: "'s \<Rightarrow> 's \<times> (go_error + string)"
    and content :: "'s \<Rightarrow> int \<Rightarrow> string list"
    and ready :: "'s \<Rightarrow> bool"
  assumes enq_ready: "ready s \<Longrightarrow> \<exists>s'. enq i p s = (s', None) \<and> ready s' \<and>
      (\<forall>q \<in> {1..10}. content s' q = (if q = clamp_priority p then content s q @ [i] else content s q))"
    and deq_ready: "ready s \<Longrightarrow> first_priority (content s) = Some p \<Longrightarrow>
      \<exists>s'. deq s = (s', Inr (hd (content s p))) \<and> ready s' \<and>
      (\<forall>q \<in> {1..10}. content s' q = (if q = p then tl (content s q) else content s q))"
begin

lemma deq_n_in_order:
  assumes "ready s" "length (in_order (content s)) = n"
  shows "deq_n deq n s = in_order (content s)"
  using assms
proof (induction n arbitrary: s)
  case (Suc n)
  obtain p where p: "first_priority (content s) = Some p"
  proof (cases "first_priority (content s)")
    case None
    then have "in_order (content s) = []" by (rule in_order_empty)
    with Suc.prems(2) show ?thesis by simp
  qed
  obtain s' where s': "deq s = (s', Inr (hd (content s p)))" "ready s'"
    "\<forall>q \<in> {1..10}. content s' q = (if q = p then tl (content s q) else content s q)"
    using deq_ready [OF Suc.prems(1) p] by blast
  have "in_order (content s) = hd (content s p) # in_order (content s')"
    using in_order_step [OF p s'(3)] .
  with Suc s' show ?case by simp
qed simp

lemma enq_all_content:
  assumes "ready s"
  shows "ready (enq_all enq xs s) \<and> (\<forall>q \<in> {1..10}. content (enq_all enq xs s) q =
    content s q @ map fst (filter (\<lambda>x. clamp_priority (snd x) = q) xs))"
  using assms
proof (induction xs arbitrary: s)
  case (Cons x xs)
  obtain i p where x: "x = (i, p)" by (cases x)
  obtain s' where s': "enq i p s = (s', None)" "ready s'"
    "\<forall>q \<in> {1..10}. content s' q = (if q = clamp_priority p then content s q @ [i] else content s q)"
    using enq_ready [OF Cons.prems] by blast
  with Cons.IH [OF s'(2)] x show ?case by auto
qed simp

lemma drain_is_stable_sort:
  assumes "ready s" "\<forall>q \<in> {1..10}. content s q = []"
  shows "deq_n deq (length xs) (enq_all enq xs s) = map fst (sort_key (\<lambda>x. clamp_priority (snd x)) xs)"
proof -
  let ?s = "enq_all enq xs s"
  have r: "ready ?s" and c: "\<forall>q \<in> {1..10}. content ?s q = map fst (filter (\<lambda>x. clamp_priority (snd x) = q) xs)"
    using enq_all_content [OF assms(1), of xs] assms(2) by auto
  have "sort_key (\<lambda>x. clamp_priority (snd x)) xs = concat (map (\<lambda>q. filter (\<lambda>x. clamp_priority (snd x) = q) xs) [1..10])"
    by (rule sort_key_by_class) auto
  then have "in_order (content ?s) = map fst (sort_key (\<lambda>x. clamp_priority (snd x)) xs)"
    using c unfolding in_order_def by (auto simp: map_concat comp_def intro!: arg_cong [where f = concat])
  moreover from this have "length (in_order (content ?s)) = length xs" by simp
  ultimately show ?thesis using deq_n_in_order [OF r] by metis
qed

end


section \<open>What the queue relies on in Redis\<close>

text \<open>
  The documented effect of the commands, on the values of the lists, strings and hashes. \<open>up s\<close>: the
  server is reachable and every key of the queue holds a value of the type the queue uses it for.
\<close>

definition list_key :: "string \<Rightarrow> bool" where
  "list_key k \<longleftrightarrow> HasPrefix k ''task:queue:'' \<or> HasPrefix k ''task:logs:''"

definition string_key :: "string \<Rightarrow> bool" where
  "string_key k \<longleftrightarrow> HasPrefix k ''task:lock:'' \<or> HasPrefix k ''task:cancel:''"

definition ltrim_last :: "nat \<Rightarrow> 'a list \<Rightarrow> 'a list" where
  "ltrim_last n xs = drop (length xs - n) xs"

locale redis_server =
  fixes R :: "'r redis"
    and up :: "'r \<Rightarrow> bool"
    and lists :: "'r \<Rightarrow> string \<Rightarrow> redis_value list"
    and strs :: "'r \<Rightarrow> string \<Rightarrow> string option"
  assumes LPush: "up s \<Longrightarrow> list_key k \<Longrightarrow> \<exists>s'. r_LPush R k v s = (s', None) \<and> up s' \<and>
      lists s' = (lists s)(k := v # lists s k) \<and> strs s' = strs s"
    and RPush: "up s \<Longrightarrow> list_key k \<Longrightarrow> \<exists>s'. r_RPush R k v s = (s', None) \<and> up s' \<and>
      lists s' = (lists s)(k := lists s k @ [v]) \<and> strs s' = strs s"
    and LTrim: "up s \<Longrightarrow> list_key k \<Longrightarrow> 0 < n \<Longrightarrow> \<exists>s'. r_LTrim R k (- int n) (- 1) s = (s', None) \<and> up s' \<and>
      lists s' = (lists s)(k := ltrim_last n (lists s k)) \<and> strs s' = strs s"
    and LRange: "up s \<Longrightarrow> list_key k \<Longrightarrow> r_LRange R k 0 (- 1) s = (s, Inr (lists s k))"
    and LLen: "up s \<Longrightarrow> list_key k \<Longrightarrow> r_LLen R k s = (s, Inr (int (length (lists s k))))"
    and BRPop: "up s \<Longrightarrow> \<forall>k \<in> set ks. list_key k \<Longrightarrow> find (\<lambda>k. lists s k \<noteq> []) ks = Some k \<Longrightarrow>
      last (lists s k) = RStr w \<Longrightarrow> \<exists>s'. r_BRPop R ks s = (s', Inr [k, w]) \<and> up s' \<and>
      lists s' = (lists s)(k := butlast (lists s k)) \<and> strs s' = strs s"
    and SetNX: "up s \<Longrightarrow> string_key k \<Longrightarrow> 0 < ttl \<Longrightarrow> \<exists>s'. r_SetNX R k w ttl s = (s', Inr (strs s k = None)) \<and> up s' \<and>
      strs s' = (if strs s k = None then (strs s)(k \<mapsto> w) else strs s) \<and> lists s' = lists s"
    and Set: "up s \<Longrightarrow> string_key k \<Longrightarrow> \<exists>s'. r_Set R k w ttl s = (s', None) \<and> up s' \<and>
      strs s' = (strs s)(k \<mapsto> w) \<and> lists s' = lists s"
    and Del: "up s \<Longrightarrow> list_key k \<or> string_key k \<Longrightarrow> \<exists>s'. r_Del R k s = (s', None) \<and> up s' \<and>
      strs s' = (strs s)(k := None) \<and> lists s' = (lists s)(k := [])"
    and Exists: "up s \<Longrightarrow> string_key k \<Longrightarrow> r_Exists R k s = (s, Inr (if strs s k = None then 0 else 1))"
    and HSet: "up s \<Longrightarrow> \<exists>s'. r_HSet R (keyState i) f s = (s', None) \<and> up s' \<and> strs s' = strs s \<and> lists s' = lists s"
    and Expire: "up s \<Longrightarrow> 0 < ttl \<Longrightarrow> \<exists>s'. r_Expire R k ttl s = (s', None) \<and> up s' \<and> strs s' = strs s \<and> lists s' = lists s"

lemma HasPrefix_append [simp]: "HasPrefix (p @ s) p"
  by (simp add: HasPrefix_def)

lemma keys [simp]:
  "list_key (keyQueue p)" "list_key (keyLogs i)" "string_key (keyLock i)" "string_key (keyCancel i)"
  by (simp_all add: list_key_def string_key_def keyQueue_def keyLogs_def keyLock_def keyCancel_def
      HasPrefix_def)

lemma Itoa_inj: "int64 p \<Longrightarrow> int64 q \<Longrightarrow> Itoa p = Itoa q \<Longrightarrow> p = q"
  using Atoi_Itoa by (metis option.inject)

lemma keyQueue_inj: "int64 p \<Longrightarrow> int64 q \<Longrightarrow> keyQueue p = keyQueue q \<longleftrightarrow> p = q"
  unfolding keyQueue_def using Itoa_inj by auto

lemma keys_distinct [simp]:
  "keyLock i = keyCancel j \<longleftrightarrow> False" "keyCancel i = keyLock j \<longleftrightarrow> False"
  "keyLock i = keyLock j \<longleftrightarrow> i = j" "keyCancel i = keyCancel j \<longleftrightarrow> i = j"
  "keyQueue p = keyLock i \<longleftrightarrow> False" "keyQueue p = keyCancel i \<longleftrightarrow> False" "keyQueue p = keyLogs i \<longleftrightarrow> False"
  "keyLogs i = keyLogs j \<longleftrightarrow> i = j"
  by (auto simp: keyQueue_def keyLogs_def keyLock_def keyCancel_def)

lemma rev_butlast: "rev (butlast xs) = tl (rev xs)"
  by (metis butlast_rev rev_rev_ident)

lemma find_map: "find P (map f xs) = map_option f (find (\<lambda>x. P (f x)) xs)"
  by (induction xs) auto

text \<open>Queue lists hold task identifiers only.\<close>

definition queue_lists :: "(string \<Rightarrow> redis_value list) \<Rightarrow> bool" where
  "queue_lists L \<longleftrightarrow> (\<forall>p \<in> {1..10}. \<forall>v \<in> set (L (keyQueue p)). \<exists>i. v = RStr i)"

fun rstr :: "redis_value \<Rightarrow> string" where
  "rstr (RStr s) = s"
| "rstr (RLog e) = ''''"

text \<open>The tasks waiting at a priority, oldest first: the list is filled at the left.\<close>

definition waiting :: "(string \<Rightarrow> redis_value list) \<Rightarrow> int \<Rightarrow> string list" where
  "waiting L p = rev (map rstr (L (keyQueue p)))"

lemma priorityQueues_eq: "priorityQueues = map keyQueue [1..10]"
  by (simp add: priorityQueues_def upto_rec1)

lemma keyQueue_eq [simp]: "p \<in> {1..10} \<Longrightarrow> q \<in> {1..10} \<Longrightarrow> keyQueue p = keyQueue q \<longleftrightarrow> p = q"
  by (rule keyQueue_inj) (auto simp: minInt_def maxInt_def)

context redis_server
begin

lemma Enqueue_ready:
  assumes "up s" "queue_lists (lists s)"
  shows "\<exists>s'. q_Enqueue R i p s = (s', None) \<and> (up s' \<and> queue_lists (lists s')) \<and>
    (\<forall>q \<in> {1..10}. waiting (lists s') q =
      (if q = clamp_priority p then waiting (lists s) q @ [i] else waiting (lists s) q))"
proof -
  let ?k = "keyQueue (clamp_priority p)"
  obtain s' where s': "q_Enqueue R i p s = (s', None)" "up s'" "lists s' = (lists s)(?k := RStr i # lists s ?k)"
    using LPush [OF assms(1), of ?k "RStr i"] by (auto simp: q_Enqueue_def)
  have "queue_lists (lists s')" using assms(2) by (auto simp: queue_lists_def s'(3))
  with s' show ?thesis by (auto simp: waiting_def)
qed

lemma Dequeue_ready:
  assumes "up s" "queue_lists (lists s)" "first_priority (waiting (lists s)) = Some p"
  shows "\<exists>s'. Dequeue R s = (s', Inr (hd (waiting (lists s) p))) \<and> (up s' \<and> queue_lists (lists s')) \<and>
    (\<forall>q \<in> {1..10}. waiting (lists s') q = (if q = p then tl (waiting (lists s) q) else waiting (lists s) q))"
proof -
  let ?L = "lists s (keyQueue p)"
  have p: "p \<in> {1..10}" "?L \<noteq> []"
    using assms(3) by (auto simp: first_priority_def find_Some_iff waiting_def dest: nth_mem)
  have f: "find (\<lambda>k. lists s k \<noteq> []) priorityQueues = Some (keyQueue p)"
    using assms(3) by (simp add: priorityQueues_eq find_map first_priority_def waiting_def)
  obtain v where v: "last ?L = RStr v"
    using assms(2) p last_in_set by (fastforce simp: queue_lists_def)
  have hd: "hd (waiting (lists s) p) = v" using p v by (simp add: waiting_def hd_rev last_map)
  obtain s' where s': "r_BRPop R priorityQueues s = (s', Inr [keyQueue p, v])" "up s'"
    "lists s' = (lists s)(keyQueue p := butlast ?L)"
    using BRPop [OF assms(1) _ f v] by (auto simp: priorityQueues_eq)
  have "queue_lists (lists s')" using assms(2) by (auto simp: queue_lists_def s'(3) dest: in_set_butlastD)
  moreover have "\<forall>q \<in> {1..10}. waiting (lists s') q = (if q = p then tl (waiting (lists s) q) else waiting (lists s) q)"
    using p by (simp add: waiting_def s'(3) map_butlast rev_butlast)
  ultimately show ?thesis using s' hd by (simp add: Dequeue_def)
qed

lemma AppendLog_ready:
  assumes "up s" "0 < n"
  shows "\<exists>s'. AppendLog R (int n) now i lvl msg flds s = (s', None) \<and> up s' \<and> strs s' = strs s \<and>
    lists s' = (lists s)(keyLogs i := ltrim_last n (lists s (keyLogs i) @
      [RLog \<lparr>le_Timestamp = now, le_Level = lvl, le_Message = msg, le_Fields = flds\<rparr>]))"
proof -
  let ?v = "RLog \<lparr>le_Timestamp = now, le_Level = lvl, le_Message = msg, le_Fields = flds\<rparr>"
  obtain s1 where s1: "r_RPush R (keyLogs i) ?v s = (s1, None)" "up s1" "strs s1 = strs s"
    "lists s1 = (lists s)(keyLogs i := lists s (keyLogs i) @ [?v])"
    using RPush [OF assms(1)] by (metis keys(2))
  obtain s2 where s2: "r_LTrim R (keyLogs i) (- int n) (- 1) s1 = (s2, None)" "up s2" "strs s2 = strs s1"
    "lists s2 = (lists s1)(keyLogs i := ltrim_last n (lists s1 (keyLogs i)))"
    using LTrim [OF s1(2) _ assms(2)] by (metis keys(2))
  show ?thesis using s1 s2 by (simp add: AppendLog_def pipe2_def Let_def)
qed

lemma AcquireLock_ready:
  assumes "up s" "0 < ttl"
  shows "\<exists>s'. AcquireLock R i ttl s = (s', Inr (strs s (keyLock i) = None)) \<and> up s' \<and> lists s' = lists s \<and>
    strs s' = (if strs s (keyLock i) = None then (strs s)(keyLock i \<mapsto> ''1'') else strs s)"
  using SetNX [OF assms(1) _ assms(2), of "keyLock i" "''1''"] by (auto simp: AcquireLock_def)

lemma ReleaseLock_ready:
  assumes "up s"
  shows "\<exists>s'. ReleaseLock R i s = (s', None) \<and> up s' \<and> strs s' = (strs s)(keyLock i := None) \<and>
    lists s' = (lists s)(keyLock i := [])"
  using Del [OF assms, of "keyLock i"] by (auto simp: ReleaseLock_def)

end

sublocale redis_server \<subseteq> pq: priority_queue "q_Enqueue R" "Dequeue R" "\<lambda>s. waiting (lists s)"
  "\<lambda>s. up s \<and> queue_lists (lists s)"
  using Enqueue_ready Dequeue_ready by unfold_locales auto


lemma ltrim_last_snoc: "0 < n \<Longrightarrow> ltrim_last n (ltrim_last n xs @ [x]) = ltrim_last n (xs @ [x])"
proof (cases "length xs \<le> n")
  case False
  assume "0 < n"
  with False have "length xs - n + 1 = Suc (length xs) - n" by simp
  with False \<open>0 < n\<close> show ?thesis by (simp add: ltrim_last_def)
qed (simp add: ltrim_last_def)

lemma map_ltrim_last: "map f (ltrim_last n xs) = ltrim_last n (map f xs)"
  by (simp add: ltrim_last_def drop_map)

lemma logEntry_eta [simp]:
  "\<lparr>le_Timestamp = le_Timestamp e, le_Level = le_Level e, le_Message = le_Message e, le_Fields = le_Fields e\<rparr> = (e :: logEntry)"
  by simp

context redis_server
begin

lemma drain:
  assumes "up s" "\<forall>p \<in> {1..10}. lists s (keyQueue p) = []"
  shows "deq_n (Dequeue R) (length xs) (enq_all (q_Enqueue R) xs s) =
    map fst (sort_key (\<lambda>x. clamp_priority (snd x)) xs)"
  using assms by (intro pq.drain_is_stable_sort) (auto simp: queue_lists_def waiting_def)

lemma AppendLogs_tail:
  assumes "up s" "0 < n" "lists s (keyLogs i) = map RLog (ltrim_last n old)"
  shows "let s' = run (\<lambda>s e. fst (AppendLog R (int n) (le_Timestamp e) i (le_Level e) (le_Message e) (le_Fields e) s)) s es
    in up s' \<and> lists s' (keyLogs i) = map RLog (ltrim_last n (old @ es))"
  using assms
proof (induction es arbitrary: s old)
  case (Cons e es)
  obtain s' where s': "AppendLog R (int n) (le_Timestamp e) i (le_Level e) (le_Message e) (le_Fields e) s = (s', None)"
    "up s'" "lists s' = (lists s)(keyLogs i := ltrim_last n (lists s (keyLogs i) @ [RLog e]))"
    using AppendLog_ready [OF Cons.prems(1,2), of "le_Timestamp e" i "le_Level e" "le_Message e" "le_Fields e"]
    by auto
  have "lists s' (keyLogs i) = map RLog (ltrim_last n (old @ [e]))"
    using Cons.prems(2,3) s'(3) by (simp add: map_ltrim_last ltrim_last_snoc)
  from Cons.IH [OF s'(2) Cons.prems(2) this] show ?case by (simp add: s'(1))
qed simp

lemma GetLogs_ready: "up s \<Longrightarrow> GetLogs R i s = (s, Inr (decode_entries (lists s (keyLogs i))))"
  using LRange by (simp add: GetLogs_def)

end

lemma decode_RLog [simp]: "decode_entries (map RLog es) = es"
  by (induction es) auto

section \<open>Redis in memory\<close>

text \<open>A concrete server, on which the hypotheses of the properties can be checked.\<close>

record memory =
  m_lists :: "string \<Rightarrow> redis_value list"
  m_strs :: "string \<Rightarrow> string option"
  m_hashes :: "string \<Rightarrow> (string \<times> hash_value) list"

definition empty_memory :: memory where
  "empty_memory = \<lparr>m_lists = \<lambda>_. [], m_strs = \<lambda>_. None, m_hashes = \<lambda>_. []\<rparr>"

definition set_list :: "string \<Rightarrow> redis_value list \<Rightarrow> memory \<Rightarrow> memory" where
  "set_list k xs m = m\<lparr>m_lists := (m_lists m)(k := xs)\<rparr>"

definition memory_redis :: "memory redis" where
  "memory_redis = \<lparr>
     r_LPush = \<lambda>k v m. (set_list k (v # m_lists m k) m, None),
     r_RPush = \<lambda>k v m. (set_list k (m_lists m k @ [v]) m, None),
     r_LTrim = \<lambda>k a b m. (set_list k (ltrim_last (nat (- a)) (m_lists m k)) m, None),
     r_LRange = \<lambda>k a b m. (m, Inr (m_lists m k)),
     r_LLen = \<lambda>k m. (m, Inr (int (length (m_lists m k)))),
     r_BRPop = \<lambda>ks m.
       (case find (\<lambda>k. m_lists m k \<noteq> []) ks of
          None \<Rightarrow> (m, Inl (Sentinel RedisNil))
        | Some k \<Rightarrow> (set_list k (butlast (m_lists m k)) m, Inr [k, rstr (last (m_lists m k))])),
     r_SetNX = \<lambda>k v ttl m.
       (if m_strs m k = None then (m\<lparr>m_strs := (m_strs m)(k \<mapsto> v)\<rparr>, Inr True) else (m, Inr False)),
     r_Set = \<lambda>k v ttl m. (m\<lparr>m_strs := (m_strs m)(k \<mapsto> v)\<rparr>, None),
     r_Del = \<lambda>k m. (set_list k [] (m\<lparr>m_strs := (m_strs m)(k := None)\<rparr>), None),
     r_Expire = \<lambda>k ttl m. (m, None),
     r_Exists = \<lambda>k m. (m, Inr (if m_strs m k = None then 0 else 1)),
     r_HSet = \<lambda>k f m. (m\<lparr>m_hashes := (m_hashes m)(k := AList.updates (map fst f) (map snd f) (m_hashes m k))\<rparr>, None),
     r_HGetAll = \<lambda>k m. (m, Inr (m_hashes m k))\<rparr>"

interpretation mem: redis_server memory_redis "\<lambda>_. True" m_lists m_strs
  by unfold_locales (auto simp: memory_redis_def set_list_def)

section \<open>Properties\<close>

text \<open>
  C11. Whatever tasks are enqueued on an empty queue, draining it returns each of them once, ordered by
  priority (clamped to one to ten, one first) and in order of arrival within a priority: the stable
  sort of the arrivals by priority.
\<close>

theorem queue_drains_by_priority:
  assumes "redis_server R up lst strs" "up s" "\<forall>p \<in> {1..10}. lst s (keyQueue p) = []"
  shows "deq_n (Dequeue R) (length xs) (enq_all (q_Enqueue R) xs s) =
    map fst (sort_key (\<lambda>x. clamp_priority (snd x)) xs)"
  using redis_server.drain [OF assms] .

theorem queue_drains_by_priority_witness:
  "deq_n (Dequeue memory_redis) 4 (enq_all (q_Enqueue memory_redis)
     [(''report'', 99), (''sync-1'', 5), (''power-off'', - 3), (''sync-2'', 5)] empty_memory) =
   [''power-off'', ''sync-1'', ''sync-2'', ''report'']"
  using queue_drains_by_priority [OF mem.redis_server_axioms, where s = empty_memory and
      xs = "[(''report'', 99), (''sync-1'', 5), (''power-off'', - 3), (''sync-2'', 5)]"]
  by (simp add: empty_memory_def clamp_priority_def eval_nat_numeral)

text \<open>
  The log of a task holds exactly the latest \<^verbatim>\<open>maxLogLines\<close> entries, oldest first:
  appending any sequence of entries to an empty log and reading it back returns the tail of that
  sequence.
\<close>

theorem task_log_keeps_latest:
  assumes "redis_server R up lst strs" "up s" "0 < n" "lst s (keyLogs i) = []"
  shows "\<exists>s'. GetLogs R i (run (\<lambda>s e. fst (AppendLog R (int n) (le_Timestamp e) i (le_Level e) (le_Message e) (le_Fields e) s)) s es)
    = (s', Inr (drop (length es - n) es))"
  using redis_server.AppendLogs_tail [OF assms(1-3), of i "[]" es] assms(4)
    redis_server.GetLogs_ready [OF assms(1)] by (simp add: Let_def ltrim_last_def)

theorem task_log_keeps_latest_witness:
  "\<exists>s'. GetLogs memory_redis ''t'' (run (\<lambda>s e. fst (AppendLog memory_redis 2 (le_Timestamp e) ''t'' (le_Level e)
       (le_Message e) (le_Fields e) s)) empty_memory
     [\<lparr>le_Timestamp = 1, le_Level = ''info'', le_Message = ''a'', le_Fields = []\<rparr>,
      \<lparr>le_Timestamp = 2, le_Level = ''info'', le_Message = ''b'', le_Fields = []\<rparr>,
      \<lparr>le_Timestamp = 3, le_Level = ''warn'', le_Message = ''c'', le_Fields = []\<rparr>])
    = (s', Inr [\<lparr>le_Timestamp = 2, le_Level = ''info'', le_Message = ''b'', le_Fields = []\<rparr>,
                \<lparr>le_Timestamp = 3, le_Level = ''warn'', le_Message = ''c'', le_Fields = []\<rparr>])"
  using task_log_keeps_latest [OF mem.redis_server_axioms, where s = empty_memory and n = 2 and i = "''t''" and
      es = "[\<lparr>le_Timestamp = 1, le_Level = ''info'', le_Message = ''a'', le_Fields = []\<rparr>,
        \<lparr>le_Timestamp = 2, le_Level = ''info'', le_Message = ''b'', le_Fields = []\<rparr>,
        \<lparr>le_Timestamp = 3, le_Level = ''warn'', le_Message = ''c'', le_Fields = []\<rparr>]"]
  by (simp add: empty_memory_def)

end
