(* ===== verification/Throttle.thy ===== *)
theory Throttle
  imports TaskQueue
begin

text \<open>
  The throttles of the task engine (\<^verbatim>\<open>internal/task/throttle.go\<close>): the semaphore that limits
  the tasks running against one hypervisor, the deduplicator of operations and the guard against an
  overfull queue. Clock readings are arguments.
\<close>

section \<open>Per-provider concurrency\<close>

text \<open>
  A channel of capacity \<open>ps_max\<close> per hypervisor; \<open>ps_sems\<close> holds the number of its elements. The
  \<^verbatim>\<open>select\<close> of \<^verbatim>\<open>Acquire\<close> is resolved by the argument \<open>sel\<close>: it takes the slot, which is
  possible only while the channel has room, or it sees the context end. The result \<open>None\<close> stands for a
  call that blocks. The release function that is returned is a value of type \<open>releaser\<close>.
\<close>

record providerSemaphore =
  ps_sems :: "string \<rightharpoonup> nat"
  ps_max :: nat

datatype releaser = NoRelease | ReleaseSlot string

datatype select = TakeSlot | SeeDone go_error

definition newProviderSemaphore :: "nat \<Rightarrow> providerSemaphore" where
  "newProviderSemaphore maxConcurrent = \<lparr>ps_sems = Map.empty, ps_max = maxConcurrent\<rparr>"

definition sem :: "providerSemaphore \<Rightarrow> string \<Rightarrow> providerSemaphore" where
  "sem ps h = (case ps_sems ps h of None \<Rightarrow> ps\<lparr>ps_sems := (ps_sems ps)(h \<mapsto> 0)\<rparr> | Some _ \<Rightarrow> ps)"

definition used :: "providerSemaphore \<Rightarrow> string \<Rightarrow> nat" where
  "used ps h = (case ps_sems ps h of None \<Rightarrow> 0 | Some n \<Rightarrow> n)"

definition set_used :: "providerSemaphore \<Rightarrow> string \<Rightarrow> nat \<Rightarrow> providerSemaphore" where
  "set_used ps h n = ps\<lparr>ps_sems := (ps_sems ps)(h \<mapsto> n)\<rparr>"

definition Acquire :: "providerSemaphore \<Rightarrow> string \<Rightarrow> select \<Rightarrow> (providerSemaphore \<times> (go_error + releaser)) option" where
  "Acquire ps h sel =
     (if h = '''' then Some (ps, Inr NoRelease)
      else (let ps = sem ps h in
            case sel of
              TakeSlot \<Rightarrow>
                if used ps h < ps_max ps then Some (set_used ps h (used ps h + 1), Inr (ReleaseSlot h)) else None
            | SeeDone err \<Rightarrow> Some (ps, Inl err)))"

definition TryAcquire :: "providerSemaphore \<Rightarrow> string \<Rightarrow> providerSemaphore \<times> releaser \<times> bool" where
  "TryAcquire ps h =
     (if h = '''' then (ps, NoRelease, True)
      else (let ps = sem ps h in
            if used ps h < ps_max ps then (set_used ps h (used ps h + 1), ReleaseSlot h, True)
            else (ps, NoRelease, False)))"

fun release :: "providerSemaphore \<Rightarrow> releaser \<Rightarrow> providerSemaphore option" where
  "release ps NoRelease = Some ps"
| "release ps (ReleaseSlot h) = (if used ps h > 0 then Some (set_used ps h (used ps h - 1)) else None)"

text \<open>
  The workers as a transition system: the semaphore and the release functions handed out and not yet
  called. A worker acquires or releases; a blocked call makes no step.
\<close>

inductive sem_step :: "providerSemaphore \<times> releaser multiset \<Rightarrow> providerSemaphore \<times> releaser multiset \<Rightarrow> bool" where
  acquired: "Acquire ps h sel = Some (ps', Inr r) \<Longrightarrow> sem_step (ps, M) (ps', add_mset r M)"
| refused: "Acquire ps h sel = Some (ps', Inl err) \<Longrightarrow> sem_step (ps, M) (ps', M)"
| tried: "TryAcquire ps h = (ps', r, ok) \<Longrightarrow> sem_step (ps, M) (ps', if ok then add_mset r M else M)"
| released: "r \<in># M \<Longrightarrow> release ps r = Some ps' \<Longrightarrow> sem_step (ps, M) (ps', M - {#r#})"

inductive_cases sem_stepE: "sem_step s s'"

definition sem_inv :: "nat \<Rightarrow> providerSemaphore \<times> releaser multiset \<Rightarrow> bool" where
  "sem_inv mx s \<longleftrightarrow> (case s of (ps, M) \<Rightarrow> ps_max ps = mx \<and>
     (\<forall>h. used ps h = count M (ReleaseSlot h) \<and> count M (ReleaseSlot h) \<le> mx))"

lemma sem_frame [simp]: "used (sem ps h) g = used ps g" "ps_max (sem ps h) = ps_max ps"
  by (simp_all add: sem_def used_def split: option.splits)

lemma set_used_frame [simp]:
  "used (set_used ps h n) g = (if g = h then n else used ps g)" "ps_max (set_used ps h n) = ps_max ps"
  by (simp_all add: set_used_def used_def)

lemma Acquire_slot:
  "Acquire ps h sel = Some (ps', Inr r) \<Longrightarrow> ps_max ps' = ps_max ps \<and>
   (h = '''' \<and> r = NoRelease \<and> ps' = ps \<or>
    r = ReleaseSlot h \<and> used ps h < ps_max ps \<and> used ps' = (used ps)(h := used ps h + 1))"
  by (auto simp: Acquire_def Let_def split: if_splits select.splits)

lemma Acquire_refused:
  "Acquire ps h sel = Some (ps', Inl err) \<Longrightarrow> ps_max ps' = ps_max ps \<and> used ps' = used ps"
  by (auto simp: Acquire_def Let_def split: if_splits select.splits)

lemma TryAcquire_Acquire:
  "TryAcquire ps h = (ps', r, True) \<longleftrightarrow> Acquire ps h TakeSlot = Some (ps', Inr r)"
  by (auto simp: TryAcquire_def Acquire_def Let_def)

lemma TryAcquire_busy:
  "TryAcquire ps h = (ps', r, False) \<Longrightarrow> ps_max ps' = ps_max ps \<and> used ps' = used ps \<and> used ps h \<ge> ps_max ps"
  by (auto simp: TryAcquire_def Let_def split: if_splits)

lemma sem_inv_acquired:
  assumes "Acquire ps h sel = Some (ps', Inr r)" "sem_inv mx (ps, M)"
  shows "sem_inv mx (ps', add_mset r M)"
  using Acquire_slot [OF assms(1)] assms(2) by (auto simp: sem_inv_def Suc_leI split: if_splits)

lemma sem_inv_step [inv_intros]:
  assumes "sem_step s s'" "sem_inv mx s"
  shows "sem_inv mx s'"
  using assms(1)
proof (cases rule: sem_step.cases)
  case (acquired ps h sel ps' r M)
  with assms(2) sem_inv_acquired show ?thesis by simp
next
  case (refused ps h sel ps' err M)
  with assms(2) Acquire_refused [OF refused(3)] show ?thesis by (simp add: sem_inv_def)
next
  case (tried ps h ps' r ok M)
  show ?thesis
  proof (cases ok)
    case True
    with tried assms(2) sem_inv_acquired show ?thesis by (simp add: TryAcquire_Acquire)
  next
    case False
    with tried TryAcquire_busy [of ps h ps' r] assms(2) show ?thesis by (simp add: sem_inv_def)
  qed
next
  case (released r M ps ps')
  then show ?thesis using assms(2)
    by (cases r) (auto simp: sem_inv_def le_diff_conv intro: le_SucI split: if_splits)
qed

lemma sem_inv_reachable:
  "sem_step\<^sup>*\<^sup>* (newProviderSemaphore mx, {#}) s \<Longrightarrow> sem_inv mx s"
proof (induction rule: rtranclp_induct)
  case base
  then show ?case by (simp add: sem_inv_def newProviderSemaphore_def used_def)
qed (rule sem_inv_step)

section \<open>Deduplication\<close>

record deduplicator =
  dd_inflight :: "string \<rightharpoonup> int"
  dd_window :: int

definition newDeduplicator :: "int \<Rightarrow> deduplicator" where
  "newDeduplicator window = \<lparr>dd_inflight = Map.empty, dd_window = window\<rparr>"

text \<open>One tick of the clean-up goroutine.\<close>

definition dedup_cleanup :: "deduplicator \<Rightarrow> int \<Rightarrow> deduplicator" where
  "dedup_cleanup d now =
     d\<lparr>dd_inflight := (\<lambda>k. case dd_inflight d k of None \<Rightarrow> None
                           | Some t \<Rightarrow> if now - t > dd_window d then None else Some t)\<rparr>"

definition dedup_key :: "string \<Rightarrow> string \<Rightarrow> string" where
  "dedup_key taskType scopeID = taskType @ '':'' @ scopeID"

definition IsDuplicate :: "deduplicator \<Rightarrow> int \<Rightarrow> string \<Rightarrow> string \<Rightarrow> deduplicator \<times> bool" where
  "IsDuplicate d now taskType scopeID =
     (if scopeID = '''' then (d, False)
      else (let key = dedup_key taskType scopeID in
            case dd_inflight d key of
              Some t \<Rightarrow> if now - t < dd_window d then (d, True)
                       else (d\<lparr>dd_inflight := (dd_inflight d)(key \<mapsto> now)\<rparr>, False)
            | None \<Rightarrow> (d\<lparr>dd_inflight := (dd_inflight d)(key \<mapsto> now)\<rparr>, False)))"

definition dedup_Release :: "deduplicator \<Rightarrow> string \<Rightarrow> string \<Rightarrow> deduplicator" where
  "dedup_Release d taskType scopeID =
     (if scopeID = '''' then d
      else d\<lparr>dd_inflight := (dd_inflight d)(dedup_key taskType scopeID := None)\<rparr>)"

datatype dedup_op = Check int string string | Tick int | Forget int string string

fun dedup_time :: "dedup_op \<Rightarrow> int" where
  "dedup_time (Check now _ _) = now"
| "dedup_time (Tick now) = now"
| "dedup_time (Forget now _ _) = now"

fun dedup_step :: "deduplicator \<Rightarrow> dedup_op \<Rightarrow> deduplicator" where
  "dedup_step d (Check now ty sc) = fst (IsDuplicate d now ty sc)"
| "dedup_step d (Tick now) = dedup_cleanup d now"
| "dedup_step d (Forget now ty sc) = dedup_Release d ty sc"

definition dedup_ops_within :: "string \<Rightarrow> int \<Rightarrow> int \<Rightarrow> dedup_op list \<Rightarrow> bool" where
  "dedup_ops_within key t0 window ops \<longleftrightarrow>
     list_all (\<lambda>x. dedup_time x < t0 + window \<and>
       (case x of Forget _ ty sc \<Rightarrow> sc = '''' \<or> dedup_key ty sc \<noteq> key | _ \<Rightarrow> True)) ops"

lemma dedup_step_window [simp]: "dd_window (dedup_step d x) = dd_window d"
  by (cases x) (auto simp: IsDuplicate_def dedup_cleanup_def dedup_Release_def Let_def split: option.splits)

lemma dedup_step_keeps:
  assumes "dd_inflight d key = Some t0" "dedup_time x < t0 + dd_window d"
    "case x of Forget _ ty sc \<Rightarrow> sc = '''' \<or> dedup_key ty sc \<noteq> key | _ \<Rightarrow> True"
  shows "dd_inflight (dedup_step d x) key = Some t0"
  using assms
  by (cases x) (auto simp: IsDuplicate_def dedup_cleanup_def dedup_Release_def Let_def split: option.splits)

lemma dedup_run_keeps:
  assumes "dd_inflight d key = Some t0" "dedup_ops_within key t0 (dd_window d) ops"
  shows "dd_inflight (run dedup_step d ops) key = Some t0 \<and> dd_window (run dedup_step d ops) = dd_window d"
  using assms
proof (induction ops arbitrary: d)
  case (Cons x ops)
  then have "dd_inflight (dedup_step d x) key = Some t0"
    by (intro dedup_step_keeps) (auto simp: dedup_ops_within_def)
  moreover have "dedup_ops_within key t0 (dd_window (dedup_step d x)) ops"
    using Cons.prems(2) by (simp add: dedup_ops_within_def)
  ultimately show ?case using Cons.IH [of "dedup_step d x"] by simp
qed simp

section \<open>Backpressure\<close>

record backpressureGuard =
  bp_queueSize :: int
  bp_hwm :: int

definition newBackpressureGuard :: "int \<Rightarrow> backpressureGuard" where
  "newBackpressureGuard hwm = \<lparr>bp_queueSize = 0, bp_hwm = hwm\<rparr>"

definition SetQueueSize :: "int \<Rightarrow> backpressureGuard \<Rightarrow> backpressureGuard" where
  "SetQueueSize n b = b\<lparr>bp_queueSize := n\<rparr>"

definition bp_Allow :: "backpressureGuard \<Rightarrow> bool" where
  "bp_Allow b \<longleftrightarrow> bp_queueSize b < bp_hwm b"

definition QueueDepth :: "backpressureGuard \<Rightarrow> int" where
  "QueueDepth b = bp_queueSize b"

section \<open>Properties\<close>

text \<open>
  C20. However the workers interleave, no hypervisor ever has more than the configured number of slots
  in use, every slot in use belongs to exactly one release function not yet called, and calling such a
  release function never blocks.
\<close>

theorem provider_slots_bounded:
  assumes "sem_step\<^sup>*\<^sup>* (newProviderSemaphore mx, {#}) (ps, M)"
  shows "count M (ReleaseSlot h) \<le> mx \<and> used ps h = count M (ReleaseSlot h) \<and>
    (\<forall>r \<in># M. \<exists>ps'. release ps r = Some ps' \<and> sem_step (ps, M) (ps', M - {#r#}))"
proof -
  have inv: "sem_inv mx (ps, M)" using sem_inv_reachable [OF assms] .
  have "\<exists>ps'. release ps r = Some ps'" if "r \<in># M" for r
  proof (cases r)
    case (ReleaseSlot g)
    with inv that show ?thesis by (simp add: sem_inv_def)
  qed simp
  then have "\<exists>ps'. release ps r = Some ps' \<and> sem_step (ps, M) (ps', M - {#r#})" if "r \<in># M" for r
    using that sem_step.released by blast
  moreover have "count M (ReleaseSlot h) \<le> mx" "used ps h = count M (ReleaseSlot h)"
    using inv unfolding sem_inv_def by blast+
  ultimately show ?thesis by simp
qed

theorem provider_slots_bounded_witness:
  "\<exists>ps. sem_step\<^sup>*\<^sup>* (newProviderSemaphore 1, {#}) (ps, {#ReleaseSlot ''esx-1''#}) \<and>
     Acquire ps ''esx-1'' TakeSlot = None \<and> used ps ''esx-1'' = 1"
proof -
  let ?ps = "set_used (sem (newProviderSemaphore 1) ''esx-1'') ''esx-1'' 1"
  have "Acquire (newProviderSemaphore 1) ''esx-1'' TakeSlot = Some (?ps, Inr (ReleaseSlot ''esx-1''))"
    by (simp add: Acquire_def Let_def) (simp add: newProviderSemaphore_def used_def)
  then have reach: "sem_step\<^sup>*\<^sup>* (newProviderSemaphore 1, {#}) (?ps, {#ReleaseSlot ''esx-1''#})"
    using sem_step.acquired [of _ _ _ _ _ "{#}"] by blast
  from provider_slots_bounded [OF this, of "''esx-1''"] have "used ?ps ''esx-1'' = 1" by simp
  moreover have "ps_max ?ps = 1" by (simp add: newProviderSemaphore_def)
  ultimately have "Acquire ?ps ''esx-1'' TakeSlot = None" by (simp add: Acquire_def Let_def)
  with reach \<open>used ?ps ''esx-1'' = 1\<close> show ?thesis by blast
qed

text \<open>
  An operation that was accepted is reported as a duplicate for the whole window that follows,
  whatever other checks, clean-up ticks and releases of other keys happen in between.
\<close>

theorem duplicates_refused_within_window:
  assumes "IsDuplicate d t0 ty sc = (d', False)" "sc \<noteq> ''''"
    and "dedup_ops_within (dedup_key ty sc) t0 (dd_window d) ops" "now < t0 + dd_window d"
  shows "snd (IsDuplicate (run dedup_step d' ops) now ty sc)"
proof -
  have "dd_inflight d' (dedup_key ty sc) = Some t0" "dd_window d' = dd_window d"
    using assms(1,2) by (auto simp: IsDuplicate_def Let_def split: option.splits if_splits)
  with dedup_run_keeps [of d' "dedup_key ty sc" t0 ops] assms show ?thesis
    by (simp add: IsDuplicate_def Let_def)
qed

theorem duplicates_refused_within_window_witness:
  "snd (IsDuplicate (run dedup_step (fst (IsDuplicate (newDeduplicator 30) 100 ''inventory.sync'' ''h1''))
     [Check 105 ''inventory.sync'' ''h2'', Tick 129]) 129 ''inventory.sync'' ''h1'')"
proof -
  have "IsDuplicate (newDeduplicator 30) 100 ''inventory.sync'' ''h1'' =
      (fst (IsDuplicate (newDeduplicator 30) 100 ''inventory.sync'' ''h1''), False)"
    by (simp add: IsDuplicate_def newDeduplicator_def Let_def)
  then show ?thesis
    by (rule duplicates_refused_within_window) (simp_all add: dedup_ops_within_def newDeduplicator_def)
qed

end
