(* ===== verification/TaskStore.thy ===== *)
theory TaskStore
  imports ProviderCore
begin

text \<open>
  Tasks (\<^verbatim>\<open>internal/domain/model/task.go\<close>) and their repository
  (\<^verbatim>\<open>internal/infrastructure/repository/task_repo.go\<close>). The interface
  \<^verbatim>\<open>port.TaskRepository\<close>, as far as the task engine uses it, is the record \<open>TaskRepository\<close> of
  operations on a store of any type; locale \<open>task_store\<close> is the contract the engine relies on, and
  the repository's queries, run on a table of rows, satisfy it.
\<close>

section \<open>Tasks\<close>

datatype TaskStatus =
    TaskPending | TaskQueued | TaskRunning | TaskCompleted | TaskFailed | TaskCancelled | TaskRetrying | TaskTimedOut

record Task =
  tk_ID :: string
  tk_CreatedAt :: int
  tk_Deleted :: bool
  tk_Type :: string
  tk_Status :: TaskStatus
  tk_Priority :: int
  tk_Progress :: int
  tk_Payload :: jmap
  tk_Result :: "jmap option"
  tk_ErrorMessage :: string
  tk_RetryCount :: int
  tk_MaxRetries :: int
  tk_StartedAt :: "int option"
  tk_CompletedAt :: "int option"
  tk_ScheduledAt :: "int option"
  tk_TimeoutAt :: "int option"
  tk_CreatedBy :: "string option"
  tk_HypervisorID :: "string option"
  tk_VMID :: "string option"
  tk_ParentTaskID :: "string option"

definition Status_text :: "TaskStatus \<Rightarrow> string" where
  "Status_text st = (case st of
       TaskPending \<Rightarrow> ''pending'' | TaskQueued \<Rightarrow> ''queued'' | TaskRunning \<Rightarrow> ''running''
     | TaskCompleted \<Rightarrow> ''completed'' | TaskFailed \<Rightarrow> ''failed'' | TaskCancelled \<Rightarrow> ''cancelled''
     | TaskRetrying \<Rightarrow> ''retrying'' | TaskTimedOut \<Rightarrow> ''timed_out'')"

section \<open>The interface of the repository\<close>

record 'd TaskRepository =
  repo_GetByID :: "string \<Rightarrow> 'd \<Rightarrow> go_error + Task"
  repo_ListPending :: "int \<Rightarrow> 'd \<Rightarrow> go_error + Task list"
  repo_UpdateStatus :: "string \<Rightarrow> TaskStatus \<Rightarrow> jmap option \<Rightarrow> string \<Rightarrow> 'd \<Rightarrow> 'd \<times> go_error option"
  repo_UpdateProgress :: "string \<Rightarrow> int \<Rightarrow> 'd \<Rightarrow> 'd \<times> go_error option"

text \<open>What \<^verbatim>\<open>UpdateStatus\<close> writes: status and error message, and the result when there is one.\<close>

definition set_status :: "TaskStatus \<Rightarrow> jmap option \<Rightarrow> string \<Rightarrow> Task \<Rightarrow> Task" where
  "set_status st res msg t =
     t\<lparr>tk_Status := st, tk_ErrorMessage := msg, tk_Result := (case res of None \<Rightarrow> tk_Result t | Some r \<Rightarrow> Some r)\<rparr>"

locale task_store =
  fixes T :: "'d TaskRepository"
    and avail :: "'d \<Rightarrow> bool"
    and task :: "'d \<Rightarrow> string \<Rightarrow> Task option"
  assumes GetByID: "avail d \<Longrightarrow> task d i = Some t \<Longrightarrow> repo_GetByID T i d = Inr t"
    and GetByID_missing: "avail d \<Longrightarrow> task d i = None \<Longrightarrow> \<exists>e. repo_GetByID T i d = Inl e"
    and UpdateStatus: "avail d \<Longrightarrow> \<exists>d'. repo_UpdateStatus T i st res msg d = (d', None) \<and> avail d' \<and>
      task d' = (task d)(i := map_option (set_status st res msg) (task d i))"
    and UpdateProgress: "avail d \<Longrightarrow> \<exists>d'. repo_UpdateProgress T i p d = (d', None) \<and> avail d' \<and>
      task d' = (task d)(i := map_option (\<lambda>t. t\<lparr>tk_Progress := p\<rparr>) (task d i))"
begin

lemma UpdateStatus_fst:
  assumes "avail d"
  shows "avail (fst (repo_UpdateStatus T i st res msg d))"
    and "task (fst (repo_UpdateStatus T i st res msg d)) = (task d)(i := map_option (set_status st res msg) (task d i))"
  using UpdateStatus [OF assms, of i st res msg] by auto

lemma UpdateProgress_fst:
  assumes "avail d"
  shows "avail (fst (repo_UpdateProgress T i p d))"
    and "task (fst (repo_UpdateProgress T i p d)) = (task d)(i := map_option (\<lambda>t. t\<lparr>tk_Progress := p\<rparr>) (task d i))"
  using UpdateProgress [OF assms, of i p] by auto

end

section \<open>The repository\<close>

text \<open>
  The table of tasks in storage order, and the error every statement returns while the database cannot
  be reached. Queries skip rows that are soft-deleted.
\<close>

record task_table =
  tt_rows :: "Task list"
  tt_fault :: "go_error option"

definition live :: "task_table \<Rightarrow> Task list" where
  "live d = filter (\<lambda>t. \<not> tk_Deleted t) (tt_rows d)"

definition update_where :: "(Task \<Rightarrow> bool) \<Rightarrow> (Task \<Rightarrow> Task) \<Rightarrow> task_table \<Rightarrow> task_table \<times> go_error option" where
  "update_where P f d =
     (case tt_fault d of
        Some e \<Rightarrow> (d, Some e)
      | None \<Rightarrow> (d\<lparr>tt_rows := map (\<lambda>t. if \<not> tk_Deleted t \<and> P t then f t else t) (tt_rows d)\<rparr>, None))"

definition Create :: "Task \<Rightarrow> task_table \<Rightarrow> task_table \<times> go_error option" where
  "Create t d =
     (case tt_fault d of
        Some e \<Rightarrow> (d, Some e)
      | None \<Rightarrow> if tk_ID t \<in> set (map tk_ID (tt_rows d)) then (d, Some (Errorf ''duplicated key not allowed''))
                else (d\<lparr>tt_rows := tt_rows d @ [t]\<rparr>, None))"

definition GetByID :: "string \<Rightarrow> task_table \<Rightarrow> go_error + Task" where
  "GetByID i d =
     (case tt_fault d of
        Some e \<Rightarrow> Inl (Wrapf ''task not found'' e)
      | None \<Rightarrow> (case find (\<lambda>t. tk_ID t = i) (live d) of
                   None \<Rightarrow> Inl (Wrapf ''task not found'' (Errorf ''record not found''))
                 | Some t \<Rightarrow> Inr t))"

definition ListByParentID :: "string \<Rightarrow> task_table \<Rightarrow> go_error + Task list" where
  "ListByParentID p d =
     (case tt_fault d of
        Some e \<Rightarrow> Inl e
      | None \<Rightarrow> Inr (sort_key tk_CreatedAt (filter (\<lambda>t. tk_ParentTaskID t = Some p) (live d))))"

text \<open>\<^verbatim>\<open>ORDER BY priority ASC, created_at ASC LIMIT limit\<close>; a negative limit is no limit.\<close>

definition ListPending :: "int \<Rightarrow> task_table \<Rightarrow> go_error + Task list" where
  "ListPending limit d =
     (case tt_fault d of
        Some e \<Rightarrow> Inl e
      | None \<Rightarrow>
          (let ts = sort_key tk_Priority (sort_key tk_CreatedAt (filter (\<lambda>t. tk_Status t = TaskPending) (live d)))
           in Inr (if limit < 0 then ts else take (nat limit) ts)))"

definition UpdateStatus :: "string \<Rightarrow> TaskStatus \<Rightarrow> jmap option \<Rightarrow> string \<Rightarrow> task_table \<Rightarrow> task_table \<times> go_error option" where
  "UpdateStatus i st res errMsg = update_where (\<lambda>t. tk_ID t = i) (set_status st res errMsg)"

definition UpdateProgress :: "string \<Rightarrow> int \<Rightarrow> task_table \<Rightarrow> task_table \<times> go_error option" where
  "UpdateProgress i progress = update_where (\<lambda>t. tk_ID t = i) (\<lambda>t. t\<lparr>tk_Progress := progress\<rparr>)"

definition TaskRepo :: "task_table TaskRepository" where
  "TaskRepo = \<lparr>repo_GetByID = GetByID, repo_ListPending = ListPending, repo_UpdateStatus = UpdateStatus,
     repo_UpdateProgress = UpdateProgress\<rparr>"

definition row :: "task_table \<Rightarrow> string \<Rightarrow> Task option" where
  "row d i = find (\<lambda>t. tk_ID t = i) (live d)"

lemma find_map_update:
  assumes "\<And>t. tk_ID (f t) = tk_ID t" "\<And>t. tk_Deleted (f t) = tk_Deleted t"
  shows "find (\<lambda>t. tk_ID t = i) (filter (\<lambda>t. \<not> tk_Deleted t) (map (\<lambda>t. if \<not> tk_Deleted t \<and> tk_ID t = j then f t else t) rs)) =
    (if i = j then map_option f (find (\<lambda>t. tk_ID t = i) (filter (\<lambda>t. \<not> tk_Deleted t) rs))
     else find (\<lambda>t. tk_ID t = i) (filter (\<lambda>t. \<not> tk_Deleted t) rs))"
  using assms by (induction rs) auto

lemma row_update_where:
  assumes "\<And>t. tk_ID (f t) = tk_ID t" "\<And>t. tk_Deleted (f t) = tk_Deleted t" "tt_fault d = None"
  shows "row (fst (update_where (\<lambda>t. tk_ID t = i) f d)) = (row d)(i := map_option f (row d i))"
proof
  fix j
  show "row (fst (update_where (\<lambda>t. tk_ID t = i) f d)) j = ((row d)(i := map_option f (row d i))) j"
    using find_map_update [OF assms(1,2), of j i "tt_rows d"] assms(3)
    by (simp add: row_def live_def update_where_def)
qed

lemma update_where_ok: "tt_fault d = None \<Longrightarrow> snd (update_where P f d) = None"
  by (simp add: update_where_def)

lemma update_where_fault: "tt_fault (fst (update_where P f d)) = tt_fault d"
  by (simp add: update_where_def split: option.splits)

interpretation repo: task_store TaskRepo "\<lambda>d. tt_fault d = None" row
proof
  fix d :: task_table and i st res msg
  assume ok: "tt_fault d = None"
  let ?r = "update_where (\<lambda>t. tk_ID t = i) (set_status st res msg) d"
  have "row (fst ?r) = (row d)(i := map_option (set_status st res msg) (row d i))"
    using ok by (intro row_update_where) (simp_all add: set_status_def)
  then show "\<exists>d'. repo_UpdateStatus TaskRepo i st res msg d = (d', None) \<and> tt_fault d' = None \<and>
      row d' = (row d)(i := map_option (set_status st res msg) (row d i))"
    using ok update_where_ok [OF ok] update_where_fault [of _ _ d]
    by (intro exI [of _ "fst ?r"]) (simp add: TaskRepo_def UpdateStatus_def prod_eq_iff)
next
  fix d :: task_table and i p
  assume ok: "tt_fault d = None"
  let ?r = "update_where (\<lambda>t. tk_ID t = i) (\<lambda>t. t\<lparr>tk_Progress := p\<rparr>) d"
  have "row (fst ?r) = (row d)(i := map_option (\<lambda>t. t\<lparr>tk_Progress := p\<rparr>) (row d i))"
    using ok by (intro row_update_where) simp_all
  then show "\<exists>d'. repo_UpdateProgress TaskRepo i p d = (d', None) \<and> tt_fault d' = None \<and>
      row d' = (row d)(i := map_option (\<lambda>t. t\<lparr>tk_Progress := p\<rparr>) (row d i))"
    using ok update_where_ok [OF ok] update_where_fault [of _ _ d]
    by (intro exI [of _ "fst ?r"]) (simp add: TaskRepo_def UpdateProgress_def prod_eq_iff)
qed (simp_all add: TaskRepo_def GetByID_def row_def)

end
