(* ===== verification/TaskEngine.thy ===== *)
theory TaskEngine
  imports Throttle TaskStore
begin

text \<open>
  The task engine (\<^verbatim>\<open>internal/task/engine.go\<close>) and the context it passes to handlers
  (\<^verbatim>\<open>internal/task/context.go\<close>). The engine works on a world: the Redis server, the task store,
  the semaphores, the backpressure guard, the armed retry timers and the events published so far.
  Errors the code discards are discarded here; log lines of the program's own logger are left out.

  A task handler is a function on the world that returns the task it was given, possibly modified, and
  its error. The lock refresher only extends the expiry of the worker lock while the handler runs
  (\<open>refresh_tick\<close>), so it does not appear in \<open>processTask\<close>.
\<close>

section \<open>State\<close>

record TaskEngineConfig =
  cfg_WorkerCount :: int
  cfg_QueueSize :: int
  cfg_MaxRetries :: int
  cfg_RetryBaseDelay :: int
  cfg_TaskTTL :: int
  cfg_PollInterval :: int
  cfg_LockTTL :: int
  cfg_MaxLogEntries :: int
  cfg_DefaultTimeout :: int

datatype task_event =
    TaskStatusChanged string string TaskStatus int
  | TaskCancelledEvent string string
  | TaskProgressEvent string int string
  | TaskLogAppended string string string jmap

record ('r, 'd) world =
  w_redis :: 'r
  w_db :: 'd
  w_sem :: providerSemaphore
  w_backpressure :: backpressureGuard
  w_timers :: "timer list"
  w_events :: "task_event list"

type_synonym ('r, 'd) handler = "Task \<Rightarrow> ('r, 'd) world \<Rightarrow> ('r, 'd) world \<times> Task \<times> go_error option"

definition on_redis :: "('r \<Rightarrow> 'r \<times> 'a) \<Rightarrow> ('r, 'd) world \<Rightarrow> ('r, 'd) world \<times> 'a" where
  "on_redis f w = (case f (w_redis w) of (r, x) \<Rightarrow> (w\<lparr>w_redis := r\<rparr>, x))"

definition on_db :: "('d \<Rightarrow> 'd \<times> 'a) \<Rightarrow> ('r, 'd) world \<Rightarrow> ('r, 'd) world \<times> 'a" where
  "on_db f w = (case f (w_db w) of (d, x) \<Rightarrow> (w\<lparr>w_db := d\<rparr>, x))"

definition publish :: "task_event \<Rightarrow> ('r, 'd) world \<Rightarrow> ('r, 'd) world" where
  "publish ev w = w\<lparr>w_events := w_events w @ [ev]\<rparr>"

definition publishStatusEvent :: "Task \<Rightarrow> TaskStatus \<Rightarrow> ('r, 'd) world \<Rightarrow> ('r, 'd) world" where
  "publishStatusEvent t status = publish (TaskStatusChanged (tk_ID t) (tk_Type t) status (tk_Progress t))"

definition publishCancelled :: "Task \<Rightarrow> ('r, 'd) world \<Rightarrow> ('r, 'd) world" where
  "publishCancelled t = publish (TaskCancelledEvent (tk_ID t) (tk_Type t))"

section \<open>The context of a handler\<close>

definition tc_Progress :: "'r redis \<Rightarrow> string \<Rightarrow> int \<Rightarrow> int \<Rightarrow> int \<Rightarrow> string \<Rightarrow> ('r, 'd) world \<Rightarrow> ('r, 'd) world" where
  "tc_Progress R taskID stateTTL now pct message w =
     (let pct = (if pct < 0 then 0 else pct);
          pct = (if pct > 100 then 100 else pct);
          w = fst (on_redis (SetState R taskID
                [(''progress'', HInt pct), (''progress_message'', HStr message), (''updated_at'', HTime now)] stateTTL) w)
      in publish (TaskProgressEvent taskID pct message) w)"

definition tc_Log ::
  "'r redis \<Rightarrow> int \<Rightarrow> string \<Rightarrow> int \<Rightarrow> string \<Rightarrow> string \<Rightarrow> jmap list \<Rightarrow> ('r, 'd) world \<Rightarrow> ('r, 'd) world" where
  "tc_Log R maxLogLines taskID now level message flds w =
     (let f = (case flds of [] \<Rightarrow> [] | m # _ \<Rightarrow> m);
          w = fst (on_redis (AppendLog R maxLogLines now taskID level message f) w)
      in publish (TaskLogAppended taskID level message f) w)"

definition tc_IsCancelled :: "'r redis \<Rightarrow> string \<Rightarrow> go_error option \<Rightarrow> ('r, 'd) world \<Rightarrow> ('r, 'd) world \<times> bool" where
  "tc_IsCancelled R taskID ctxErr w =
     (case ctxErr of Some _ \<Rightarrow> (w, True) | None \<Rightarrow> on_redis (q_IsCancelled R taskID) w)"

section \<open>The engine\<close>

definition config_defaults :: "TaskEngineConfig \<Rightarrow> TaskEngineConfig" where
  "config_defaults c =
     c\<lparr>cfg_LockTTL := (if cfg_LockTTL c \<le> 0 then 300000000000 else cfg_LockTTL c),
       cfg_DefaultTimeout := (if cfg_DefaultTimeout c \<le> 0 then 600000000000 else cfg_DefaultTimeout c),
       cfg_RetryBaseDelay := (if cfg_RetryBaseDelay c \<le> 0 then 5000000000 else cfg_RetryBaseDelay c),
       cfg_MaxLogEntries := (if cfg_MaxLogEntries c \<le> 0 then 500 else cfg_MaxLogEntries c),
       cfg_PollInterval := (if cfg_PollInterval c \<le> 0 then 5000000000 else cfg_PollInterval c),
       cfg_QueueSize := (if cfg_QueueSize c \<le> 0 then 1000 else cfg_QueueSize c)\<rparr>"

text \<open>The world of a new engine: three slots per hypervisor, a mark at 80 percent of the queue size.\<close>

definition NewEngine :: "TaskEngineConfig \<Rightarrow> 'r \<Rightarrow> 'd \<Rightarrow> TaskEngineConfig \<times> ('r, 'd) world" where
  "NewEngine c r d =
     (let c = config_defaults c in
      (c, \<lparr>w_redis = r, w_db = d, w_sem = newProviderSemaphore 3,
           w_backpressure = newBackpressureGuard (go_div (wrap64 (cfg_QueueSize c * 8)) 10),
           w_timers = [], w_events = []\<rparr>))"

definition registered_types :: "string list" where
  "registered_types =
     [''vm.power_on'', ''vm.power_off'', ''vm.reboot'', ''vm.suspend'', ''vm.delete'', ''vm.snapshot'',
      ''vm.snapshot.delete'', ''vm.restore'', ''inventory.sync'', ''hypervisor.sync'',
      ''vm.bulk.power_on'', ''vm.bulk.power_off'', ''vm.bulk.reboot'', ''vm.bulk.snapshot'',
      ''template.sync'', ''vm.clone'', ''vm.provision'',
      ''env.start'', ''env.stop'', ''env.restart'', ''env.snapshot'', ''env.clone'']"

definition Register_handler ::
  "string \<Rightarrow> ('r, 'd) handler \<Rightarrow> (string \<rightharpoonup> ('r, 'd) handler) \<Rightarrow> (string \<rightharpoonup> ('r, 'd) handler)" where
  "Register_handler taskType h hs = hs(taskType \<mapsto> h)"

definition engine_Enqueue ::
  "TaskEngineConfig \<Rightarrow> 'r redis \<Rightarrow> 'd TaskRepository \<Rightarrow> string \<Rightarrow> int \<Rightarrow> ('r, 'd) world \<Rightarrow> ('r, 'd) world \<times> go_error option" where
  "engine_Enqueue c R T taskID priority w =
     (if \<not> bp_Allow (w_backpressure w)
      then (w, Some (Errorf (''task queue is at capacity ('' @ Itoa (QueueDepth (w_backpressure w)) @ ''/''
              @ Itoa (cfg_QueueSize c) @ '') '' @ em_dash @ '' try again later'')))
      else (case on_redis (q_Enqueue R taskID priority) w of
              (w, Some err) \<Rightarrow> (w, Some (Wrapf (''enqueue task '' @ taskID) err))
            | (w, None) \<Rightarrow> on_db (repo_UpdateStatus T taskID TaskQueued None '''') w))"

text \<open>The part of \<^verbatim>\<open>processTask\<close> after the handler returned.\<close>

definition post_execution ::
  "TaskEngineConfig \<Rightarrow> 'r redis \<Rightarrow> 'd TaskRepository \<Rightarrow> string \<Rightarrow> int \<Rightarrow> Task \<Rightarrow> go_error option \<Rightarrow>
   ('r, 'd) world \<Rightarrow> ('r, 'd) world" where
  "post_execution c R T taskID completedAt t handlerErr w =
     (let t = t\<lparr>tk_CompletedAt := Some completedAt\<rparr> in
      case handlerErr of
        None \<Rightarrow>
          (let w = fst (on_db (repo_UpdateStatus T taskID TaskCompleted None '''') w);
               w = fst (on_db (repo_UpdateProgress T taskID 100) w);
               w = fst (on_redis (SetState R taskID
                     [(''status'', HStr (Status_text TaskCompleted)), (''progress'', HInt 100), (''completed_at'', HTime completedAt)]
                     (cfg_TaskTTL c)) w)
           in publishStatusEvent t TaskCompleted w)
      | Some err \<Rightarrow>
          if errors_Is err ErrTaskCancelled then
            (let w = fst (on_db (repo_UpdateStatus T taskID TaskCancelled None ''cancelled during execution'') w);
                 w = fst (on_redis (ClearCancel R taskID) w)
             in publishCancelled t w)
          else if errors_Is err ErrTaskPermanentFailure then
            (let w = fst (on_db (repo_UpdateStatus T taskID TaskFailed None (Error_text err)) w)
             in publishStatusEvent t TaskFailed w)
          else
            (let t = t\<lparr>tk_RetryCount := tk_RetryCount t + 1\<rparr> in
             if tk_RetryCount t < tk_MaxRetries t then
               (let delay = Delay (DefaultBackoff (cfg_RetryBaseDelay c)) (tk_RetryCount t);
                    w = fst (on_db (repo_UpdateStatus T taskID TaskRetrying None (Error_text err)) w);
                    w = publishStatusEvent t TaskRetrying w
                in w\<lparr>w_timers := EnqueueDelayed completedAt taskID (tk_Priority t) delay (w_timers w)\<rparr>)
             else
               (let w = fst (on_db (repo_UpdateStatus T taskID TaskFailed None (Error_text err)) w)
                in publishStatusEvent t TaskFailed w)))"

definition mark_running ::
  "TaskEngineConfig \<Rightarrow> 'r redis \<Rightarrow> 'd TaskRepository \<Rightarrow> int \<Rightarrow> string \<Rightarrow> Task \<Rightarrow> ('r, 'd) world \<Rightarrow> ('r, 'd) world" where
  "mark_running c R T now taskID t w =
     (let w = fst (on_db (repo_UpdateStatus T taskID TaskRunning None '''') w);
          w = fst (on_redis (SetState R taskID
                [(''status'', HStr (Status_text TaskRunning)), (''started_at'', HTime now), (''progress'', HInt 0)] (cfg_TaskTTL c)) w)
      in publishStatusEvent t TaskRunning w)"

text \<open>Everything between acquiring the slot and releasing it.\<close>

definition execute_task ::
  "TaskEngineConfig \<Rightarrow> 'r redis \<Rightarrow> 'd TaskRepository \<Rightarrow> (string \<rightharpoonup> ('r, 'd) handler) \<Rightarrow> int \<Rightarrow> int \<Rightarrow>
   string \<Rightarrow> Task \<Rightarrow> ('r, 'd) world \<Rightarrow> ('r, 'd) world" where
  "execute_task c R T handlers now completedAt taskID t w =
     (let t = t\<lparr>tk_StartedAt := Some now\<rparr>;
          w = mark_running c R T now taskID t w
      in case handlers (tk_Type t) of
           None \<Rightarrow>
             (let w = fst (on_db (repo_UpdateStatus T taskID TaskFailed None
                        (''no handler registered for task type \"'' @ tk_Type t @ ''\"'')) w)
              in publishStatusEvent t TaskFailed w)
         | Some handler \<Rightarrow>
             (case handler t w of (w, t, handlerErr) \<Rightarrow> post_execution c R T taskID completedAt t handlerErr w))"

text \<open>
  \<open>None\<close>: the call blocks on the semaphore. The worker lock is released last, whatever path is taken.
\<close>

definition processTask ::
  "TaskEngineConfig \<Rightarrow> 'r redis \<Rightarrow> 'd TaskRepository \<Rightarrow> (string \<rightharpoonup> ('r, 'd) handler) \<Rightarrow> select \<Rightarrow> int \<Rightarrow> int \<Rightarrow>
   string \<Rightarrow> ('r, 'd) world \<Rightarrow> ('r, 'd) world option" where
  "processTask c R T handlers sel now completedAt taskID w =
     (case on_redis (AcquireLock R taskID (cfg_LockTTL c)) w of
        (w, Inl err) \<Rightarrow> Some w
      | (w, Inr False) \<Rightarrow> Some w
      | (w, Inr True) \<Rightarrow>
          map_option (\<lambda>w. fst (on_redis (ReleaseLock R taskID) w))
            (case repo_GetByID T taskID (w_db w) of
               Inl err \<Rightarrow> Some w
             | Inr t \<Rightarrow>
                 (case (if tk_Status t = TaskCancelled then (w, True) else on_redis (q_IsCancelled R taskID) w) of
                    (w, True) \<Rightarrow>
                      (let w = fst (on_db (repo_UpdateStatus T taskID TaskCancelled None ''cancelled before execution'') w);
                           w = publishCancelled t w
                       in Some (fst (on_redis (ClearCancel R taskID) w)))
                  | (w, False) \<Rightarrow>
                      (let hypervisorID = (case tk_HypervisorID t of Some h \<Rightarrow> h | None \<Rightarrow> '''') in
                       case Acquire (w_sem w) hypervisorID sel of
                         None \<Rightarrow> None
                       | Some (ps, Inl slotErr) \<Rightarrow>
                           Some (fst (on_redis (q_Enqueue R taskID (tk_Priority t)) (w\<lparr>w_sem := ps\<rparr>)))
                       | Some (ps, Inr slot) \<Rightarrow>
                           (let w = execute_task c R T handlers now completedAt taskID t (w\<lparr>w_sem := ps\<rparr>)
                            in map_option (\<lambda>ps. w\<lparr>w_sem := ps\<rparr>) (release (w_sem w) slot))))))"

text \<open>One tick of the lock refresher, the timer of a retry, the queue depth monitor.\<close>

definition refresh_tick :: "TaskEngineConfig \<Rightarrow> 'r redis \<Rightarrow> string \<Rightarrow> ('r, 'd) world \<Rightarrow> ('r, 'd) world" where
  "refresh_tick c R taskID w = fst (on_redis (RefreshLock R taskID (cfg_LockTTL c)) w)"

definition fire_first_timer :: "'r redis \<Rightarrow> ('r, 'd) world \<Rightarrow> ('r, 'd) world" where
  "fire_first_timer R w =
     (case w_timers w of [] \<Rightarrow> w | tm # tms \<Rightarrow> w\<lparr>w_timers := tms, w_redis := fire_timer R tm (w_redis w)\<rparr>)"

fun queue_depth :: "'r redis \<Rightarrow> int list \<Rightarrow> 'r \<Rightarrow> 'r \<times> int" where
  "queue_depth R [] s = (s, 0)"
| "queue_depth R (i # is) s =
     (case r_LLen R (keyQueue i) s of
        (s, Inl err) \<Rightarrow> queue_depth R is s
      | (s, Inr n) \<Rightarrow> (case queue_depth R is s of (s, m) \<Rightarrow> (s, n + m)))"

definition monitor_tick :: "'r redis \<Rightarrow> ('r, 'd) world \<Rightarrow> ('r, 'd) world" where
  "monitor_tick R w =
     (case queue_depth R [1..10] (w_redis w) of
        (r, depth) \<Rightarrow> w\<lparr>w_redis := r, w_backpressure := SetQueueSize depth (w_backpressure w)\<rparr>)"

text \<open>The loop of \<^verbatim>\<open>rehydrateFromDB\<close>.\<close>

fun rehydrate_tasks :: "TaskEngineConfig \<Rightarrow> 'r redis \<Rightarrow> 'd TaskRepository \<Rightarrow> Task list \<Rightarrow> ('r, 'd) world \<Rightarrow> ('r, 'd) world" where
  "rehydrate_tasks c R T [] w = w"
| "rehydrate_tasks c R T (t # ts) w =
     (if tk_Status t = TaskQueued \<or> tk_Status t = TaskRetrying then rehydrate_tasks c R T ts w
      else (case on_redis (AcquireLock R (tk_ID t) (cfg_LockTTL c)) w of
              (w, Inr True) \<Rightarrow>
                (let w = fst (on_redis (ReleaseLock R (tk_ID t)) w) in
                 case on_redis (q_Enqueue R (tk_ID t) (tk_Priority t)) w of
                   (w, Some err) \<Rightarrow> rehydrate_tasks c R T ts w
                 | (w, None) \<Rightarrow>
                     rehydrate_tasks c R T ts (fst (on_db (repo_UpdateStatus T (tk_ID t) TaskQueued None '''') w)))
            | (w, _) \<Rightarrow> rehydrate_tasks c R T ts w))"

definition rehydrateFromDB :: "TaskEngineConfig \<Rightarrow> 'r redis \<Rightarrow> 'd TaskRepository \<Rightarrow> ('r, 'd) world \<Rightarrow> ('r, 'd) world" where
  "rehydrateFromDB c R T w =
     (case repo_ListPending T (cfg_WorkerCount c * 2) (w_db w) of
        Inl err \<Rightarrow> w
      | Inr ts \<Rightarrow> rehydrate_tasks c R T ts w)"

text \<open>
  One round of the worker loop: \<open>stop\<close> tells whether the engine or its context has ended, \<open>wait_stop\<close>
  whether it ends during the wait after an error. The second component is \<open>True\<close> when the loop goes on.
\<close>

definition worker_round ::
  "TaskEngineConfig \<Rightarrow> 'r redis \<Rightarrow> 'd TaskRepository \<Rightarrow> (string \<rightharpoonup> ('r, 'd) handler) \<Rightarrow> bool \<Rightarrow> bool \<Rightarrow> select \<Rightarrow> int \<Rightarrow> int \<Rightarrow>
   ('r, 'd) world \<Rightarrow> (('r, 'd) world \<times> bool) option" where
  "worker_round c R T handlers stop wait_stop sel now completedAt w =
     (if stop then Some (w, False)
      else (case on_redis (Dequeue R) w of
              (w, Inl err) \<Rightarrow> Some (w, \<not> wait_stop)
            | (w, Inr taskID) \<Rightarrow>
                if taskID = '''' then Some (w, False)
                else map_option (\<lambda>w. (w, True)) (processTask c R T handlers sel now completedAt taskID w)))"


section \<open>What the engine guarantees\<close>

lemma on_redis_sel [simp]:
  "w_redis (fst (on_redis f w)) = fst (f (w_redis w))" "snd (on_redis f w) = snd (f (w_redis w))"
  "w_db (fst (on_redis f w)) = w_db w" "w_sem (fst (on_redis f w)) = w_sem w"
  "w_timers (fst (on_redis f w)) = w_timers w" "w_events (fst (on_redis f w)) = w_events w"
  "w_backpressure (fst (on_redis f w)) = w_backpressure w"
  by (simp_all add: on_redis_def split_beta)

lemma on_db_sel [simp]:
  "w_db (fst (on_db f w)) = fst (f (w_db w))" "snd (on_db f w) = snd (f (w_db w))"
  "w_redis (fst (on_db f w)) = w_redis w" "w_sem (fst (on_db f w)) = w_sem w"
  "w_timers (fst (on_db f w)) = w_timers w" "w_events (fst (on_db f w)) = w_events w"
  "w_backpressure (fst (on_db f w)) = w_backpressure w"
  by (simp_all add: on_db_def split_beta)

lemma publish_sel [simp]:
  "w_db (publish ev w) = w_db w" "w_redis (publish ev w) = w_redis w" "w_sem (publish ev w) = w_sem w"
  "w_timers (publish ev w) = w_timers w" "w_events (publish ev w) = w_events w @ [ev]"
  by (simp_all add: publish_def)

lemmas publish_defs = publishStatusEvent_def publishCancelled_def

text \<open>
  A well-behaved handler keeps the stores usable and tasks in place, and leaves the semaphores and the
  worker locks to the engine.
\<close>

definition good_handler ::
  "('r \<Rightarrow> bool) \<Rightarrow> ('r \<Rightarrow> string \<Rightarrow> string option) \<Rightarrow> ('d \<Rightarrow> bool) \<Rightarrow> ('d \<Rightarrow> string \<Rightarrow> Task option) \<Rightarrow>
   ('r, 'd) handler \<Rightarrow> bool" where
  "good_handler up strs avail task h \<longleftrightarrow>
     (\<forall>t w w' t' e. up (w_redis w) \<longrightarrow> avail (w_db w) \<longrightarrow> h t w = (w', t', e) \<longrightarrow>
        up (w_redis w') \<and> avail (w_db w') \<and> w_sem w' = w_sem w \<and>
        (\<forall>i. task (w_db w) i \<noteq> None \<longrightarrow> task (w_db w') i \<noteq> None))"

lemma good_handlerD:
  assumes "good_handler up strs avail task h" "h t w = (w', t', e)" "up (w_redis w)" "avail (w_db w)"
  shows "up (w_redis w') \<and> avail (w_db w') \<and> w_sem w' = w_sem w \<and>
    (\<forall>i. task (w_db w) i \<noteq> None \<longrightarrow> task (w_db w') i \<noteq> None)"
  using assms unfolding good_handler_def by blast

text \<open>The status the engine records for the outcome of a handler.\<close>

definition final_status :: "go_error option \<Rightarrow> Task \<Rightarrow> TaskStatus" where
  "final_status e t =
     (case e of None \<Rightarrow> TaskCompleted
      | Some err \<Rightarrow>
          if errors_Is err ErrTaskCancelled then TaskCancelled
          else if errors_Is err ErrTaskPermanentFailure then TaskFailed
          else if tk_RetryCount t + 1 < tk_MaxRetries t then TaskRetrying else TaskFailed)"

locale engine = redis_server R up lists strs + task_store T avail task
  for R :: "'r redis" and up lists strs and T :: "'d TaskRepository" and avail task +
  fixes c :: TaskEngineConfig
  assumes LockTTL: "0 < cfg_LockTTL c" and TaskTTL: "0 < cfg_TaskTTL c"
begin

lemma SetState_fst:
  assumes "up s"
  shows "up (fst (SetState R i f (cfg_TaskTTL c) s))"
    and "strs (fst (SetState R i f (cfg_TaskTTL c) s)) = strs s"
proof -
  obtain s1 where s1: "r_HSet R (keyState i) f s = (s1, None)" "up s1" "strs s1 = strs s"
    using HSet [OF assms] by metis
  obtain s2 where "r_Expire R (keyState i) (cfg_TaskTTL c) s1 = (s2, None)" "up s2" "strs s2 = strs s1"
    using Expire [OF s1(2) TaskTTL] by metis
  with s1 show "up (fst (SetState R i f (cfg_TaskTTL c) s))" "strs (fst (SetState R i f (cfg_TaskTTL c) s)) = strs s"
    by (simp_all add: SetState_def pipe2_def)
qed

lemma ClearCancel_fst:
  assumes "up s"
  shows "up (fst (ClearCancel R i s))" and "strs (fst (ClearCancel R i s)) = (strs s)(keyCancel i := None)"
  using Del [OF assms, of "keyCancel i"] by (auto simp: ClearCancel_def)

lemma Enqueue_fst:
  assumes "up s"
  shows "up (fst (q_Enqueue R i p s))" and "strs (fst (q_Enqueue R i p s)) = strs s"
  using LPush [OF assms, of "keyQueue (clamp_priority p)" "RStr i"] by (auto simp: q_Enqueue_def)

lemma ReleaseLock_fst:
  assumes "up s"
  shows "up (fst (ReleaseLock R i s))" and "strs (fst (ReleaseLock R i s)) = (strs s)(keyLock i := None)"
  using ReleaseLock_ready [OF assms, of i] by auto

lemma IsCancelled_eq: "up s \<Longrightarrow> q_IsCancelled R i s = (s, strs s (keyCancel i) \<noteq> None)"
  using Exists [of s "keyCancel i"] by (simp add: q_IsCancelled_def)

lemmas fst_rules = SetState_fst ClearCancel_fst Enqueue_fst ReleaseLock_fst UpdateStatus_fst UpdateProgress_fst

lemma AcquireLock_free:
  assumes "up s" "strs s (keyLock i) = None"
  obtains s' where "AcquireLock R i (cfg_LockTTL c) s = (s', Inr True)" "up s'" "lists s' = lists s"
    "strs s' = (strs s)(keyLock i \<mapsto> ''1'')"
  using AcquireLock_ready [OF assms(1) LockTTL, of i] assms(2) by auto

lemma post_execution_stores:
  assumes "up (w_redis w)" "avail (w_db w)"
  shows "up (w_redis (post_execution c R T i ca t e w)) \<and> avail (w_db (post_execution c R T i ca t e w)) \<and>
    w_sem (post_execution c R T i ca t e w) = w_sem w"
  using assms
  by (auto simp: post_execution_def Let_def publish_defs fst_rules split: option.splits)

lemma post_execution_status:
  assumes "avail (w_db w)" "task (w_db w) i = Some t0"
  shows "\<exists>t'. task (w_db (post_execution c R T i ca t e w)) i = Some t' \<and> tk_Status t' = final_status e t \<and>
    tk_RetryCount t' = tk_RetryCount t0"
  using assms
  by (auto simp: post_execution_def Let_def publish_defs fst_rules final_status_def set_status_def split: option.splits)

lemma post_execution_timers:
  "w_timers (post_execution c R T i ca t e w) = w_timers w @
     (if final_status e t = TaskRetrying
      then [(ca + Delay (DefaultBackoff (cfg_RetryBaseDelay c)) (tk_RetryCount t + 1), i, tk_Priority t)] else [])"
  by (auto simp: post_execution_def Let_def publish_defs final_status_def EnqueueDelayed_def split: option.splits)

lemma mark_running_stores:
  assumes "up (w_redis w)" "avail (w_db w)"
  shows "up (w_redis (mark_running c R T now i t w)) \<and> avail (w_db (mark_running c R T now i t w)) \<and>
    strs (w_redis (mark_running c R T now i t w)) = strs (w_redis w) \<and>
    w_sem (mark_running c R T now i t w) = w_sem w \<and> w_timers (mark_running c R T now i t w) = w_timers w \<and>
    task (w_db (mark_running c R T now i t w)) = (task (w_db w))(i := map_option (set_status TaskRunning None '''') (task (w_db w) i))"
  using assms by (simp add: mark_running_def Let_def publish_defs fst_rules)

lemma execute_task_stores:
  assumes "up (w_redis w)" "avail (w_db w)" "\<forall>h \<in> ran handlers. good_handler up strs avail task h"
  shows "up (w_redis (execute_task c R T handlers now ca i t w)) \<and>
    avail (w_db (execute_task c R T handlers now ca i t w)) \<and>
    w_sem (execute_task c R T handlers now ca i t w) = w_sem w"
proof (cases "handlers (tk_Type t)")
  case None
  then show ?thesis using assms mark_running_stores [OF assms(1,2)]
    by (simp add: execute_task_def Let_def publish_defs fst_rules)
next
  case (Some h)
  let ?w = "mark_running c R T now i (t\<lparr>tk_StartedAt := Some now\<rparr>) w"
  obtain w2 t2 e where h: "h (t\<lparr>tk_StartedAt := Some now\<rparr>) ?w = (w2, t2, e)" by (metis surj_pair)
  have "good_handler up strs avail task h" using Some assms(3) by (auto simp: ran_def)
  from good_handlerD [OF this h] have "up (w_redis w2)" "avail (w_db w2)" "w_sem w2 = w_sem w"
    using mark_running_stores [OF assms(1,2)] by auto
  then show ?thesis using Some h post_execution_stores by (simp add: execute_task_def Let_def)
qed

text \<open>\<open>processTask\<close> with the lock taken, in the three cases that follow.\<close>

lemma processTask_locked:
  assumes "up (w_redis w)" "strs (w_redis w) (keyLock i) \<noteq> None"
  shows "\<exists>r. processTask c R T handlers sel now ca i w = Some (w\<lparr>w_redis := r\<rparr>) \<and>
    strs r = strs (w_redis w) \<and> lists r = lists (w_redis w)"
  using AcquireLock_ready [OF assms(1) LockTTL, of i] assms(2) by (auto simp: processTask_def on_redis_def)

lemma processTask_missing:
  assumes "up (w_redis w)" "avail (w_db w)" "strs (w_redis w) (keyLock i) = None" "task (w_db w) i = None"
  shows "\<exists>w'. processTask c R T handlers sel now ca i w = Some w' \<and> strs (w_redis w') (keyLock i) = None \<and>
    w_db w' = w_db w \<and> w_sem w' = w_sem w \<and> w_timers w' = w_timers w"
proof -
  obtain r where r: "AcquireLock R i (cfg_LockTTL c) (w_redis w) = (r, Inr True)" "up r"
    using AcquireLock_free [OF assms(1,3)] by metis
  with GetByID_missing [OF assms(2,4)] show ?thesis
    by (auto simp: processTask_def on_redis_def [of "AcquireLock R i (cfg_LockTTL c)"] fst_rules)
qed

lemma processTask_precancelled:
  assumes "up (w_redis w)" "avail (w_db w)" "strs (w_redis w) (keyLock i) = None" "task (w_db w) i = Some t"
    "tk_Status t = TaskCancelled \<or> strs (w_redis w) (keyCancel i) \<noteq> None"
  shows "\<exists>w' t'. processTask c R T handlers sel now ca i w = Some w' \<and> task (w_db w') i = Some t' \<and>
    tk_Status t' = TaskCancelled \<and> strs (w_redis w') (keyLock i) = None \<and> strs (w_redis w') (keyCancel i) = None \<and>
    w_sem w' = w_sem w \<and> w_timers w' = w_timers w \<and>
    w_events w' = w_events w @ [TaskCancelledEvent (tk_ID t) (tk_Type t)]"
proof -
  obtain r where r: "AcquireLock R i (cfg_LockTTL c) (w_redis w) = (r, Inr True)" "up r"
    "strs r = (strs (w_redis w))(keyLock i \<mapsto> ''1'')"
    using AcquireLock_free [OF assms(1,3)] by metis
  let ?w1 = "w\<lparr>w_redis := r\<rparr>"
  have cancelled: "(if tk_Status t = TaskCancelled then (?w1, True) else on_redis (q_IsCancelled R i) ?w1) = (?w1, True)"
    using assms(5) r by (auto simp: on_redis_def IsCancelled_eq)
  show ?thesis using r GetByID [OF assms(2,4)] assms(2,4)
    by (auto simp: processTask_def on_redis_def [of "AcquireLock R i (cfg_LockTTL c)"] cancelled Let_def
        publish_defs fst_rules set_status_def)
qed

lemma processTask_run:
  assumes "up (w_redis w)" "avail (w_db w)" "strs (w_redis w) (keyLock i) = None" "task (w_db w) i = Some t"
    "tk_Status t \<noteq> TaskCancelled" "strs (w_redis w) (keyCancel i) = None"
    "Acquire (w_sem w) (case tk_HypervisorID t of Some h \<Rightarrow> h | None \<Rightarrow> '''') sel = Some (ps, Inr slot)"
  obtains r where "up r" "strs r = (strs (w_redis w))(keyLock i \<mapsto> ''1'')" "lists r = lists (w_redis w)"
    "processTask c R T handlers sel now ca i w =
      (let w1 = execute_task c R T handlers now ca i t (w\<lparr>w_redis := r, w_sem := ps\<rparr>)
       in map_option (\<lambda>ps. fst (on_redis (ReleaseLock R i) (w1\<lparr>w_sem := ps\<rparr>))) (release (w_sem w1) slot))"
proof -
  obtain r where r: "AcquireLock R i (cfg_LockTTL c) (w_redis w) = (r, Inr True)" "up r" "lists r = lists (w_redis w)"
    "strs r = (strs (w_redis w))(keyLock i \<mapsto> ''1'')"
    using AcquireLock_free [OF assms(1,3)] by metis
  have "on_redis (q_IsCancelled R i) (w\<lparr>w_redis := r\<rparr>) = (w\<lparr>w_redis := r\<rparr>, False)"
    using assms(6) r by (simp add: on_redis_def IsCancelled_eq)
  with r GetByID [OF assms(2,4)] assms(5,7) show ?thesis
    by (intro that [of r])
      (auto simp: processTask_def on_redis_def [of "AcquireLock R i (cfg_LockTTL c)"] Let_def option.map_comp comp_def)
qed

lemma Acquire_then_release:
  assumes "Acquire ps h sel = Some (ps', Inr slot)"
  obtains ps'' where "release ps' slot = Some ps''" "used ps'' = used ps"
  using Acquire_slot [OF assms] by (cases slot) (auto simp: fun_eq_iff)

lemma processTask_releases:
  assumes "up (w_redis w)" "avail (w_db w)" "strs (w_redis w) (keyLock i) = None"
    "\<forall>h \<in> ran handlers. good_handler up strs avail task h"
    "processTask c R T handlers sel now ca i w = Some w'"
  shows "strs (w_redis w') (keyLock i) = None \<and> used (w_sem w') = used (w_sem w)"
proof (cases "task (w_db w) i")
  case None
  with processTask_missing [OF assms(1-3) None, of handlers sel now ca] assms(5) show ?thesis by auto
next
  case (Some t)
  show ?thesis
  proof (cases "tk_Status t = TaskCancelled \<or> strs (w_redis w) (keyCancel i) \<noteq> None")
    case True
    with processTask_precancelled [OF assms(1-3) Some True, of handlers sel now ca] assms(5) show ?thesis by auto
  next
    case False
    obtain r where r: "AcquireLock R i (cfg_LockTTL c) (w_redis w) = (r, Inr True)" "up r"
      "strs r = (strs (w_redis w))(keyLock i \<mapsto> ''1'')"
      using AcquireLock_free [OF assms(1,3)] by metis
    have nc: "on_redis (q_IsCancelled R i) (w\<lparr>w_redis := r\<rparr>) = (w\<lparr>w_redis := r\<rparr>, False)"
      using False r by (simp add: on_redis_def IsCancelled_eq)
    show ?thesis
    proof (cases "Acquire (w_sem w) (case tk_HypervisorID t of Some h \<Rightarrow> h | None \<Rightarrow> '''') sel")
      case None
      with assms(5) r nc False GetByID [OF assms(2) Some] show ?thesis
        by (simp add: processTask_def on_redis_def [of "AcquireLock R i (cfg_LockTTL c)"])
    next
      case acq: (Some a)
      obtain ps res where a: "a = (ps, res)" by (cases a)
      show ?thesis
      proof (cases res)
        case (Inl err)
        with acq a assms(5) r nc False GetByID [OF assms(2) Some] Acquire_refused show ?thesis
          by (auto simp: processTask_def on_redis_def [of "AcquireLock R i (cfg_LockTTL c)"] fst_rules)
      next
        case (Inr slot)
        with acq a have A: "Acquire (w_sem w) (case tk_HypervisorID t of Some h \<Rightarrow> h | None \<Rightarrow> '''') sel = Some (ps, Inr slot)"
          by simp
        from False have nf: "tk_Status t \<noteq> TaskCancelled" "strs (w_redis w) (keyCancel i) = None" by auto
        obtain r where r: "up r" "processTask c R T handlers sel now ca i w =
            (let w1 = execute_task c R T handlers now ca i t (w\<lparr>w_redis := r, w_sem := ps\<rparr>)
             in map_option (\<lambda>ps. fst (on_redis (ReleaseLock R i) (w1\<lparr>w_sem := ps\<rparr>))) (release (w_sem w1) slot))"
          using processTask_run [OF assms(1-3) Some nf A] by metis
        obtain ps' where "release ps slot = Some ps'" "used ps' = used (w_sem w)"
          using Acquire_then_release [OF A] .
        with r execute_task_stores [of "w\<lparr>w_redis := r, w_sem := ps\<rparr>" handlers now ca i t] assms(2,4,5) show ?thesis
          by (auto simp: Let_def fst_rules)
      qed
    qed
  qed
qed

lemma processTask_status:
  assumes "up (w_redis w)" "avail (w_db w)" "strs (w_redis w) (keyLock i) = None" "task (w_db w) i = Some t"
    "tk_Status t \<noteq> TaskCancelled" "strs (w_redis w) (keyCancel i) = None"
    "Acquire (w_sem w) (case tk_HypervisorID t of Some g \<Rightarrow> g | None \<Rightarrow> '''') sel = Some (ps, Inr slot)"
    "handlers (tk_Type t) = Some h" "good_handler up strs avail task h"
  shows "\<exists>w1 w2 t1 t2 e w' t'. h (t\<lparr>tk_StartedAt := Some now\<rparr>) w1 = (w2, t2, e) \<and>
    w_timers w1 = w_timers w \<and> strs (w_redis w1) (keyLock i) \<noteq> None \<and> task (w_db w1) i = Some t1 \<and> tk_Status t1 = TaskRunning \<and>
    processTask c R T handlers sel now ca i w = Some w' \<and> task (w_db w') i = Some t' \<and>
    tk_Status t' = final_status e t2 \<and>
    w_timers w' = w_timers w2 @ (if final_status e t2 = TaskRetrying
      then [(ca + Delay (DefaultBackoff (cfg_RetryBaseDelay c)) (tk_RetryCount t2 + 1), i, tk_Priority t2)] else [])"
proof -
  obtain r where r: "up r" "strs r = (strs (w_redis w))(keyLock i \<mapsto> ''1'')"
    "processTask c R T handlers sel now ca i w =
      (let w1 = execute_task c R T handlers now ca i t (w\<lparr>w_redis := r, w_sem := ps\<rparr>)
       in map_option (\<lambda>ps. fst (on_redis (ReleaseLock R i) (w1\<lparr>w_sem := ps\<rparr>))) (release (w_sem w1) slot))"
    using processTask_run [OF assms(1-7)] by metis
  let ?t = "t\<lparr>tk_StartedAt := Some now\<rparr>"
  let ?w0 = "w\<lparr>w_redis := r, w_sem := ps\<rparr>"
  let ?w1 = "mark_running c R T now i ?t ?w0"
  obtain w2 t2 e where h: "h ?t ?w1 = (w2, t2, e)" by (metis surj_pair)
  have w1: "up (w_redis ?w1)" "avail (w_db ?w1)" "strs (w_redis ?w1) (keyLock i) \<noteq> None" "w_sem ?w1 = ps"
    "w_timers ?w1 = w_timers w"
    "task (w_db ?w1) i = Some (set_status TaskRunning None '''' t)"
    using mark_running_stores [of ?w0 now i ?t] r assms(2,4) by auto
  have w2: "up (w_redis w2)" "avail (w_db w2)" "w_sem w2 = ps" "task (w_db w2) i \<noteq> None"
    using good_handlerD [OF assms(9) h w1(1,2)] w1(4,6) by auto
  let ?w3 = "post_execution c R T i ca t2 e w2"
  have ex: "execute_task c R T handlers now ca i t ?w0 = ?w3"
    using assms(8) h by (simp add: execute_task_def Let_def)
  obtain ps' where ps': "release (w_sem ?w3) slot = Some ps'"
    using Acquire_then_release [OF assms(7)] post_execution_stores [OF w2(1,2)] w2(3) by metis
  obtain t0 where t0: "task (w_db w2) i = Some t0" using w2(4) by auto
  obtain t' where t': "task (w_db ?w3) i = Some t'" "tk_Status t' = final_status e t2"
    using post_execution_status [OF w2(2) t0, of ca t2 e] by auto
  show ?thesis using h w1 t' ps' r(3) ex post_execution_timers [of i ca t2 e w2]
    by (intro exI [of _ ?w1] exI [of _ w2] exI [of _ "set_status TaskRunning None '''' t"] exI [of _ t2] exI [of _ e]
        exI [of _ "fst (on_redis (ReleaseLock R i) (?w3\<lparr>w_sem := ps'\<rparr>))"] exI [of _ t'])
      (simp add: Let_def set_status_def)
qed

end

text \<open>A handler whose every run fails with the same transient error and has no other effect.\<close>

definition always_fails :: "go_error \<Rightarrow> ('r, 'd) handler" where
  "always_fails err t w = (w, t, Some err)"

definition transient :: "go_error \<Rightarrow> bool" where
  "transient err \<longleftrightarrow> \<not> errors_Is err ErrTaskCancelled \<and> \<not> errors_Is err ErrTaskPermanentFailure"

text \<open>The task processed again and again, as its retry timers bring it back.\<close>

fun attempts ::
  "TaskEngineConfig \<Rightarrow> 'r redis \<Rightarrow> 'd TaskRepository \<Rightarrow> (string \<rightharpoonup> ('r, 'd) handler) \<Rightarrow> nat \<Rightarrow> string \<Rightarrow>
   ('r, 'd) world \<Rightarrow> ('r, 'd) world option" where
  "attempts c R T handlers 0 i w = Some w"
| "attempts c R T handlers (Suc n) i w =
     (case processTask c R T handlers TakeSlot 0 0 i w of
        None \<Rightarrow> None | Some w' \<Rightarrow> attempts c R T handlers n i w')"

text \<open>The task \<open>i\<close> can be run, has been tried \<open>k\<close> times on record and may be tried \<open>m\<close> times.\<close>

definition runnable ::
  "('r \<Rightarrow> bool) \<Rightarrow> ('r \<Rightarrow> string \<Rightarrow> string option) \<Rightarrow> ('d \<Rightarrow> bool) \<Rightarrow> ('d \<Rightarrow> string \<Rightarrow> Task option) \<Rightarrow>
   string \<Rightarrow> int \<Rightarrow> int \<Rightarrow> string \<Rightarrow> ('r, 'd) world \<Rightarrow> bool" where
  "runnable up strs avail task ty k m i w \<longleftrightarrow> up (w_redis w) \<and> avail (w_db w) \<and> strs (w_redis w) (keyLock i) = None \<and>
     strs (w_redis w) (keyCancel i) = None \<and>
     (\<exists>t. task (w_db w) i = Some t \<and> tk_Status t \<noteq> TaskCancelled \<and> tk_Type t = ty \<and> tk_HypervisorID t = None \<and>
        tk_RetryCount t = k \<and> tk_MaxRetries t = m)"

context engine
begin

lemma failing_attempt:
  assumes "runnable up strs avail task ty k m i w" "k + 1 < m" "transient err" "handlers ty = Some (always_fails err)"
  shows "\<exists>w'. processTask c R T handlers TakeSlot now ca i w = Some w' \<and> runnable up strs avail task ty k m i w' \<and>
    (\<exists>t'. task (w_db w') i = Some t' \<and> tk_Status t' = TaskRetrying) \<and>
    (\<exists>p. w_timers w' = w_timers w @ [(ca + Delay (DefaultBackoff (cfg_RetryBaseDelay c)) (k + 1), i, p)])"
proof -
  obtain t where t: "task (w_db w) i = Some t" "tk_Status t \<noteq> TaskCancelled" "tk_Type t = ty"
    "tk_HypervisorID t = None" "tk_RetryCount t = k" "tk_MaxRetries t = m"
    and ok: "up (w_redis w)" "avail (w_db w)" "strs (w_redis w) (keyLock i) = None"
      "strs (w_redis w) (keyCancel i) = None"
    using assms(1) by (auto simp: runnable_def)
  have acq: "Acquire (w_sem w) (case tk_HypervisorID t of Some g \<Rightarrow> g | None \<Rightarrow> '''') TakeSlot = Some (w_sem w, Inr NoRelease)"
    using t by (simp add: Acquire_def)
  obtain r where r: "up r" "strs r = (strs (w_redis w))(keyLock i \<mapsto> ''1'')"
    "processTask c R T handlers TakeSlot now ca i w =
      (let w1 = execute_task c R T handlers now ca i t (w\<lparr>w_redis := r, w_sem := w_sem w\<rparr>)
       in map_option (\<lambda>ps. fst (on_redis (ReleaseLock R i) (w1\<lparr>w_sem := ps\<rparr>))) (release (w_sem w1) NoRelease))"
    using processTask_run [OF ok(1-3) t(1,2) ok(4) acq] by metis
  let ?t = "t\<lparr>tk_StartedAt := Some now\<rparr>"
  let ?w1 = "mark_running c R T now i ?t (w\<lparr>w_redis := r, w_sem := w_sem w\<rparr>)"
  have w1: "up (w_redis ?w1)" "avail (w_db ?w1)" "strs (w_redis ?w1) = strs r" "w_timers ?w1 = w_timers w"
    "task (w_db ?w1) i = Some (set_status TaskRunning None '''' t)"
    using mark_running_stores [of "w\<lparr>w_redis := r, w_sem := w_sem w\<rparr>" now i ?t] r ok t by auto
  have ex: "execute_task c R T handlers now ca i t (w\<lparr>w_redis := r, w_sem := w_sem w\<rparr>) =
      post_execution c R T i ca ?t (Some err) ?w1"
    using assms(4) t(3) by (simp add: execute_task_def Let_def always_fails_def)
  have post: "w_redis (post_execution c R T i ca ?t (Some err) ?w1) = w_redis ?w1"
    "avail (w_db (post_execution c R T i ca ?t (Some err) ?w1))"
    "task (w_db (post_execution c R T i ca ?t (Some err) ?w1)) i =
      Some (set_status TaskRetrying None (Error_text err) (set_status TaskRunning None '''' t))"
    using assms(2,3) t w1 by (auto simp: post_execution_def Let_def publish_defs transient_def fst_rules)
  have timers: "w_timers (post_execution c R T i ca ?t (Some err) ?w1) = w_timers w @
      [(ca + Delay (DefaultBackoff (cfg_RetryBaseDelay c)) (k + 1), i, tk_Priority t)]"
    using post_execution_timers [of i ca ?t "Some err" ?w1] assms(2,3) t w1(4)
    by (simp add: final_status_def transient_def)
  show ?thesis
    using r ex post timers w1 t ok
    by (auto simp: Let_def runnable_def fst_rules set_status_def)
qed

lemma retries_forever:
  assumes "runnable up strs avail task ty k m i w" "k + 1 < m" "transient err" "handlers ty = Some (always_fails err)"
  shows "\<exists>w'. attempts c R T handlers n i w = Some w' \<and> runnable up strs avail task ty k m i w' \<and>
    length (w_timers w') = length (w_timers w) + n \<and>
    (0 < n \<longrightarrow> (\<exists>t'. task (w_db w') i = Some t' \<and> tk_Status t' = TaskRetrying \<and> tk_RetryCount t' = k))"
  using assms(1)
proof (induction n arbitrary: w)
  case (Suc n)
  obtain w1 where w1: "processTask c R T handlers TakeSlot 0 0 i w = Some w1" "runnable up strs avail task ty k m i w1"
    "\<exists>t'. task (w_db w1) i = Some t' \<and> tk_Status t' = TaskRetrying" "length (w_timers w1) = Suc (length (w_timers w))"
    using failing_attempt [OF Suc.prems assms(2,3), of handlers 0 0] assms(4) by auto
  with Suc.IH [OF w1(2)] show ?case by (cases n) (auto simp: runnable_def)
qed simp

end

section \<open>Properties\<close>

definition sample_config :: TaskEngineConfig where
  "sample_config = config_defaults \<lparr>cfg_WorkerCount = 4, cfg_QueueSize = 0, cfg_MaxRetries = 3, cfg_RetryBaseDelay = 0,
     cfg_TaskTTL = 86400000000000, cfg_PollInterval = 0, cfg_LockTTL = 0, cfg_MaxLogEntries = 0, cfg_DefaultTimeout = 0\<rparr>"

definition sample_task :: Task where
  "sample_task = \<lparr>tk_ID = ''t1'', tk_CreatedAt = 0, tk_Deleted = False, tk_Type = ''vm.reboot'', tk_Status = TaskQueued,
     tk_Priority = 5, tk_Progress = 0, tk_Payload = [], tk_Result = None, tk_ErrorMessage = '''', tk_RetryCount = 0,
     tk_MaxRetries = 3, tk_StartedAt = None, tk_CompletedAt = None, tk_ScheduledAt = None, tk_TimeoutAt = None,
     tk_CreatedBy = None, tk_HypervisorID = None, tk_VMID = None, tk_ParentTaskID = None\<rparr>"

definition sample_world :: "(memory, task_table) world" where
  "sample_world = snd (NewEngine sample_config empty_memory \<lparr>tt_rows = [sample_task], tt_fault = None\<rparr>)"

interpretation default: engine memory_redis "\<lambda>_. True" m_lists m_strs TaskRepo "\<lambda>d. tt_fault d = None" row sample_config
  by unfold_locales (simp_all add: sample_config_def config_defaults_def)

lemma sample_world_sel:
  "w_db sample_world = \<lparr>tt_rows = [sample_task], tt_fault = None\<rparr>" "w_redis sample_world = empty_memory"
  "w_timers sample_world = []" "w_sem sample_world = newProviderSemaphore 3"
  by (simp_all add: sample_world_def NewEngine_def Let_def)

lemma sample_row: "row (w_db sample_world) ''t1'' = Some sample_task"
  by (simp add: sample_world_sel row_def live_def sample_task_def)

lemma good_always_fails: "good_handler up strs avail task (always_fails err)"
  by (simp add: good_handler_def always_fails_def)

text \<open>
  C10. Processing a task that is ready calls its handler once, in a world in which this worker holds the
  task's lock and the task is marked running, and then records the status that belongs to the handler's
  outcome: completed without an error, cancelled or failed for the two distinguished errors, retrying
  while the retry count is below the maximum and failed otherwise. Exactly in the retrying case one
  timer is armed, with the backoff delay of the new retry count.
\<close>

theorem processTask_records_outcome:
  assumes "engine R up lst strs T avail task c" "up (w_redis w)" "avail (w_db w)" "strs (w_redis w) (keyLock i) = None"
    "task (w_db w) i = Some t" "tk_Status t \<noteq> TaskCancelled" "strs (w_redis w) (keyCancel i) = None"
    "Acquire (w_sem w) (case tk_HypervisorID t of Some g \<Rightarrow> g | None \<Rightarrow> '''') sel = Some (ps, Inr slot)"
    "handlers (tk_Type t) = Some h" "good_handler up strs avail task h"
  shows "\<exists>w1 w2 t1 t2 e w' t'. h (t\<lparr>tk_StartedAt := Some now\<rparr>) w1 = (w2, t2, e) \<and>
    w_timers w1 = w_timers w \<and> strs (w_redis w1) (keyLock i) \<noteq> None \<and> task (w_db w1) i = Some t1 \<and> tk_Status t1 = TaskRunning \<and>
    processTask c R T handlers sel now ca i w = Some w' \<and> task (w_db w') i = Some t' \<and>
    tk_Status t' = final_status e t2 \<and>
    w_timers w' = w_timers w2 @ (if final_status e t2 = TaskRetrying
      then [(ca + Delay (DefaultBackoff (cfg_RetryBaseDelay c)) (tk_RetryCount t2 + 1), i, tk_Priority t2)] else [])"
  by (rule engine.processTask_status [where handlers = handlers and h = h, OF assms])

theorem processTask_records_outcome_witness:
  "\<exists>w' t'. processTask sample_config memory_redis TaskRepo [''vm.reboot'' \<mapsto> \<lambda>t w. (w, t, None)] TakeSlot 1 2 ''t1'' sample_world = Some w' \<and>
     row (w_db w') ''t1'' = Some t' \<and> tk_Status t' = TaskCompleted \<and> w_timers w' = []"
proof -
  let ?h = "\<lambda>t w. (w, t, None) :: (memory, task_table) world \<times> Task \<times> go_error option"
  have good: "good_handler (\<lambda>_. True) m_strs (\<lambda>d. tt_fault d = None) row ?h" by (simp add: good_handler_def)
  have acq: "Acquire (w_sem sample_world) (case tk_HypervisorID sample_task of Some g \<Rightarrow> g | None \<Rightarrow> '''') TakeSlot
      = Some (w_sem sample_world, Inr NoRelease)" by (simp add: Acquire_def sample_task_def)
  have pre: "tt_fault (w_db sample_world) = None" "m_strs (w_redis sample_world) (keyLock ''t1'') = None"
    "tk_Status sample_task \<noteq> TaskCancelled" "m_strs (w_redis sample_world) (keyCancel ''t1'') = None"
    "[''vm.reboot'' \<mapsto> ?h] (tk_Type sample_task) = Some ?h"
    by (simp_all add: sample_world_sel empty_memory_def sample_task_def)
  have "\<exists>w1 w2 t1 t2 e w' t'. ?h (sample_task\<lparr>tk_StartedAt := Some 1\<rparr>) w1 = (w2, t2, e) \<and>
    w_timers w1 = w_timers sample_world \<and> m_strs (w_redis w1) (keyLock ''t1'') \<noteq> None \<and> row (w_db w1) ''t1'' = Some t1 \<and> tk_Status t1 = TaskRunning \<and>
    processTask sample_config memory_redis TaskRepo [''vm.reboot'' \<mapsto> ?h] TakeSlot 1 2 ''t1'' sample_world = Some w' \<and>
    row (w_db w') ''t1'' = Some t' \<and> tk_Status t' = final_status e t2 \<and>
    w_timers w' = w_timers w2 @ (if final_status e t2 = TaskRetrying
      then [(2 + Delay (DefaultBackoff (cfg_RetryBaseDelay sample_config)) (tk_RetryCount t2 + 1), ''t1'', tk_Priority t2)] else [])"
    by (rule processTask_records_outcome [where w = sample_world and h = ?h and handlers = "[''vm.reboot'' \<mapsto> ?h]", OF default.engine_axioms _ pre(1,2) sample_row
        pre(3,4) acq pre(5) good]) simp
  then show ?thesis by (auto simp: final_status_def sample_world_sel)
qed



text \<open>
  While the lock of a task is held, another worker that takes the same task from the queue leaves
  the task, its timers, the events, the semaphores and the contents of Redis as they are: no handler
  runs twice at the same time.
\<close>

theorem processTask_skips_locked:
  assumes "engine R up lst strs T avail task c" "up (w_redis w)" "strs (w_redis w) (keyLock i) \<noteq> None"
  shows "\<exists>r. processTask c R T handlers sel now ca i w = Some (w\<lparr>w_redis := r\<rparr>) \<and>
    strs r = strs (w_redis w) \<and> lst r = lst (w_redis w)"
  by (rule engine.processTask_locked [OF assms])

theorem processTask_skips_locked_witness:
  "\<exists>r. processTask sample_config memory_redis TaskRepo Map.empty TakeSlot 1 2 ''t1''
      (sample_world\<lparr>w_redis := empty_memory\<lparr>m_strs := [keyLock ''t1'' \<mapsto> ''1'']\<rparr>\<rparr>) = Some (sample_world\<lparr>w_redis := r\<rparr>)"
  using processTask_skips_locked [OF default.engine_axioms,
      of "sample_world\<lparr>w_redis := empty_memory\<lparr>m_strs := [keyLock ''t1'' \<mapsto> ''1'']\<rparr>\<rparr>" "''t1''" Map.empty TakeSlot 1 2] by auto

text \<open>
  A task whose cancellation was requested before a worker took it never runs: its status becomes
  cancelled, the request and the lock are removed, one cancellation event is published.
\<close>

theorem processTask_cancelled_before_run:
  assumes "engine R up lst strs T avail task c" "up (w_redis w)" "avail (w_db w)" "strs (w_redis w) (keyLock i) = None"
    "task (w_db w) i = Some t" "tk_Status t = TaskCancelled \<or> strs (w_redis w) (keyCancel i) \<noteq> None"
  shows "\<exists>w' t'. processTask c R T handlers sel now ca i w = Some w' \<and> task (w_db w') i = Some t' \<and>
    tk_Status t' = TaskCancelled \<and> strs (w_redis w') (keyLock i) = None \<and> strs (w_redis w') (keyCancel i) = None \<and>
    w_sem w' = w_sem w \<and> w_timers w' = w_timers w \<and>
    w_events w' = w_events w @ [TaskCancelledEvent (tk_ID t) (tk_Type t)]"
  by (rule engine.processTask_precancelled [OF assms])

theorem processTask_cancelled_before_run_witness:
  "\<exists>w' t'. processTask sample_config memory_redis TaskRepo Map.empty TakeSlot 1 2 ''t1''
      (sample_world\<lparr>w_redis := empty_memory\<lparr>m_strs := [keyCancel ''t1'' \<mapsto> ''1'']\<rparr>\<rparr>) = Some w' \<and>
     row (w_db w') ''t1'' = Some t' \<and> tk_Status t' = TaskCancelled"
  using processTask_cancelled_before_run [OF default.engine_axioms,
      of "sample_world\<lparr>w_redis := empty_memory\<lparr>m_strs := [keyCancel ''t1'' \<mapsto> ''1'']\<rparr>\<rparr>" "''t1''" sample_task Map.empty TakeSlot 1 2]
    sample_row by (auto simp: sample_world_sel)



end
