(* ===== verification/RateLimit.thy ===== *)
theory RateLimit
  imports ProviderCore
begin

text \<open>
  Rate limiting, circuit breaking and request deduplication of the HTTP layer
  (\<^verbatim>\<open>internal/api/middleware/ratelimit.go\<close>). Times are nanoseconds since the Unix epoch and
  arguments of the operations. A middleware either passes the request on or aborts it with a status
  code, an error text and the number of seconds to wait; the headers it sets are part of the result.
  The counter of the Redis limiter (\<^verbatim>\<open>INCR\<close>) is a parameter.
\<close>

section \<open>Limiters\<close>

record RateLimitConfig =
  GlobalRPM :: int
  IPRequestsPerMinute :: int
  UserRequestsPerMinute :: int
  ProviderOpsPerMinute :: int
  BurstMultiplier :: int

definition DefaultRateLimitConfig :: RateLimitConfig where
  "DefaultRateLimitConfig = \<lparr>GlobalRPM = 6000, IPRequestsPerMinute = 300, UserRequestsPerMinute = 600,
     ProviderOpsPerMinute = 30, BurstMultiplier = 2\<rparr>"

text \<open>\<^verbatim>\<open>time.Truncate\<close> rounds down to a multiple of the duration since the start of year one.\<close>

definition Truncate :: "int \<Rightarrow> int \<Rightarrow> int" where
  "Truncate now d = (if d \<le> 0 then now else now - (now + 62135596800000000000) mod d)"

definition Unix :: "int \<Rightarrow> int" where
  "Unix t = t div 1000000000"

text \<open>
  \<open>incr\<close> stands for the pipeline of \<^verbatim>\<open>INCR\<close> and \<^verbatim>\<open>EXPIRE\<close>: the new count, or its error.
\<close>

definition redis_Allow ::
  "(string \<Rightarrow> int \<Rightarrow> 'r \<Rightarrow> 'r \<times> (go_error + int)) \<Rightarrow> int \<Rightarrow> string \<Rightarrow> int \<Rightarrow> int \<Rightarrow> 'r \<Rightarrow> 'r \<times> bool \<times> int \<times> int \<times> go_error option" where
  "redis_Allow incr now key limit window r =
     (let windowKey = ''rl:'' @ key @ '':'' @ Itoa (Unix (Truncate now window));
          resetAt = Truncate now window + window
      in case incr windowKey (window + 1000000000) r of
           (r, Inl err) \<Rightarrow> (r, True, 0, resetAt, Some err)
         | (r, Inr cnt) \<Rightarrow> (r, cnt \<le> limit, cnt, resetAt, None))"

record memBucket =
  mb_count :: int
  mb_resetAt :: int

type_synonym memRateLimiter = "string \<rightharpoonup> memBucket"

definition newMemRateLimiter :: memRateLimiter where
  "newMemRateLimiter = Map.empty"

definition mem_cleanup :: "memRateLimiter \<Rightarrow> int \<Rightarrow> memRateLimiter" where
  "mem_cleanup m now = (\<lambda>k. case m k of None \<Rightarrow> None | Some b \<Rightarrow> if now > mb_resetAt b then None else Some b)"

definition mem_Allow :: "memRateLimiter \<Rightarrow> int \<Rightarrow> string \<Rightarrow> int \<Rightarrow> int \<Rightarrow> memRateLimiter \<times> bool \<times> int \<times> int" where
  "mem_Allow m now key limit window =
     (let b = (case m key of
                 None \<Rightarrow> \<lparr>mb_count = 0, mb_resetAt = now + window\<rparr>
               | Some b \<Rightarrow> if now > mb_resetAt b then \<lparr>mb_count = 0, mb_resetAt = now + window\<rparr> else b);
          b = b\<lparr>mb_count := mb_count b + 1\<rparr>
      in (m(key \<mapsto> b), mb_count b \<le> limit, mb_count b, mb_resetAt b))"

section \<open>Middleware\<close>

record rl_headers =
  h_Limit :: int
  h_Remaining :: int
  h_Reset :: int

datatype verdict = Pass | Abort int string int

definition go_max :: "int \<Rightarrow> int \<Rightarrow> int" where
  "go_max a b = (if a > b then a else b)"

definition retry_after :: "int \<Rightarrow> int \<Rightarrow> int" where
  "retry_after resetAt now = go_div (resetAt - now) 1000000000 + 1"

definition limited :: "int \<Rightarrow> string \<Rightarrow> int \<Rightarrow> bool \<times> int \<times> int \<Rightarrow> rl_headers option \<times> verdict" where
  "limited limit error now res =
     (case res of (allowed, cnt, resetAt) \<Rightarrow>
        (Some \<lparr>h_Limit = limit, h_Remaining = go_max 0 (limit - cnt), h_Reset = Unix resetAt\<rparr>,
         if allowed then Pass else Abort 429 error (retry_after resetAt now)))"

definition mem_limit :: "string \<Rightarrow> string \<Rightarrow> int \<Rightarrow> memRateLimiter \<Rightarrow> int \<Rightarrow> memRateLimiter \<times> rl_headers option \<times> verdict" where
  "mem_limit key error rpm m now =
     (case mem_Allow m now key rpm 60000000000 of (m, res) \<Rightarrow> (m, limited rpm error now res))"

definition GlobalRateLimit :: "int \<Rightarrow> memRateLimiter \<Rightarrow> int \<Rightarrow> memRateLimiter \<times> rl_headers option \<times> verdict" where
  "GlobalRateLimit rpm = mem_limit ''global'' ''global rate limit exceeded'' rpm"

definition IPRateLimit :: "int \<Rightarrow> string \<Rightarrow> memRateLimiter \<Rightarrow> int \<Rightarrow> memRateLimiter \<times> rl_headers option \<times> verdict" where
  "IPRateLimit rpm ip = mem_limit (''ip:'' @ ip) ''rate limit exceeded'' rpm"

definition UserRateLimit :: "int \<Rightarrow> string \<Rightarrow> memRateLimiter \<Rightarrow> int \<Rightarrow> memRateLimiter \<times> rl_headers option \<times> verdict" where
  "UserRateLimit rpm userID m now =
     (if userID = '''' then (m, None, Pass)
      else mem_limit (''user:'' @ userID) ''user rate limit exceeded'' rpm m now)"

definition ProviderRateLimit :: "int \<Rightarrow> string \<Rightarrow> memRateLimiter \<Rightarrow> int \<Rightarrow> memRateLimiter \<times> rl_headers option \<times> verdict" where
  "ProviderRateLimit rpm hypervisorID m now =
     (if hypervisorID = '''' then (m, None, Pass)
      else mem_limit (''provider:'' @ hypervisorID)
             (''provider rate limit exceeded '' @ em_dash @ '' too many operations on this hypervisor'') rpm m now)"

definition RedisRateLimit ::
  "(string \<Rightarrow> int \<Rightarrow> 'r \<Rightarrow> 'r \<times> (go_error + int)) \<Rightarrow> int \<Rightarrow> int \<Rightarrow> string \<Rightarrow> 'r \<times> memRateLimiter \<Rightarrow> int \<Rightarrow>
   ('r \<times> memRateLimiter) \<times> rl_headers option \<times> verdict" where
  "RedisRateLimit incr limit window key s now =
     (if key = '''' then (s, None, Pass)
      else (case redis_Allow incr now key limit window (fst s) of
              (r, allowed, cnt, resetAt, err) \<Rightarrow>
                (case err of
                   Some _ \<Rightarrow> (case mem_Allow (snd s) now key limit window of
                               (m, res) \<Rightarrow> ((r, m), limited limit ''rate limit exceeded'' now res))
                 | None \<Rightarrow> ((r, snd s), limited limit ''rate limit exceeded'' now (allowed, cnt, resetAt)))))"

section \<open>Circuit breaker\<close>

datatype CircuitState = CircuitClosed | CircuitOpen | CircuitHalfOpen

record CircuitBreaker =
  cb_state :: CircuitState
  cb_failures :: int
  cb_lastFailure :: int
  cb_maxFailures :: int
  cb_resetTimeout :: int

text \<open>The zero time stands long before every clock reading; its value does not matter while closed.\<close>

definition NewCircuitBreaker :: "int \<Rightarrow> int \<Rightarrow> CircuitBreaker" where
  "NewCircuitBreaker maxFailures resetTimeout =
     \<lparr>cb_state = CircuitClosed, cb_failures = 0, cb_lastFailure = - 62135596800000000000,
      cb_maxFailures = maxFailures, cb_resetTimeout = resetTimeout\<rparr>"

definition cb_Allow :: "CircuitBreaker \<Rightarrow> int \<Rightarrow> CircuitBreaker \<times> bool" where
  "cb_Allow cb now =
     (case cb_state cb of
        CircuitClosed \<Rightarrow> (cb, True)
      | CircuitOpen \<Rightarrow>
          if now - cb_lastFailure cb > cb_resetTimeout cb then (cb\<lparr>cb_state := CircuitHalfOpen\<rparr>, True)
          else (cb, False)
      | CircuitHalfOpen \<Rightarrow> (cb, True))"

definition cb_RecordSuccess :: "CircuitBreaker \<Rightarrow> CircuitBreaker" where
  "cb_RecordSuccess cb = cb\<lparr>cb_failures := 0, cb_state := CircuitClosed\<rparr>"

definition cb_RecordFailure :: "CircuitBreaker \<Rightarrow> int \<Rightarrow> CircuitBreaker" where
  "cb_RecordFailure cb now =
     (let cb = cb\<lparr>cb_failures := cb_failures cb + 1, cb_lastFailure := now\<rparr>
      in if cb_failures cb \<ge> cb_maxFailures cb then cb\<lparr>cb_state := CircuitOpen\<rparr> else cb)"

definition GetCircuitBreaker :: "(string \<rightharpoonup> CircuitBreaker) \<Rightarrow> string \<Rightarrow> (string \<rightharpoonup> CircuitBreaker) \<times> CircuitBreaker" where
  "GetCircuitBreaker reg h =
     (case reg h of
        Some cb \<Rightarrow> (reg, cb)
      | None \<Rightarrow> (let cb = NewCircuitBreaker 5 60000000000 in (reg(h \<mapsto> cb), cb)))"

definition ProviderCircuitBreaker :: "(string \<rightharpoonup> CircuitBreaker) \<Rightarrow> string \<Rightarrow> int \<Rightarrow> (string \<rightharpoonup> CircuitBreaker) \<times> verdict" where
  "ProviderCircuitBreaker reg h now =
     (if h = '''' then (reg, Pass)
      else (case GetCircuitBreaker reg h of (reg, cb) \<Rightarrow>
              case cb_Allow cb now of (cb, ok) \<Rightarrow>
                (reg(h \<mapsto> cb),
                 if ok then Pass
                 else Abort 503 (''provider circuit breaker open '' @ em_dash @ '' too many recent failures, please retry later'') 60)))"

section \<open>Deduplication of synchronisation requests\<close>

text \<open>
  The markers and the timers that will remove them. A request is admitted or refused when it arrives;
  when an admitted one has been served its timer is armed.
\<close>

record sync_dedup =
  sd_inflight :: "string \<rightharpoonup> int"
  sd_timers :: "(int \<times> string) list"

definition DeduplicateSync :: "sync_dedup \<Rightarrow> string \<Rightarrow> int \<Rightarrow> sync_dedup \<times> verdict" where
  "DeduplicateSync s h now =
     (if h = '''' then (s, Pass)
      else if (case sd_inflight s h of Some t0 \<Rightarrow> now - t0 < 10000000000 | None \<Rightarrow> False)
      then (s, Abort 409 (''a sync is already in progress for this hypervisor '' @ em_dash @ '' please wait before triggering another'') 10)
      else (s\<lparr>sd_inflight := (sd_inflight s)(h \<mapsto> now)\<rparr>, Pass))"

definition sync_served :: "sync_dedup \<Rightarrow> string \<Rightarrow> int \<Rightarrow> sync_dedup" where
  "sync_served s h now = (if h = '''' then s else s\<lparr>sd_timers := sd_timers s @ [(now + 10000000000, h)]\<rparr>)"

fun remove_markers :: "(int \<times> string) list \<Rightarrow> (string \<rightharpoonup> int) \<Rightarrow> (string \<rightharpoonup> int)" where
  "remove_markers [] m = m"
| "remove_markers ((due, h) # ts) m = remove_markers ts (m(h := None))"

definition sync_timers_due :: "sync_dedup \<Rightarrow> int \<Rightarrow> sync_dedup" where
  "sync_timers_due s now =
     \<lparr>sd_inflight = remove_markers (filter (\<lambda>x. fst x \<le> now) (sd_timers s)) (sd_inflight s),
      sd_timers = filter (\<lambda>x. \<not> fst x \<le> now) (sd_timers s)\<rparr>"


section \<open>What the limiter guarantees\<close>

text \<open>The requests seen by one limiter, all with the same limit and window, and its clean-up ticks.\<close>

datatype rl_op = Req int string | Cleanup int

fun rl_time :: "rl_op \<Rightarrow> int" where
  "rl_time (Req now k) = now"
| "rl_time (Cleanup now) = now"

fun rl_step :: "int \<Rightarrow> int \<Rightarrow> memRateLimiter \<Rightarrow> rl_op \<Rightarrow> memRateLimiter" where
  "rl_step limit window m (Req now k) = fst (mem_Allow m now k limit window)"
| "rl_step limit window m (Cleanup now) = mem_cleanup m now"

text \<open>The times at which requests of the key \<open>k\<close> were allowed.\<close>

fun allowed_at :: "int \<Rightarrow> int \<Rightarrow> string \<Rightarrow> memRateLimiter \<Rightarrow> rl_op list \<Rightarrow> int list" where
  "allowed_at limit window k m [] = []"
| "allowed_at limit window k m (x # xs) =
     (case x of
        Req now j \<Rightarrow> if j = k \<and> fst (snd (mem_Allow m now j limit window))
                     then now # allowed_at limit window k (rl_step limit window m x) xs
                     else allowed_at limit window k (rl_step limit window m x) xs
      | Cleanup now \<Rightarrow> allowed_at limit window k (rl_step limit window m x) xs)"

fun requests_at :: "string \<Rightarrow> rl_op list \<Rightarrow> int list" where
  "requests_at k [] = []"
| "requests_at k (Req now j # xs) = (if j = k then now # requests_at k xs else requests_at k xs)"
| "requests_at k (Cleanup now # xs) = requests_at k xs"

definition upto_time :: "int \<Rightarrow> int list \<Rightarrow> nat" where
  "upto_time B ts = length (filter (\<lambda>t. t \<le> B) ts)"

lemma upto_time_simps [simp]:
  "upto_time B [] = 0" "upto_time B (t # ts) = (if t \<le> B then Suc (upto_time B ts) else upto_time B ts)"
  by (simp_all add: upto_time_def)

lemma mem_Allow_live:
  assumes "m k = Some b" "now \<le> mb_resetAt b"
  shows "mem_Allow m now k limit window = (m(k \<mapsto> b\<lparr>mb_count := mb_count b + 1\<rparr>), mb_count b + 1 \<le> limit, mb_count b + 1, mb_resetAt b)"
  using assms by (simp add: mem_Allow_def)

lemma mem_Allow_fresh:
  assumes "m k = None \<or> (\<exists>b. m k = Some b \<and> now > mb_resetAt b)"
  shows "mem_Allow m now k limit window = (m(k \<mapsto> \<lparr>mb_count = 1, mb_resetAt = now + window\<rparr>), 1 \<le> limit, 1, now + window)"
  using assms by (auto simp: mem_Allow_def)

lemma mem_Allow_other: "j \<noteq> k \<Longrightarrow> fst (mem_Allow m now j limit window) k = m k"
  by (simp add: mem_Allow_def Let_def)

lemma sorted_times_Cons:
  "sorted (map rl_time (x # xs)) \<Longrightarrow> sorted (map rl_time xs) \<and> (\<forall>y \<in> set xs. rl_time x \<le> rl_time y)"
  by simp

lemma upto_time_late: "\<forall>y \<in> set xs. B < rl_time y \<Longrightarrow> upto_time B (allowed_at limit window k m xs) = 0"
  by (induction xs arbitrary: m) (auto split: rl_op.splits)

text \<open>One step of the count of allowed requests up to a time.\<close>

lemma allowed_step:
  "upto_time B (allowed_at limit window k m (x # xs)) =
     (case x of Req now j \<Rightarrow> (if j = k \<and> now \<le> B \<and> fst (snd (mem_Allow m now k limit window)) then 1 else 0) | Cleanup now \<Rightarrow> 0)
     + upto_time B (allowed_at limit window k (rl_step limit window m x) xs)"
  by (auto split: rl_op.splits)

lemma step_other: "(\<forall>now. x \<noteq> Req now k) \<Longrightarrow> rl_step limit window m x k =
    (case m k of None \<Rightarrow> None | Some b \<Rightarrow> (case x of Cleanup now \<Rightarrow> if now > mb_resetAt b then None else Some b | _ \<Rightarrow> Some b))"
  by (cases x) (auto simp: mem_Allow_other mem_cleanup_def split: option.splits)

text \<open>Within the life of a bucket: at most what is left of the limit.\<close>

lemma bucket_bound:
  assumes "m k = Some b" "B \<le> mb_resetAt b" "sorted (map rl_time xs)"
  shows "upto_time B (allowed_at limit window k m xs) \<le> nat (limit - mb_count b)"
  using assms
proof (induction xs arbitrary: m b)
  case (Cons x xs)
  show ?case
  proof (cases "rl_time x \<le> B")
    case False
    then show ?thesis using Cons.prems(3) upto_time_late [of "x # xs" B] by fastforce
  next
    case early: True
    show ?thesis
    proof (cases "\<exists>now. x = Req now k")
      case True
      with early Cons.prems Cons.IH [of "m(k \<mapsto> b\<lparr>mb_count := mb_count b + 1\<rparr>)" "b\<lparr>mb_count := mb_count b + 1\<rparr>"]
      show ?thesis by (auto simp: allowed_step mem_Allow_live fun_upd_same simp del: allowed_at.simps fun_upd_apply)
    next
      case False
      then have "rl_step limit window m x k = Some b"
        using early Cons.prems step_other [of x k limit window m] by (auto split: rl_op.splits)
      with False Cons.prems Cons.IH [of "rl_step limit window m x" b] show ?thesis
        by (auto simp: allowed_step simp del: allowed_at.simps split: rl_op.splits)
    qed
  qed
qed simp

text \<open>With no live bucket, one window after the next request at the earliest.\<close>

lemma fresh_bound:
  assumes "m k = None \<or> (\<exists>b. m k = Some b \<and> mb_resetAt b < s)" "\<forall>y \<in> set xs. s \<le> rl_time y" "B \<le> s + window"
    "sorted (map rl_time xs)"
  shows "upto_time B (allowed_at limit window k m xs) \<le> nat limit"
  using assms
proof (induction xs arbitrary: m)
  case (Cons x xs)
  show ?case
  proof (cases "\<exists>now. x = Req now k")
    case True
    then obtain now where now: "x = Req now k" by blast
    have "mem_Allow m now k limit window = (m(k \<mapsto> \<lparr>mb_count = 1, mb_resetAt = now + window\<rparr>), 1 \<le> limit, 1, now + window)"
      using Cons.prems(1,2) now by (intro mem_Allow_fresh) auto
    with now Cons.prems bucket_bound [of "m(k \<mapsto> \<lparr>mb_count = 1, mb_resetAt = now + window\<rparr>)" k
        "\<lparr>mb_count = 1, mb_resetAt = now + window\<rparr>" B xs limit window]
    show ?thesis by (auto simp: allowed_step fun_upd_same simp del: allowed_at.simps fun_upd_apply)
  next
    case False
    then have "rl_step limit window m x k = None \<or> (\<exists>b. rl_step limit window m x k = Some b \<and> mb_resetAt b < s)"
      using Cons.prems(1) step_other [of x k limit window m] by (auto split: rl_op.splits)
    with False Cons.prems Cons.IH [of "rl_step limit window m x"] show ?thesis
      by (auto simp: allowed_step simp del: allowed_at.simps split: rl_op.splits)
  qed
qed simp

text \<open>A bucket and the one that follows it.\<close>

lemma two_bound:
  assumes "m k = Some b" "B \<le> mb_resetAt b + window" "sorted (map rl_time xs)"
  shows "upto_time B (allowed_at limit window k m xs) \<le> nat (limit - mb_count b) + nat limit"
  using assms
proof (induction xs arbitrary: m b)
  case (Cons x xs)
  show ?case
  proof (cases "rl_time x \<le> mb_resetAt b")
    case False
    then have "upto_time B (allowed_at limit window k m (x # xs)) \<le> nat limit"
      using Cons.prems by (intro fresh_bound [where s = "rl_time x"]) auto
    then show ?thesis by simp
  next
    case early: True
    show ?thesis
    proof (cases "\<exists>now. x = Req now k")
      case True
      with early Cons.prems Cons.IH [of "m(k \<mapsto> b\<lparr>mb_count := mb_count b + 1\<rparr>)" "b\<lparr>mb_count := mb_count b + 1\<rparr>"]
      show ?thesis by (auto simp: allowed_step mem_Allow_live fun_upd_same simp del: allowed_at.simps fun_upd_apply)
    next
      case False
      then have "rl_step limit window m x k = Some b"
        using early Cons.prems step_other [of x k limit window m] by (auto split: rl_op.splits)
      with False Cons.prems Cons.IH [of "rl_step limit window m x" b] show ?thesis
        by (auto simp: allowed_step simp del: allowed_at.simps split: rl_op.splits)
    qed
  qed
qed simp

lemma any_bound:
  assumes "\<And>b. m k = Some b \<Longrightarrow> 1 \<le> mb_count b" "\<forall>y \<in> set xs. s \<le> rl_time y" "B \<le> s + window" "sorted (map rl_time xs)"
  shows "upto_time B (allowed_at limit window k m xs) \<le> nat limit + nat (limit - 1)"
proof (cases "m k")
  case None
  with fresh_bound [of m k s xs B window limit] assms show ?thesis by auto
next
  case (Some b)
  show ?thesis
  proof (cases "mb_resetAt b < s")
    case True
    with Some fresh_bound [of m k s xs B window limit] assms show ?thesis by auto
  next
    case False
    with Some two_bound [of m k b B window xs limit] assms assms(1) [OF Some] show ?thesis by auto
  qed
qed

lemma rl_count_pos:
  "(\<forall>k b. m k = Some b \<longrightarrow> 1 \<le> mb_count b) \<Longrightarrow> run (rl_step limit window) m xs k = Some b \<Longrightarrow> 1 \<le> mb_count b"
proof (induction xs arbitrary: m)
  case (Cons x xs)
  have "\<forall>k b. rl_step limit window m x k = Some b \<longrightarrow> 1 \<le> mb_count b"
    using Cons.prems(1)
    by (cases x) (force simp: mem_Allow_def mem_cleanup_def Let_def split: option.splits if_splits)+
  with Cons show ?case by simp
qed simp

lemma allowed_at_append:
  "allowed_at limit window k m (xs @ ys) =
     allowed_at limit window k m xs @ allowed_at limit window k (run (rl_step limit window) m xs) ys"
  by (induction xs arbitrary: m) (auto split: rl_op.splits)

lemma allowed_at_times: "t \<in> set (allowed_at limit window k m xs) \<Longrightarrow> Req t k \<in> set xs"
  by (induction xs arbitrary: m) (auto split: rl_op.splits if_splits)

text \<open>A bucket counts requests of its key since it was opened.\<close>

lemma bucket_counts_requests:
  assumes "run (rl_step limit window) Map.empty xs k = Some b" "sorted (map rl_time xs)"
  shows "mb_count b \<le> int (length (filter (\<lambda>t. mb_resetAt b - window \<le> t) (requests_at k xs))) \<and>
    mb_resetAt b - window \<in> rl_time ` set xs"
  using assms
proof (induction xs arbitrary: b rule: rev_induct)
  case (snoc x xs)
  let ?m = "run (rl_step limit window) Map.empty xs"
  have snoc_req: "requests_at k (xs @ [x]) = requests_at k xs @ (case x of Req now j \<Rightarrow> if j = k then [now] else [] | _ \<Rightarrow> [])"
    by (induction k xs rule: requests_at.induct) (auto split: rl_op.splits)
  show ?case
  proof (cases "\<exists>now. x = Req now k")
    case True
    then obtain now where now: "x = Req now k" by blast
    show ?thesis
    proof (cases "?m k = None \<or> (\<exists>b. ?m k = Some b \<and> now > mb_resetAt b)")
      case True
      with snoc.prems(1) now snoc_req show ?thesis by (auto simp: run_append mem_Allow_fresh)
    next
      case False
      then obtain b0 where b0: "?m k = Some b0" "now \<le> mb_resetAt b0" by (cases "?m k") auto
      then have b: "b = b0\<lparr>mb_count := mb_count b0 + 1\<rparr>" using snoc.prems(1) now by (simp add: run_append mem_Allow_live)
      have IH: "mb_count b0 \<le> int (length (filter (\<lambda>t. mb_resetAt b0 - window \<le> t) (requests_at k xs)))"
        "mb_resetAt b0 - window \<in> rl_time ` set xs"
        using snoc b0 by (auto simp: sorted_append)
      then have "mb_resetAt b0 - window \<le> now" using snoc.prems(2) now by (auto simp: sorted_append)
      with IH show ?thesis using now snoc_req by (auto simp: b)
    qed
  next
    case False
    then have "?m k = Some b" using snoc.prems(1) step_other [of x k limit window ?m]
      by (auto simp: run_append split: option.splits rl_op.splits if_splits)
    with snoc snoc_req show ?thesis by (auto simp: sorted_append)
  qed
qed simp

section \<open>What the circuit breaker guarantees\<close>

datatype cb_op = Ask int | Succeeded int | Failed int

fun cb_time :: "cb_op \<Rightarrow> int" where
  "cb_time (Ask now) = now"
| "cb_time (Succeeded now) = now"
| "cb_time (Failed now) = now"

fun cb_step :: "CircuitBreaker \<Rightarrow> cb_op \<Rightarrow> CircuitBreaker" where
  "cb_step cb (Ask now) = fst (cb_Allow cb now)"
| "cb_step cb (Succeeded now) = cb_RecordSuccess cb"
| "cb_step cb (Failed now) = cb_RecordFailure cb now"

text \<open>The times of the failures since the last success, latest first.\<close>

fun failures_since :: "int list \<Rightarrow> cb_op \<Rightarrow> int list" where
  "failures_since fs (Ask now) = fs"
| "failures_since fs (Succeeded now) = []"
| "failures_since fs (Failed now) = now # fs"

definition recent_failures :: "cb_op list \<Rightarrow> int list" where
  "recent_failures ops = run failures_since [] ops"

text \<open>The state of the breaker agrees with the history; \<open>t\<close> is the current time.\<close>

definition cb_agrees :: "int \<Rightarrow> int \<Rightarrow> int list \<Rightarrow> int \<Rightarrow> CircuitBreaker \<Rightarrow> bool" where
  "cb_agrees mx timeout fs t cb \<longleftrightarrow>
     cb_maxFailures cb = mx \<and> cb_resetTimeout cb = timeout \<and> cb_failures cb = int (length fs) \<and>
     (fs \<noteq> [] \<longrightarrow> cb_lastFailure cb = hd fs) \<and>
     (cb_state cb = CircuitClosed \<longleftrightarrow> int (length fs) < mx) \<and>
     (cb_state cb = CircuitHalfOpen \<longrightarrow> timeout < t - hd fs)"

lemma cb_agrees_step:
  assumes "cb_agrees mx timeout fs t cb" "t \<le> cb_time x" "0 < mx"
  shows "cb_agrees mx timeout (failures_since fs x) (cb_time x) (cb_step cb x)"
  using assms
  by (cases x) (auto simp: cb_agrees_def cb_Allow_def cb_RecordSuccess_def cb_RecordFailure_def Let_def split: CircuitState.splits)

lemma cb_agrees_run:
  assumes "cb_agrees mx timeout fs t cb" "0 < mx" "sorted (t # map cb_time ops)"
  shows "\<exists>t'. t' \<in> insert t (cb_time ` set ops) \<and> cb_agrees mx timeout (run failures_since fs ops) t' (run cb_step cb ops)"
  using assms
proof (induction ops arbitrary: fs t cb)
  case (Cons x ops)
  have "cb_agrees mx timeout (failures_since fs x) (cb_time x) (cb_step cb x)"
    using Cons.prems by (intro cb_agrees_step) auto
  from Cons.IH [OF this] Cons.prems show ?case by auto
qed auto

text \<open>Requests that only pass through the middleware.\<close>

fun cb_middleware :: "(string \<rightharpoonup> CircuitBreaker) \<Rightarrow> (string \<times> int) list \<Rightarrow> verdict list" where
  "cb_middleware reg [] = []"
| "cb_middleware reg ((h, now) # xs) =
     (case ProviderCircuitBreaker reg h now of (reg, v) \<Rightarrow> v # cb_middleware reg xs)"

lemma middleware_passes:
  assumes "\<forall>h cb. reg h = Some cb \<longrightarrow> cb_state cb = CircuitClosed"
  shows "set (cb_middleware reg xs) \<subseteq> {Pass}"
  using assms
proof (induction xs arbitrary: reg)
  case (Cons x xs)
  obtain h now where x: "x = (h, now)" by (cases x)
  obtain reg' v where r: "ProviderCircuitBreaker reg h now = (reg', v)" by fastforce
  have "v = Pass" "\<forall>h cb. reg' h = Some cb \<longrightarrow> cb_state cb = CircuitClosed"
    using r Cons.prems
    by (auto simp: ProviderCircuitBreaker_def GetCircuitBreaker_def cb_Allow_def NewCircuitBreaker_def Let_def
        split: if_splits option.splits CircuitState.splits)
  with x r Cons.IH [of reg'] show ?case by simp
qed simp

section \<open>Properties\<close>

text \<open>
  C12. In any stretch of time as long as the window the in-memory limiter lets through at most twice the
  limit less one request per key, whatever the times of the requests and the clean-up ticks.
\<close>

theorem rate_limit_bound:
  assumes "sorted (map rl_time xs)"
  shows "length (filter (\<lambda>u. t \<le> u \<and> u \<le> t + window) (allowed_at limit window k newMemRateLimiter xs))
    \<le> nat limit + nat (limit - 1)"
proof -
  let ?early = "takeWhile (\<lambda>x. rl_time x < t) xs"
  let ?late = "dropWhile (\<lambda>x. rl_time x < t) xs"
  let ?m = "run (rl_step limit window) newMemRateLimiter ?early"
  have late: "\<forall>y \<in> set ?late. t \<le> rl_time y"
  proof (cases ?late)
    case (Cons y ys)
    then have "\<not> rl_time y < t" by (metis hd_dropWhile list.sel(1) list.simps(3))
    moreover have "sorted (map rl_time ?late)" using assms by (metis map_append sorted_append takeWhile_dropWhile_id)
    ultimately show ?thesis using Cons by auto
  next
    case Nil
    then show ?thesis by (simp only: list.set ball_simps)
  qed
  have sorted: "sorted (map rl_time ?late)" using assms by (metis map_append sorted_append takeWhile_dropWhile_id)
  have "filter (\<lambda>u. t \<le> u \<and> u \<le> t + window) (allowed_at limit window k newMemRateLimiter ?early) = []"
    by (auto simp: filter_empty_conv dest!: allowed_at_times set_takeWhileD)
  moreover have "filter (\<lambda>u. t \<le> u \<and> u \<le> t + window) (allowed_at limit window k ?m ?late) =
      filter (\<lambda>u. u \<le> t + window) (allowed_at limit window k ?m ?late)"
    using late by (intro filter_cong) (auto dest!: allowed_at_times)
  ultimately have "length (filter (\<lambda>u. t \<le> u \<and> u \<le> t + window) (allowed_at limit window k newMemRateLimiter xs)) =
      upto_time (t + window) (allowed_at limit window k ?m ?late)"
    using allowed_at_append [of limit window k newMemRateLimiter ?early ?late] by (simp add: upto_time_def)
  moreover have "1 \<le> mb_count b" if "?m k = Some b" for b
    using that by (intro rl_count_pos [of newMemRateLimiter limit window ?early k b]) (simp_all add: newMemRateLimiter_def)
  ultimately show ?thesis using any_bound [of ?m k ?late t "t + window" window limit] late sorted by simp
qed

theorem rate_limit_bound_witness:
  "length (filter (\<lambda>u. 60 \<le> u \<and> u \<le> 60 + 60) (allowed_at 2 60 ''ip:a'' newMemRateLimiter
     [Req 0 ''ip:a'', Req 60 ''ip:a'', Req 61 ''ip:a'', Req 61 ''ip:b'', Req 62 ''ip:a'', Req 63 ''ip:a''])) = 3 \<and> nat 2 + nat (2 - 1) = 3"
proof -
  let ?xs = "[Req 0 ''ip:a'', Req 60 ''ip:a'', Req 61 ''ip:a'', Req 61 ''ip:b'', Req 62 ''ip:a'', Req 63 ''ip:a'']"
  have "length (filter (\<lambda>u. 60 \<le> u \<and> u \<le> 60 + 60) (allowed_at 2 60 ''ip:a'' newMemRateLimiter ?xs)) \<le> nat 2 + nat (2 - 1)"
    by (rule rate_limit_bound) simp
  moreover have "length (filter (\<lambda>u. 60 \<le> u \<and> u \<le> 60 + 60) (allowed_at 2 60 ''ip:a'' newMemRateLimiter ?xs)) \<ge> 3"
    by code_simp
  ultimately show ?thesis by simp
qed

text \<open>
  A request is refused only when at least as many requests as the limit with the same key arrived
  during the window before it: a client that stays below the limit is never refused.
\<close>

theorem rate_limit_refusal_justified:
  assumes "sorted (map rl_time (xs @ [Req now k]))"
    "\<not> fst (snd (mem_Allow (run (rl_step limit window) newMemRateLimiter xs) now k limit window))" "1 \<le> limit"
  shows "limit \<le> int (length (filter (\<lambda>t. now - window \<le> t \<and> t \<le> now) (requests_at k xs)))"
proof -
  let ?m = "run (rl_step limit window) newMemRateLimiter xs"
  obtain b where b: "?m k = Some b" "now \<le> mb_resetAt b" "limit \<le> mb_count b"
  proof (cases "?m k = None \<or> (\<exists>b. ?m k = Some b \<and> now > mb_resetAt b)")
    case True
    with assms(2,3) show ?thesis by (simp add: mem_Allow_fresh)
  next
    case False
    then obtain b where "?m k = Some b" "now \<le> mb_resetAt b" by (cases "?m k") auto
    with assms(2) that show ?thesis by (simp add: mem_Allow_live)
  qed
  have "mb_count b \<le> int (length (filter (\<lambda>t. mb_resetAt b - window \<le> t) (requests_at k xs)))"
    using bucket_counts_requests [of limit window xs k b] b(1) assms(1) by (simp add: sorted_append newMemRateLimiter_def)
  also have "\<dots> \<le> int (length (filter (\<lambda>t. now - window \<le> t \<and> t \<le> now) (requests_at k xs)))"
  proof -
    have "t \<le> now" if "t \<in> set (requests_at k xs)" for t
    proof -
      have "t \<in> rl_time ` set xs" using that by (induction k xs rule: requests_at.induct) (auto split: if_splits)
      then show ?thesis using assms(1) by (auto simp: sorted_append)
    qed
    then have "filter (\<lambda>t. mb_resetAt b - window \<le> t) (requests_at k xs) =
        filter (\<lambda>t. mb_resetAt b - window \<le> t) (filter (\<lambda>t. now - window \<le> t \<and> t \<le> now) (requests_at k xs))"
      using b(2) by (auto intro!: filter_cong)
    then show ?thesis by (metis length_filter_le of_nat_le_iff)
  qed
  finally show ?thesis using b(3) by simp
qed

theorem rate_limit_refusal_justified_witness:
  "(2 :: int) \<le> int (length (filter (\<lambda>t. 10 - 60 \<le> t \<and> t \<le> 10) (requests_at ''u'' [Req 3 ''u'', Req 5 ''u''])))"
  by (rule rate_limit_refusal_justified [of _ _ _ _ 60]) code_simp+

text \<open>
  C22. Asked at any time, with a clock that does not go back, the circuit breaker refuses a call exactly
  when at least the maximum number of failures have been recorded since the last success and the last
  of them is no older than the reset timeout.
\<close>

theorem circuit_breaker_refuses_iff:
  assumes "0 < mx" "sorted (map cb_time (ops @ [Ask now]))"
  shows "\<not> snd (cb_Allow (run cb_step (NewCircuitBreaker mx timeout) ops) now) \<longleftrightarrow>
    mx \<le> int (length (recent_failures ops)) \<and> now - hd (recent_failures ops) \<le> timeout"
proof -
  let ?cb = "run cb_step (NewCircuitBreaker mx timeout) ops"
  define t0 where "t0 = (if ops = [] then now else cb_time (hd ops))"
  have "cb_agrees mx timeout [] t0 (NewCircuitBreaker mx timeout)"
    using assms(1) by (simp add: cb_agrees_def NewCircuitBreaker_def)
  moreover have s: "sorted (t0 # map cb_time ops)" "\<forall>x \<in> set ops. cb_time x \<le> now" "t0 \<le> now"
    using assms(2) by (cases ops; auto simp: t0_def sorted_append)+
  ultimately obtain t where t: "t \<in> insert t0 (cb_time ` set ops)" "cb_agrees mx timeout (recent_failures ops) t ?cb"
    using cb_agrees_run assms(1) unfolding recent_failures_def by metis
  have "t \<le> now" using t(1) s by auto
  with t(2) assms(1) show ?thesis
    by (auto simp: cb_agrees_def cb_Allow_def split: CircuitState.splits)
qed

theorem circuit_breaker_refuses_iff_witness:
  "\<not> snd (cb_Allow (run cb_step (NewCircuitBreaker 2 60) [Failed 1, Ask 2, Failed 5]) 65) \<and>
   snd (cb_Allow (run cb_step (NewCircuitBreaker 2 60) [Failed 1, Ask 2, Failed 5]) 66)"
  using circuit_breaker_refuses_iff [of 2 "[Failed 1, Ask 2, Failed 5]" 65 60]
    circuit_breaker_refuses_iff [of 2 "[Failed 1, Ask 2, Failed 5]" 66 60] by (simp add: recent_failures_def)

text \<open>
  No sequence of requests through the middleware alone ever trips a breaker: every request passes.
  The operations that record failures have no caller in the program.
\<close>

theorem middleware_alone_never_trips: "set (cb_middleware Map.empty xs) \<subseteq> {Pass}"
  by (rule middleware_passes) simp

text \<open>
  The deduplication of synchronisation requests does not keep its window of ten seconds: the timer
  of a request that took five seconds removes the marker of the request after it, and a third request
  is admitted six seconds after the second.
\<close>

theorem sync_dedup_window_broken:
  "let s0 = \<lparr>sd_inflight = Map.empty, sd_timers = []\<rparr>;
       (s1, v1) = DeduplicateSync s0 ''h'' 0;
       s2 = sync_served s1 ''h'' 5000000000;
       (s3, v3) = DeduplicateSync (sync_timers_due s2 10000000000) ''h'' 10000000000;
       (s4, v4) = DeduplicateSync (sync_timers_due s3 16000000000) ''h'' 16000000000
   in v1 = Pass \<and> v3 = Pass \<and> v4 = Pass"
  by (simp add: DeduplicateSync_def sync_served_def sync_timers_due_def Let_def)

end
