(* ===== verification/Approval.thy ===== *)
theory Approval
  imports ProviderCore "HOL-Library.Char_ord" "HOL-Library.List_Lexorder" "HOL-Library.Product_Lexorder"
begin

text \<open>
  Approval requests: the model (\<^verbatim>\<open>internal/domain/model/approval.go\<close>), the repositories
  (\<^verbatim>\<open>internal/infrastructure/repository/approval_repo.go\<close>) on tables of rows, and the service
  (\<^verbatim>\<open>internal/service/approval_service.go\<close>) with the expiry worker
  (\<^verbatim>\<open>internal/policy/expiry.go\<close>).

  Identifiers are UUIDs in canonical text form; the UUID library is the parameter \<open>uuid_lib\<close>. Every
  statement on the database first consults \<open>adb_faults\<close>, the outcomes the database has in store: a
  statement whose entry is an error fails and changes nothing; past the end of the list none fails.
\<close>

section \<open>Data\<close>

datatype ApprovalStatus =
    ApprovalPending | ApprovalApproved | ApprovalRejected | ApprovalExpired | ApprovalEscalated | ApprovalCancelled

datatype ApprovalStepStatus = StepPending | StepApproved | StepRejected | StepSkipped

datatype ApprovalHistoryAction =
    HistoryCreated | HistoryApproved | HistoryRejected | HistoryEscalated | HistoryExpired | HistoryCancelled | HistoryCommented

record ApprovalRequest =
  ar_ID :: string
  ar_PolicyID :: string
  ar_PolicyName :: string
  ar_Operation :: string
  ar_ResourceType :: string
  ar_ResourceID :: string
  ar_ResourceName :: string
  ar_RequesterID :: string
  ar_RequesterName :: string
  ar_Justification :: string
  ar_Status :: ApprovalStatus
  ar_ExpiresAt :: "int option"
  ar_ResolvedAt :: "int option"
  ar_EscalatedAt :: "int option"
  ar_EscalatedTo :: "string option"
  ar_OperationPayload :: jmap
  ar_Metadata :: jmap

record ApprovalStep =
  as_ID :: string
  as_RequestID :: string
  as_StepOrder :: int
  as_Status :: ApprovalStepStatus
  as_ApproverID :: "string option"
  as_ApproverRole :: string
  as_ApproverName :: string
  as_ResolvedBy :: "string option"
  as_ResolvedByName :: string
  as_ResolvedAt :: "int option"
  as_Comment :: string

record ApprovalHistory =
  ah_RequestID :: string
  ah_Action :: ApprovalHistoryAction
  ah_ActorID :: "string option"
  ah_ActorName :: string
  ah_Comment :: string

record CreateApprovalStepRequest =
  cs_StepOrder :: int
  cs_ApproverID :: string
  cs_ApproverRole :: string
  cs_ApproverName :: string

record CreateApprovalRequest =
  ca_PolicyID :: string
  ca_PolicyName :: string
  ca_Operation :: string
  ca_ResourceType :: string
  ca_ResourceID :: string
  ca_ResourceName :: string
  ca_RequesterID :: string
  ca_RequesterName :: string
  ca_Justification :: string
  ca_OperationPayload :: jmap
  ca_Metadata :: jmap
  ca_Steps :: "CreateApprovalStepRequest list"
  ca_ExpiresIn :: int

record ApprovalDecisionRequest =
  dr_ActorID :: string
  dr_ActorName :: string
  dr_Comment :: string

record EscalateApprovalRequest =
  er_ActorID :: string
  er_ActorName :: string
  er_EscalateTo :: string
  er_Comment :: string

text \<open>The audit service only appends to its own table: action, resource, resource ID, description.\<close>

record approval_db =
  adb_requests :: "ApprovalRequest list"
  adb_steps :: "ApprovalStep list"
  adb_history :: "ApprovalHistory list"
  adb_audit :: "(string \<times> string \<times> string \<times> string) list"
  adb_next :: nat
  adb_faults :: "go_error option list"

section \<open>Repositories\<close>

definition stmt :: "(approval_db \<Rightarrow> approval_db \<times> (go_error + 'a)) \<Rightarrow> approval_db \<Rightarrow> approval_db \<times> (go_error + 'a)" where
  "stmt f d =
     (case adb_faults d of
        [] \<Rightarrow> f d
      | None # fs \<Rightarrow> f (d\<lparr>adb_faults := fs\<rparr>)
      | Some e # fs \<Rightarrow> (d\<lparr>adb_faults := fs\<rparr>, Inl e))"

definition req_Create :: "uuid_lib \<Rightarrow> ApprovalRequest \<Rightarrow> approval_db \<Rightarrow> approval_db \<times> (go_error + ApprovalRequest)" where
  "req_Create U r = stmt (\<lambda>d.
     let r = r\<lparr>ar_ID := uuid_new U (adb_next d)\<rparr>
     in (d\<lparr>adb_requests := adb_requests d @ [r], adb_next := adb_next d + 1\<rparr>, Inr r))"

definition req_GetByID :: "string \<Rightarrow> approval_db \<Rightarrow> approval_db \<times> (go_error + ApprovalRequest)" where
  "req_GetByID i d =
     (case stmt (\<lambda>d. (d, case find (\<lambda>r. ar_ID r = i) (adb_requests d) of
                           None \<Rightarrow> Inl (Errorf ''record not found'') | Some r \<Rightarrow> Inr r)) d of
        (d, Inl e) \<Rightarrow> (d, Inl (Wrapf ''approval request not found'' e))
      | (d, Inr r) \<Rightarrow> (d, Inr r))"

text \<open>\<^verbatim>\<open>Save\<close> writes every column of the row with the same primary key.\<close>

definition req_Update :: "ApprovalRequest \<Rightarrow> approval_db \<Rightarrow> approval_db \<times> (go_error + unit)" where
  "req_Update r = stmt (\<lambda>d. (d\<lparr>adb_requests := map (\<lambda>x. if ar_ID x = ar_ID r then r else x) (adb_requests d)\<rparr>, Inr ()))"

definition ListExpired :: "int \<Rightarrow> approval_db \<Rightarrow> approval_db \<times> (go_error + ApprovalRequest list)" where
  "ListExpired now = stmt (\<lambda>d. (d, Inr (filter (\<lambda>r. ar_Status r = ApprovalPending \<and>
     (case ar_ExpiresAt r of None \<Rightarrow> False | Some e \<Rightarrow> e \<le> now)) (adb_requests d))))"

text \<open>All rows of \<^verbatim>\<open>ListPendingForUser\<close>, before pagination.\<close>

definition ListPendingForUser :: "string \<Rightarrow> string list \<Rightarrow> approval_db \<Rightarrow> ApprovalRequest list" where
  "ListPendingForUser userID roles d =
     (let sub = map as_RequestID (filter (\<lambda>s. as_Status s = StepPending \<and>
                  (as_ApproverID s = Some userID \<or> as_ApproverRole s \<in> set (roles @ ['''']))) (adb_steps d))
      in filter (\<lambda>r. ar_Status r = ApprovalPending \<and> ar_ID r \<in> set sub) (adb_requests d))"

definition step_Create :: "uuid_lib \<Rightarrow> ApprovalStep \<Rightarrow> approval_db \<Rightarrow> approval_db \<times> (go_error + unit)" where
  "step_Create U s = stmt (\<lambda>d.
     (d\<lparr>adb_steps := adb_steps d @ [s\<lparr>as_ID := uuid_new U (adb_next d)\<rparr>], adb_next := adb_next d + 1\<rparr>, Inr ()))"

definition step_Update :: "ApprovalStep \<Rightarrow> approval_db \<Rightarrow> approval_db \<times> (go_error + unit)" where
  "step_Update s = stmt (\<lambda>d. (d\<lparr>adb_steps := map (\<lambda>x. if as_ID x = as_ID s then s else x) (adb_steps d)\<rparr>, Inr ()))"

definition pending_steps :: "string \<Rightarrow> approval_db \<Rightarrow> ApprovalStep list" where
  "pending_steps i d = filter (\<lambda>s. as_RequestID s = i \<and> as_Status s = StepPending) (adb_steps d)"

text \<open>The pending step of lowest order; \<^verbatim>\<open>First\<close> of the database library orders rows with equal order by primary key.\<close>

definition step_rank :: "ApprovalStep \<Rightarrow> int \<times> string" where
  "step_rank s = (as_StepOrder s, as_ID s)"

definition GetCurrentPendingStep :: "string \<Rightarrow> approval_db \<Rightarrow> approval_db \<times> (go_error + ApprovalStep)" where
  "GetCurrentPendingStep i d =
     (case stmt (\<lambda>d. (d, case sort_key step_rank (pending_steps i d) of
                           [] \<Rightarrow> Inl (Errorf ''record not found'') | s # _ \<Rightarrow> Inr s)) d of
        (d, Inl e) \<Rightarrow> (d, Inl (Wrapf ''no pending step found'' e))
      | (d, Inr s) \<Rightarrow> (d, Inr s))"

definition history_Create :: "ApprovalHistory \<Rightarrow> approval_db \<Rightarrow> approval_db \<times> (go_error + unit)" where
  "history_Create h = stmt (\<lambda>d. (d\<lparr>adb_history := adb_history d @ [h]\<rparr>, Inr ()))"

section \<open>The service\<close>

definition audit_Log :: "string \<Rightarrow> string \<Rightarrow> string \<Rightarrow> approval_db \<Rightarrow> approval_db" where
  "audit_Log action i descr d = d\<lparr>adb_audit := adb_audit d @ [(action, ''approval_request'', i, descr)]\<rparr>"

definition parse_optional :: "uuid_lib \<Rightarrow> string \<Rightarrow> string option" where
  "parse_optional U s = (if s = '''' then None else uuid_parse U s)"

definition appendHistory ::
  "uuid_lib \<Rightarrow> string \<Rightarrow> ApprovalHistoryAction \<Rightarrow> string \<Rightarrow> string \<Rightarrow> string \<Rightarrow> approval_db \<Rightarrow> approval_db" where
  "appendHistory U requestID action actorID actorName comment d =
     fst (history_Create \<lparr>ah_RequestID = requestID, ah_Action = action, ah_ActorID = parse_optional U actorID,
       ah_ActorName = actorName, ah_Comment = comment\<rparr> d)"

definition verifyApprover :: "ApprovalStep \<Rightarrow> string \<Rightarrow> go_error option" where
  "verifyApprover step actorID =
     (case as_ApproverID step of
        Some a \<Rightarrow> if a \<noteq> actorID then Some (Errorf ''you are not the designated approver for this step'') else None
      | None \<Rightarrow> None)"

definition new_step :: "uuid_lib \<Rightarrow> string \<Rightarrow> CreateApprovalStepRequest \<Rightarrow> ApprovalStep" where
  "new_step U i c = \<lparr>as_ID = '''', as_RequestID = i, as_StepOrder = cs_StepOrder c, as_Status = StepPending,
     as_ApproverID = parse_optional U (cs_ApproverID c), as_ApproverRole = cs_ApproverRole c,
     as_ApproverName = cs_ApproverName c, as_ResolvedBy = None, as_ResolvedByName = '''', as_ResolvedAt = None, as_Comment = ''''\<rparr>"

fun create_steps :: "uuid_lib \<Rightarrow> string \<Rightarrow> CreateApprovalStepRequest list \<Rightarrow> approval_db \<Rightarrow> approval_db" where
  "create_steps U i [] d = d"
| "create_steps U i (c # cs) d = create_steps U i cs (fst (step_Create U (new_step U i c) d))"

definition default_step :: CreateApprovalStepRequest where
  "default_step = \<lparr>cs_StepOrder = 1, cs_ApproverID = '''', cs_ApproverRole = ''admin'', cs_ApproverName = ''Administrator''\<rparr>"

definition new_request :: "int \<Rightarrow> CreateApprovalRequest \<Rightarrow> string \<Rightarrow> string \<Rightarrow> ApprovalRequest" where
  "new_request now req policyUUID requesterUUID =
     \<lparr>ar_ID = '''', ar_PolicyID = policyUUID, ar_PolicyName = ca_PolicyName req,
      ar_Operation = ca_Operation req, ar_ResourceType = ca_ResourceType req, ar_ResourceID = ca_ResourceID req,
      ar_ResourceName = ca_ResourceName req, ar_RequesterID = requesterUUID, ar_RequesterName = ca_RequesterName req,
      ar_Justification = ca_Justification req, ar_Status = ApprovalPending,
      ar_ExpiresAt = (if ca_ExpiresIn req > 0 then Some (now + ca_ExpiresIn req) else None),
      ar_ResolvedAt = None, ar_EscalatedAt = None, ar_EscalatedTo = None,
      ar_OperationPayload = ca_OperationPayload req, ar_Metadata = ca_Metadata req\<rparr>"

text \<open>The text of the library's error on an identifier that does not parse is left out.\<close>

definition approval_Create :: "uuid_lib \<Rightarrow> int \<Rightarrow> CreateApprovalRequest \<Rightarrow> approval_db \<Rightarrow> approval_db \<times> (go_error + ApprovalRequest)" where
  "approval_Create U now req d =
     (case uuid_parse U (ca_PolicyID req) of
        None \<Rightarrow> (d, Inl (Errorf ''invalid policy ID''))
      | Some policyUUID \<Rightarrow>
          (case uuid_parse U (ca_RequesterID req) of
             None \<Rightarrow> (d, Inl (Errorf ''invalid requester ID''))
           | Some requesterUUID \<Rightarrow>
               (case req_Create U (new_request now req policyUUID requesterUUID) d of
                  (d, Inl e) \<Rightarrow> (d, Inl (Wrapf ''creating approval request'' e))
                | (d, Inr ar) \<Rightarrow>
                    (let d = create_steps U (ar_ID ar) (if ca_Steps req \<noteq> [] then ca_Steps req else [default_step]) d;
                         d = appendHistory U (ar_ID ar) HistoryCreated (ca_RequesterID req) (ca_RequesterName req)
                               ''Approval request created'' d;
                         d = audit_Log ''create'' (ar_ID ar) (''approval request created for '' @ ca_Operation req @ '' on ''
                               @ ca_ResourceType req @ '' '' @ ca_ResourceName req) d
                     in (d, Inr ar)))))"

definition not_pending :: "ApprovalStatus \<Rightarrow> go_error" where
  "not_pending st = Errorf (''approval request is not pending (status: '' @ (case st of
       ApprovalPending \<Rightarrow> ''pending'' | ApprovalApproved \<Rightarrow> ''approved'' | ApprovalRejected \<Rightarrow> ''rejected''
     | ApprovalExpired \<Rightarrow> ''expired'' | ApprovalEscalated \<Rightarrow> ''escalated'' | ApprovalCancelled \<Rightarrow> ''cancelled'') @ '')'')"

definition resolve_step :: "uuid_lib \<Rightarrow> int \<Rightarrow> ApprovalStepStatus \<Rightarrow> ApprovalDecisionRequest \<Rightarrow> ApprovalStep \<Rightarrow> ApprovalStep" where
  "resolve_step U now st req step =
     step\<lparr>as_Status := st, as_ResolvedAt := Some now, as_Comment := dr_Comment req, as_ResolvedByName := dr_ActorName req,
          as_ResolvedBy := (case uuid_parse U (dr_ActorID req) of Some u \<Rightarrow> Some u | None \<Rightarrow> as_ResolvedBy step)\<rparr>"

definition Approve :: "uuid_lib \<Rightarrow> int \<Rightarrow> string \<Rightarrow> ApprovalDecisionRequest \<Rightarrow> approval_db \<Rightarrow> approval_db \<times> go_error option" where
  "Approve U now i req d =
     (case req_GetByID i d of
        (d, Inl e) \<Rightarrow> (d, Some (Wrapf ''approval request not found'' e))
      | (d, Inr ar) \<Rightarrow>
          if ar_Status ar \<noteq> ApprovalPending then (d, Some (not_pending (ar_Status ar)))
          else (case GetCurrentPendingStep i d of
            (d, Inl e) \<Rightarrow> (d, Some (Wrapf ''no pending step found'' e))
          | (d, Inr step) \<Rightarrow>
              (case verifyApprover step (dr_ActorID req) of
                 Some e \<Rightarrow> (d, Some e)
               | None \<Rightarrow>
                   (let step = resolve_step U now StepApproved req step in
                    case step_Update step d of
                      (d, Inl e) \<Rightarrow> (d, Some (Wrapf ''updating step'' e))
                    | (d, Inr _) \<Rightarrow>
                        (case (case GetCurrentPendingStep i d of
                                 (d, Inl _) \<Rightarrow>
                                   (case req_Update (ar\<lparr>ar_Status := ApprovalApproved, ar_ResolvedAt := Some now\<rparr>) d of
                                      (d, Inl e) \<Rightarrow> (d, Some (Wrapf ''updating approval request'' e))
                                    | (d, Inr _) \<Rightarrow>
                                        (appendHistory U (ar_ID ar) HistoryApproved (dr_ActorID req) (dr_ActorName req) (dr_Comment req) d, None))
                               | (d, Inr nextStep) \<Rightarrow>
                                   (appendHistory U (ar_ID ar) HistoryApproved (dr_ActorID req) (dr_ActorName req)
                                      (''Step '' @ Itoa (as_StepOrder step) @ '' approved: '' @ dr_Comment req) d, None)) of
                           (d, Some e) \<Rightarrow> (d, Some e)
                         | (d, None) \<Rightarrow>
                             (audit_Log ''execute'' i (''approval request approved by '' @ dr_ActorName req) d, None))))))"

definition Reject :: "uuid_lib \<Rightarrow> int \<Rightarrow> string \<Rightarrow> ApprovalDecisionRequest \<Rightarrow> approval_db \<Rightarrow> approval_db \<times> go_error option" where
  "Reject U now i req d =
     (case req_GetByID i d of
        (d, Inl e) \<Rightarrow> (d, Some (Wrapf ''approval request not found'' e))
      | (d, Inr ar) \<Rightarrow>
          if ar_Status ar \<noteq> ApprovalPending then (d, Some (not_pending (ar_Status ar)))
          else (case GetCurrentPendingStep i d of
            (d, Inl e) \<Rightarrow> (d, Some (Wrapf ''no pending step found'' e))
          | (d, Inr step) \<Rightarrow>
              (case verifyApprover step (dr_ActorID req) of
                 Some e \<Rightarrow> (d, Some e)
               | None \<Rightarrow>
                   (case step_Update (resolve_step U now StepRejected req step) d of
                      (d, Inl e) \<Rightarrow> (d, Some (Wrapf ''updating step'' e))
                    | (d, Inr _) \<Rightarrow>
                        (case req_Update (ar\<lparr>ar_Status := ApprovalRejected, ar_ResolvedAt := Some now\<rparr>) d of
                           (d, Inl e) \<Rightarrow> (d, Some (Wrapf ''updating approval request'' e))
                         | (d, Inr _) \<Rightarrow>
                             (let d = appendHistory U (ar_ID ar) HistoryRejected (dr_ActorID req) (dr_ActorName req) (dr_Comment req) d
                              in (audit_Log ''execute'' i (''approval request rejected by '' @ dr_ActorName req @ '': '' @ dr_Comment req) d, None)))))))"

definition Cancel :: "uuid_lib \<Rightarrow> int \<Rightarrow> string \<Rightarrow> string \<Rightarrow> approval_db \<Rightarrow> approval_db \<times> go_error option" where
  "Cancel U now i userID d =
     (case req_GetByID i d of
        (d, Inl e) \<Rightarrow> (d, Some (Wrapf ''approval request not found'' e))
      | (d, Inr ar) \<Rightarrow>
          if ar_Status ar \<noteq> ApprovalPending then (d, Some (Errorf ''only pending requests can be cancelled''))
          else if ar_RequesterID ar \<noteq> userID then (d, Some (Errorf ''only the requester can cancel this approval request''))
          else (case req_Update (ar\<lparr>ar_Status := ApprovalCancelled, ar_ResolvedAt := Some now\<rparr>) d of
                  (d, Inl e) \<Rightarrow> (d, Some (Wrapf ''cancelling approval request'' e))
                | (d, Inr _) \<Rightarrow>
                    (appendHistory U (ar_ID ar) HistoryCancelled userID (ar_RequesterName ar) ''Cancelled by requester'' d, None)))"

definition Escalate :: "uuid_lib \<Rightarrow> int \<Rightarrow> string \<Rightarrow> EscalateApprovalRequest \<Rightarrow> approval_db \<Rightarrow> approval_db \<times> go_error option" where
  "Escalate U now i req d =
     (case req_GetByID i d of
        (d, Inl e) \<Rightarrow> (d, Some (Wrapf ''approval request not found'' e))
      | (d, Inr ar) \<Rightarrow>
          if ar_Status ar \<noteq> ApprovalPending then (d, Some (Errorf ''only pending requests can be escalated''))
          else (case req_Update (ar\<lparr>ar_Status := ApprovalEscalated, ar_EscalatedAt := Some now,
                       ar_EscalatedTo := (case uuid_parse U (er_EscalateTo req) of Some u \<Rightarrow> Some u | None \<Rightarrow> ar_EscalatedTo ar)\<rparr>) d of
                  (d, Inl e) \<Rightarrow> (d, Some (Wrapf ''escalating approval request'' e))
                | (d, Inr _) \<Rightarrow>
                    (appendHistory U (ar_ID ar) HistoryEscalated (er_ActorID req) (er_ActorName req)
                       (''Escalated to '' @ er_EscalateTo req @ '': '' @ er_Comment req) d, None)))"

fun expire_all :: "uuid_lib \<Rightarrow> int \<Rightarrow> ApprovalRequest list \<Rightarrow> approval_db \<Rightarrow> approval_db \<times> int" where
  "expire_all U now [] d = (d, 0)"
| "expire_all U now (ar # ars) d =
     (case req_Update (ar\<lparr>ar_Status := ApprovalExpired, ar_ResolvedAt := Some now\<rparr>) d of
        (d, Inl e) \<Rightarrow> expire_all U now ars d
      | (d, Inr _) \<Rightarrow>
          (case expire_all U now ars (appendHistory U (ar_ID ar) HistoryExpired '''' ''system'' ''Request expired'' d) of
             (d, n) \<Rightarrow> (d, n + 1)))"

definition ExpireStale :: "uuid_lib \<Rightarrow> int \<Rightarrow> approval_db \<Rightarrow> approval_db \<times> (go_error + int)" where
  "ExpireStale U now d =
     (case ListExpired now d of
        (d, Inl e) \<Rightarrow> (d, Inl e)
      | (d, Inr expired) \<Rightarrow> (case expire_all U now expired d of (d, n) \<Rightarrow> (d, Inr n)))"

text \<open>One tick of the expiry worker, and its default interval.\<close>

definition expiry_interval :: "int \<Rightarrow> int" where
  "expiry_interval interval = (if interval \<le> 0 then 300000000000 else interval)"

definition expiry_tick :: "uuid_lib \<Rightarrow> int \<Rightarrow> approval_db \<Rightarrow> approval_db" where
  "expiry_tick U now d = fst (ExpireStale U now d)"

datatype approval_op =
    OpCreate int CreateApprovalRequest
  | OpApprove int string ApprovalDecisionRequest
  | OpReject int string ApprovalDecisionRequest
  | OpCancel int string string
  | OpEscalate int string EscalateApprovalRequest
  | OpExpire int

fun approval_step :: "uuid_lib \<Rightarrow> approval_db \<Rightarrow> approval_op \<Rightarrow> approval_db" where
  "approval_step U d (OpCreate now req) = fst (approval_Create U now req d)"
| "approval_step U d (OpApprove now i req) = fst (Approve U now i req d)"
| "approval_step U d (OpReject now i req) = fst (Reject U now i req d)"
| "approval_step U d (OpCancel now i u) = fst (Cancel U now i u d)"
| "approval_step U d (OpEscalate now i req) = fst (Escalate U now i req d)"
| "approval_step U d (OpExpire now) = expiry_tick U now d"


section \<open>Effects of the operations on the tables\<close>

text \<open>Two databases with the same requests, steps and supply of identifiers.\<close>

definition same_tables :: "approval_db \<Rightarrow> approval_db \<Rightarrow> bool" where
  "same_tables d d' \<longleftrightarrow> adb_requests d' = adb_requests d \<and> adb_steps d' = adb_steps d \<and> adb_next d' = adb_next d"

lemma same_tables_trans [trans]: "same_tables a b \<Longrightarrow> same_tables b c \<Longrightarrow> same_tables a c"
  by (simp add: same_tables_def)

lemma req_GetByID_eff:
  assumes "req_GetByID i d = (d', r)"
  shows "same_tables d d' \<and> (\<forall>ar. r = Inr ar \<longrightarrow> find (\<lambda>x. ar_ID x = i) (adb_requests d) = Some ar)"
  using assms
  by (auto simp: req_GetByID_def stmt_def same_tables_def split: list.splits option.splits)

lemma sort_key_hd_in: "sort_key f xs = x # ys \<Longrightarrow> x \<in> set xs"
  by (metis list.set_intros(1) set_sort)

lemma GetCurrentPendingStep_eff:
  assumes "GetCurrentPendingStep i d = (d', r)"
  shows "same_tables d d' \<and> (\<forall>s. r = Inr s \<longrightarrow> s \<in> set (pending_steps i d))"
proof -
  have p: "pending_steps i (d\<lparr>adb_faults := fs\<rparr>) = pending_steps i d" for fs by (simp add: pending_steps_def)
  show ?thesis using assms
    by (auto simp: GetCurrentPendingStep_def stmt_def same_tables_def p split: list.splits option.splits dest!: sort_key_hd_in)
qed

lemma req_Update_eff:
  assumes "req_Update ar d = (d', r)"
  shows "adb_steps d' = adb_steps d \<and> adb_next d' = adb_next d \<and>
    ((\<exists>e. r = Inl e) \<and> adb_requests d' = adb_requests d \<or>
     r = Inr () \<and> adb_requests d' = map (\<lambda>x. if ar_ID x = ar_ID ar then ar else x) (adb_requests d))"
  using assms by (auto simp: req_Update_def stmt_def split: list.splits option.splits)

lemma step_Update_eff:
  assumes "step_Update s d = (d', r)"
  shows "adb_requests d' = adb_requests d \<and> adb_next d' = adb_next d"
  using assms by (auto simp: step_Update_def stmt_def split: list.splits option.splits)

lemma appendHistory_eff [simp]:
  "adb_requests (appendHistory U i a u n c d) = adb_requests d"
  "adb_steps (appendHistory U i a u n c d) = adb_steps d"
  "adb_next (appendHistory U i a u n c d) = adb_next d"
  by (simp_all add: appendHistory_def history_Create_def stmt_def split: list.splits option.splits)

lemma audit_Log_eff [simp]:
  "adb_requests (audit_Log a i c d) = adb_requests d" "adb_steps (audit_Log a i c d) = adb_steps d"
  "adb_next (audit_Log a i c d) = adb_next d" "adb_faults (audit_Log a i c d) = adb_faults d"
  by (simp_all add: audit_Log_def)

lemma create_steps_eff [simp]: "adb_requests (create_steps U i cs d) = adb_requests d"
proof (induction cs arbitrary: d)
  case (Cons c cs)
  have "adb_requests (fst (step_Create U s d)) = adb_requests d" for s
    by (simp add: step_Create_def stmt_def split: list.splits option.splits)
  with Cons show ?case by simp
qed simp

text \<open>What an operation does to the requests: nothing, or one pending request is replaced.\<close>

definition replaces_pending :: "approval_db \<Rightarrow> approval_db \<Rightarrow> bool" where
  "replaces_pending d d' \<longleftrightarrow> adb_requests d' = adb_requests d \<or>
     (\<exists>ar ar'. find (\<lambda>x. ar_ID x = ar_ID ar) (adb_requests d) = Some ar \<and> ar_Status ar = ApprovalPending \<and>
        ar_ID ar' = ar_ID ar \<and> adb_requests d' = map (\<lambda>x. if ar_ID x = ar_ID ar then ar' else x) (adb_requests d))"

lemma replaces_pendingI:
  assumes "req_GetByID i d = (d1, Inr ar)" "ar_Status ar = ApprovalPending" "adb_requests d2 = adb_requests d"
    "req_Update ar' d2 = (d3, r)" "ar_ID ar' = ar_ID ar" "adb_requests d4 = adb_requests d3"
  shows "replaces_pending d d4"
proof -
  have f: "find (\<lambda>x. ar_ID x = i) (adb_requests d) = Some ar" using req_GetByID_eff [OF assms(1)] by simp
  then have i: "ar_ID ar = i" by (auto simp: find_Some_iff)
  from req_Update_eff [OF assms(4)] assms(3,6) consider "adb_requests d4 = adb_requests d"
    | "adb_requests d4 = map (\<lambda>x. if ar_ID x = ar_ID ar' then ar' else x) (adb_requests d)" by auto
  then show ?thesis
  proof cases
    case 2
    then show ?thesis unfolding replaces_pending_def using f i assms(2,5) by (intro disjI2 exI [of _ ar] exI [of _ ar']) simp
  qed (simp add: replaces_pending_def)
qed

lemma Approve_replaces: "replaces_pending d (fst (Approve U now i req d))"
proof (cases "req_GetByID i d")
  case g: (Pair d1 r1)
  note E1 = req_GetByID_eff [OF g]
  show ?thesis
  proof (cases r1)
    case (Inl e)
    with g E1 show ?thesis by (simp add: Approve_def replaces_pending_def same_tables_def)
  next
    case (Inr ar)
    show ?thesis
    proof (cases "ar_Status ar = ApprovalPending")
      case False
      with g Inr E1 show ?thesis by (simp add: Approve_def replaces_pending_def same_tables_def)
    next
      case pend: True
      obtain d2 r2 where c: "GetCurrentPendingStep i d1 = (d2, r2)" by (metis surj_pair)
      note E2 = GetCurrentPendingStep_eff [OF c]
      show ?thesis
      proof (cases "\<exists>step. r2 = Inr step \<and> verifyApprover step (dr_ActorID req) = None")
        case False
        with g c Inr pend E1 E2 show ?thesis
          by (cases r2) (auto simp: Approve_def replaces_pending_def same_tables_def split: option.splits)
      next
        case True
        then obtain step where step: "r2 = Inr step" "verifyApprover step (dr_ActorID req) = None" by blast
        let ?st = "resolve_step U now StepApproved req step"
        obtain d3 r3 where u: "step_Update ?st d2 = (d3, r3)" by (metis surj_pair)
        obtain d4 r4 where n: "GetCurrentPendingStep i d3 = (d4, r4)" by (metis surj_pair)
        obtain d5 r5 where w: "req_Update (ar\<lparr>ar_Status := ApprovalApproved, ar_ResolvedAt := Some now\<rparr>) d4 = (d5, r5)"
          by (metis surj_pair)
        note E3 = step_Update_eff [OF u] and E4 = GetCurrentPendingStep_eff [OF n]
        have same: "adb_requests d4 = adb_requests d" "adb_requests d3 = adb_requests d"
          using E1 E2 E3 E4 by (auto simp: same_tables_def)
        have R: "replaces_pending d x" if "adb_requests x = adb_requests d5" for x
          using g Inr pend same w that by (intro replaces_pendingI [OF _ _ _ w]) auto
        have S: "replaces_pending d x" if "adb_requests x = adb_requests d" for x
          using that by (simp add: replaces_pending_def)
        note sim = Approve_def g Inr pend c step u n w Let_def same
        show ?thesis
        proof (cases "\<exists>e. r3 = Inr () \<and> r4 = Inl e")
          case True
          then have "adb_requests (fst (Approve U now i req d)) = adb_requests d5" by (auto simp: sim split: sum.split)
          then show ?thesis by (rule R)
        next
          case False
          then have "adb_requests (fst (Approve U now i req d)) = adb_requests d" by (auto simp: sim split: sum.split)
          then show ?thesis by (rule S)
        qed
      qed
    qed
  qed
qed

lemma Reject_replaces: "replaces_pending d (fst (Reject U now i req d))"
proof (cases "req_GetByID i d")
  case g: (Pair d1 r1)
  note E1 = req_GetByID_eff [OF g]
  have S: "replaces_pending d x" if "adb_requests x = adb_requests d" for x
    using that by (simp add: replaces_pending_def)
  show ?thesis
  proof (cases "\<exists>ar. r1 = Inr ar \<and> ar_Status ar = ApprovalPending")
    case False
    with g E1 show ?thesis by (cases r1) (auto intro!: S simp: Reject_def same_tables_def)
  next
    case True
    then obtain ar where ar: "r1 = Inr ar" "ar_Status ar = ApprovalPending" by blast
    obtain d2 r2 where c: "GetCurrentPendingStep i d1 = (d2, r2)" by (metis surj_pair)
    note E2 = GetCurrentPendingStep_eff [OF c]
    show ?thesis
    proof (cases "\<exists>step. r2 = Inr step \<and> verifyApprover step (dr_ActorID req) = None")
      case False
      with g c ar E1 E2 show ?thesis
        by (cases r2) (auto intro!: S simp: Reject_def same_tables_def split: option.splits)
    next
      case True
      then obtain step where step: "r2 = Inr step" "verifyApprover step (dr_ActorID req) = None" by blast
      obtain d3 r3 where u: "step_Update (resolve_step U now StepRejected req step) d2 = (d3, r3)" by (metis surj_pair)
      obtain d4 r4 where w: "req_Update (ar\<lparr>ar_Status := ApprovalRejected, ar_ResolvedAt := Some now\<rparr>) d3 = (d4, r4)"
        by (metis surj_pair)
      have same: "adb_requests d3 = adb_requests d" using E1 E2 step_Update_eff [OF u] by (auto simp: same_tables_def)
      note sim = Reject_def g ar c step u w Let_def same
      show ?thesis
      proof (cases r3)
        case (Inl e)
        then have "adb_requests (fst (Reject U now i req d)) = adb_requests d" by (simp add: sim)
        then show ?thesis by (rule S)
      next
        case (Inr v)
        then have "adb_requests (fst (Reject U now i req d)) = adb_requests d4" by (auto simp: sim split: sum.split)
        then show ?thesis using g ar same by (intro replaces_pendingI [OF _ _ _ w]) auto
      qed
    qed
  qed
qed

lemma update_replaces:
  assumes "req_GetByID i d = (d1, Inr ar)" "ar_Status ar = ApprovalPending" "ar_ID ar' = ar_ID ar"
    "adb_requests x = adb_requests (fst (req_Update ar' d1))"
  shows "replaces_pending d x"
proof -
  obtain d2 r where w: "req_Update ar' d1 = (d2, r)" by (metis surj_pair)
  with assms req_GetByID_eff [OF assms(1)] show ?thesis
    by (intro replaces_pendingI [OF assms(1,2) _ w assms(3)]) (auto simp: same_tables_def)
qed

lemma not_found_replaces:
  assumes "req_GetByID i d = (d1, r)" "adb_requests x = adb_requests d1"
  shows "replaces_pending d x"
  using req_GetByID_eff [OF assms(1)] assms(2) by (simp add: replaces_pending_def same_tables_def)

lemma Cancel_replaces: "replaces_pending d (fst (Cancel U now i u d))"
proof (cases "req_GetByID i d")
  case g: (Pair d1 r1)
  show ?thesis
  proof (cases "\<exists>ar. r1 = Inr ar \<and> ar_Status ar = ApprovalPending \<and> ar_RequesterID ar = u")
    case True
    then obtain ar where ar: "r1 = Inr ar" "ar_Status ar = ApprovalPending" "ar_RequesterID ar = u" by blast
    then show ?thesis using g
      by (intro update_replaces [of i d d1 ar "ar\<lparr>ar_Status := ApprovalCancelled, ar_ResolvedAt := Some now\<rparr>"])
        (auto simp: Cancel_def split: prod.split sum.split)
  next
    case False
    then show ?thesis using g by (intro not_found_replaces [OF g]) (auto simp: Cancel_def split: sum.split)
  qed
qed

lemma Escalate_replaces: "replaces_pending d (fst (Escalate U now i req d))"
proof (cases "req_GetByID i d")
  case g: (Pair d1 r1)
  show ?thesis
  proof (cases "\<exists>ar. r1 = Inr ar \<and> ar_Status ar = ApprovalPending")
    case True
    then obtain ar where ar: "r1 = Inr ar" "ar_Status ar = ApprovalPending" by blast
    then show ?thesis using g
      by (intro update_replaces [of i d d1 ar "ar\<lparr>ar_Status := ApprovalEscalated, ar_EscalatedAt := Some now,
            ar_EscalatedTo := (case uuid_parse U (er_EscalateTo req) of Some u \<Rightarrow> Some u | None \<Rightarrow> ar_EscalatedTo ar)\<rparr>"])
        (auto simp: Escalate_def split: prod.split sum.split)
  next
    case False
    then show ?thesis using g by (intro not_found_replaces [OF g]) (auto simp: Escalate_def split: sum.split)
  qed
qed

section \<open>Decided requests stay decided\<close>

definition request :: "approval_db \<Rightarrow> string \<Rightarrow> ApprovalRequest option" where
  "request d i = find (\<lambda>r. ar_ID r = i) (adb_requests d)"

lemma find_map_replace:
  "ar_ID ar' = j \<Longrightarrow> i \<noteq> j \<Longrightarrow> find (\<lambda>r. ar_ID r = i) (map (\<lambda>x. if ar_ID x = j then ar' else x) rs) = find (\<lambda>r. ar_ID r = i) rs"
  by (induction rs) auto

lemma replaces_pending_keeps:
  assumes "replaces_pending d d'" "request d i = Some r" "ar_Status r \<noteq> ApprovalPending"
  shows "request d' i = Some r"
  using assms(1) unfolding replaces_pending_def
proof (elim disjE exE conjE)
  fix ar ar'
  assume a: "find (\<lambda>x. ar_ID x = ar_ID ar) (adb_requests d) = Some ar" "ar_Status ar = ApprovalPending"
    "ar_ID ar' = ar_ID ar" "adb_requests d' = map (\<lambda>x. if ar_ID x = ar_ID ar then ar' else x) (adb_requests d)"
  have "ar_ID ar \<noteq> i" using a(1,2) assms(2,3) by (auto simp: request_def)
  with a assms(2) show ?thesis by (simp add: request_def find_map_replace)
qed (use assms(2) in \<open>simp add: request_def\<close>)

text \<open>Identifiers come from the supply, so they are distinct.\<close>

definition ids_ok :: "uuid_lib \<Rightarrow> approval_db \<Rightarrow> bool" where
  "ids_ok U d \<longleftrightarrow> distinct (map ar_ID (adb_requests d)) \<and> distinct (map as_ID (adb_steps d)) \<and>
     (\<forall>i \<in> ar_ID ` set (adb_requests d) \<union> as_ID ` set (adb_steps d). \<exists>n < adb_next d. i = uuid_new U n)"

lemma expire_all_keeps:
  assumes "\<forall>ar \<in> set ars. ar_ID ar \<noteq> i"
  shows "request (fst (expire_all U now ars d)) i = request d i"
  using assms
proof (induction ars arbitrary: d)
  case (Cons ar ars)
  obtain d1 r where u: "req_Update (ar\<lparr>ar_Status := ApprovalExpired, ar_ResolvedAt := Some now\<rparr>) d = (d1, r)" by (metis surj_pair)
  have "request d1 i = request d i"
    using req_Update_eff [OF u] Cons.prems by (auto simp: request_def find_map_replace)
  with Cons u show ?case by (cases r) (simp_all add: request_def split_beta)
qed simp

lemma ExpireStale_keeps:
  assumes "request d i = Some r" "ar_Status r \<noteq> ApprovalPending" "distinct (map ar_ID (adb_requests d))"
  shows "request (fst (ExpireStale U now d)) i = Some r"
proof -
  obtain d1 x where l: "ListExpired now d = (d1, x)" by (metis surj_pair)
  have same: "request d1 i = request d i" and sub: "\<And>ars. x = Inr ars \<Longrightarrow> \<forall>ar \<in> set ars. ar \<in> set (adb_requests d) \<and> ar_Status ar = ApprovalPending"
    using l by (auto simp: ListExpired_def stmt_def request_def split: list.splits option.splits)
  show ?thesis
  proof (cases x)
    case (Inl e)
    with l same assms(1) show ?thesis by (simp add: ExpireStale_def)
  next
    case (Inr ars)
    have "r \<in> set (adb_requests d)" "ar_ID r = i" using assms(1) by (auto simp: request_def find_Some_iff)
    then have "\<forall>ar \<in> set ars. ar_ID ar \<noteq> i"
      using sub [OF Inr] assms(2,3) by (metis inj_onD distinct_map)
    with l Inr same assms(1) expire_all_keeps show ?thesis by (simp add: ExpireStale_def split_beta)
  qed
qed

definition step_ids :: "approval_db \<Rightarrow> string list \<times> nat" where
  "step_ids d = (map as_ID (adb_steps d), adb_next d)"

lemma step_ids_same: "same_tables d d' \<Longrightarrow> step_ids d' = step_ids d"
  by (simp add: step_ids_def same_tables_def)

lemma step_ids_ops:
  "req_GetByID i d = (d', r1) \<Longrightarrow> step_ids d' = step_ids d"
  "GetCurrentPendingStep i d = (d', r2) \<Longrightarrow> step_ids d' = step_ids d"
  "req_Update ar d = (d', r3) \<Longrightarrow> step_ids d' = step_ids d"
  "step_Update st d = (d', r4) \<Longrightarrow> step_ids d' = step_ids d"
proof -
  show "step_ids d' = step_ids d" if "req_GetByID i d = (d', r1)" using req_GetByID_eff [OF that] step_ids_same by blast
  show "step_ids d' = step_ids d" if "GetCurrentPendingStep i d = (d', r2)"
    using GetCurrentPendingStep_eff [OF that] step_ids_same by blast
  show "step_ids d' = step_ids d" if "req_Update ar d = (d', r3)" using req_Update_eff [OF that] by (simp add: step_ids_def)
  show "step_ids d' = step_ids d" if "step_Update st d = (d', r4)"
    using that by (auto simp: step_ids_def step_Update_def stmt_def split: list.splits option.splits)
qed

lemma step_ids_simps [simp]:
  "step_ids (appendHistory U i a u n c d) = step_ids d" "step_ids (audit_Log b i c d) = step_ids d"
  by (simp_all add: step_ids_def)

lemma step_ids_decisions:
  "step_ids (fst (Approve U now i req d)) = step_ids d"
  "step_ids (fst (Reject U now i req d)) = step_ids d"
  "step_ids (fst (Cancel U now i u d)) = step_ids d"
  "step_ids (fst (Escalate U now i ereq d)) = step_ids d"
  unfolding Approve_def Reject_def Cancel_def Escalate_def Let_def
  by (auto split: prod.split sum.split option.split dest!: step_ids_ops)

lemma expire_all_ids:
  "step_ids (fst (expire_all U now ars d)) = step_ids d \<and>
   map ar_ID (adb_requests (fst (expire_all U now ars d))) = map ar_ID (adb_requests d)"
proof (induction ars arbitrary: d)
  case (Cons ar ars)
  obtain d1 r where u: "req_Update (ar\<lparr>ar_Status := ApprovalExpired, ar_ResolvedAt := Some now\<rparr>) d = (d1, r)" by (metis surj_pair)
  have "map ar_ID (adb_requests d1) = map ar_ID (adb_requests d)" "step_ids d1 = step_ids d"
    using req_Update_eff [OF u] step_ids_ops(3) [OF u] by (auto simp: comp_def)
  with Cons u show ?case by (cases r) (simp_all add: split_beta)
qed simp

lemma ExpireStale_ids:
  "step_ids (fst (ExpireStale U now d)) = step_ids d \<and>
   map ar_ID (adb_requests (fst (ExpireStale U now d))) = map ar_ID (adb_requests d)"
proof -
  obtain d1 x where l: "ListExpired now d = (d1, x)" by (metis surj_pair)
  have "step_ids d1 = step_ids d" "adb_requests d1 = adb_requests d"
    using l by (auto simp: ListExpired_def stmt_def step_ids_def split: list.splits option.splits)
  with l expire_all_ids [of U now _ d1] show ?thesis
    by (cases x) (simp_all add: ExpireStale_def split_beta)
qed

lemma ids_ok_same:
  assumes "ids_ok U d" "step_ids d' = step_ids d" "map ar_ID (adb_requests d') = map ar_ID (adb_requests d)"
  shows "ids_ok U d'"
proof -
  have "ar_ID ` set (adb_requests d') = ar_ID ` set (adb_requests d)" "as_ID ` set (adb_steps d') = as_ID ` set (adb_steps d)"
    using assms(2,3) by (metis image_set, metis image_set prod.inject step_ids_def)
  with assms show ?thesis unfolding ids_ok_def step_ids_def by simp
qed

lemma replaces_pending_ids: "replaces_pending d d' \<Longrightarrow> map ar_ID (adb_requests d') = map ar_ID (adb_requests d)"
  by (auto simp: replaces_pending_def comp_def)

context uuids
begin

lemma step_Create_ids:
  assumes "ids_ok U d"
  shows "ids_ok U (fst (step_Create U s d))"
  using assms injD [OF new_inj]
  by (fastforce simp: step_Create_def stmt_def ids_ok_def less_Suc_eq split: list.splits option.splits)

lemma create_steps_ids: "ids_ok U d \<Longrightarrow> ids_ok U (create_steps U i cs d)"
  by (induction cs arbitrary: d) (simp_all add: step_Create_ids)

lemma req_Create_ids:
  assumes "ids_ok U d" "req_Create U r d = (d', x)"
  shows "ids_ok U d' \<and> (\<exists>rs. adb_requests d' = adb_requests d @ rs)"
  using assms injD [OF new_inj]
  by (fastforce simp: req_Create_def stmt_def ids_ok_def less_Suc_eq Let_def split: list.splits option.splits)

lemma Create_ids:
  assumes "ids_ok U d"
  shows "ids_ok U (fst (approval_Create U now req d)) \<and>
    (\<exists>rs. adb_requests (fst (approval_Create U now req d)) = adb_requests d @ rs)"
proof -
  have same: "ids_ok U (audit_Log a i c (appendHistory U i' a' u n c' d)) = ids_ok U d" for a i c i' a' u n c' d
    by (simp add: ids_ok_def)
  show ?thesis
  proof (cases "uuid_parse U (ca_PolicyID req) = None \<or> uuid_parse U (ca_RequesterID req) = None")
    case True
    with assms show ?thesis by (auto simp: approval_Create_def split: option.split)
  next
    case False
    then obtain pu ru where uu: "uuid_parse U (ca_PolicyID req) = Some pu" "uuid_parse U (ca_RequesterID req) = Some ru" by auto
    obtain d1 x where c: "req_Create U (new_request now req pu ru) d = (d1, x)" by (metis surj_pair)
    note E = req_Create_ids [OF assms c]
    show ?thesis
    proof (cases x)
      case (Inl e)
      with E uu c show ?thesis by (simp add: approval_Create_def)
    next
      case (Inr ar)
      with E uu c create_steps_ids show ?thesis by (simp add: approval_Create_def Let_def same)
    qed
  qed
qed

lemma approval_step_ids: "ids_ok U d \<Longrightarrow> ids_ok U (approval_step U d x)"
  using ids_ok_same [OF _ step_ids_decisions(1) replaces_pending_ids [OF Approve_replaces]]
    ids_ok_same [OF _ step_ids_decisions(2) replaces_pending_ids [OF Reject_replaces]]
    ids_ok_same [OF _ step_ids_decisions(3) replaces_pending_ids [OF Cancel_replaces]]
    ids_ok_same [OF _ step_ids_decisions(4) replaces_pending_ids [OF Escalate_replaces]]
    ids_ok_same [OF _ conjunct1 [OF ExpireStale_ids] conjunct2 [OF ExpireStale_ids]] Create_ids
  by (cases x) (simp_all add: expiry_tick_def)

lemma approval_step_keeps:
  assumes "ids_ok U d" "request d i = Some r" "ar_Status r \<noteq> ApprovalPending"
  shows "request (approval_step U d x) i = Some r"
proof (cases x)
  case (OpCreate now req)
  have "find P (xs @ ys) = Some y" if "find P xs = Some y" for P xs ys and y :: ApprovalRequest
    using that by (induction xs) auto
  with OpCreate Create_ids [OF assms(1), of now req] assms(2) show ?thesis by (auto simp: request_def)
next
  case (OpExpire now)
  with assms ExpireStale_keeps show ?thesis by (simp add: expiry_tick_def ids_ok_def)
next
  case (OpApprove now j req)
  with assms replaces_pending_keeps [OF Approve_replaces] show ?thesis by simp
next
  case (OpReject now j req)
  with assms replaces_pending_keeps [OF Reject_replaces] show ?thesis by simp
next
  case (OpCancel now j u)
  with assms replaces_pending_keeps [OF Cancel_replaces] show ?thesis by simp
next
  case (OpEscalate now j req)
  with assms replaces_pending_keeps [OF Escalate_replaces] show ?thesis by simp
qed

lemma decided_forever:
  assumes "ids_ok U d" "request d i = Some r" "ar_Status r \<noteq> ApprovalPending"
  shows "request (run (approval_step U) d ops) i = Some r"
  using assms by (induction ops arbitrary: d) (simp_all add: approval_step_ids approval_step_keeps)

end


section \<open>What an approved request has been through\<close>

definition empty_approval_db :: approval_db where
  "empty_approval_db = \<lparr>adb_requests = [], adb_steps = [], adb_history = [], adb_audit = [], adb_next = 0, adb_faults = []\<rparr>"

definition steps_of :: "approval_db \<Rightarrow> string \<Rightarrow> ApprovalStep set" where
  "steps_of d i = {s \<in> set (adb_steps d). as_RequestID s = i}"

fun status_ok :: "ApprovalStatus \<Rightarrow> ApprovalStep set \<Rightarrow> bool" where
  "status_ok ApprovalPending S = (\<forall>s \<in> S. as_Status s = StepPending \<or> as_Status s = StepApproved)"
| "status_ok ApprovalApproved S = (S \<noteq> {} \<and> (\<forall>s \<in> S. as_Status s = StepApproved))"
| "status_ok ApprovalRejected S = (\<exists>s \<in> S. as_Status s = StepRejected)"
| "status_ok _ S = True"

definition request_ok :: "approval_db \<Rightarrow> ApprovalRequest \<Rightarrow> bool" where
  "request_ok d r \<longleftrightarrow> status_ok (ar_Status r) (steps_of d (ar_ID r))"

definition step_ok :: "uuid_lib \<Rightarrow> approval_db \<Rightarrow> ApprovalStep \<Rightarrow> bool" where
  "step_ok U d s \<longleftrightarrow> as_RequestID s \<in> ar_ID ` set (adb_requests d) \<and>
     (\<forall>a. as_ApproverID s = Some a \<longrightarrow> uuid_parse U a = Some a \<and>
        (as_Status s = StepApproved \<or> as_Status s = StepRejected \<longrightarrow> as_ResolvedBy s = Some a))"

definition flow_ok :: "uuid_lib \<Rightarrow> approval_db \<Rightarrow> bool" where
  "flow_ok U d \<longleftrightarrow> adb_faults d = [] \<and> ids_ok U d \<and> (\<forall>s \<in> set (adb_steps d). step_ok U d s) \<and>
     (\<forall>r \<in> set (adb_requests d). request_ok d r)"

lemma flow_ok_empty: "flow_ok U empty_approval_db"
  by (simp add: flow_ok_def ids_ok_def empty_approval_db_def)

text \<open>With no fault in store every statement takes effect.\<close>

lemma stmt_clean [simp]: "adb_faults d = [] \<Longrightarrow> stmt f d = f d"
  by (simp add: stmt_def)

lemma appendHistory_faults [simp]: "adb_faults d = [] \<Longrightarrow> adb_faults (appendHistory U i a u n c d) = []"
  by (simp add: appendHistory_def history_Create_def)

lemma clean_ops:
  assumes "adb_faults d = []"
  shows "req_GetByID i d = (d, case request d i of None \<Rightarrow> Inl (Wrapf ''approval request not found'' (Errorf ''record not found'')) | Some r \<Rightarrow> Inr r)"
    and "req_Update r d = (d\<lparr>adb_requests := map (\<lambda>x. if ar_ID x = ar_ID r then r else x) (adb_requests d)\<rparr>, Inr ())"
    and "step_Update s d = (d\<lparr>adb_steps := map (\<lambda>x. if as_ID x = as_ID s then s else x) (adb_steps d)\<rparr>, Inr ())"
    and "GetCurrentPendingStep i d = (d, case sort_key step_rank (pending_steps i d) of
       [] \<Rightarrow> Inl (Wrapf ''no pending step found'' (Errorf ''record not found'')) | s # _ \<Rightarrow> Inr s)"
  using assms
  by (simp_all add: req_GetByID_def req_Update_def step_Update_def GetCurrentPendingStep_def request_def split: option.split list.split)

definition set_step :: "ApprovalStep \<Rightarrow> approval_db \<Rightarrow> approval_db" where
  "set_step s d = d\<lparr>adb_steps := map (\<lambda>x. if as_ID x = as_ID s then s else x) (adb_steps d)\<rparr>"

definition set_request :: "ApprovalRequest \<Rightarrow> approval_db \<Rightarrow> approval_db" where
  "set_request r d = d\<lparr>adb_requests := map (\<lambda>x. if ar_ID x = ar_ID r then r else x) (adb_requests d)\<rparr>"

lemma set_tables [simp]:
  "adb_faults (set_step s d) = adb_faults d" "adb_faults (set_request r d) = adb_faults d"
  "adb_requests (set_step s d) = adb_requests d" "adb_steps (set_request r d) = adb_steps d"
  by (simp_all add: set_step_def set_request_def)

lemmas clean_simps = clean_ops(1,4) clean_ops(2,3) [folded set_request_def set_step_def]

lemma same_tables_refl [simp]: "same_tables d d"
  by (simp add: same_tables_def)

lemma same_tables_log [simp]:
  "same_tables d (audit_Log a i c d') = same_tables d d'" "same_tables d (appendHistory U i b u n c d') = same_tables d d'"
  by (simp_all add: same_tables_def)

definition resolvable :: "string \<Rightarrow> string \<Rightarrow> approval_db \<Rightarrow> ApprovalRequest \<Rightarrow> ApprovalStep \<Rightarrow> bool" where
  "resolvable i actor d ar step \<longleftrightarrow> request d i = Some ar \<and> ar_Status ar = ApprovalPending \<and>
     step \<in> set (pending_steps i d) \<and> verifyApprover step actor = None"

lemma clean_Approve:
  assumes "adb_faults d = []" "d' = fst (Approve U now i req d)"
  shows "adb_faults d' = [] \<and> (same_tables d d' \<or> (\<exists>ar step. resolvable i (dr_ActorID req) d ar step \<and>
    (let d1 = set_step (resolve_step U now StepApproved req step) d in
     same_tables (if pending_steps i d1 = [] then set_request (ar\<lparr>ar_Status := ApprovalApproved, ar_ResolvedAt := Some now\<rparr>) d1 else d1) d')))"
proof (cases "\<exists>ar step ss. request d i = Some ar \<and> ar_Status ar = ApprovalPending \<and>
    sort_key step_rank (pending_steps i d) = step # ss \<and> verifyApprover step (dr_ActorID req) = None")
  case True
  then obtain ar step ss where A: "request d i = Some ar" "ar_Status ar = ApprovalPending"
    "sort_key step_rank (pending_steps i d) = step # ss" "verifyApprover step (dr_ActorID req) = None" by blast
  define d1 where "d1 = set_step (resolve_step U now StepApproved req step) d"
  have c: "adb_faults d1 = []" using assms(1) by (simp add: d1_def)
  have "resolvable i (dr_ActorID req) d ar step" using A sort_key_hd_in by (auto simp: resolvable_def)
  moreover have "sort_key step_rank (pending_steps i d1) = [] \<longleftrightarrow> pending_steps i d1 = []"
    by (metis set_empty set_sort)
  then have "adb_faults d' = [] \<and> same_tables (if pending_steps i d1 = [] then
      set_request (ar\<lparr>ar_Status := ApprovalApproved, ar_ResolvedAt := Some now\<rparr>) d1 else d1) d'"
    using assms A c by (auto simp: Approve_def clean_simps Let_def d1_def [symmetric] split: list.split)
  ultimately show ?thesis unfolding d1_def Let_def by blast
next
  case False
  with assms show ?thesis
    by (cases "request d i"; cases "sort_key step_rank (pending_steps i d)")
      (auto simp: Approve_def clean_simps split: option.split)
qed

lemma clean_Reject:
  assumes "adb_faults d = []" "d' = fst (Reject U now i req d)"
  shows "adb_faults d' = [] \<and> (same_tables d d' \<or> (\<exists>ar step. resolvable i (dr_ActorID req) d ar step \<and>
     same_tables (set_request (ar\<lparr>ar_Status := ApprovalRejected, ar_ResolvedAt := Some now\<rparr>)
       (set_step (resolve_step U now StepRejected req step) d)) d'))"
proof (cases "\<exists>ar step ss. request d i = Some ar \<and> ar_Status ar = ApprovalPending \<and>
    sort_key step_rank (pending_steps i d) = step # ss \<and> verifyApprover step (dr_ActorID req) = None")
  case True
  then obtain ar step ss where A: "request d i = Some ar" "ar_Status ar = ApprovalPending"
    "sort_key step_rank (pending_steps i d) = step # ss" "verifyApprover step (dr_ActorID req) = None" by blast
  have "resolvable i (dr_ActorID req) d ar step" using A sort_key_hd_in by (auto simp: resolvable_def)
  moreover have "adb_faults d' = [] \<and> same_tables (set_request (ar\<lparr>ar_Status := ApprovalRejected, ar_ResolvedAt := Some now\<rparr>)
       (set_step (resolve_step U now StepRejected req step) d)) d'"
    using assms A by (simp add: Reject_def clean_simps Let_def)
  ultimately show ?thesis by blast
next
  case False
  with assms show ?thesis
    by (cases "request d i"; cases "sort_key step_rank (pending_steps i d)")
      (auto simp: Reject_def clean_simps split: option.split)
qed


lemma flow_ok_tables:
  assumes "flow_ok U d" "same_tables d d'" "adb_faults d' = []"
  shows "flow_ok U d'"
proof -
  have "steps_of d' i = steps_of d i" for i using assms(2) by (simp add: steps_of_def same_tables_def)
  then have "request_ok d' r = request_ok d r" "step_ok U d' s = step_ok U d s" for r s
    using assms(2) by (simp_all add: request_ok_def step_ok_def same_tables_def)
  with assms show ?thesis by (simp add: flow_ok_def same_tables_def ids_ok_def)
qed

lemma set_step_ids: "as_ID s' = as_ID s \<Longrightarrow> map as_ID (adb_steps (set_step s' d)) = map as_ID (adb_steps d)"
  by (auto simp: set_step_def)

lemma set_request_ids: "map ar_ID (adb_requests (set_request r d)) = map ar_ID (adb_requests d)"
  by (auto simp: set_request_def)

lemma ids_ok_set:
  assumes "ids_ok U d"
  shows "ids_ok U (set_step s d)" "ids_ok U (set_request r d)"
proof -
  show "ids_ok U (set_step s d)"
    by (rule ids_ok_same [OF assms]) (auto simp: step_ids_def set_step_def)
  show "ids_ok U (set_request r d)"
    by (rule ids_ok_same [OF assms]) (auto simp: step_ids_def set_request_def)
qed

lemma set_map_replace:
  assumes "distinct (map f xs)" "x \<in> set xs" "f x' = f x"
  shows "set (map (\<lambda>y. if f y = f x' then x' else y) xs) = insert x' (set xs - {x})"
proof -
  have "f y = f x \<longleftrightarrow> y = x" if "y \<in> set xs" for y
    using assms(1,2) that by (metis distinct_map inj_onD)
  with assms(2,3) show ?thesis by (auto simp: image_iff)
qed

lemma request_SomeD: "request d i = Some r \<Longrightarrow> r \<in> set (adb_requests d) \<and> ar_ID r = i"
  by (auto simp: request_def find_Some_iff)

lemma find_replaced:
  "ar_ID ar' = i \<Longrightarrow> i \<in> ar_ID ` set rs \<Longrightarrow> find (\<lambda>r. ar_ID r = i) (map (\<lambda>x. if ar_ID x = i then ar' else x) rs) = Some ar'"
  by (induction rs) auto

lemma set_request_set:
  assumes "ids_ok U d" "request d i = Some ar" "ar_ID ar' = ar_ID ar"
  shows "set (adb_requests (set_request ar' d)) = insert ar' (set (adb_requests d) - {ar})"
  unfolding set_request_def using assms request_SomeD [OF assms(2)] set_map_replace [of ar_ID "adb_requests d" ar ar']
  by (simp add: ids_ok_def)

lemma set_step_set:
  assumes "ids_ok U d" "s \<in> set (adb_steps d)" "as_ID s' = as_ID s"
  shows "set (adb_steps (set_step s' d)) = insert s' (set (adb_steps d) - {s})"
  unfolding set_step_def using assms set_map_replace [of as_ID "adb_steps d" s s'] by (simp add: ids_ok_def)

lemma other_request:
  assumes "ids_ok U d" "request d i = Some ar" "r \<in> set (adb_requests d)" "r \<noteq> ar"
  shows "ar_ID r \<noteq> i"
  using assms request_SomeD [OF assms(2)] unfolding ids_ok_def by (metis distinct_map inj_onD)

lemma flow_ok_set_request:
  assumes "flow_ok U d" "request d i = Some ar" "ar_ID ar' = ar_ID ar" "request_ok d ar'"
  shows "flow_ok U (set_request ar' d)"
proof -
  have ids: "ids_ok U d" using assms(1) by (simp add: flow_ok_def)
  have img: "ar_ID ` set (adb_requests (set_request ar' d)) = ar_ID ` set (adb_requests d)"
    by (metis image_set set_request_ids)
  have "request_ok (set_request ar' d) r = request_ok d r" for r by (simp add: request_ok_def steps_of_def)
  moreover have "step_ok U (set_request ar' d) s = step_ok U d s" for s by (simp add: step_ok_def img)
  ultimately show ?thesis using assms ids_ok_set(2) [OF ids] set_request_set [OF ids assms(2,3)]
    by (simp add: flow_ok_def)
qed

lemma resolve_step_simps [simp]:
  "as_ID (resolve_step U now st req s) = as_ID s" "as_RequestID (resolve_step U now st req s) = as_RequestID s"
  "as_Status (resolve_step U now st req s) = st" "as_ApproverID (resolve_step U now st req s) = as_ApproverID s"
  by (simp_all add: resolve_step_def)

lemma resolved_steps:
  assumes "flow_ok U d" "resolvable i actor d ar step"
  shows "steps_of (set_step (resolve_step U now st req step) d) i = insert (resolve_step U now st req step) (steps_of d i - {step})"
    and "j \<noteq> i \<Longrightarrow> steps_of (set_step (resolve_step U now st req step) d) j = steps_of d j"
proof -
  have "step \<in> set (adb_steps d)" "as_RequestID step = i" "ids_ok U d"
    using assms by (auto simp: resolvable_def pending_steps_def flow_ok_def)
  then show "steps_of (set_step (resolve_step U now st req step) d) i = insert (resolve_step U now st req step) (steps_of d i - {step})"
    and "j \<noteq> i \<Longrightarrow> steps_of (set_step (resolve_step U now st req step) d) j = steps_of d j"
    by (auto simp: steps_of_def set_step_set)
qed

lemma resolved_step_ok:
  assumes "flow_ok U d" "resolvable i (dr_ActorID req) d ar step"
    "s \<in> set (adb_steps (set_step (resolve_step U now st req step) d))"
  shows "step_ok U (set_step (resolve_step U now st req step) d) s"
proof -
  have st: "step \<in> set (adb_steps d)" "verifyApprover step (dr_ActorID req) = None"
    using assms(2) by (auto simp: resolvable_def pending_steps_def)
  have old: "step_ok U d x" if "x \<in> set (adb_steps d)" for x using assms(1) that by (simp add: flow_ok_def)
  have "step_ok U d (resolve_step U now st req step)"
    using st(2) old [OF st(1)] by (auto simp: step_ok_def resolve_step_def verifyApprover_def split: if_splits)
  with assms st(1) old show ?thesis
    by (auto simp: flow_ok_def set_step_set step_ok_def)
qed

lemma resolved_other_ok:
  assumes "flow_ok U d" "resolvable i actor d ar step" "r \<in> set (adb_requests d)" "r \<noteq> ar"
  shows "request_ok (set_step (resolve_step U now st req step) d) r"
proof -
  have "ids_ok U d" "request d i = Some ar" using assms(1,2) by (auto simp: resolvable_def flow_ok_def)
  then have "ar_ID r \<noteq> i" using assms(3,4) by (rule other_request)
  then have "steps_of (set_step (resolve_step U now st req step) d) (ar_ID r) = steps_of d (ar_ID r)"
    by (rule resolved_steps(2) [OF assms(1,2)])
  with assms(1,3) show ?thesis by (auto simp: flow_ok_def request_ok_def)
qed

lemma flow_ok_resolve:
  assumes "flow_ok U d" "resolvable i (dr_ActorID req) d ar step"
    and d1: "d1 = set_step (resolve_step U now st req step) d"
    and ar': "ar_ID ar' = ar_ID ar" "request_ok d1 ar'"
  shows "flow_ok U (set_request ar' d1)"
proof -
  have req: "request d1 i = Some ar" and ids: "ids_ok U d1"
    using assms(1,2) ids_ok_set(1) by (auto simp: resolvable_def request_def d1 flow_ok_def)
  have img: "ar_ID ` set (adb_requests (set_request ar' d1)) = ar_ID ` set (adb_requests d1)"
    by (metis image_set set_request_ids)
  have same: "request_ok (set_request ar' d1) r = request_ok d1 r" "step_ok U (set_request ar' d1) s = step_ok U d1 s" for r s
    by (simp_all add: request_ok_def steps_of_def step_ok_def img)
  have "\<forall>s \<in> set (adb_steps d1). step_ok U d1 s" using resolved_step_ok [OF assms(1,2)] d1 by blast
  moreover have "request_ok d1 r" if "r \<in> set (adb_requests (set_request ar' d1))" for r
  proof -
    have "r = ar' \<or> r \<in> set (adb_requests d) \<and> r \<noteq> ar" using that set_request_set [OF ids req ar'(1)] by (auto simp: d1)
    with ar'(2) resolved_other_ok [OF assms(1,2)] show ?thesis by (auto simp: d1)
  qed
  moreover have "adb_faults d1 = []" using assms(1) by (simp add: flow_ok_def d1)
  ultimately show ?thesis unfolding flow_ok_def using ids_ok_set(2) [OF ids] same by simp
qed

lemma set_request_id:
  assumes "ids_ok U d" "request d i = Some ar"
  shows "set_request ar d = d"
proof -
  have "map (\<lambda>x. if ar_ID x = ar_ID ar then ar else x) (adb_requests d) = adb_requests d"
    using other_request [OF assms] request_SomeD [OF assms(2)] by (intro map_idI) auto
  then show ?thesis by (simp add: set_request_def)
qed

lemma Approve_flow:
  assumes "flow_ok U d"
  shows "flow_ok U (fst (Approve U now i req d))"
proof -
  define d' where "d' = fst (Approve U now i req d)"
  have c: "adb_faults d = []" using assms by (simp add: flow_ok_def)
  note C = clean_Approve [OF c d'_def]
  show ?thesis
  proof (cases "same_tables d d'")
    case True
    with assms C show ?thesis unfolding d'_def [symmetric] by (blast intro: flow_ok_tables)
  next
    case False
    with C obtain ar step where R: "resolvable i (dr_ActorID req) d ar step" and
      E: "let d1 = set_step (resolve_step U now StepApproved req step) d in
        same_tables (if pending_steps i d1 = [] then set_request (ar\<lparr>ar_Status := ApprovalApproved, ar_ResolvedAt := Some now\<rparr>) d1 else d1) d'"
      by blast
    define d1 where d1: "d1 = set_step (resolve_step U now StepApproved req step) d"
    have ar: "ar \<in> set (adb_requests d)" "ar_ID ar = i" "ar_Status ar = ApprovalPending" "request d1 i = Some ar"
      using R request_SomeD [of d i ar] by (simp_all add: resolvable_def d1 request_def)
    have "request_ok d ar" using assms ar(1) by (simp add: flow_ok_def)
    then have st: "as_Status s = StepPending \<or> as_Status s = StepApproved" if "s \<in> steps_of d1 i" for s
      using that ar(2,3) resolved_steps(1) [OF assms R] by (auto simp: d1 request_ok_def)
    have ne: "steps_of d1 i \<noteq> {}" using resolved_steps(1) [OF assms R] by (simp add: d1)
    have "flow_ok U (if pending_steps i d1 = [] then set_request (ar\<lparr>ar_Status := ApprovalApproved, ar_ResolvedAt := Some now\<rparr>) d1 else d1)"
    proof (cases "pending_steps i d1 = []")
      case True
      then have "as_Status s \<noteq> StepPending" if "s \<in> steps_of d1 i" for s
        using that by (auto simp: pending_steps_def steps_of_def filter_empty_conv)
      with st have "\<forall>s \<in> steps_of d1 i. as_Status s = StepApproved" by blast
      with ne ar(2) have "request_ok d1 (ar\<lparr>ar_Status := ApprovalApproved, ar_ResolvedAt := Some now\<rparr>)"
        by (simp add: request_ok_def)
      with True flow_ok_resolve [OF assms R d1] show ?thesis by simp
    next
      case False
      have "request_ok d1 ar" using st ar by (simp add: request_ok_def)
      then have "flow_ok U (set_request ar d1)" by (intro flow_ok_resolve [OF assms R d1]) simp_all
      moreover have "ids_ok U d1" using assms ids_ok_set(1) by (simp add: d1 flow_ok_def)
      ultimately show ?thesis using False set_request_id [OF _ ar(4)] by simp
    qed
    with E C show ?thesis unfolding d'_def [symmetric] d1 Let_def by (blast intro: flow_ok_tables)
  qed
qed

lemma Reject_flow:
  assumes "flow_ok U d"
  shows "flow_ok U (fst (Reject U now i req d))"
proof -
  define d' where "d' = fst (Reject U now i req d)"
  have c: "adb_faults d = []" using assms by (simp add: flow_ok_def)
  note C = clean_Reject [OF c d'_def]
  show ?thesis
  proof (cases "same_tables d d'")
    case True
    with assms C show ?thesis unfolding d'_def [symmetric] by (blast intro: flow_ok_tables)
  next
    case False
    with C obtain ar step where R: "resolvable i (dr_ActorID req) d ar step" and
      E: "same_tables (set_request (ar\<lparr>ar_Status := ApprovalRejected, ar_ResolvedAt := Some now\<rparr>)
       (set_step (resolve_step U now StepRejected req step) d)) d'" by blast
    have "ar_ID ar = i" using R request_SomeD by (auto simp: resolvable_def)
    then have "request_ok (set_step (resolve_step U now StepRejected req step) d) (ar\<lparr>ar_Status := ApprovalRejected, ar_ResolvedAt := Some now\<rparr>)"
      by (simp add: request_ok_def resolved_steps(1) [OF assms R])
    then have "flow_ok U (set_request (ar\<lparr>ar_Status := ApprovalRejected, ar_ResolvedAt := Some now\<rparr>)
       (set_step (resolve_step U now StepRejected req step) d))"
      by (intro flow_ok_resolve [OF assms R refl]) simp_all
    with E C show ?thesis unfolding d'_def [symmetric] by (blast intro: flow_ok_tables)
  qed
qed


lemma Cancel_flow: "flow_ok U d \<Longrightarrow> flow_ok U (fst (Cancel U now i u d))"
proof -
  assume f: "flow_ok U d"
  then have c: "adb_faults d = []" by (simp add: flow_ok_def)
  show ?thesis
  proof (cases "\<exists>ar. request d i = Some ar \<and> ar_Status ar = ApprovalPending \<and> ar_RequesterID ar = u")
    case True
    then obtain ar where ar: "request d i = Some ar" "ar_Status ar = ApprovalPending" "ar_RequesterID ar = u" by blast
    have "flow_ok U (set_request (ar\<lparr>ar_Status := ApprovalCancelled, ar_ResolvedAt := Some now\<rparr>) d)"
      by (rule flow_ok_set_request [OF f ar(1)]) (simp_all add: request_ok_def)
    then show ?thesis by (rule flow_ok_tables) (use ar c in \<open>simp_all add: Cancel_def clean_simps\<close>)
  next
    case False
    with c show ?thesis by (intro flow_ok_tables [OF f]; cases "request d i") (auto simp: Cancel_def clean_simps)
  qed
qed

lemma Escalate_flow: "flow_ok U d \<Longrightarrow> flow_ok U (fst (Escalate U now i req d))"
proof -
  assume f: "flow_ok U d"
  then have c: "adb_faults d = []" by (simp add: flow_ok_def)
  show ?thesis
  proof (cases "\<exists>ar. request d i = Some ar \<and> ar_Status ar = ApprovalPending")
    case True
    then obtain ar where ar: "request d i = Some ar" "ar_Status ar = ApprovalPending" by blast
    have "flow_ok U (set_request (ar\<lparr>ar_Status := ApprovalEscalated, ar_EscalatedAt := Some now,
       ar_EscalatedTo := (case uuid_parse U (er_EscalateTo req) of Some u \<Rightarrow> Some u | None \<Rightarrow> ar_EscalatedTo ar)\<rparr>) d)"
      by (rule flow_ok_set_request [OF f ar(1)]) (simp_all add: request_ok_def)
    then show ?thesis by (rule flow_ok_tables) (use ar c in \<open>simp_all add: Escalate_def clean_simps\<close>)
  next
    case False
    with c show ?thesis by (intro flow_ok_tables [OF f]; cases "request d i") (auto simp: Escalate_def clean_simps)
  qed
qed

lemma expire_all_flow:
  assumes "flow_ok U d" "\<forall>ar \<in> set ars. ar_ID ar \<in> ar_ID ` set (adb_requests d)"
  shows "flow_ok U (fst (expire_all U now ars d))"
  using assms
proof (induction ars arbitrary: d)
  case (Cons ar ars)
  define ar' where "ar' = ar\<lparr>ar_Status := ApprovalExpired, ar_ResolvedAt := Some now\<rparr>"
  define d1 where "d1 = appendHistory U (ar_ID ar) HistoryExpired '''' ''system'' ''Request expired'' (set_request ar' d)"
  have c: "adb_faults d = []" using Cons.prems by (simp add: flow_ok_def)
  have "ar_ID ar \<in> ar_ID ` set (adb_requests d)" using Cons.prems(2) by simp
  then have "request d (ar_ID ar) \<noteq> None" unfolding request_def find_None_iff by force
  then obtain r where r: "request d (ar_ID ar) = Some r" by blast
  have "flow_ok U (set_request ar' d)"
    by (rule flow_ok_set_request [OF Cons.prems(1) r]) (use request_SomeD [OF r] in \<open>simp_all add: request_ok_def ar'_def\<close>)
  then have "flow_ok U d1" by (rule flow_ok_tables) (simp_all add: d1_def c)
  moreover have "ar_ID ` set (adb_requests d1) = ar_ID ` set (adb_requests d)"
    unfolding d1_def appendHistory_eff by (metis image_set set_request_ids)
  ultimately have "flow_ok U (fst (expire_all U now ars d1))" using Cons.prems(2) by (intro Cons.IH) simp_all
  then show ?case by (simp add: clean_simps c ar'_def [symmetric] d1_def [symmetric] split_beta)
qed simp

lemma ExpireStale_flow:
  assumes "flow_ok U d"
  shows "flow_ok U (fst (ExpireStale U now d))"
proof -
  have c: "adb_faults d = []" using assms by (simp add: flow_ok_def)
  have "flow_ok U (fst (expire_all U now (filter P (adb_requests d)) d))" for P
    by (rule expire_all_flow [OF assms]) auto
  then show ?thesis by (simp add: ExpireStale_def ListExpired_def c split_beta)
qed

lemma create_steps_mono: "set (adb_steps d) \<subseteq> set (adb_steps (create_steps U i cs d))"
proof (induction cs arbitrary: d)
  case (Cons c cs)
  have "set (adb_steps d) \<subseteq> set (adb_steps (fst (step_Create U (new_step U i c) d)))"
    by (auto simp: step_Create_def stmt_def split: list.splits option.splits)
  also note Cons.IH
  finally show ?case by simp
qed simp

lemma create_steps_clean:
  assumes "adb_faults d = []"
  shows "adb_faults (create_steps U i cs d) = [] \<and> adb_requests (create_steps U i cs d) = adb_requests d \<and>
    (\<forall>s \<in> set (adb_steps (create_steps U i cs d)). s \<in> set (adb_steps d) \<or>
       (\<exists>c \<in> set cs. \<exists>k. s = (new_step U i c)\<lparr>as_ID := k\<rparr>))"
  using assms
proof (induction cs arbitrary: d)
  case (Cons c cs)
  define d1 where "d1 = fst (step_Create U (new_step U i c) d)"
  have d1: "adb_faults d1 = []" "adb_steps d1 = adb_steps d @ [(new_step U i c)\<lparr>as_ID := uuid_new U (adb_next d)\<rparr>]" "adb_requests d1 = adb_requests d"
    using Cons.prems by (simp_all add: d1_def step_Create_def)
  note IH = Cons.IH [OF d1(1)]
  have "s \<in> set (adb_steps d) \<or> (\<exists>c' \<in> set (c # cs). \<exists>k. s = (new_step U i c')\<lparr>as_ID := k\<rparr>)"
    if s: "s \<in> set (adb_steps (create_steps U i cs d1))" for s
  proof -
    from IH s have "s \<in> set (adb_steps d1) \<or> (\<exists>c' \<in> set cs. \<exists>k. s = (new_step U i c')\<lparr>as_ID := k\<rparr>)" by blast
    then show ?thesis unfolding d1(2) set_append list.set by blast
  qed
  with IH d1(3) show ?case unfolding create_steps.simps d1_def [symmetric] by metis
qed simp

context uuids
begin

lemma Create_flow:
  assumes f: "flow_ok U d"
  shows "flow_ok U (fst (approval_Create U now req d))"
proof (cases "uuid_parse U (ca_PolicyID req) = None \<or> uuid_parse U (ca_RequesterID req) = None")
  case True
  with assms show ?thesis by (auto simp: approval_Create_def split: option.split)
next
  case False
  then obtain pu ru where uu: "uuid_parse U (ca_PolicyID req) = Some pu" "uuid_parse U (ca_RequesterID req) = Some ru" by auto
  define k where "k = uuid_new U (adb_next d)"
  define ar where "ar = (new_request now req pu ru)\<lparr>ar_ID := k\<rparr>"
  define d1 where "d1 = d\<lparr>adb_requests := adb_requests d @ [ar], adb_next := adb_next d + 1\<rparr>"
  define cs where "cs = (if ca_Steps req \<noteq> [] then ca_Steps req else [default_step])"
  define d2 where "d2 = create_steps U k cs d1"
  have c: "adb_faults d = []" "adb_faults d1 = []" using f by (simp_all add: flow_ok_def d1_def)
  have ids: "ids_ok U d" using f by (simp add: flow_ok_def)
  have cr: "req_Create U (new_request now req pu ru) d = (d1, Inr ar)"
    using c by (simp add: req_Create_def d1_def ar_def k_def Let_def)
  note S = create_steps_clean [OF c(2), of U k cs, folded d2_def]
  have d2: "adb_requests d2 = adb_requests d @ [ar]" using S by (simp add: d1_def)
  have fresh: "ar_ID r \<noteq> k" if "r \<in> set (adb_requests d)" for r
  proof
    assume "ar_ID r = k"
    then have "k \<in> ar_ID ` set (adb_requests d) \<union> as_ID ` set (adb_steps d)" using that by blast
    then obtain n where "n < adb_next d" "k = uuid_new U n" using ids unfolding ids_ok_def by blast
    then show False using injD [OF new_inj, of n "adb_next d"] by (simp add: k_def)
  qed
  have old: "step_ok U d s \<and> as_RequestID s \<noteq> k" if "s \<in> set (adb_steps d)" for s
    using that f fresh by (fastforce simp: flow_ok_def step_ok_def)
  have new: "s \<in> set (adb_steps d) \<or> as_RequestID s = k \<and> as_Status s = StepPending \<and> (\<exists>x. as_ApproverID s = parse_optional U x)"
    if "s \<in> set (adb_steps d2)" for s
  proof -
    from S that consider "s \<in> set (adb_steps d1)" | c j where "s = (new_step U k c)\<lparr>as_ID := j\<rparr>" by blast
    then show ?thesis
    proof cases
      case 1
      then show ?thesis by (simp add: d1_def)
    next
      case 2
      then have "as_RequestID s = k" "as_Status s = StepPending" "as_ApproverID s = parse_optional U (cs_ApproverID c)"
        by (simp_all add: new_step_def)
      then show ?thesis by blast
    qed
  qed
  have sup: "set (adb_steps d) \<subseteq> set (adb_steps d2)"
  proof -
    have "set (adb_steps d1) \<subseteq> set (adb_steps d2)" unfolding d2_def by (rule create_steps_mono)
    then show ?thesis by (simp add: d1_def)
  qed
  have "\<forall>s \<in> set (adb_steps d2). step_ok U d2 s"
  proof
    fix s assume "s \<in> set (adb_steps d2)"
    from new [OF this] old show "step_ok U d2 s"
      by (auto simp: step_ok_def d2 ar_def parse_optional_def parse_canonical split: if_splits)
  qed
  moreover have "request_ok d2 r" if r: "r \<in> set (adb_requests d2)" for r
  proof (cases "r = ar")
    case True
    have "as_Status s = StepPending" if "s \<in> steps_of d2 k" for s
      using that new [of s] old by (auto simp: steps_of_def)
    with True show ?thesis by (auto simp: request_ok_def ar_def new_request_def)
  next
    case False
    with r have r: "r \<in> set (adb_requests d)" using d2 by auto
    then have "s \<in> set (adb_steps d)" if "s \<in> set (adb_steps d2)" "as_RequestID s = ar_ID r" for s
      using that fresh new [OF that(1)] by auto
    then have "steps_of d2 (ar_ID r) = steps_of d (ar_ID r)" using sup by (auto simp: steps_of_def)
    with r f show ?thesis by (simp add: request_ok_def flow_ok_def)
  qed
  moreover have "ids_ok U d2" unfolding d2_def by (rule create_steps_ids) (use req_Create_ids [OF ids cr] in blast)
  ultimately have "flow_ok U d2" using S by (auto simp: flow_ok_def)
  moreover have "ar_ID ar = k" by (simp add: ar_def)
  then have "same_tables d2 (fst (approval_Create U now req d)) \<and> adb_faults (fst (approval_Create U now req d)) = []"
    using conjunct1 [OF S] by (simp add: approval_Create_def uu cr Let_def cs_def [symmetric] d2_def [symmetric])
  ultimately show ?thesis by (blast intro: flow_ok_tables)
qed

end

sublocale uuids \<subseteq> approvals: component empty_approval_db "approval_step U" "flow_ok U"
proof unfold_locales
  show "flow_ok U empty_approval_db" by (rule flow_ok_empty)
  show "flow_ok U (approval_step U d x)" if "flow_ok U d" for d x
    using that by (cases x) (simp_all add: Create_flow Approve_flow Reject_flow Cancel_flow Escalate_flow ExpireStale_flow expiry_tick_def)
qed


context uuids
begin

lemma reachable_flow: "flow_ok U (run (approval_step U) empty_approval_db ops)"
  by (rule approvals.inv_reachable)

end

section \<open>The expiry sweep\<close>

lemma expire_all_sweeps:
  assumes "adb_faults d = []"
  shows "snd (expire_all U now ars d) = int (length ars) \<and>
    (\<forall>r \<in> set (adb_requests (fst (expire_all U now ars d))).
       ar_Status r = ApprovalExpired \<or> r \<in> set (adb_requests d) \<and> ar_ID r \<notin> ar_ID ` set ars)"
  using assms
proof (induction ars arbitrary: d)
  case (Cons ar ars)
  define ar' where "ar' = ar\<lparr>ar_Status := ApprovalExpired, ar_ResolvedAt := Some now\<rparr>"
  define d1 where "d1 = appendHistory U (ar_ID ar) HistoryExpired '''' ''system'' ''Request expired'' (set_request ar' d)"
  have c: "adb_faults d1 = []" using Cons.prems by (simp add: d1_def)
  have e: "expire_all U now (ar # ars) d = (fst (expire_all U now ars d1), snd (expire_all U now ars d1) + 1)"
    using Cons.prems by (simp add: clean_simps ar'_def [symmetric] d1_def [symmetric] split_beta)
  have "r = ar' \<or> r \<in> set (adb_requests d) \<and> ar_ID r \<noteq> ar_ID ar" if "r \<in> set (adb_requests d1)" for r
    using that by (auto simp: d1_def set_request_def ar'_def split: if_splits)
  moreover have "ar_Status ar' = ApprovalExpired" by (simp add: ar'_def)
  ultimately show ?case using Cons.IH [OF c] unfolding e by auto
qed simp

lemma ExpireStale_clean:
  assumes "adb_faults d = []"
  shows "ExpireStale U now d = (let ars = filter (\<lambda>r. ar_Status r = ApprovalPending \<and>
     (case ar_ExpiresAt r of None \<Rightarrow> False | Some e \<Rightarrow> e \<le> now)) (adb_requests d)
     in (fst (expire_all U now ars d), Inr (int (length ars))))"
  using assms expire_all_sweeps [OF assms]
  by (simp add: ExpireStale_def ListExpired_def split_beta Let_def)

lemma approver_role_unchecked:
  assumes "adb_faults d = []" "request d i = Some ar" "ar_Status ar = ApprovalPending"
    "sort_key step_rank (pending_steps i d) = step # ss" "as_ApproverID step = None"
  shows "snd (Approve U now i req d) = None"
  using assms by (simp add: Approve_def clean_simps verifyApprover_def Let_def split: list.split)

section \<open>Examples\<close>

definition demo_request :: "CreateApprovalStepRequest list \<Rightarrow> int \<Rightarrow> CreateApprovalRequest" where
  "demo_request steps ttl = \<lparr>ca_PolicyID = ''p'', ca_PolicyName = ''prod'', ca_Operation = ''vm.delete'', ca_ResourceType = ''vm'',
     ca_ResourceID = ''v'', ca_ResourceName = ''db1'', ca_RequesterID = ''u'', ca_RequesterName = ''Ann'', ca_Justification = '''',
     ca_OperationPayload = [], ca_Metadata = [], ca_Steps = steps, ca_ExpiresIn = ttl\<rparr>"

definition demo_steps :: "CreateApprovalStepRequest list" where
  "demo_steps = [\<lparr>cs_StepOrder = 2, cs_ApproverID = '''', cs_ApproverRole = ''admin'', cs_ApproverName = ''Admin''\<rparr>,
     \<lparr>cs_StepOrder = 1, cs_ApproverID = ''bob'', cs_ApproverRole = '''', cs_ApproverName = ''Bob''\<rparr>]"

definition demo_decision :: "string \<Rightarrow> ApprovalDecisionRequest" where
  "demo_decision actor = \<lparr>dr_ActorID = actor, dr_ActorName = actor, dr_Comment = ''ok''\<rparr>"

section \<open>Properties\<close>

text \<open>C14. A decided request is final. Once a request is approved, rejected, expired, cancelled or escalated, no sequence of
  service calls and expiry sweeps, whatever statements of the database fail, changes any of its fields;
  in particular an escalated request can never be approved or rejected.\<close>

theorem decided_request_final:
  assumes "uuids U" "ids_ok U d" "request d i = Some r" "ar_Status r \<noteq> ApprovalPending"
  shows "request (run (approval_step U) d ops) i = Some r"
  using assms by (rule uuids.decided_forever)

definition demo_escalated :: approval_db where
  "demo_escalated = run (approval_step plain_uuids) empty_approval_db
     [OpCreate 0 (demo_request [] 0), OpEscalate 1 ''0'' \<lparr>er_ActorID = ''x'', er_ActorName = ''X'', er_EscalateTo = ''cto'', er_Comment = ''''\<rparr>]"

theorem decided_request_final_witness:
  "(case request (run (approval_step plain_uuids) demo_escalated [OpApprove 2 ''0'' (demo_decision ''cto''), OpReject 3 ''0'' (demo_decision ''cto''), OpExpire 4]) ''0'' of
      None \<Rightarrow> False | Some r \<Rightarrow> ar_Status r = ApprovalEscalated \<and> ar_EscalatedTo r = Some ''cto'')"
proof -
  have ids: "ids_ok plain_uuids demo_escalated"
    using plain.approvals.inv_reachable unfolding demo_escalated_def flow_ok_def by blast
  have "map_option (\<lambda>r. (ar_Status r, ar_EscalatedTo r)) (request demo_escalated ''0'') = Some (ApprovalEscalated, Some ''cto'')"
    by code_simp
  then obtain r where r: "request demo_escalated ''0'' = Some r" "ar_Status r = ApprovalEscalated" "ar_EscalatedTo r = Some ''cto''" by auto
  then show ?thesis
    using decided_request_final [OF plain.uuids_axioms ids r(1), of "[OpApprove 2 ''0'' (demo_decision ''cto''), OpReject 3 ''0'' (demo_decision ''cto''), OpExpire 4]"]
    by simp
qed

text \<open>C5. While the database works, approval means what it says: in every state the service can reach from empty tables,
  a request that is approved has at least one step, every one of its steps is approved, and a step
  with a designated approver was resolved by that approver.\<close>

theorem approved_by_every_approver:
  assumes "uuids U" "request (run (approval_step U) empty_approval_db ops) i = Some r" "ar_Status r = ApprovalApproved"
  shows "steps_of (run (approval_step U) empty_approval_db ops) i \<noteq> {} \<and>
    (\<forall>s \<in> steps_of (run (approval_step U) empty_approval_db ops) i. as_Status s = StepApproved \<and>
       (\<forall>a. as_ApproverID s = Some a \<longrightarrow> as_ResolvedBy s = Some a))"
proof -
  define d where "d = run (approval_step U) empty_approval_db ops"
  have f: "flow_ok U d"
    unfolding d_def by (rule uuids.reachable_flow [OF assms(1)])
  have "r \<in> set (adb_requests d)" "ar_ID r = i" using request_SomeD assms(2) unfolding d_def by blast+
  with f assms(3) have ok: "steps_of d i \<noteq> {}" "\<forall>s \<in> steps_of d i. as_Status s = StepApproved"
    by (auto simp: flow_ok_def request_ok_def)
  moreover have "step_ok U d s" if "s \<in> steps_of d i" for s using that f by (simp add: flow_ok_def steps_of_def)
  ultimately show ?thesis unfolding d_def [symmetric] by (auto simp: step_ok_def)
qed


definition demo_approved :: "approval_op list" where
  "demo_approved = [OpCreate 0 (demo_request demo_steps 0), OpApprove 1 ''0'' (demo_decision ''eve''),
     OpApprove 2 ''0'' (demo_decision ''bob''), OpApprove 3 ''0'' (demo_decision ''root'')]"

theorem approved_by_every_approver_witness:
  "(\<exists>r. request (run (approval_step plain_uuids) empty_approval_db demo_approved) ''0'' = Some r \<and> ar_Status r = ApprovalApproved) \<and>
   as_Status ` steps_of (run (approval_step plain_uuids) empty_approval_db demo_approved) ''0'' = {StepApproved}"
proof -
  have "map_option ar_Status (request (run (approval_step plain_uuids) empty_approval_db demo_approved) ''0'') = Some ApprovalApproved"
    by code_simp
  then obtain r where "request (run (approval_step plain_uuids) empty_approval_db demo_approved) ''0'' = Some r" "ar_Status r = ApprovalApproved"
    by auto
  with approved_by_every_approver [OF plain.uuids_axioms this] show ?thesis by (auto simp: image_iff)
qed

text \<open>A failing database approves. When the statement that looks for the next pending step fails, \<^verbatim>\<open>Approve\<close> takes
  the error for the absence of further steps: it reports success and the request is approved although
  every other pending step is still pending.\<close>

theorem Approve_fault_approves:
  assumes "ids_ok U d" "adb_faults d = [None, None, None, Some e]" "request d i = Some ar" "ar_Status ar = ApprovalPending"
    "sort_key step_rank (pending_steps i d) = step # ss" "verifyApprover step (dr_ActorID req) = None"
  shows "snd (Approve U now i req d) = None \<and>
    map_option ar_Status (request (fst (Approve U now i req d)) i) = Some ApprovalApproved \<and>
    (\<forall>s \<in> set (pending_steps i d). s \<noteq> step \<longrightarrow> s \<in> set (pending_steps i (fst (Approve U now i req d))))"
proof -
  define ar' where "ar' = ar\<lparr>ar_Status := ApprovalApproved, ar_ResolvedAt := Some now\<rparr>"
  define st where "st = resolve_step U now StepApproved req step"
  define d' where "d' = set_request ar' (set_step st (d\<lparr>adb_faults := []\<rparr>))"
  have p: "pending_steps i (d\<lparr>adb_faults := fs\<rparr>) = pending_steps i d" for fs by (simp add: pending_steps_def)
  have A: "same_tables d' (fst (Approve U now i req d)) \<and> snd (Approve U now i req d) = None"
    using assms(2-6) by (simp add: Approve_def req_GetByID_def GetCurrentPendingStep_def step_Update_def req_Update_def stmt_def
      request_def p Let_def d'_def ar'_def st_def set_request_def set_step_def same_tables_def)
  have id: "ar_ID ar = i" "ar \<in> set (adb_requests d)" using request_SomeD [OF assms(3)] by simp_all
  have ar': "ar_ID ar' = i" using id by (simp add: ar'_def)
  have "request d' i = Some ar'"
    using find_replaced [OF ar', of "adb_requests d"] id by (auto simp: request_def d'_def set_request_def ar')
  moreover have "s \<in> set (pending_steps i d')" if s: "s \<in> set (pending_steps i d)" "s \<noteq> step" for s
  proof -
    have "step \<in> set (adb_steps d)" "s \<in> set (adb_steps d)" using s(1) sort_key_hd_in [OF assms(5)] by (auto simp: pending_steps_def)
    with assms(1) s(2) have "as_ID s \<noteq> as_ID st" unfolding ids_ok_def st_def by (metis distinct_map inj_onD resolve_step_simps(1))
    with s show ?thesis by (auto simp: pending_steps_def d'_def set_step_def)
  qed
  moreover have "pending_steps i (fst (Approve U now i req d)) = pending_steps i d'"
    "request (fst (Approve U now i req d)) i = request d' i" using A by (simp_all add: pending_steps_def request_def same_tables_def)
  ultimately show ?thesis using A by (simp add: ar'_def)
qed

definition demo_faulty :: approval_db where
  "demo_faulty = (run (approval_step plain_uuids) empty_approval_db [OpCreate 0 (demo_request demo_steps 0)])
     \<lparr>adb_faults := [None, None, None, Some (Errorf ''connection reset'')]\<rparr>"

theorem Approve_fault_approves_witness:
  "map_option ar_Status (request (fst (Approve plain_uuids 1 ''0'' (demo_decision ''bob'') demo_faulty)) ''0'') = Some ApprovalApproved \<and>
   map as_ApproverRole (pending_steps ''0'' (fst (Approve plain_uuids 1 ''0'' (demo_decision ''bob'') demo_faulty))) = [''admin'']"
proof -
  have "ids_ok plain_uuids (run (approval_step plain_uuids) empty_approval_db [OpCreate 0 (demo_request demo_steps 0)])"
    using plain.reachable_flow unfolding flow_ok_def by blast
  then have ids: "ids_ok plain_uuids demo_faulty" by (simp add: demo_faulty_def ids_ok_def)
  have "map_option ar_Status (request demo_faulty ''0'') = Some ApprovalPending" by code_simp
  then obtain ar where ar: "request demo_faulty ''0'' = Some ar" "ar_Status ar = ApprovalPending" by auto
  have "map (\<lambda>s. verifyApprover s ''bob'') (sort_key step_rank (pending_steps ''0'' demo_faulty)) = [None, None]" by code_simp
  then obtain step ss where st: "sort_key step_rank (pending_steps ''0'' demo_faulty) = step # ss" "verifyApprover step ''bob'' = None"
    by (auto simp: map_eq_Cons_conv)
  have f: "adb_faults demo_faulty = [None, None, None, Some (Errorf ''connection reset'')]" by (simp add: demo_faulty_def)
  have "map as_ApproverRole (pending_steps ''0'' (fst (Approve plain_uuids 1 ''0'' (demo_decision ''bob'') demo_faulty))) = [''admin'']"
    by code_simp
  then show ?thesis
    using Approve_fault_approves [OF ids f ar st(1), of "demo_decision ''bob''" 1] st(2) by (simp add: demo_decision_def)
qed

text \<open>The expiry sweep is complete. With a working database a sweep at time \<open>now\<close> returns the number of pending requests
  whose expiry has passed, and leaves no such request pending; every request is either expired or as it
  was.\<close>

theorem ExpireStale_complete:
  assumes "adb_faults d = []"
  shows "snd (ExpireStale U now d) = Inr (int (length (filter (\<lambda>r. ar_Status r = ApprovalPending \<and>
       (case ar_ExpiresAt r of None \<Rightarrow> False | Some e \<Rightarrow> e \<le> now)) (adb_requests d)))) \<and>
    (\<forall>r \<in> set (adb_requests (fst (ExpireStale U now d))).
       ar_Status r = ApprovalExpired \<or>
       r \<in> set (adb_requests d) \<and> \<not> (ar_Status r = ApprovalPending \<and> (case ar_ExpiresAt r of None \<Rightarrow> False | Some e \<Rightarrow> e \<le> now)))"
proof -
  define P where "P = (\<lambda>r :: ApprovalRequest. ar_Status r = ApprovalPending \<and> (case ar_ExpiresAt r of None \<Rightarrow> False | Some e \<Rightarrow> e \<le> now))"
  have "ar_Status r = ApprovalExpired \<or> r \<in> set (adb_requests d) \<and> \<not> P r"
    if "r \<in> set (adb_requests (fst (expire_all U now (filter P (adb_requests d)) d)))" for r
    using that expire_all_sweeps [OF assms, of U now "filter P (adb_requests d)"] by auto
  then show ?thesis unfolding ExpireStale_clean [OF assms] Let_def fst_conv snd_conv P_def by blast
qed

theorem ExpireStale_complete_witness:
  "map ar_Status (adb_requests (fst (ExpireStale plain_uuids 60
      (run (approval_step plain_uuids) empty_approval_db [OpCreate 0 (demo_request [] 60), OpCreate 0 (demo_request [] 61)]))))
   = [ApprovalExpired, ApprovalPending] \<and>
   snd (ExpireStale plain_uuids 60
      (run (approval_step plain_uuids) empty_approval_db [OpCreate 0 (demo_request [] 60), OpCreate 0 (demo_request [] 61)])) = Inr 1"
proof -
  define d where "d = run (approval_step plain_uuids) empty_approval_db [OpCreate 0 (demo_request [] 60), OpCreate 0 (demo_request [] 61)]"
  have "adb_faults d = []" using plain.reachable_flow unfolding d_def flow_ok_def by blast
  moreover have "length (filter (\<lambda>r. ar_Status r = ApprovalPending \<and>
       (case ar_ExpiresAt r of None \<Rightarrow> False | Some e \<Rightarrow> e \<le> 60)) (adb_requests d)) = 1"
    "map ar_Status (adb_requests (fst (ExpireStale plain_uuids 60 d))) = [ApprovalExpired, ApprovalPending]"
    unfolding d_def by code_simp+
  ultimately show ?thesis using ExpireStale_complete [of d plain_uuids 60] unfolding d_def [symmetric] by simp
qed

end
