(* ===== verification/Calendar.thy ===== *)
theory Calendar
  imports Prelude
begin

text \<open>
  The part of Go's package \<^verbatim>\<open>time\<close> that the scheduler uses: the proleptic Gregorian
  calendar, locations with their zone transitions, and the constructors \<^verbatim>\<open>time.Date\<close> and
  \<^verbatim>\<open>AddDate\<close>. An instant is a number of seconds since 1970-01-01T00:00:00Z; a day is a number
  of days since 1970-01-01. The calendar's laws are stated as the locale \<open>civil_calendar\<close>, on
  which the cron search relies, and discharged for the definitions below.
\<close>

section \<open>The Gregorian calendar\<close>

definition leap_year :: "int \<Rightarrow> bool" where
  "leap_year y \<longleftrightarrow> y mod 4 = 0 \<and> (y mod 100 \<noteq> 0 \<or> y mod 400 = 0)"

text \<open>Days from the epoch to the first of January of a year.\<close>

definition year_start :: "int \<Rightarrow> int" where
  "year_start y = 365 * (y - 1970) + (y - 1) div 4 - (y - 1) div 100 + (y - 1) div 400 - 477"

definition leap_add :: "int \<Rightarrow> int" where
  "leap_add y = (if leap_year y then 1 else 0)"

text \<open>Days from the first of January to the first of a month (\<^verbatim>\<open>daysBefore\<close>).\<close>

definition month_start :: "int \<Rightarrow> int \<Rightarrow> int" where
  "month_start y m =
     (if m \<le> 1 then 0 else if m = 2 then 31 else leap_add y +
        (if m = 3 then 59 else if m = 4 then 90 else if m = 5 then 120 else if m = 6 then 151
         else if m = 7 then 181 else if m = 8 then 212 else if m = 9 then 243
         else if m = 10 then 273 else if m = 11 then 304 else if m = 12 then 334 else 365))"

definition days_of_civil :: "int \<Rightarrow> int \<Rightarrow> int \<Rightarrow> int" where
  "days_of_civil y m d = year_start y + month_start y m + d - 1"

definition year_of_day :: "int \<Rightarrow> int" where
  "year_of_day n =
     (let y = 1970 + (400 * n) div 146097
      in if n < year_start y then y - 1 else if year_start (y + 1) \<le> n then y + 1 else y)"

definition month_of_yday :: "int \<Rightarrow> int \<Rightarrow> int" where
  "month_of_yday y k =
     (if k < month_start y 2 then 1 else if k < month_start y 3 then 2
      else if k < month_start y 4 then 3 else if k < month_start y 5 then 4
      else if k < month_start y 6 then 5 else if k < month_start y 7 then 6
      else if k < month_start y 8 then 7 else if k < month_start y 9 then 8
      else if k < month_start y 10 then 9 else if k < month_start y 11 then 10
      else if k < month_start y 12 then 11 else 12)"

definition month_of_day :: "int \<Rightarrow> int" where
  "month_of_day n = month_of_yday (year_of_day n) (n - year_start (year_of_day n))"

definition mday_of_day :: "int \<Rightarrow> int" where
  "mday_of_day n = n - year_start (year_of_day n) - month_start (year_of_day n) (month_of_day n) + 1"

definition weekday_of_day :: "int \<Rightarrow> int" where
  "weekday_of_day n = (n + 4) mod 7"

subsection \<open>Years\<close>

lemma div_step:
  fixes y k :: int
  assumes "1 < k"
  shows "y div k - (y - 1) div k = (if y mod k = 0 then 1 else 0)"
proof -
  define q r where "q = y div k" and "r = y mod k"
  have y: "y = k * q + r" and r: "0 \<le> r" "r < k"
    using assms by (simp_all add: q_def r_def)
  show ?thesis
  proof (cases "r = 0")
    case True
    have "(y - 1) div k = q - 1"
      by (rule int_div_pos_eq [of _ _ _ "k - 1"]) (use True y assms in \<open>auto simp: algebra_simps\<close>)
    with True show ?thesis by (simp add: q_def r_def)
  next
    case False
    have "(y - 1) div k = q"
      by (rule int_div_pos_eq [of _ _ _ "r - 1"]) (use False y r in auto)
    with False show ?thesis by (simp add: q_def r_def)
  qed
qed

lemma mod_divisor_zero: "(y::int) mod k = 0 \<Longrightarrow> j dvd k \<Longrightarrow> y mod j = 0"
  by (simp add: mod_eq_0_iff_dvd) (rule dvd_trans)

lemma leap_add_divs: "leap_add y = (y div 4 - (y - 1) div 4) - (y div 100 - (y - 1) div 100)
    + (y div 400 - (y - 1) div 400)"
proof -
  define p4 p100 p400 where "p4 \<longleftrightarrow> y mod 4 = 0" and "p100 \<longleftrightarrow> y mod 100 = 0" and "p400 \<longleftrightarrow> y mod 400 = 0"
  have m: "p400 \<longrightarrow> p100" "p100 \<longrightarrow> p4"
    unfolding p4_def p100_def p400_def by (rule impI, erule mod_divisor_zero, simp)+
  have d: "y div 4 - (y - 1) div 4 = (if p4 then 1 else 0)"
    "y div 100 - (y - 1) div 100 = (if p100 then 1 else 0)"
    "y div 400 - (y - 1) div 400 = (if p400 then 1 else 0)"
    unfolding p4_def p100_def p400_def
    by (rule div_step, simp)+
  have l: "leap_year y \<longleftrightarrow> p4 \<and> (\<not> p100 \<or> p400)"
    unfolding leap_year_def p4_def p100_def p400_def by (rule refl)
  show ?thesis
    using m by (simp only: d leap_add_def l) (cases p4; cases p100; cases p400; simp only: simp_thms if_True if_False diff_0_right diff_self add_0 add_0_right)
qed

lemma year_start_Suc: "year_start (y + 1) = year_start y + 365 + leap_add y"
  unfolding leap_add_divs by (simp add: year_start_def algebra_simps del: div_diff div_add)

lemma year_start_bounds:
  shows year_start_lower: "146097 * (y - 1970) - 1000 \<le> 400 * year_start y"
    and year_start_upper: "400 * year_start y \<le> 146097 * (y - 1970) + 1000"
proof -
  define z a b c where "z = y - 1" and "a = z div 4" and "b = z div 100" and "c = z div 400"
  define a' b' c' where "a' = z mod 4" and "b' = z mod 100" and "c' = z mod 400"
  have q: "z = 4 * a + a'" "z = 100 * b + b'" "z = 400 * c + c'"
    by (simp_all add: a_def b_def c_def a'_def b'_def c'_def)
  have r: "0 \<le> a'" "a' < 4" "0 \<le> b'" "b' < 100" "0 \<le> c'" "c' < 400"
    by (simp_all add: a'_def b'_def c'_def)
  have e: "year_start y = 365 * (z - 1969) + a - b + c - 477"
    by (simp add: year_start_def a_def b_def c_def z_def)
  have "400 * year_start y = 146000 * (z - 1969) + 100 * (z - a') - 4 * (z - b') + (z - c') - 190800"
    unfolding e using q by (simp add: algebra_simps)
  then have k: "400 * year_start y = 146097 * (y - 1970) + 193 - 100 * a' + 4 * b' - c'"
    by (simp add: z_def algebra_simps)
  show "146097 * (y - 1970) - 1000 \<le> 400 * year_start y"
    unfolding k using r by simp
  show "400 * year_start y \<le> 146097 * (y - 1970) + 1000"
    unfolding k using r by simp
qed

lemma year_of_day_bounds:
  "year_start (year_of_day n) \<le> n \<and> n < year_start (year_of_day n + 1)"
proof -
  define y where "y = 1970 + (400 * n) div 146097"
  define q where "q = (400 * n) div 146097"
  have "400 * n = 146097 * q + (400 * n) mod 146097"
    and "0 \<le> (400 * n) mod 146097" and "(400 * n) mod 146097 < 146097"
    by (simp_all add: q_def)
  then have q: "146097 * q \<le> 400 * n" "400 * n < 146097 * q + 146097"
    by linarith+
  have y: "y = 1970 + q" by (simp add: y_def q_def)
  have "400 * year_start (y - 1) \<le> 400 * n"
    using year_start_upper [of "y - 1"] q y by simp
  then have lo: "year_start (y - 1) \<le> n" by simp
  have "400 * n < 400 * year_start (y + 2)"
    using year_start_lower [of "y + 2"] q y by simp
  then have hi: "n < year_start (y + 2)" by simp
  show ?thesis
    using lo hi by (auto simp: year_of_day_def Let_def y_def [symmetric] add.commute)
qed

lemma year_start_mono: "a \<le> b \<Longrightarrow> year_start a \<le> year_start b"
proof (induction "nat (b - a)" arbitrary: b)
  case 0
  then show ?case by simp
next
  case (Suc k)
  then have "year_start a \<le> year_start (b - 1)" by simp
  also have "\<dots> \<le> year_start b"
    using year_start_Suc [of "b - 1"] by (simp add: leap_add_def split: if_splits)
  finally show ?case .
qed

lemma year_of_day_unique:
  assumes "year_start y \<le> n" "n < year_start (y + 1)"
  shows "year_of_day n = y"
proof (rule antisym)
  show "year_of_day n \<le> y"
  proof (rule ccontr)
    assume "\<not> year_of_day n \<le> y"
    then have "year_start (y + 1) \<le> year_start (year_of_day n)"
      by (intro year_start_mono) simp
    with assms year_of_day_bounds [of n] show False by linarith
  qed
  show "y \<le> year_of_day n"
  proof (rule ccontr)
    assume "\<not> y \<le> year_of_day n"
    then have "year_start (year_of_day n + 1) \<le> year_start y"
      by (intro year_start_mono) simp
    with assms year_of_day_bounds [of n] show False by linarith
  qed
qed

subsection \<open>Months\<close>

definition month_length :: "int \<Rightarrow> int \<Rightarrow> int" where
  "month_length y m = month_start y (m + 1) - month_start y m"

lemma leap_add_cases: "leap_add y = 0 \<or> leap_add y = 1"
  by (simp add: leap_add_def)

lemma month_cases:
  assumes "1 \<le> m" "m \<le> (12::int)"
  obtains "m = 1" | "m = 2" | "m = 3" | "m = 4" | "m = 5" | "m = 6" | "m = 7" | "m = 8"
    | "m = 9" | "m = 10" | "m = 11" | "m = 12"
proof -
  have "m = 1 \<or> m = 2 \<or> m = 3 \<or> m = 4 \<or> m = 5 \<or> m = 6 \<or> m = 7 \<or> m = 8 \<or> m = 9 \<or> m = 10
      \<or> m = 11 \<or> m = 12" using assms by presburger
  then show thesis using that by blast
qed

lemma month_start_numerals [simp]:
  "month_start y 1 = 0" "month_start y 2 = 31" "month_start y 3 = leap_add y + 59"
  "month_start y 4 = leap_add y + 90" "month_start y 5 = leap_add y + 120"
  "month_start y 6 = leap_add y + 151" "month_start y 7 = leap_add y + 181"
  "month_start y 8 = leap_add y + 212" "month_start y 9 = leap_add y + 243"
  "month_start y 10 = leap_add y + 273" "month_start y 11 = leap_add y + 304"
  "month_start y 12 = leap_add y + 334" "month_start y 13 = leap_add y + 365"
  by (simp_all add: month_start_def)

lemma month_length_bounds:
  assumes "1 \<le> m" "m \<le> 12"
  shows "28 \<le> month_length y m \<and> month_length y m \<le> 31"
  using assms leap_add_cases [of y]
  by (elim month_cases) (simp_all add: month_length_def, arith+)

lemma month_of_yday_bounds:
  assumes "0 \<le> k" "k < 365 + leap_add y"
  shows "1 \<le> month_of_yday y k \<and> month_of_yday y k \<le> 12 \<and>
    month_start y (month_of_yday y k) \<le> k \<and> k < month_start y (month_of_yday y k + 1)"
  using assms by (simp add: month_of_yday_def)

lemma month_of_yday_unique:
  assumes "1 \<le> m" "m \<le> 12" "month_start y m \<le> k" "k < month_start y (m + 1)"
  shows "month_of_yday y k = m"
proof -
  have "leap_add y = 0 \<or> leap_add y = 1" by (rule leap_add_cases)
  with assms show ?thesis
    by (elim month_cases) (simp_all add: month_of_yday_def, arith+)
qed

lemma month_start_range:
  assumes "1 \<le> m" "m \<le> 12"
  shows "0 \<le> month_start y m \<and> month_start y (m + 1) \<le> 365 + leap_add y"
  using assms leap_add_cases [of y] by (elim month_cases) (simp_all, arith+)

subsection \<open>The two directions\<close>

lemma yday_bounds: "0 \<le> n - year_start (year_of_day n) \<and>
    n - year_start (year_of_day n) < 365 + leap_add (year_of_day n)"
  using year_of_day_bounds [of n] year_start_Suc [of "year_of_day n"] by linarith

lemma month_of_day_range: "1 \<le> month_of_day n \<and> month_of_day n \<le> 12"
  using month_of_yday_bounds yday_bounds unfolding month_of_day_def by blast

lemma mday_of_day_range: "1 \<le> mday_of_day n \<and> mday_of_day n \<le> month_length (year_of_day n) (month_of_day n)"
proof -
  let ?y = "year_of_day n" and ?k = "n - year_start (year_of_day n)"
  have "month_start ?y (month_of_yday ?y ?k) \<le> ?k \<and> ?k < month_start ?y (month_of_yday ?y ?k + 1)"
    using month_of_yday_bounds yday_bounds by blast
  then show ?thesis
    by (simp add: mday_of_day_def month_length_def month_of_day_def)
qed

lemma days_of_civil_of_day: "days_of_civil (year_of_day n) (month_of_day n) (mday_of_day n) = n"
  by (simp add: days_of_civil_def mday_of_day_def)

lemma civil_of_days_of_civil:
  assumes "1 \<le> m" "m \<le> 12" "1 \<le> d" "d \<le> month_length y m"
  shows "year_of_day (days_of_civil y m d) = y"
    and "month_of_day (days_of_civil y m d) = m"
    and "mday_of_day (days_of_civil y m d) = d"
proof -
  let ?n = "days_of_civil y m d"
  have k: "0 \<le> month_start y m" "month_start y (m + 1) \<le> 365 + leap_add y"
    using month_start_range assms by blast+
  have d: "month_start y m + d - 1 < month_start y (m + 1)"
    using assms by (simp add: month_length_def)
  show y: "year_of_day ?n = y"
    by (rule year_of_day_unique)
      (use k d assms year_start_Suc [of y] in \<open>simp_all add: days_of_civil_def\<close>)
  show m: "month_of_day ?n = m"
    unfolding month_of_day_def y
    by (rule month_of_yday_unique) (use assms d in \<open>simp_all add: days_of_civil_def\<close>)
  show "mday_of_day ?n = d"
    unfolding mday_of_day_def y m by (simp add: days_of_civil_def)
qed

lemma days_of_civil_add: "days_of_civil y m (d + k) = days_of_civil y m d + k"
  by (simp add: days_of_civil_def)

text \<open>The days of one month are consecutive, and the first of the next month follows the last.\<close>

lemma month_end:
  "days_of_civil y m (month_length y m) + 1
     = (if m = 12 then days_of_civil (y + 1) 1 1 else days_of_civil y (m + 1) 1)"
  if "1 \<le> m" "m \<le> 12"
  using that year_start_Suc [of y]
  by (elim month_cases) (simp_all add: days_of_civil_def month_length_def)

lemma same_month:
  assumes "1 \<le> m" "m \<le> 12" "days_of_civil y m 1 \<le> n" "n \<le> days_of_civil y m (month_length y m)"
  shows "month_of_day n = m \<and> year_of_day n = y"
proof -
  define d where "d = n - days_of_civil y m 1 + 1"
  have n: "n = days_of_civil y m d" by (simp add: d_def days_of_civil_def)
  have "1 \<le> d" "d \<le> month_length y m"
    using assms by (simp_all add: d_def days_of_civil_def)
  with assms show ?thesis by (simp add: n civil_of_days_of_civil)
qed

lemma weekday_range: "0 \<le> weekday_of_day n \<and> weekday_of_day n \<le> 6"
  by (simp add: weekday_of_day_def)

section \<open>The calendar's contract\<close>

text \<open>
  What a client of the calendar may rely on: fields in range, and a month is a run of consecutive
  days from its first to its last, followed by the first of the next month.
\<close>

locale civil_calendar =
  fixes year month mday :: "int \<Rightarrow> int"
    and mlen :: "int \<Rightarrow> int \<Rightarrow> int"
    and day_no :: "int \<Rightarrow> int \<Rightarrow> int \<Rightarrow> int"
  assumes field_range: "1 \<le> month n \<and> month n \<le> 12 \<and> 1 \<le> mday n \<and> mday n \<le> mlen (year n) (month n)"
    and day_no_fields: "day_no (year n) (month n) (mday n) = n"
    and day_no_add: "day_no y m (d + k) = day_no y m d + k"
    and fields_day_no: "1 \<le> m \<Longrightarrow> m \<le> 12 \<Longrightarrow> 1 \<le> d \<Longrightarrow> d \<le> mlen y m \<Longrightarrow>
      year (day_no y m d) = y \<and> month (day_no y m d) = m \<and> mday (day_no y m d) = d"
    and next_month: "1 \<le> m \<Longrightarrow> m \<le> 12 \<Longrightarrow>
      day_no y m (mlen y m) + 1 = (if m = 12 then day_no (y + 1) 1 1 else day_no y (m + 1) 1)"
begin

lemma normalised_next_day:
  "day_no (year (day_no (year n) (month n) (mday n + 1))) (month (day_no (year n) (month n) (mday n + 1)))
     (mday (day_no (year n) (month n) (mday n + 1))) = n + 1"
  by (simp add: day_no_fields day_no_add)

lemma month_run:
  assumes "1 \<le> m" "m \<le> 12" "day_no y m 1 \<le> n" "n \<le> day_no y m (mlen y m)"
  shows "month n = m" and "year n = y"
proof -
  define d where "d = n - day_no y m 1 + 1"
  have n: "n = day_no y m d" using day_no_add [of y m 1 "d - 1"] by (simp add: d_def add.commute)
  have "d \<le> mlen y m" using assms(4) day_no_add [of y m 1 "d - 1"] day_no_add [of y m 1 "mlen y m - 1"] n
    by simp
  moreover have "1 \<le> d" using assms(3) by (simp add: d_def)
  ultimately show "month n = m" "year n = y" using fields_day_no [of m d y] assms n by simp_all
qed

lemma month_first_le: "day_no (year n) (month n) 1 \<le> n"
  using day_no_fields [of n] field_range [of n] day_no_add [of "year n" "month n" 1 "mday n - 1"] by simp

lemma month_last_ge: "n \<le> day_no (year n) (month n) (mlen (year n) (month n))"
  using day_no_fields [of n] field_range [of n]
    day_no_add [of "year n" "month n" "mday n" "mlen (year n) (month n) - mday n"] by simp

end

interpretation cal: civil_calendar year_of_day month_of_day mday_of_day month_length days_of_civil
  by unfold_locales
    (auto simp: month_of_day_range mday_of_day_range days_of_civil_of_day days_of_civil_add
      civil_of_days_of_civil month_end)

section \<open>Locations and instants\<close>

text \<open>
  A location answers \<^verbatim>\<open>lookup\<close>: for an instant, the offset east of UTC in seconds and the
  half-open range of instants for which it is in force.
\<close>

type_synonym location = "int \<Rightarrow> int \<times> int \<times> int"

definition fixed_zone :: "int \<Rightarrow> location" where
  "fixed_zone off = (\<lambda>_. (off, minInt, maxInt))"

definition UTC :: location where
  "UTC = fixed_zone 0"

definition offset_at :: "location \<Rightarrow> int \<Rightarrow> int" where
  "offset_at loc t = fst (loc t)"

definition local_sec :: "location \<Rightarrow> int \<Rightarrow> int" where
  "local_sec loc t = t + offset_at loc t"

definition local_day :: "location \<Rightarrow> int \<Rightarrow> int" where
  "local_day loc t = local_sec loc t div 86400"

definition t_Year :: "location \<Rightarrow> int \<Rightarrow> int" where
  "t_Year loc t = year_of_day (local_day loc t)"

definition t_Month :: "location \<Rightarrow> int \<Rightarrow> int" where
  "t_Month loc t = month_of_day (local_day loc t)"

definition t_Day :: "location \<Rightarrow> int \<Rightarrow> int" where
  "t_Day loc t = mday_of_day (local_day loc t)"

definition t_Weekday :: "location \<Rightarrow> int \<Rightarrow> int" where
  "t_Weekday loc t = weekday_of_day (local_day loc t)"

definition t_Hour :: "location \<Rightarrow> int \<Rightarrow> int" where
  "t_Hour loc t = local_sec loc t mod 86400 div 3600"

definition t_Minute :: "location \<Rightarrow> int \<Rightarrow> int" where
  "t_Minute loc t = local_sec loc t mod 3600 div 60"

definition t_Second :: "location \<Rightarrow> int \<Rightarrow> int" where
  "t_Second loc t = local_sec loc t mod 60"

text \<open>
  \<^verbatim>\<open>time.Date\<close>: the wall clock reading as if it were UTC, then corrected by the zone in force
  there, or by the zone in force at the corrected instant when the first does not cover it.
\<close>

definition time_Date :: "int \<Rightarrow> int \<Rightarrow> int \<Rightarrow> int \<Rightarrow> int \<Rightarrow> int \<Rightarrow> location \<Rightarrow> int" where
  "time_Date y m d h mi s loc =
     (let unix = 86400 * days_of_civil y m d + 3600 * h + 60 * mi + s;
          (off, start, stop) = loc unix
      in if off = 0 then unix
         else let utc = unix - off
              in if utc < start \<or> stop \<le> utc then unix - offset_at loc utc else utc)"

text \<open>\<^verbatim>\<open>t.AddDate(0, 0, k)\<close>.\<close>

definition add_days :: "location \<Rightarrow> int \<Rightarrow> int \<Rightarrow> int" where
  "add_days loc t k =
     time_Date (t_Year loc t) (t_Month loc t) (t_Day loc t + k) (t_Hour loc t) (t_Minute loc t) (t_Second loc t) loc"

lemma fixed_zone_Date [simp]:
  "time_Date y m d h mi s (fixed_zone off) = 86400 * days_of_civil y m d + 3600 * h + 60 * mi + s - off"
  by (simp add: time_Date_def fixed_zone_def offset_at_def Let_def)

lemma fixed_zone_local [simp]: "local_sec (fixed_zone off) t = t + off"
  by (simp add: local_sec_def offset_at_def fixed_zone_def)

lemma clock_ranges:
  "0 \<le> t_Hour loc t" "t_Hour loc t \<le> 23" "0 \<le> t_Minute loc t" "t_Minute loc t \<le> 59"
  "1 \<le> t_Month loc t" "t_Month loc t \<le> 12" "0 \<le> t_Weekday loc t" "t_Weekday loc t \<le> 6"
proof -
  have "local_sec loc t mod 86400 < 86400" "local_sec loc t mod 3600 < 3600"
    "0 \<le> local_sec loc t mod 86400" "0 \<le> local_sec loc t mod 3600" by simp_all
  then show "0 \<le> t_Hour loc t" "t_Hour loc t \<le> 23" "0 \<le> t_Minute loc t" "t_Minute loc t \<le> 59"
    unfolding t_Hour_def t_Minute_def by linarith+
  show "1 \<le> t_Month loc t" "t_Month loc t \<le> 12" "0 \<le> t_Weekday loc t" "t_Weekday loc t \<le> 6"
    by (simp_all add: t_Month_def t_Weekday_def month_of_day_range weekday_range)
qed

lemma t_Day_range: "1 \<le> t_Day loc t \<and> t_Day loc t \<le> 31"
  using mday_of_day_range [of "local_day loc t"] month_of_day_range [of "local_day loc t"]
    month_length_bounds [of "month_of_day (local_day loc t)" "year_of_day (local_day loc t)"]
  by (simp add: t_Day_def)

section \<open>Fields of a formatted time\<close>

definition pad2 :: "int \<Rightarrow> string" where
  "pad2 n = (if n < 10 then ''0'' @ Itoa n else Itoa n)"

definition pad4 :: "int \<Rightarrow> string" where
  "pad4 n = replicate (4 - length (Itoa n)) (CHR ''0'') @ Itoa n"

end
