(* ===== verification/Policy.thy ===== *)
theory Policy
  imports Approval Calendar
begin

text \<open>
  Governance policies: the model (\<^verbatim>\<open>internal/domain/model/policy.go\<close>), the repositories
  (\<^verbatim>\<open>internal/infrastructure/repository/policy_repo.go\<close>), the evaluation engine
  (\<^verbatim>\<open>internal/policy/engine.go\<close>) and the service (\<^verbatim>\<open>internal/service/policy_service.go\<close>).

  The engine reaches the approval service through an interface; here it is an argument, and the locale
  \<open>approval_service\<close> states what the engine relies on. The JSON parser and the matcher of regular
  expressions are the parameter \<open>policy_lib\<close>; the decoding of a parsed value into Go types is written out.
  Times are in nanoseconds since 1970.
\<close>

section \<open>Data\<close>

record policy_lib =
  json_parse :: "string \<Rightarrow> jval option"
  regexp_match :: "string \<Rightarrow> string \<Rightarrow> bool option"

datatype PolicyEffect =
    PolicyEffectAllow | PolicyEffectDeny | PolicyEffectRequireApproval | PolicyEffectRequireSnapshot
  | PolicyEffectRequireJustification | PolicyEffectOther string

datatype PolicyConditionType =
    PolicyConditionVMTag | PolicyConditionEnvironment | PolicyConditionProvider | PolicyConditionUserRole
  | PolicyConditionOperation | PolicyConditionMaintenanceWindow | PolicyConditionTimeSchedule
  | PolicyConditionVMName | PolicyConditionHypervisor | PolicyConditionBulkSize | PolicyConditionOther string

datatype PolicyConditionOperator =
    PolicyConditionOpEquals | PolicyConditionOpNotEquals | PolicyConditionOpContains | PolicyConditionOpIn
  | PolicyConditionOpNotIn | PolicyConditionOpGreaterThan | PolicyConditionOpLessThan | PolicyConditionOpMatches
  | PolicyConditionOpOther string

datatype PolicyViolationStatus = ViolationBlocked | ViolationOverridden | ViolationPending

datatype PolicyAssignmentTargetType =
    TargetGlobal | TargetHypervisor | TargetEnvironment | TargetVM | TargetTag | TargetRole

record PolicyCondition =
  pc_ID :: string
  pc_PolicyID :: string
  pc_Type :: PolicyConditionType
  pc_Operator :: PolicyConditionOperator
  pc_Value :: string
  pc_Negate :: bool

record PolicyAssignment =
  pa_ID :: string
  pa_PolicyID :: string
  pa_TargetType :: PolicyAssignmentTargetType
  pa_TargetID :: string
  pa_CreatedBy :: "string option"

record Policy =
  p_ID :: string
  p_DeletedAt :: "int option"
  p_Name :: string
  p_Description :: string
  p_Type :: string
  p_Effect :: PolicyEffect
  p_Priority :: int
  p_Enabled :: bool
  p_Operations :: "string list"
  p_ApprovalConfig :: "jmap option"
  p_Metadata :: jmap
  p_Conditions :: "PolicyCondition list"
  p_Assignments :: "PolicyAssignment list"

record PolicyViolation =
  pv_ID :: string
  pv_PolicyID :: string
  pv_PolicyName :: string
  pv_Effect :: PolicyEffect
  pv_Status :: PolicyViolationStatus
  pv_Operation :: string
  pv_ResourceType :: string
  pv_ResourceID :: string
  pv_ResourceName :: string
  pv_UserID :: "string option"
  pv_Username :: string
  pv_ApprovalRequestID :: "string option"
  pv_Metadata :: jmap

record PolicyEvaluationRequest =
  pr_Operation :: string
  pr_ResourceType :: string
  pr_ResourceID :: string
  pr_ResourceName :: string
  pr_UserID :: string
  pr_Username :: string
  pr_Roles :: "string list"
  pr_VMTags :: "string list"
  pr_ProviderType :: string
  pr_HypervisorID :: string
  pr_Environment :: string
  pr_BulkSize :: int
  pr_Metadata :: jmap

record PolicyEvaluationResult =
  res_Allowed :: bool
  res_Effect :: PolicyEffect
  res_MatchedPolicy :: "Policy option"
  res_ViolationID :: string
  res_ApprovalRequestID :: string
  res_Message :: string
  res_RequiresSnapshot :: bool
  res_RequiresJustification :: bool

record CreatePolicyConditionRequest =
  cc_Type :: PolicyConditionType
  cc_Operator :: PolicyConditionOperator
  cc_Value :: string
  cc_Negate :: bool

record CreatePolicyRequest =
  cp_Name :: string
  cp_Description :: string
  cp_Type :: string
  cp_Effect :: PolicyEffect
  cp_Priority :: int
  cp_Enabled :: bool
  cp_Operations :: "string list"
  cp_Conditions :: "CreatePolicyConditionRequest list"
  cp_ApprovalConfig :: "jmap option"
  cp_Metadata :: jmap

record UpdatePolicyRequest =
  up_Name :: "string option"
  up_Description :: "string option"
  up_Effect :: "PolicyEffect option"
  up_Priority :: "int option"
  up_Enabled :: "bool option"
  up_Operations :: "string list option"
  up_Conditions :: "CreatePolicyConditionRequest list option"
  up_ApprovalConfig :: "jmap option"
  up_Metadata :: "jmap option"

text \<open>The tables. A statement consults \<open>pdb_faults\<close> as one of the approval tables does.\<close>

record policy_db =
  pdb_policies :: "Policy list"
  pdb_conditions :: "PolicyCondition list"
  pdb_assignments :: "PolicyAssignment list"
  pdb_violations :: "PolicyViolation list"
  pdb_audit :: "(string \<times> string \<times> string) list"
  pdb_next :: nat
  pdb_faults :: "go_error option list"

section \<open>Repositories\<close>

definition pol_stmt :: "(policy_db \<Rightarrow> policy_db \<times> (go_error + 'a)) \<Rightarrow> policy_db \<Rightarrow> policy_db \<times> (go_error + 'a)" where
  "pol_stmt f d =
     (case pdb_faults d of
        [] \<Rightarrow> f d
      | None # fs \<Rightarrow> f (d\<lparr>pdb_faults := fs\<rparr>)
      | Some e # fs \<Rightarrow> (d\<lparr>pdb_faults := fs\<rparr>, Inl e))"

text \<open>The preloaded associations of a row.\<close>

definition preload :: "policy_db \<Rightarrow> Policy \<Rightarrow> Policy" where
  "preload d p = p\<lparr>p_Conditions := filter (\<lambda>c. pc_PolicyID c = p_ID p) (pdb_conditions d),
     p_Assignments := filter (\<lambda>a. pa_PolicyID a = p_ID p) (pdb_assignments d)\<rparr>"

text \<open>
  The insert leaves out columns that have a default and hold Go's zero value, so the database fills in
  \<^verbatim>\<open>priority = 100\<close> and \<^verbatim>\<open>enabled = true\<close>. Names are unique, those of deleted rows included.
\<close>

definition policy_repo_Create :: "uuid_lib \<Rightarrow> Policy \<Rightarrow> policy_db \<Rightarrow> policy_db \<times> (go_error + Policy)" where
  "policy_repo_Create U p = pol_stmt (\<lambda>d.
     if p_Name p \<in> p_Name ` set (pdb_policies d)
     then (d, Inl (Errorf ''duplicate key value violates unique constraint''))
     else let p = p\<lparr>p_ID := uuid_new U (pdb_next d), p_Enabled := (if \<not> p_Enabled p then True else p_Enabled p),
                    p_Priority := (if p_Priority p = 0 then 100 else p_Priority p)\<rparr>
          in (d\<lparr>pdb_policies := pdb_policies d @ [p], pdb_next := pdb_next d + 1\<rparr>, Inr p))"

definition policy_repo_GetByID :: "string \<Rightarrow> policy_db \<Rightarrow> policy_db \<times> (go_error + Policy)" where
  "policy_repo_GetByID i d =
     (case pol_stmt (\<lambda>d. (d, case find (\<lambda>p. p_ID p = i \<and> p_DeletedAt p = None) (pdb_policies d) of
                               None \<Rightarrow> Inl (Errorf ''record not found'') | Some p \<Rightarrow> Inr (preload d p))) d of
        (d, Inl e) \<Rightarrow> (d, Inl (Wrapf ''policy not found'' e))
      | (d, Inr p) \<Rightarrow> (d, Inr p))"

text \<open>\<^verbatim>\<open>Save\<close> writes the columns of the row; the associations it carries exist already and are left alone.\<close>

definition policy_repo_Update :: "Policy \<Rightarrow> policy_db \<Rightarrow> policy_db \<times> (go_error + unit)" where
  "policy_repo_Update p = pol_stmt (\<lambda>d.
     (d\<lparr>pdb_policies := map (\<lambda>x. if p_ID x = p_ID p then p\<lparr>p_Conditions := [], p_Assignments := []\<rparr> else x) (pdb_policies d)\<rparr>, Inr ()))"

definition policy_repo_Delete :: "int \<Rightarrow> string \<Rightarrow> policy_db \<Rightarrow> policy_db \<times> (go_error + unit)" where
  "policy_repo_Delete now i = pol_stmt (\<lambda>d.
     (d\<lparr>pdb_policies := map (\<lambda>x. if p_ID x = i \<and> p_DeletedAt x = None then x\<lparr>p_DeletedAt := Some now\<rparr> else x) (pdb_policies d)\<rparr>, Inr ()))"

definition ListEnabled :: "policy_db \<Rightarrow> policy_db \<times> (go_error + Policy list)" where
  "ListEnabled = pol_stmt (\<lambda>d. (d, Inr (map (preload d)
     (sort_key p_Priority (filter (\<lambda>p. p_Enabled p \<and> p_DeletedAt p = None) (pdb_policies d))))))"

definition number_conditions :: "uuid_lib \<Rightarrow> nat \<Rightarrow> PolicyCondition list \<Rightarrow> PolicyCondition list" where
  "number_conditions U n cs = map (\<lambda>(k, c). c\<lparr>pc_ID := uuid_new U k\<rparr>) (enumerate n cs)"

text \<open>One transaction: a failure of the insert undoes the delete.\<close>

definition ReplaceConditions :: "uuid_lib \<Rightarrow> string \<Rightarrow> PolicyCondition list \<Rightarrow> policy_db \<Rightarrow> policy_db \<times> (go_error + unit)" where
  "ReplaceConditions U i cs d =
     (case pol_stmt (\<lambda>d. (d\<lparr>pdb_conditions := filter (\<lambda>c. pc_PolicyID c \<noteq> i) (pdb_conditions d)\<rparr>, Inr ())) d of
        (d1, Inl e) \<Rightarrow> (d1, Inl e)
      | (d1, Inr _) \<Rightarrow>
          if cs = [] then (d1, Inr ())
          else (case pol_stmt (\<lambda>d. (d\<lparr>pdb_conditions := pdb_conditions d @ number_conditions U (pdb_next d) cs,
                                     pdb_next := pdb_next d + length cs\<rparr>, Inr ())) d1 of
                  (d2, Inl e) \<Rightarrow> (d\<lparr>pdb_faults := pdb_faults d2\<rparr>, Inl e)
                | (d2, Inr _) \<Rightarrow> (d2, Inr ())))"

definition assignment_Create :: "uuid_lib \<Rightarrow> PolicyAssignment \<Rightarrow> policy_db \<Rightarrow> policy_db \<times> (go_error + PolicyAssignment)" where
  "assignment_Create U a = pol_stmt (\<lambda>d. let a = a\<lparr>pa_ID := uuid_new U (pdb_next d)\<rparr>
     in (d\<lparr>pdb_assignments := pdb_assignments d @ [a], pdb_next := pdb_next d + 1\<rparr>, Inr a))"

definition assignment_Delete :: "string \<Rightarrow> policy_db \<Rightarrow> policy_db \<times> (go_error + unit)" where
  "assignment_Delete i = pol_stmt (\<lambda>d. (d\<lparr>pdb_assignments := filter (\<lambda>a. pa_ID a \<noteq> i) (pdb_assignments d)\<rparr>, Inr ()))"

definition ListByPolicy :: "string \<Rightarrow> policy_db \<Rightarrow> policy_db \<times> (go_error + PolicyAssignment list)" where
  "ListByPolicy i = pol_stmt (\<lambda>d. (d, Inr (filter (\<lambda>a. pa_PolicyID a = i) (pdb_assignments d))))"

text \<open>The target type of an assignment is only looked at for global ones.\<close>

definition ListForContext :: "string list \<Rightarrow> policy_db \<Rightarrow> policy_db \<times> (go_error + PolicyAssignment list)" where
  "ListForContext targetIDs = pol_stmt (\<lambda>d.
     (d, Inr (filter (\<lambda>a. pa_TargetType a = TargetGlobal \<or> pa_TargetID a \<in> set targetIDs) (pdb_assignments d))))"

definition violation_Create :: "uuid_lib \<Rightarrow> PolicyViolation \<Rightarrow> policy_db \<Rightarrow> policy_db \<times> (go_error + PolicyViolation)" where
  "violation_Create U v = pol_stmt (\<lambda>d. let v = v\<lparr>pv_ID := uuid_new U (pdb_next d)\<rparr>
     in (d\<lparr>pdb_violations := pdb_violations d @ [v], pdb_next := pdb_next d + 1\<rparr>, Inr v))"

section \<open>Typed JSON values of the engine\<close>

record time_schedule =
  ts_Days :: "string list"
  ts_Start :: string
  ts_End :: string

fun decode_schedule :: "jval \<Rightarrow> time_schedule option" where
  "decode_schedule JNull = Some \<lparr>ts_Days = [], ts_Start = '''', ts_End = ''''\<rparr>"
| "decode_schedule (JObj ms) =
     (if all_members ''days'' (decode_slice decode_string) ms \<and> all_members ''start'' decode_string ms \<and> all_members ''end'' decode_string ms
      then Some \<lparr>ts_Days = the (decode_slice decode_string (member ''days'' ms)),
                 ts_Start = the (decode_string (member ''start'' ms)), ts_End = the (decode_string (member ''end'' ms))\<rparr>
      else None)"
| "decode_schedule _ = None"

fun decode_step :: "jval \<Rightarrow> CreateApprovalStepRequest option" where
  "decode_step JNull = Some \<lparr>cs_StepOrder = 0, cs_ApproverID = '''', cs_ApproverRole = '''', cs_ApproverName = ''''\<rparr>"
| "decode_step (JObj ms) =
     (if all_members ''order'' decode_int ms \<and> all_members ''approver_id'' decode_string ms \<and>
         all_members ''approver_role'' decode_string ms \<and> all_members ''approver_name'' decode_string ms
      then Some \<lparr>cs_StepOrder = the (decode_int (member ''order'' ms)), cs_ApproverID = the (decode_string (member ''approver_id'' ms)),
                 cs_ApproverRole = the (decode_string (member ''approver_role'' ms)),
                 cs_ApproverName = the (decode_string (member ''approver_name'' ms))\<rparr>
      else None)"
| "decode_step _ = None"


section \<open>Conditions\<close>

text \<open>
  \<^verbatim>\<open>time.Parse("15:04", s)\<close>, as minutes of the day: one or two digits for the hour, a colon, exactly two digits
  for the minute, and nothing else.
\<close>

fun getnum :: "bool \<Rightarrow> string \<Rightarrow> (int \<times> string) option" where
  "getnum fixed [] = None"
| "getnum fixed (a # s) =
     (case digit_val a of
        None \<Rightarrow> None
      | Some x \<Rightarrow>
          (case s of
             b # t \<Rightarrow> (case digit_val b of
                         Some y \<Rightarrow> Some (10 * x + y, t)
                       | None \<Rightarrow> if fixed then None else Some (x, s))
           | [] \<Rightarrow> if fixed then None else Some (x, s)))"

definition parse_clock :: "string \<Rightarrow> int option" where
  "parse_clock s =
     (case getnum False s of
        None \<Rightarrow> None
      | Some (h, r) \<Rightarrow>
          if h \<ge> 24 then None
          else (case r of
                  c # r' \<Rightarrow>
                    if c \<noteq> CHR '':'' then None
                    else (case getnum True r' of
                            None \<Rightarrow> None
                          | Some (m, r'') \<Rightarrow> if m \<ge> 60 \<or> r'' \<noteq> [] then None else Some (60 * h + m))
                | [] \<Rightarrow> None))"

definition minute_of_day :: "int \<Rightarrow> int" where
  "minute_of_day now = 60 * t_Hour UTC (now div 1000000000) + t_Minute UTC (now div 1000000000)"

definition in_window :: "int \<Rightarrow> string \<Rightarrow> string \<Rightarrow> bool" where
  "in_window now a b =
     (case (parse_clock a, parse_clock b) of
        (Some start, Some stop) \<Rightarrow> \<not> minute_of_day now < start \<and> minute_of_day now < stop
      | _ \<Rightarrow> False)"

definition isInMaintenanceWindow :: "int \<Rightarrow> string \<Rightarrow> bool" where
  "isInMaintenanceWindow now condValue =
     (case Split condValue (CHR ''-'') of
        [a, b] \<Rightarrow> in_window now (TrimSpace a) (TrimSpace b)
      | _ \<Rightarrow> False)"

definition weekday_names :: "string list" where
  "weekday_names = [''sunday'', ''monday'', ''tuesday'', ''wednesday'', ''thursday'', ''friday'', ''saturday'']"

definition isInTimeSchedule :: "policy_lib \<Rightarrow> int \<Rightarrow> string \<Rightarrow> bool" where
  "isInTimeSchedule L now condValue =
     (case Option.bind (json_parse L condValue) decode_schedule of
        None \<Rightarrow> False
      | Some schedule \<Rightarrow>
          (let currentDay = weekday_names ! nat (t_Weekday UTC (now div 1000000000))
           in if \<not> list_ex (\<lambda>d. EqualFold d currentDay) (ts_Days schedule) then False
              else if ts_Start schedule \<noteq> '''' \<and> ts_End schedule \<noteq> '''' then in_window now (ts_Start schedule) (ts_End schedule)
              else True))"

definition cond_values :: "policy_lib \<Rightarrow> string \<Rightarrow> string list" where
  "cond_values L condValue =
     (case Option.bind (json_parse L condValue) (decode_slice decode_string) of
        None \<Rightarrow> Split condValue (CHR '','')
      | Some values \<Rightarrow> values)"

definition matchString :: "policy_lib \<Rightarrow> PolicyConditionOperator \<Rightarrow> string \<Rightarrow> string \<Rightarrow> bool" where
  "matchString L op condValue actual =
     (case op of
        PolicyConditionOpEquals \<Rightarrow> EqualFold actual condValue
      | PolicyConditionOpNotEquals \<Rightarrow> \<not> EqualFold actual condValue
      | PolicyConditionOpContains \<Rightarrow> Contains (ToLower actual) (ToLower condValue)
      | PolicyConditionOpIn \<Rightarrow> list_ex (\<lambda>v. EqualFold (TrimSpace v) actual) (cond_values L condValue)
      | PolicyConditionOpNotIn \<Rightarrow> \<not> list_ex (\<lambda>v. EqualFold (TrimSpace v) actual) (cond_values L condValue)
      | PolicyConditionOpMatches \<Rightarrow> (case regexp_match L condValue actual of None \<Rightarrow> False | Some b \<Rightarrow> b)
      | _ \<Rightarrow> False)"

definition matchStringSlice :: "policy_lib \<Rightarrow> PolicyConditionOperator \<Rightarrow> string \<Rightarrow> string list \<Rightarrow> bool" where
  "matchStringSlice L op condValue actuals =
     (case op of
        PolicyConditionOpContains \<Rightarrow> list_ex (\<lambda>a. EqualFold a condValue) actuals
      | PolicyConditionOpEquals \<Rightarrow> list_ex (\<lambda>a. EqualFold a condValue) actuals
      | PolicyConditionOpIn \<Rightarrow> list_ex (\<lambda>v. list_ex (\<lambda>a. EqualFold (TrimSpace v) a) actuals) (cond_values L condValue)
      | PolicyConditionOpNotIn \<Rightarrow> \<not> list_ex (\<lambda>v. list_ex (\<lambda>a. EqualFold (TrimSpace v) a) actuals) (cond_values L condValue)
      | _ \<Rightarrow> False)"

definition evaluateCondition :: "policy_lib \<Rightarrow> int \<Rightarrow> PolicyCondition \<Rightarrow> PolicyEvaluationRequest \<Rightarrow> bool" where
  "evaluateCondition L now c req =
     (case pc_Type c of
        PolicyConditionVMTag \<Rightarrow> matchStringSlice L (pc_Operator c) (pc_Value c) (pr_VMTags req)
      | PolicyConditionEnvironment \<Rightarrow> matchString L (pc_Operator c) (pc_Value c) (pr_Environment req)
      | PolicyConditionProvider \<Rightarrow> matchString L (pc_Operator c) (pc_Value c) (pr_ProviderType req)
      | PolicyConditionUserRole \<Rightarrow> matchStringSlice L (pc_Operator c) (pc_Value c) (pr_Roles req)
      | PolicyConditionOperation \<Rightarrow> matchString L (pc_Operator c) (pc_Value c) (pr_Operation req)
      | PolicyConditionVMName \<Rightarrow> matchString L (pc_Operator c) (pc_Value c) (pr_ResourceName req)
      | PolicyConditionHypervisor \<Rightarrow> matchString L (pc_Operator c) (pc_Value c) (pr_HypervisorID req)
      | PolicyConditionBulkSize \<Rightarrow>
          (case Atoi (pc_Value c) of
             None \<Rightarrow> False
           | Some threshold \<Rightarrow>
               (case pc_Operator c of
                  PolicyConditionOpGreaterThan \<Rightarrow> pr_BulkSize req > threshold
                | PolicyConditionOpLessThan \<Rightarrow> pr_BulkSize req < threshold
                | PolicyConditionOpEquals \<Rightarrow> pr_BulkSize req = threshold
                | _ \<Rightarrow> False))
      | PolicyConditionMaintenanceWindow \<Rightarrow> isInMaintenanceWindow now (pc_Value c)
      | PolicyConditionTimeSchedule \<Rightarrow> isInTimeSchedule L now (pc_Value c)
      | PolicyConditionOther _ \<Rightarrow> False)"

fun evaluateConditions :: "policy_lib \<Rightarrow> int \<Rightarrow> PolicyCondition list \<Rightarrow> PolicyEvaluationRequest \<Rightarrow> bool" where
  "evaluateConditions L now [] req = True"
| "evaluateConditions L now (c # cs) req =
     (let matched = evaluateCondition L now c req;
          matched = (if pc_Negate c then \<not> matched else matched)
      in if \<not> matched then False else evaluateConditions L now cs req)"

fun operation_in :: "string list \<Rightarrow> string \<Rightarrow> bool" where
  "operation_in [] operation = False"
| "operation_in (op # ops) operation =
     (if op = ''*'' \<or> EqualFold op operation then True
      else if HasSuffix op ''.*'' \<and>
              (HasPrefix operation (TrimSuffix op ''.*'' @ ''.'') \<or> EqualFold operation (TrimSuffix op ''.*'')) then True
      else operation_in ops operation)"

definition operationMatches :: "string list \<Rightarrow> string \<Rightarrow> bool" where
  "operationMatches operations operation = (if operations = [] then True else operation_in operations operation)"

definition buildTargetIDs :: "PolicyEvaluationRequest \<Rightarrow> string list" where
  "buildTargetIDs req =
     (if pr_ResourceID req \<noteq> '''' then [pr_ResourceID req] else []) @
     (if pr_HypervisorID req \<noteq> '''' then [pr_HypervisorID req] else []) @
     (if pr_Environment req \<noteq> '''' then [pr_Environment req] else []) @ pr_VMTags req @ pr_Roles req"

section \<open>Effects\<close>

type_synonym 's approval_create = "int \<Rightarrow> CreateApprovalRequest \<Rightarrow> 's \<Rightarrow> 's \<times> (go_error + ApprovalRequest)"

definition recordViolation ::
  "uuid_lib \<Rightarrow> Policy \<Rightarrow> PolicyEvaluationRequest \<Rightarrow> PolicyViolationStatus \<Rightarrow> string \<Rightarrow> policy_db \<Rightarrow> policy_db \<times> string" where
  "recordViolation U p req status approvalID d =
     (case violation_Create U
         \<lparr>pv_ID = '''', pv_PolicyID = p_ID p, pv_PolicyName = p_Name p, pv_Effect = p_Effect p, pv_Status = status,
          pv_Operation = pr_Operation req, pv_ResourceType = pr_ResourceType req, pv_ResourceID = pr_ResourceID req,
          pv_ResourceName = pr_ResourceName req, pv_UserID = parse_optional U (pr_UserID req), pv_Username = pr_Username req,
          pv_ApprovalRequestID = parse_optional U approvalID, pv_Metadata = pr_Metadata req\<rparr> d of
        (d, Inl e) \<Rightarrow> (d, '''')
      | (d, Inr v) \<Rightarrow> (d, pv_ID v))"

definition buildApprovalSteps :: "Policy \<Rightarrow> CreateApprovalStepRequest list" where
  "buildApprovalSteps p =
     (case p_ApprovalConfig p of
        None \<Rightarrow> []
      | Some config \<Rightarrow>
          (case jget config ''approval_steps'' of
             None \<Rightarrow>
               (case jstring config ''approver_role'' of
                  Some role \<Rightarrow>
                    if role \<noteq> '''' then [\<lparr>cs_StepOrder = 1, cs_ApproverID = '''', cs_ApproverRole = role, cs_ApproverName = ''''\<rparr>] else []
                | None \<Rightarrow> [])
           | Some stepsRaw \<Rightarrow> (case decode_slice decode_step stepsRaw of None \<Rightarrow> [] | Some steps \<Rightarrow> steps)))"

text \<open>
  Hours, truncated to a whole number, as a duration. Converting a number too large for \<^verbatim>\<open>int64\<close> gives the least
  value, as on amd64.
\<close>

definition hour_ns :: int where
  "hour_ns = 3600000000000"

definition approval_expiry :: "Policy \<Rightarrow> int" where
  "approval_expiry p =
     (let expiresIn =
        (case p_ApprovalConfig p of
           None \<Rightarrow> 0
         | Some config \<Rightarrow>
             (case jnum config ''expiry_hours'' of
                None \<Rightarrow> 0
              | Some ttlHours \<Rightarrow>
                  if ttlHours > 0 then wrap64 ((if \<lfloor>ttlHours\<rfloor> > maxInt then minInt else \<lfloor>ttlHours\<rfloor>) * hour_ns) else 0))
      in if expiresIn = 0 then 24 * hour_ns else expiresIn)"

definition approval_request_for :: "Policy \<Rightarrow> PolicyEvaluationRequest \<Rightarrow> CreateApprovalRequest" where
  "approval_request_for p req =
     \<lparr>ca_PolicyID = p_ID p, ca_PolicyName = p_Name p, ca_Operation = pr_Operation req, ca_ResourceType = pr_ResourceType req,
      ca_ResourceID = pr_ResourceID req, ca_ResourceName = pr_ResourceName req, ca_RequesterID = pr_UserID req,
      ca_RequesterName = pr_Username req,
      ca_Justification = (case jstring (pr_Metadata req) ''justification'' of None \<Rightarrow> '''' | Some j \<Rightarrow> j),
      ca_OperationPayload = pr_Metadata req, ca_Metadata = [], ca_Steps = buildApprovalSteps p, ca_ExpiresIn = approval_expiry p\<rparr>"

definition createApprovalRequest ::
  "'s approval_create \<Rightarrow> int \<Rightarrow> Policy \<Rightarrow> PolicyEvaluationRequest \<Rightarrow> 's \<Rightarrow> 's \<times> (go_error + string)" where
  "createApprovalRequest create now p req s =
     (case create now (approval_request_for p req) s of
        (s, Inl e) \<Rightarrow> (s, Inl (Wrapf ''creating approval request'' e))
      | (s, Inr approval) \<Rightarrow> (s, Inr (ar_ID approval)))"

text \<open>\<^verbatim>\<open>%q\<close> of a name without control characters.\<close>

definition quote :: "string \<Rightarrow> string" where
  "quote s = [CHR 0x22] @ concat (map (\<lambda>c. if c = CHR 0x22 \<or> c = CHR 0x5C then [CHR 0x5C, c] else [c]) s) @ [CHR 0x22]"

definition plain_result :: "bool \<Rightarrow> string \<Rightarrow> PolicyEvaluationResult" where
  "plain_result allowed msg = \<lparr>res_Allowed = allowed, res_Effect = PolicyEffectOther '''', res_MatchedPolicy = None,
     res_ViolationID = '''', res_ApprovalRequestID = '''', res_Message = msg, res_RequiresSnapshot = False, res_RequiresJustification = False\<rparr>"

definition applyEffect ::
  "uuid_lib \<Rightarrow> 's approval_create \<Rightarrow> int \<Rightarrow> Policy \<Rightarrow> PolicyEvaluationRequest \<Rightarrow> policy_db \<times> 's \<Rightarrow> (policy_db \<times> 's) \<times> PolicyEvaluationResult" where
  "applyEffect U create now p req = (\<lambda>(d, s).
     let result = (plain_result False '''')\<lparr>res_Effect := p_Effect p, res_MatchedPolicy := Some p\<rparr>
     in case p_Effect p of
          PolicyEffectAllow \<Rightarrow>
            ((d, s), result\<lparr>res_Allowed := True, res_Message := ''allowed by policy '' @ quote (p_Name p)\<rparr>)
        | PolicyEffectDeny \<Rightarrow>
            (let (d, vid) = recordViolation U p req ViolationBlocked '''' d
             in ((d, s), result\<lparr>res_Message := ''denied by policy '' @ quote (p_Name p), res_ViolationID := vid\<rparr>))
        | PolicyEffectRequireApproval \<Rightarrow>
            (let (s, a) = createApprovalRequest create now p req s;
                 approvalID = (case a of Inl e \<Rightarrow> '''' | Inr i \<Rightarrow> i);
                 msg = (case a of Inl e \<Rightarrow> ''denied by policy '' @ quote (p_Name p) @ '' (approval creation failed)''
                        | Inr _ \<Rightarrow> ''approval required by policy '' @ quote (p_Name p));
                 (d, vid) = recordViolation U p req ViolationPending approvalID d
             in ((d, s), result\<lparr>res_Message := msg, res_ApprovalRequestID := approvalID, res_ViolationID := vid\<rparr>))
        | PolicyEffectRequireSnapshot \<Rightarrow>
            ((d, s), result\<lparr>res_Allowed := True, res_RequiresSnapshot := True,
               res_Message := ''snapshot required before operation by policy '' @ quote (p_Name p)\<rparr>)
        | PolicyEffectRequireJustification \<Rightarrow>
            (case jstring (pr_Metadata req) ''justification'' of
               Some j \<Rightarrow>
                 if j \<noteq> ''''
                 then (let (d, vid) = recordViolation U p req ViolationOverridden '''' d
                       in ((d, s), result\<lparr>res_Allowed := True, res_RequiresJustification := True,
                             res_Message := ''allowed with justification by policy '' @ quote (p_Name p), res_ViolationID := vid\<rparr>))
                 else ((d, s), result\<lparr>res_RequiresJustification := True,
                        res_Message := ''justification required by policy '' @ quote (p_Name p)\<rparr>)
             | None \<Rightarrow> ((d, s), result\<lparr>res_RequiresJustification := True,
                        res_Message := ''justification required by policy '' @ quote (p_Name p)\<rparr>))
        | PolicyEffectOther _ \<Rightarrow> ((d, s), result))"

definition policy_matches :: "policy_lib \<Rightarrow> int \<Rightarrow> string set \<Rightarrow> PolicyEvaluationRequest \<Rightarrow> Policy \<Rightarrow> bool" where
  "policy_matches L now assigned req p \<longleftrightarrow> p_ID p \<in> assigned \<and>
     operationMatches (p_Operations p) (pr_Operation req) \<and> evaluateConditions L now (p_Conditions p) req"

fun eval_policies ::
  "uuid_lib \<Rightarrow> policy_lib \<Rightarrow> 's approval_create \<Rightarrow> int \<Rightarrow> string set \<Rightarrow> Policy list \<Rightarrow> PolicyEvaluationRequest \<Rightarrow> policy_db \<times> 's
   \<Rightarrow> (policy_db \<times> 's) \<times> PolicyEvaluationResult" where
  "eval_policies U L create now assigned [] req ds = (ds, plain_result True ''no matching policy'')"
| "eval_policies U L create now assigned (p # ps) req ds =
     (if policy_matches L now assigned req p then applyEffect U create now p req ds
      else eval_policies U L create now assigned ps req ds)"

definition Evaluate ::
  "uuid_lib \<Rightarrow> policy_lib \<Rightarrow> 's approval_create \<Rightarrow> int \<Rightarrow> PolicyEvaluationRequest \<Rightarrow> policy_db \<times> 's \<Rightarrow> (policy_db \<times> 's) \<times> PolicyEvaluationResult" where
  "Evaluate U L create now req = (\<lambda>(d, s).
     case ListEnabled d of
       (d, Inl e) \<Rightarrow> ((d, s), plain_result True ''policy engine unavailable'')
     | (d, Inr policies) \<Rightarrow>
         if policies = [] then ((d, s), plain_result True ''no policies configured'')
         else (case ListForContext (buildTargetIDs req) d of
                 (d, Inl e) \<Rightarrow> ((d, s), plain_result True ''policy engine unavailable'')
               | (d, Inr assignments) \<Rightarrow>
                   eval_policies U L create now (set (map pa_PolicyID assignments)) policies req (d, s)))"

section \<open>The service\<close>

definition policy_audit :: "string \<Rightarrow> string \<Rightarrow> string \<Rightarrow> policy_db \<Rightarrow> policy_db" where
  "policy_audit action i descr d = d\<lparr>pdb_audit := pdb_audit d @ [(action, i, descr)]\<rparr>"

definition new_conditions :: "string \<Rightarrow> CreatePolicyConditionRequest list \<Rightarrow> PolicyCondition list" where
  "new_conditions i cs = map (\<lambda>c. \<lparr>pc_ID = '''', pc_PolicyID = i, pc_Type = cc_Type c, pc_Operator = cc_Operator c,
     pc_Value = cc_Value c, pc_Negate = cc_Negate c\<rparr>) cs"

definition new_policy :: "CreatePolicyRequest \<Rightarrow> Policy" where
  "new_policy req = \<lparr>p_ID = '''', p_DeletedAt = None, p_Name = cp_Name req, p_Description = cp_Description req, p_Type = cp_Type req,
     p_Effect = cp_Effect req, p_Priority = (if cp_Priority req = 0 then 100 else cp_Priority req), p_Enabled = cp_Enabled req,
     p_Operations = cp_Operations req, p_ApprovalConfig = cp_ApprovalConfig req, p_Metadata = cp_Metadata req,
     p_Conditions = [], p_Assignments = []\<rparr>"

definition policy_Create :: "uuid_lib \<Rightarrow> CreatePolicyRequest \<Rightarrow> policy_db \<Rightarrow> policy_db \<times> (go_error + Policy)" where
  "policy_Create U req d =
     (case policy_repo_Create U (new_policy req) d of
        (d, Inl e) \<Rightarrow> (d, Inl (Wrapf ''creating policy'' e))
      | (d, Inr p) \<Rightarrow>
          (case (if cp_Conditions req \<noteq> [] then ReplaceConditions U (p_ID p) (new_conditions (p_ID p) (cp_Conditions req)) d else (d, Inr ())) of
             (d, Inl e) \<Rightarrow> (d, Inl (Wrapf ''creating policy conditions'' e))
           | (d, Inr _) \<Rightarrow>
               policy_repo_GetByID (p_ID p) (policy_audit ''create'' (p_ID p) (''created policy '' @ quote (p_Name p)) d)))"

definition update_fields :: "UpdatePolicyRequest \<Rightarrow> Policy \<Rightarrow> Policy" where
  "update_fields req p = p\<lparr>p_Name := set_opt (up_Name req) (p_Name p), p_Description := set_opt (up_Description req) (p_Description p),
     p_Effect := set_opt (up_Effect req) (p_Effect p), p_Priority := set_opt (up_Priority req) (p_Priority p),
     p_Enabled := set_opt (up_Enabled req) (p_Enabled p), p_Operations := set_opt (up_Operations req) (p_Operations p),
     p_ApprovalConfig := (case up_ApprovalConfig req of None \<Rightarrow> p_ApprovalConfig p | Some c \<Rightarrow> Some c),
     p_Metadata := set_opt (up_Metadata req) (p_Metadata p)\<rparr>"

text \<open>An identifier that does not parse gives the zero UUID.\<close>

definition policy_Update :: "uuid_lib \<Rightarrow> string \<Rightarrow> UpdatePolicyRequest \<Rightarrow> policy_db \<Rightarrow> policy_db \<times> (go_error + Policy)" where
  "policy_Update U i req d =
     (case policy_repo_GetByID i d of
        (d, Inl e) \<Rightarrow> (d, Inl e)
      | (d, Inr p) \<Rightarrow>
          (case policy_repo_Update (update_fields req p) d of
             (d, Inl e) \<Rightarrow> (d, Inl (Wrapf ''updating policy'' e))
           | (d, Inr _) \<Rightarrow>
               (case (case up_Conditions req of
                        None \<Rightarrow> (d, Inr ())
                      | Some cs \<Rightarrow> ReplaceConditions U i (new_conditions (set_opt (uuid_parse U i) nil_uuid) cs) d) of
                  (d, Inl e) \<Rightarrow> (d, Inl (Wrapf ''updating policy conditions'' e))
                | (d, Inr _) \<Rightarrow> policy_repo_GetByID i (policy_audit ''update'' i '''' d))))"

definition policy_Delete :: "int \<Rightarrow> string \<Rightarrow> policy_db \<Rightarrow> policy_db \<times> go_error option" where
  "policy_Delete now i d =
     (case policy_repo_Delete now i d of
        (d, Inl e) \<Rightarrow> (d, Some e)
      | (d, Inr _) \<Rightarrow> (policy_audit ''delete'' i '''' d, None))"

definition set_enabled :: "bool \<Rightarrow> string \<Rightarrow> policy_db \<Rightarrow> policy_db \<times> go_error option" where
  "set_enabled b i d =
     (case policy_repo_GetByID i d of
        (d, Inl e) \<Rightarrow> (d, Some e)
      | (d, Inr p) \<Rightarrow> (case policy_repo_Update (p\<lparr>p_Enabled := b\<rparr>) d of (d, Inl e) \<Rightarrow> (d, Some e) | (d, Inr _) \<Rightarrow> (d, None)))"

definition Enable :: "string \<Rightarrow> policy_db \<Rightarrow> policy_db \<times> go_error option" where
  "Enable i d = set_enabled True i d"

definition Disable :: "string \<Rightarrow> policy_db \<Rightarrow> policy_db \<times> go_error option" where
  "Disable i d = set_enabled False i d"

definition Assign ::
  "uuid_lib \<Rightarrow> string option \<Rightarrow> string \<Rightarrow> PolicyAssignmentTargetType \<Rightarrow> string \<Rightarrow> policy_db \<Rightarrow> policy_db \<times> (go_error + PolicyAssignment)" where
  "Assign U caller policyID targetType targetID d =
     (case uuid_parse U policyID of
        None \<Rightarrow> (d, Inl (Errorf ''invalid policy ID''))
      | Some policyUUID \<Rightarrow>
          (case policy_repo_GetByID policyID d of
             (d, Inl e) \<Rightarrow> (d, Inl (Wrapf ''policy not found'' e))
           | (d, Inr _) \<Rightarrow>
               (case assignment_Create U \<lparr>pa_ID = '''', pa_PolicyID = policyUUID, pa_TargetType = targetType,
                       pa_TargetID = targetID, pa_CreatedBy = caller\<rparr> d of
                  (d, Inl e) \<Rightarrow> (d, Inl (Wrapf ''creating assignment'' e))
                | (d, Inr a) \<Rightarrow> (d, Inr a))))"

definition Unassign :: "string \<Rightarrow> policy_db \<Rightarrow> policy_db \<times> (go_error + unit)" where
  "Unassign i d = assignment_Delete i d"


section \<open>Which policy decides\<close>

text \<open>What it takes for a stored policy to apply to a request, independent of the order of evaluation.\<close>

definition condition_holds :: "policy_lib \<Rightarrow> int \<Rightarrow> PolicyEvaluationRequest \<Rightarrow> PolicyCondition \<Rightarrow> bool" where
  "condition_holds L now req c \<longleftrightarrow> evaluateCondition L now c req \<noteq> pc_Negate c"

definition applicable :: "policy_lib \<Rightarrow> int \<Rightarrow> policy_db \<Rightarrow> PolicyEvaluationRequest \<Rightarrow> Policy \<Rightarrow> bool" where
  "applicable L now d req p \<longleftrightarrow> p \<in> preload d ` set (pdb_policies d) \<and> p_Enabled p \<and> p_DeletedAt p = None \<and>
     (\<exists>a \<in> set (pdb_assignments d). pa_PolicyID a = p_ID p \<and>
        (pa_TargetType a = TargetGlobal \<or> pa_TargetID a \<in> set (buildTargetIDs req))) \<and>
     operationMatches (p_Operations p) (pr_Operation req) \<and> (\<forall>c \<in> set (p_Conditions p). condition_holds L now req c)"

definition effect_allows :: "PolicyEvaluationRequest \<Rightarrow> PolicyEffect \<Rightarrow> bool" where
  "effect_allows req e \<longleftrightarrow> e = PolicyEffectAllow \<or> e = PolicyEffectRequireSnapshot \<or>
     e = PolicyEffectRequireJustification \<and> (\<exists>j. j \<noteq> '''' \<and> jstring (pr_Metadata req) ''justification'' = Some j)"

lemma evaluateConditions_iff: "evaluateConditions L now cs req \<longleftrightarrow> (\<forall>c \<in> set cs. condition_holds L now req c)"
  by (induction cs) (auto simp: condition_holds_def Let_def)

lemma preload_simps [simp]:
  "p_ID (preload d p) = p_ID p" "p_Enabled (preload d p) = p_Enabled p" "p_DeletedAt (preload d p) = p_DeletedAt p"
  "p_Priority (preload d p) = p_Priority p" "p_Operations (preload d p) = p_Operations p"
  by (simp_all add: preload_def)

lemma plain_result_simps [simp]:
  "res_Allowed (plain_result b m) = b" "res_MatchedPolicy (plain_result b m) = None" "res_Message (plain_result b m) = m"
  by (simp_all add: plain_result_def)

lemma applyEffect_matched:
  "res_MatchedPolicy (snd (applyEffect U create now p req ds)) = Some p"
  "res_Effect (snd (applyEffect U create now p req ds)) = p_Effect p"
  "res_Allowed (snd (applyEffect U create now p req ds)) \<longleftrightarrow> effect_allows req (p_Effect p)"
  by (cases ds; cases "p_Effect p"; simp add: applyEffect_def effect_allows_def split_beta Let_def split: option.split)+

lemma eval_policies_find:
  "eval_policies U L create now assigned ps req ds =
     (case find (policy_matches L now assigned req) ps of
        None \<Rightarrow> (ds, plain_result True ''no matching policy'')
      | Some p \<Rightarrow> applyEffect U create now p req ds)"
  by (induction ps) auto

lemma find_sorted_least:
  fixes f :: "'a \<Rightarrow> int"
  assumes "sorted (map f xs)" "find P xs = Some x" "y \<in> set xs" "P y"
  shows "f x \<le> f y"
  using assms by (induction xs) (auto split: if_splits)

definition enabled_policies :: "policy_db \<Rightarrow> Policy list" where
  "enabled_policies d = map (preload d) (sort_key p_Priority (filter (\<lambda>p. p_Enabled p \<and> p_DeletedAt p = None) (pdb_policies d)))"

definition context_policies :: "policy_db \<Rightarrow> PolicyEvaluationRequest \<Rightarrow> string set" where
  "context_policies d req = pa_PolicyID ` {a \<in> set (pdb_assignments d). pa_TargetType a = TargetGlobal \<or> pa_TargetID a \<in> set (buildTargetIDs req)}"

lemma enabled_sorted: "sorted (map p_Priority (enabled_policies d))"
  by (simp add: enabled_policies_def comp_def)

lemma enabled_applicable:
  "p \<in> set (enabled_policies d) \<and> policy_matches L now (context_policies d req) req p \<longleftrightarrow> applicable L now d req p"
proof -
  have "i \<in> context_policies d req \<longleftrightarrow> (\<exists>a \<in> set (pdb_assignments d). pa_PolicyID a = i \<and>
      (pa_TargetType a = TargetGlobal \<or> pa_TargetID a \<in> set (buildTargetIDs req)))" for i
    by (auto simp: context_policies_def image_iff)
  then show ?thesis
    by (auto simp: enabled_policies_def applicable_def policy_matches_def evaluateConditions_iff)
qed

lemma pol_stmt_clean [simp]: "pdb_faults d = [] \<Longrightarrow> pol_stmt f d = f d"
  by (simp add: pol_stmt_def)

lemma Evaluate_clean:
  assumes "pdb_faults d = []"
  shows "Evaluate U L create now req (d, s) =
    (if enabled_policies d = [] then ((d, s), plain_result True ''no policies configured'')
     else eval_policies U L create now (context_policies d req) (enabled_policies d) req (d, s))"
  using assms by (simp add: Evaluate_def ListEnabled_def ListForContext_def enabled_policies_def context_policies_def)

lemma Evaluate_matched:
  assumes "pdb_faults d = []" "res_MatchedPolicy (snd (Evaluate U L create now req (d, s))) = Some p"
  shows "res_Allowed (snd (Evaluate U L create now req (d, s))) \<longleftrightarrow> effect_allows req (p_Effect p)"
    "res_Effect (snd (Evaluate U L create now req (d, s))) = p_Effect p"
  using assms(2) Evaluate_clean [OF assms(1), of U L create now req s]
  by (auto simp: eval_policies_find applyEffect_matched split: if_splits option.splits)

text \<open>C4. The applicable policy of highest priority decides. With a working database the engine reports a matched policy
  exactly when some enabled policy is assigned to the context, covers the operation and has all its
  conditions met; the reported one has the least priority number among them; and the operation is
  allowed exactly when there is none or the effect of that policy allows it.\<close>

theorem Evaluate_highest_priority:
  assumes "pdb_faults d = []" "snd (Evaluate U L create now req (d, s)) = res"
  shows "case res_MatchedPolicy res of
      None \<Rightarrow> res_Allowed res \<and> (\<forall>p. \<not> applicable L now d req p)
    | Some p \<Rightarrow> applicable L now d req p \<and> (\<forall>q. applicable L now d req q \<longrightarrow> p_Priority p \<le> p_Priority q) \<and>
        (res_Allowed res \<longleftrightarrow> effect_allows req (p_Effect p))"
proof (cases "find (policy_matches L now (context_policies d req) req) (enabled_policies d)")
  case None
  then have "res_MatchedPolicy res = None" "res_Allowed res"
    using assms(2) Evaluate_clean [OF assms(1), of U L create now req s] by (auto simp: eval_policies_find)
  moreover have "\<not> applicable L now d req p" for p using None enabled_applicable by (metis find_None_iff)
  ultimately show ?thesis by simp
next
  case (Some p)
  then have p: "p \<in> set (enabled_policies d)" "policy_matches L now (context_policies d req) req p"
    by (auto simp: find_Some_iff)
  then have res: "res = snd (applyEffect U create now p req (d, s))"
    using assms(2) Evaluate_clean [OF assms(1), of U L create now req s] Some by (auto simp: eval_policies_find)
  have "p_Priority p \<le> p_Priority q" if "applicable L now d req q" for q
    using find_sorted_least [OF enabled_sorted Some] that enabled_applicable by metis
  moreover have "applicable L now d req p" using p enabled_applicable by blast
  ultimately show ?thesis by (simp add: res applyEffect_matched)
qed

text \<open>The engine fails open. When loading the policies or the assignments fails, every operation is allowed and
  nothing is recorded, whatever the stored policies say.\<close>

theorem Evaluate_fails_open:
  assumes "pdb_faults d = Some e # fs \<or> enabled_policies d \<noteq> [] \<and> pdb_faults d = None # Some e # fs"
  shows "snd (Evaluate U L create now req (d, s)) = plain_result True ''policy engine unavailable'' \<and>
    fst (Evaluate U L create now req (d, s)) = (d\<lparr>pdb_faults := fs\<rparr>, s)"
proof -
  have "preload (d\<lparr>pdb_faults := x\<rparr>) = preload d" for x by (simp add: fun_eq_iff preload_def)
  with assms show ?thesis
    by (elim disjE conjE) (simp_all add: Evaluate_def ListEnabled_def ListForContext_def pol_stmt_def enabled_policies_def)
qed

section \<open>Clock windows\<close>

definition two_digits :: "int \<Rightarrow> string" where
  "two_digits n = [digit_char (nat (n div 10)), digit_char (nat (n mod 10))]"

definition clock :: "int \<Rightarrow> int \<Rightarrow> string" where
  "clock h m = two_digits h @ '':'' @ two_digits m"

lemma getnum_two_digits:
  assumes "0 \<le> n" "n < 100"
  shows "getnum b (two_digits n @ r) = Some (n, r)"
proof -
  have "0 \<le> n div 10" "n div 10 < 10" using assms by simp_all
  then show ?thesis using assms by (simp add: two_digits_def nat_less_iff)
qed

lemma parse_clock_clock:
  assumes "0 \<le> h" "h < 24" "0 \<le> m" "m < 60"
  shows "parse_clock (clock h m) = Some (60 * h + m)"
  using assms getnum_two_digits [of h False "'':'' @ two_digits m"] getnum_two_digits [of m True "[]"]
  by (simp add: parse_clock_def clock_def)

lemma digit_char_plain:
  assumes "d < 10"
  shows "digit_char d \<noteq> CHR ''-''" "\<not> is_space (digit_char d)"
proof -
  have "of_char (digit_char d) = 48 + d" by (rule of_char_digit_char [OF assms])
  then show "digit_char d \<noteq> CHR ''-''" "\<not> is_space (digit_char d)" by (auto simp: is_space_def Let_def)
qed


lemma Split_two:
  assumes "sep \<notin> set a" "sep \<notin> set b"
  shows "Split (a @ sep # b) sep = [a, b]"
  using assms by (induction a) (auto simp: Split_no_sep)

lemma TrimSpace_plain:
  assumes "\<forall>c \<in> set s. \<not> is_space c"
  shows "TrimSpace s = s"
proof -
  have d: "dropWhile is_space t = t" if "\<forall>c \<in> set t. \<not> is_space c" for t using that by (cases t) auto
  show ?thesis using assms d [of s] d [of "rev s"] by (simp add: TrimSpace_def)
qed

lemma clock_plain:
  assumes "0 \<le> h" "h < 24" "0 \<le> m" "m < 60"
  shows "CHR ''-'' \<notin> set (clock h m)" "TrimSpace (clock h m) = clock h m"
proof -
  have "nat (h div 10) < 10" "nat (h mod 10) < 10" "nat (m div 10) < 10" "nat (m mod 10) < 10" using assms by auto
  note D = this [THEN digit_char_plain(1)] this [THEN digit_char_plain(2)]
  show "CHR ''-'' \<notin> set (clock h m)" using D by (auto simp: clock_def two_digits_def)
  show "TrimSpace (clock h m) = clock h m"
    by (rule TrimSpace_plain) (use D in \<open>auto simp: clock_def two_digits_def is_space_def\<close>)
qed

text \<open>What a maintenance window means. A window written \<open>HH:MM-HH:MM\<close> contains an instant exactly when the minute of its
  day in UTC lies between the start and before the end; so a window that ends at or before its start,
  such as one over midnight, contains no instant at all.\<close>

theorem maintenance_window_meaning:
  assumes "0 \<le> h" "h < 24" "0 \<le> m" "m < 60" "0 \<le> h'" "h' < 24" "0 \<le> m'" "m' < 60"
  shows "(isInMaintenanceWindow now (clock h m @ ''-'' @ clock h' m') \<longleftrightarrow>
      60 * h + m \<le> minute_of_day now \<and> minute_of_day now < 60 * h' + m') \<and>
    (60 * h' + m' \<le> 60 * h + m \<longrightarrow> \<not> isInMaintenanceWindow now (clock h m @ ''-'' @ clock h' m'))"
  using clock_plain [of h m] clock_plain [of h' m'] parse_clock_clock [of h m] parse_clock_clock [of h' m'] assms
  by (auto simp: isInMaintenanceWindow_def in_window_def Split_two)

theorem maintenance_window_meaning_witness:
  "\<not> isInMaintenanceWindow 0 (clock 22 0 @ ''-'' @ clock 6 0) \<and> isInMaintenanceWindow 0 (clock 0 0 @ ''-'' @ clock 6 0)
   \<and> clock 22 0 @ ''-'' @ clock 6 0 = ''22:00-06:00''"
proof -
  have "minute_of_day 0 = 0" by code_simp
  moreover have "clock 22 0 @ ''-'' @ clock 6 0 = ''22:00-06:00''" by code_simp
  ultimately show ?thesis
    using maintenance_window_meaning [of 22 0 6 0 0] maintenance_window_meaning [of 0 0 6 0 0] by simp
qed

section \<open>The approval service as the engine sees it\<close>

text \<open>
  The engine calls \<^verbatim>\<open>Create\<close> and hands the identifier of the request on. What makes that meaningful: a request whose
  creation succeeded is stored under its identifier, is pending and is the one asked for.
\<close>

definition same_request :: "int \<Rightarrow> CreateApprovalRequest \<Rightarrow> ApprovalRequest \<Rightarrow> bool" where
  "same_request now c ar \<longleftrightarrow> ar_Operation ar = ca_Operation c \<and> ar_ResourceType ar = ca_ResourceType c \<and>
     ar_ResourceID ar = ca_ResourceID c \<and> ar_RequesterName ar = ca_RequesterName c \<and>
     ar_OperationPayload ar = ca_OperationPayload c \<and>
     ar_ExpiresAt ar = (if ca_ExpiresIn c > 0 then Some (now + ca_ExpiresIn c) else None)"

locale approval_service =
  fixes create :: "'s approval_create"
    and lookup :: "'s \<Rightarrow> string \<Rightarrow> ApprovalRequest option"
    and ok :: "'s \<Rightarrow> bool"
  assumes create_ok: "ok s \<Longrightarrow> create now c s = (s', r) \<Longrightarrow> ok s'"
    and create_stored: "ok s \<Longrightarrow> create now c s = (s', Inr ar) \<Longrightarrow>
      lookup s' (ar_ID ar) = Some ar \<and> ar_Status ar = ApprovalPending \<and> same_request now c ar"
begin

lemma createApprovalRequest_stored:
  assumes "ok s" "createApprovalRequest create now p req s = (s', Inr i)"
  shows "\<exists>ar. lookup s' i = Some ar \<and> ar_Status ar = ApprovalPending \<and> same_request now (approval_request_for p req) ar"
proof -
  obtain s1 r where c: "create now (approval_request_for p req) s = (s1, r)" by (metis surj_pair)
  with assms show ?thesis using create_stored [OF assms(1)] by (cases r) (fastforce simp: createApprovalRequest_def)+
qed

lemma applyEffect_stored:
  assumes "ok s" "p_Effect p = PolicyEffectRequireApproval" "applyEffect U create now p req (d, s) = ((d', s'), res)"
    "res_ApprovalRequestID res \<noteq> ''''"
  shows "\<exists>ar. lookup s' (res_ApprovalRequestID res) = Some ar \<and> ar_Status ar = ApprovalPending \<and>
    same_request now (approval_request_for p req) ar"
proof -
  obtain s1 a where c: "createApprovalRequest create now p req s = (s1, a)" by (metis surj_pair)
  with assms(2,3) have s': "s' = s1" "res_ApprovalRequestID res = (case a of Inl e \<Rightarrow> '''' | Inr i \<Rightarrow> i)"
    by (auto simp: applyEffect_def Let_def split_beta)
  with assms(4) obtain i where "a = Inr i" by (cases a) auto
  with s' createApprovalRequest_stored [OF assms(1)] c show ?thesis by simp
qed

lemma Evaluate_approval:
  assumes "ok s" "pdb_faults d = []" "Evaluate U L create now req (d, s) = ((d', s'), res)"
    "res_Effect res = PolicyEffectRequireApproval" "res_ApprovalRequestID res \<noteq> ''''"
  shows "\<exists>ar p. res_MatchedPolicy res = Some p \<and> lookup s' (res_ApprovalRequestID res) = Some ar \<and>
    ar_Status ar = ApprovalPending \<and> same_request now (approval_request_for p req) ar"
proof (cases "find (policy_matches L now (context_policies d req) req) (enabled_policies d)")
  case None
  with assms(3-5) Evaluate_clean [OF assms(2), of U L create now req s] show ?thesis
    by (auto simp: eval_policies_find plain_result_def split: if_splits)
next
  case (Some p)
  then have "enabled_policies d \<noteq> []" by auto
  with assms(3) Evaluate_clean [OF assms(2), of U L create now req s] Some
  have e: "applyEffect U create now p req (d, s) = ((d', s'), res)" by (simp add: eval_policies_find)
  then have "p_Effect p = PolicyEffectRequireApproval" "res_MatchedPolicy res = Some p"
    using assms(4) applyEffect_matched(1,2) [of U create now p req "(d, s)"] by simp_all
  with applyEffect_stored [OF assms(1) _ e assms(5)] show ?thesis by blast
qed

end


lemma approval_Create_result:
  assumes "approval_Create U now c d = (d', Inr ar)"
  shows "\<exists>pu ru. ar = (new_request now c pu ru)\<lparr>ar_ID := uuid_new U (adb_next d)\<rparr> \<and> adb_requests d' = adb_requests d @ [ar]"
proof -
  from assms obtain pu ru where uu: "uuid_parse U (ca_PolicyID c) = Some pu" "uuid_parse U (ca_RequesterID c) = Some ru"
    by (auto simp: approval_Create_def split: option.splits)
  obtain d1 x where r: "req_Create U (new_request now c pu ru) d = (d1, x)" by (metis surj_pair)
  with assms uu have x: "x = Inr ar" "adb_requests d' = adb_requests d1"
    by (auto simp: approval_Create_def Let_def split: sum.splits)
  with r have "ar = (new_request now c pu ru)\<lparr>ar_ID := uuid_new U (adb_next d)\<rparr> \<and> adb_requests d1 = adb_requests d @ [ar]"
    by (auto simp: req_Create_def stmt_def Let_def split: list.splits option.splits)
  with x(2) show ?thesis by metis
qed

lemma find_snoc_fresh: "\<forall>r \<in> set rs. ar_ID r \<noteq> ar_ID ar \<Longrightarrow> find (\<lambda>r. ar_ID r = ar_ID ar) (rs @ [ar]) = Some ar"
  by (induction rs) auto

sublocale uuids \<subseteq> service: approval_service "approval_Create U" request "ids_ok U"
proof unfold_locales
  show "ids_ok U s'" if "ids_ok U s" "approval_Create U now c s = (s', r)" for s now c s' r
    using Create_ids [OF that(1), of now c] that(2) by simp
  show "request s' (ar_ID ar) = Some ar \<and> ar_Status ar = ApprovalPending \<and> same_request now c ar"
    if ids: "ids_ok U s" and c: "approval_Create U now c s = (s', Inr ar)" for s now c s' ar
  proof -
    obtain pu ru where ar: "ar = (new_request now c pu ru)\<lparr>ar_ID := uuid_new U (adb_next s)\<rparr>" "adb_requests s' = adb_requests s @ [ar]"
      using approval_Create_result [OF c] by blast
    have "ar_ID r \<noteq> ar_ID ar" if "r \<in> set (adb_requests s)" for r
    proof
      assume "ar_ID r = ar_ID ar"
      then have "ar_ID ar \<in> ar_ID ` set (adb_requests s) \<union> as_ID ` set (adb_steps s)" using that by (metis UnI1 imageI)
      then obtain n where "n < adb_next s" "ar_ID ar = uuid_new U n" using ids unfolding ids_ok_def by blast
      then show False using injD [OF new_inj, of n "adb_next s"] by (simp add: ar(1))
    qed
    with ar(2) have "request s' (ar_ID ar) = Some ar" by (simp add: request_def find_snoc_fresh)
    moreover have "ar_Status ar = ApprovalPending" "same_request now c ar"
      by (simp_all add: ar(1) new_request_def same_request_def)
    ultimately show ?thesis by blast
  qed
qed

context uuids
begin

lemmas pending_approval = service.Evaluate_approval

end

section \<open>Concrete tables\<close>

definition no_lib :: policy_lib where
  "no_lib = \<lparr>json_parse = (\<lambda>s. None), regexp_match = (\<lambda>r s. None)\<rparr>"

definition demo_policy :: "string \<Rightarrow> PolicyEffect \<Rightarrow> int \<Rightarrow> string list \<Rightarrow> CreatePolicyRequest" where
  "demo_policy name eff prio ops = \<lparr>cp_Name = name, cp_Description = '''', cp_Type = ''vm'', cp_Effect = eff, cp_Priority = prio,
     cp_Enabled = True, cp_Operations = ops,
     cp_Conditions = [\<lparr>cc_Type = PolicyConditionEnvironment, cc_Operator = PolicyConditionOpIn, cc_Value = ''prod, staging'', cc_Negate = False\<rparr>],
     cp_ApprovalConfig = Some [(''expiry_hours'', JNum 2), (''approver_role'', JStr ''ops'')], cp_Metadata = []\<rparr>"

definition empty_policy_db :: policy_db where
  "empty_policy_db = \<lparr>pdb_policies = [], pdb_conditions = [], pdb_assignments = [], pdb_violations = [], pdb_audit = [], pdb_next = 0, pdb_faults = []\<rparr>"

definition demo_policies :: policy_db where
  "demo_policies =
     (let d = fst (policy_Create plain_uuids (demo_policy ''all'' PolicyEffectAllow 0 [''*'']) empty_policy_db);
          d = fst (Assign plain_uuids None ''0'' TargetGlobal '''' d);
          d = fst (policy_Create plain_uuids (demo_policy ''deletes'' PolicyEffectRequireApproval 10 [''vm.*'']) d)
      in fst (Assign plain_uuids None ''3'' TargetEnvironment ''Prod'' d))"

definition demo_delete :: "string \<Rightarrow> PolicyEvaluationRequest" where
  "demo_delete env = \<lparr>pr_Operation = ''vm.delete'', pr_ResourceType = ''vm'', pr_ResourceID = ''v1'', pr_ResourceName = ''db'',
     pr_UserID = ''u1'', pr_Username = ''ann'', pr_Roles = [''operator''], pr_VMTags = [], pr_ProviderType = ''vmware'',
     pr_HypervisorID = ''h1'', pr_Environment = env, pr_BulkSize = 0, pr_Metadata = []\<rparr>"

definition demo_eval :: "string \<Rightarrow> (policy_db \<times> approval_db) \<times> PolicyEvaluationResult" where
  "demo_eval env = Evaluate plain_uuids no_lib (approval_Create plain_uuids) 5 (demo_delete env) (demo_policies, empty_approval_db)"

theorem Evaluate_highest_priority_witness:
  "map_option p_Name (res_MatchedPolicy (snd (demo_eval ''Prod''))) = Some ''deletes'' \<and>
   \<not> res_Allowed (snd (demo_eval ''Prod'')) \<and>
   applicable no_lib 5 demo_policies (demo_delete ''Prod'') (the (res_MatchedPolicy (snd (demo_eval ''Prod''))))"
proof -
  have n: "map_option (\<lambda>p. (p_Name p, p_Priority p, p_Effect p)) (res_MatchedPolicy (snd (demo_eval ''Prod''))) =
      Some (''deletes'', 10, PolicyEffectRequireApproval)" by code_simp
  have f: "pdb_faults demo_policies = []" by code_simp
  show ?thesis
    using Evaluate_highest_priority [OF f demo_eval_def [of "''Prod''", symmetric, THEN arg_cong [of _ _ snd]]] n
    by (auto simp: effect_allows_def)
qed

theorem Evaluate_fails_open_witness:
  "snd (Evaluate plain_uuids no_lib (approval_Create plain_uuids) 5 (demo_delete ''Prod'')
     (demo_policies\<lparr>pdb_faults := [None, Some (Errorf ''timeout'')]\<rparr>, empty_approval_db)) = plain_result True ''policy engine unavailable''"
proof -
  have "enabled_policies (demo_policies\<lparr>pdb_faults := [None, Some (Errorf ''timeout'')]\<rparr>) \<noteq> []" by code_simp
  then show ?thesis
    using Evaluate_fails_open [of "demo_policies\<lparr>pdb_faults := [None, Some (Errorf ''timeout'')]\<rparr>" "Errorf ''timeout''" "[]"
      plain_uuids no_lib "approval_Create plain_uuids" 5 "demo_delete ''Prod''" empty_approval_db] by simp
qed

text \<open>C16. Approval required means approval pending. When the deciding policy requires approval and the engine reports an
  approval request, the operation is refused and the approval service holds, under that identifier, a
  pending request for this very operation, resource and payload that expires as the policy says.\<close>

theorem required_approval_is_pending:
  assumes "uuids U" "ids_ok U a" "pdb_faults d = []"
    "Evaluate U L (approval_Create U) now req (d, a) = ((d', a'), res)"
    "res_Effect res = PolicyEffectRequireApproval" "res_ApprovalRequestID res \<noteq> ''''"
  shows "\<not> res_Allowed res \<and> (\<exists>ar p. res_MatchedPolicy res = Some p \<and> request a' (res_ApprovalRequestID res) = Some ar \<and>
    ar_Status ar = ApprovalPending \<and> same_request now (approval_request_for p req) ar)"
proof -
  have stored: "\<exists>ar p. res_MatchedPolicy res = Some p \<and> request a' (res_ApprovalRequestID res) = Some ar \<and>
    ar_Status ar = ApprovalPending \<and> same_request now (approval_request_for p req) ar"
    by (rule uuids.pending_approval [OF assms])
  then obtain p where p: "res_MatchedPolicy res = Some p" by blast
  then have "res_Allowed res \<longleftrightarrow> effect_allows req (p_Effect p)" "p_Effect p = PolicyEffectRequireApproval"
    using Evaluate_matched [OF assms(3), of U L "approval_Create U" now req a p] assms(4,5) by simp_all
  with stored show ?thesis by (simp add: effect_allows_def)
qed

theorem required_approval_is_pending_witness:
  "\<not> res_Allowed (snd (demo_eval ''Prod'')) \<and> res_ApprovalRequestID (snd (demo_eval ''Prod'')) = ''0'' \<and>
   (\<exists>ar. request (snd (fst (demo_eval ''Prod''))) ''0'' = Some ar \<and> ar_Status ar = ApprovalPending)"
proof -
  have e: "res_Effect (snd (demo_eval ''Prod'')) = PolicyEffectRequireApproval" "res_ApprovalRequestID (snd (demo_eval ''Prod'')) = ''0''"
    "pdb_faults demo_policies = []" by code_simp+
  have ids: "ids_ok plain_uuids empty_approval_db" using flow_ok_empty by (simp add: flow_ok_def)
  have p: "Evaluate plain_uuids no_lib (approval_Create plain_uuids) 5 (demo_delete ''Prod'') (demo_policies, empty_approval_db) =
     ((fst (fst (demo_eval ''Prod'')), snd (fst (demo_eval ''Prod''))), snd (demo_eval ''Prod''))" by (simp add: demo_eval_def)
  show ?thesis using required_approval_is_pending [OF plain.uuids_axioms ids e(3) p e(1)] e(2) by auto
qed

text \<open>A policy created disabled is stored enabled.\<close>

lemma created_disabled_is_enabled:
  assumes "pdb_faults d = []" "cp_Name req \<notin> p_Name ` set (pdb_policies d)" "\<not> cp_Enabled req" "cp_Conditions req = []"
  shows "\<exists>p \<in> set (pdb_policies (fst (policy_Create U req d))). p_Name p = cp_Name req \<and> p_Enabled p"
  using assms by (simp add: policy_Create_def policy_repo_Create_def new_policy_def policy_audit_def policy_repo_GetByID_def
      Let_def split: option.split)

end
