(* ===== verification/Cron.thy ===== *)
theory Cron
  imports Calendar
begin

text \<open>
  The cron expressions of \<^verbatim>\<open>internal/scheduler/cron.go\<close>: the parser (\<^verbatim>\<open>ParseCron\<close>,
  \<^verbatim>\<open>parseField\<close>, \<^verbatim>\<open>parsePart\<close>, \<^verbatim>\<open>parseValue\<close>), the constructors of
  expressions, and the search for the next matching minute (\<^verbatim>\<open>Next\<close>). An index out of range is
  the outcome \<open>Panic\<close>; a loop that does not end is the value \<open>None\<close>.
\<close>

section \<open>Schedules and outcomes\<close>

record CronSchedule =
  cs_Minutes :: "bool list"
  cs_Hours :: "bool list"
  cs_Days :: "bool list"
  cs_Months :: "bool list"
  cs_Weekdays :: "bool list"

datatype cron_field = MinuteField | HourField | DayField | MonthField | WeekdayField

datatype cron_error =
    FieldCount nat
  | InvalidStep string
  | InvalidRange string
  | RangeOutOfBounds int int int int
  | InvalidValue string
  | ValueOutOfBounds int int int
  | InField cron_field cron_error

datatype 'a outcome = Ok 'a | Error cron_error | Panic

text \<open>\<open>None\<close>: the call does not return.\<close>

type_synonym 'a go = "'a outcome option"

fun bind_go :: "'a go \<Rightarrow> ('a \<Rightarrow> 'b go) \<Rightarrow> 'b go" where
  "bind_go None f = None"
| "bind_go (Some (Ok x)) f = f x"
| "bind_go (Some (Error e)) f = Some (Error e)"
| "bind_go (Some Panic) f = Some Panic"

fun in_field :: "cron_field \<Rightarrow> 'a go \<Rightarrow> 'a go" where
  "in_field k (Some (Error e)) = Some (Error (InField k e))"
| "in_field k r = r"

definition monthNames :: "(string \<times> int) list" where
  "monthNames = [(''jan'', 1), (''feb'', 2), (''mar'', 3), (''apr'', 4), (''may'', 5), (''jun'', 6),
     (''jul'', 7), (''aug'', 8), (''sep'', 9), (''oct'', 10), (''nov'', 11), (''dec'', 12)]"

definition weekdayNames :: "(string \<times> int) list" where
  "weekdayNames = [(''sun'', 0), (''mon'', 1), (''tue'', 2), (''wed'', 3), (''thu'', 4), (''fri'', 5), (''sat'', 6)]"

section \<open>The parser\<close>

definition parseValue :: "string \<Rightarrow> (string \<times> int) list option \<Rightarrow> int option" where
  "parseValue s names =
     (case names of
        None \<Rightarrow> Atoi s
      | Some ns \<Rightarrow> (case map_of ns (ToLower s) of Some v \<Rightarrow> Some v | None \<Rightarrow> Atoi s))"

definition set_bit_at :: "bool list \<Rightarrow> int \<Rightarrow> bool list outcome" where
  "set_bit_at bits i = (if 0 \<le> i \<and> i < int (length bits) then Ok (bits[nat i := True]) else Panic)"

text \<open>The loop \<^verbatim>\<open>for i := lo; i <= hi; i += step { bits[i-min] = true }\<close>; the counter wraps around.\<close>

partial_function (option) set_range :: "int \<Rightarrow> int \<Rightarrow> int \<Rightarrow> int \<Rightarrow> bool list \<Rightarrow> bool list go" where
  "set_range i hi step mn bits =
     (if i \<le> hi then
        (case set_bit_at bits (wrap64 (i - mn)) of
           Ok bits' \<Rightarrow> set_range (wrap64 (i + step)) hi step mn bits'
         | Error e \<Rightarrow> Some (Error e)
         | Panic \<Rightarrow> Some Panic)
      else Some (Ok bits))"

declare set_range.simps [code]

definition split_step :: "string \<Rightarrow> (int \<times> string) outcome" where
  "split_step part =
     (case Index part (CHR ''/'') of
        None \<Rightarrow> Ok (1, part)
      | Some idx \<Rightarrow>
          (case Atoi (drop (Suc idx) part) of
             None \<Rightarrow> Error (InvalidStep (drop (Suc idx) part))
           | Some step \<Rightarrow>
               if step < 1 then Error (InvalidStep (drop (Suc idx) part)) else Ok (step, take idx part)))"

definition parsePart ::
    "string \<Rightarrow> int \<Rightarrow> int \<Rightarrow> bool list \<Rightarrow> (string \<times> int) list option \<Rightarrow> bool list go" where
  "parsePart part0 mn mx bits names =
     (case split_step part0 of
        Error e \<Rightarrow> Some (Error e)
      | Panic \<Rightarrow> Some Panic
      | Ok (step, part) \<Rightarrow>
          if part = ''*'' then set_range mn mx step mn bits
          else
            (case Index part (CHR ''-'') of
               Some idx \<Rightarrow>
                 (case (parseValue (take idx part) names, parseValue (drop (Suc idx) part) names) of
                    (Some lo, Some hi) \<Rightarrow>
                      if lo < mn \<or> hi > mx \<or> lo > hi then Some (Error (RangeOutOfBounds lo hi mn mx))
                      else set_range lo hi step mn bits
                  | _ \<Rightarrow> Some (Error (InvalidRange part)))
             | None \<Rightarrow>
                 (case parseValue part names of
                    None \<Rightarrow> Some (Error (InvalidValue part))
                  | Some v \<Rightarrow>
                      if v < mn \<or> v > mx then Some (Error (ValueOutOfBounds v mn mx))
                      else Some (set_bit_at bits (wrap64 (v - mn))))))"

fun parseParts ::
    "string list \<Rightarrow> int \<Rightarrow> int \<Rightarrow> bool list \<Rightarrow> (string \<times> int) list option \<Rightarrow> bool list go" where
  "parseParts [] mn mx bits names = Some (Ok bits)"
| "parseParts (part # parts) mn mx bits names =
     bind_go (parsePart part mn mx bits names) (\<lambda>bits'. parseParts parts mn mx bits' names)"

definition parseField ::
    "string \<Rightarrow> int \<Rightarrow> int \<Rightarrow> bool list \<Rightarrow> (string \<times> int) list option \<Rightarrow> bool list go" where
  "parseField field mn mx bits names = parseParts (Split field (CHR '','')) mn mx bits names"

text \<open>The slices \<^verbatim>\<open>cs.Days[1:]\<close> and \<^verbatim>\<open>cs.Months[1:]\<close> leave entry 0 unset.\<close>

definition ParseCron :: "string \<Rightarrow> CronSchedule go" where
  "ParseCron expr =
     (let fields = Fields expr
      in if length fields \<noteq> 5 then Some (Error (FieldCount (length fields)))
         else
           bind_go (in_field MinuteField (parseField (fields ! 0) 0 59 (replicate 60 False) None)) (\<lambda>mi.
           bind_go (in_field HourField (parseField (fields ! 1) 0 23 (replicate 24 False) None)) (\<lambda>h.
           bind_go (in_field DayField (parseField (fields ! 2) 1 31 (replicate 31 False) None)) (\<lambda>d.
           bind_go (in_field MonthField (parseField (fields ! 3) 1 12 (replicate 12 False) (Some monthNames))) (\<lambda>mo.
           bind_go (in_field WeekdayField (parseField (fields ! 4) 0 6 (replicate 7 False) (Some weekdayNames))) (\<lambda>w.
             Some (Ok \<lparr>cs_Minutes = mi, cs_Hours = h, cs_Days = False # d, cs_Months = False # mo,
                       cs_Weekdays = w\<rparr>)))))))"

definition DailyCron :: "int \<Rightarrow> int \<Rightarrow> string" where
  "DailyCron hour minute = Itoa minute @ '' '' @ Itoa hour @ '' * * *''"

definition WeeklyCron :: "int \<Rightarrow> int \<Rightarrow> int \<Rightarrow> string" where
  "WeeklyCron weekday hour minute = Itoa minute @ '' '' @ Itoa hour @ '' * * '' @ Itoa weekday"

definition MonthlyCron :: "int \<Rightarrow> int \<Rightarrow> int \<Rightarrow> string" where
  "MonthlyCron day hour minute = Itoa minute @ '' '' @ Itoa hour @ '' '' @ Itoa day @ '' * *''"

section \<open>The search for the next run\<close>

text \<open>The loop of \<^verbatim>\<open>advanceToNextMonth\<close>; \<open>None\<close> is its safety exit.\<close>

function find_month :: "int \<Rightarrow> int \<Rightarrow> int \<Rightarrow> bool list \<Rightarrow> (int \<times> int) option" where
  "find_month ty year month months =
     (let m' = (if month + 1 > 12 then 1 else month + 1);
          y' = (if month + 1 > 12 then year + 1 else year)
      in if months ! nat m' then Some (y', m')
         else if y' > ty + 5 then None
         else find_month ty y' m' months)"
  by pat_completeness auto
termination
  by (relation "measure (\<lambda>(ty, year, month, months). nat (12 * (ty + 7 - year) + 13 - min month 12))")
    (auto split: if_splits)

declare find_month.simps [simp del]

definition four_years :: int where
  "four_years = 4 * 365 * 24 * 3600"

definition advanceToNextMonth :: "CronSchedule \<Rightarrow> location \<Rightarrow> int \<Rightarrow> int" where
  "advanceToNextMonth cs loc t =
     (case find_month (t_Year loc t) (t_Year loc t) (t_Month loc t) (cs_Months cs) of
        Some (y, m) \<Rightarrow> time_Date y m 1 0 0 0 loc
      | None \<Rightarrow> t + four_years)"

definition start_of_next_day :: "location \<Rightarrow> int \<Rightarrow> int" where
  "start_of_next_day loc t =
     (let t' = add_days loc t 1 in time_Date (t_Year loc t') (t_Month loc t') (t_Day loc t') 0 0 0 loc)"

definition start_of_next_hour :: "location \<Rightarrow> int \<Rightarrow> int" where
  "start_of_next_hour loc t =
     (let t' = t + 3600
      in time_Date (t_Year loc t') (t_Month loc t') (t_Day loc t') (t_Hour loc t') 0 0 loc)"

text \<open>\<open>Some None\<close> is the zero time: no match before the limit.\<close>

partial_function (option) next_loop :: "CronSchedule \<Rightarrow> location \<Rightarrow> int \<Rightarrow> int \<Rightarrow> int option option" where
  "next_loop cs loc limit t =
     (if t < limit then
        (if \<not> cs_Months cs ! nat (t_Month loc t) then next_loop cs loc limit (advanceToNextMonth cs loc t)
         else if \<not> cs_Days cs ! nat (t_Day loc t) \<or> \<not> cs_Weekdays cs ! nat (t_Weekday loc t)
         then next_loop cs loc limit (start_of_next_day loc t)
         else if \<not> cs_Hours cs ! nat (t_Hour loc t) then next_loop cs loc limit (start_of_next_hour loc t)
         else if \<not> cs_Minutes cs ! nat (t_Minute loc t) then next_loop cs loc limit (t + 60)
         else Some (Some t))
      else Some None)"

declare next_loop.simps [code]

text \<open>\<open>from\<close> in nanoseconds; truncation to the minute drops everything below.\<close>

definition first_candidate :: "int \<Rightarrow> int" where
  "first_candidate from = 60 * (from div 60000000000) + 60"

definition Next :: "CronSchedule \<Rightarrow> int \<Rightarrow> location \<Rightarrow> int option option" where
  "Next cs from loc =
     (let t = first_candidate from in next_loop cs loc (t + four_years) t)"


section \<open>What the parser computes\<close>

text \<open>The entries a filled range leaves set.\<close>

definition mark :: "int \<Rightarrow> int \<Rightarrow> int \<Rightarrow> int \<Rightarrow> bool list \<Rightarrow> bool list" where
  "mark lo hi step mn bits =
     map (\<lambda>k. bits ! k \<or> (lo \<le> mn + int k \<and> mn + int k \<le> hi \<and> (mn + int k - lo) mod step = 0))
       [0..<length bits]"

text \<open>The slice of a field: one entry for each value from \<open>mn\<close> to \<open>mx\<close>.\<close>

definition field_slice :: "int \<Rightarrow> int \<Rightarrow> bool list \<Rightarrow> bool" where
  "field_slice mn mx bits \<longleftrightarrow> 0 \<le> mn \<and> mn \<le> mx \<and> mx \<le> 1000 \<and> int (length bits) = mx - mn + 1"

lemma length_mark [simp]: "length (mark lo hi step mn bits) = length bits"
  by (simp add: mark_def)

lemma nth_mark:
  "k < length bits \<Longrightarrow> mark lo hi step mn bits ! k =
     (bits ! k \<or> (lo \<le> mn + int k \<and> mn + int k \<le> hi \<and> (mn + int k - lo) mod step = 0))"
  by (simp add: mark_def)

lemma mark_empty: "hi < lo \<Longrightarrow> mark lo hi step mn bits = bits"
  by (rule nth_equalityI) (auto simp: nth_mark)

lemma mod_step_shift:
  fixes x lo step :: int
  assumes "1 \<le> step" "x \<noteq> lo"
  shows "(lo + step \<le> x \<and> (x - (lo + step)) mod step = 0) \<longleftrightarrow> (lo \<le> x \<and> (x - lo) mod step = 0)"
proof -
  have "(x - (lo + step)) mod step = (x - lo) mod step"
    by (metis diff_diff_eq minus_mod_self2)
  moreover have "lo \<le> x \<Longrightarrow> (x - lo) mod step = 0 \<Longrightarrow> lo + step \<le> x"
  proof (rule ccontr)
    assume a: "lo \<le> x" "(x - lo) mod step = 0" "\<not> lo + step \<le> x"
    then have "(x - lo) mod step = x - lo" by simp
    with a assms show False by simp
  qed
  ultimately show ?thesis using assms by auto
qed

lemma mark_step:
  assumes "1 \<le> step" "mn \<le> lo" "lo \<le> hi" "lo - mn < int (length bits)"
  shows "mark (lo + step) hi step mn (bits[nat (lo - mn) := True]) = mark lo hi step mn bits"
proof (rule nth_equalityI)
  show "length (mark (lo + step) hi step mn (bits[nat (lo - mn) := True])) = length (mark lo hi step mn bits)"
    by simp
next
  fix k
  assume "k < length (mark (lo + step) hi step mn (bits[nat (lo - mn) := True]))"
  then have k: "k < length bits" by simp
  show "mark (lo + step) hi step mn (bits[nat (lo - mn) := True]) ! k = mark lo hi step mn bits ! k"
  proof (cases "mn + int k = lo")
    case True
    then have "nat (lo - mn) = k" by linarith
    with True k assms show ?thesis by (simp add: nth_mark)
  next
    case False
    then have "nat (lo - mn) \<noteq> k" using assms by linarith
    then show ?thesis
      using False k mod_step_shift [OF assms(1) False] by (simp add: nth_mark) argo
  qed
qed

lemma set_range_mark:
  assumes "field_slice mn mx bits" "mn \<le> lo" "hi \<le> mx" "1 \<le> step" "lo \<le> hi \<longrightarrow> lo + step \<le> maxInt"
  shows "set_range lo hi step mn bits = Some (Ok (mark lo hi step mn bits))"
  using assms
proof (induction "nat (hi + 1 - lo)" arbitrary: lo bits rule: less_induct)
  case less
  show ?case
  proof (cases "lo \<le> hi")
    case False
    then show ?thesis by (simp add: set_range.simps mark_empty)
  next
    case True
    with less.prems have idx: "0 \<le> lo - mn" "lo - mn < int (length bits)" "lo - mn \<le> 1000"
      by (simp_all add: field_slice_def)
    have w: "wrap64 (lo - mn) = lo - mn" "wrap64 (lo + step) = lo + step"
      using idx less.prems True by (auto intro!: wrap64_id simp: minInt_def maxInt_def field_slice_def)
    have "set_range (lo + step) hi step mn (bits[nat (lo - mn) := True])
        = Some (Ok (mark (lo + step) hi step mn (bits[nat (lo - mn) := True])))"
    proof (rule less.hyps)
      show "nat (hi + 1 - (lo + step)) < nat (hi + 1 - lo)" using True less.prems by simp
      show "field_slice mn mx (bits[nat (lo - mn) := True])"
        using less.prems by (simp add: field_slice_def)
      show "lo + step \<le> hi \<longrightarrow> lo + step + step \<le> maxInt"
        using less.prems by (auto simp: field_slice_def maxInt_def)
    qed (use less.prems in auto)
    then show ?thesis
      using True idx w less.prems
      by (simp add: set_range.simps [of lo] set_bit_at_def mark_step)
  qed
qed

text \<open>A step so large that the counter wraps around makes the next index negative or huge.\<close>

lemma wrap64_overflow:
  assumes "maxInt < x" "x \<le> 2 * maxInt"
  shows "wrap64 x = x - 18446744073709551616"
proof -
  have "(x + 9223372036854775808) mod 18446744073709551616
      = (x + 9223372036854775808 - 18446744073709551616) mod 18446744073709551616"
    by (rule minus_mod_self2 [symmetric])
  also have "\<dots> = x + 9223372036854775808 - 18446744073709551616"
    by (rule mod_pos_pos_trivial) (use assms in \<open>simp_all add: maxInt_def\<close>)
  finally show ?thesis by (simp add: wrap64_def)
qed

lemma wrap64_underflow:
  assumes "x < minInt" "2 * minInt \<le> x"
  shows "wrap64 x = x + 18446744073709551616"
proof -
  have "(x + 9223372036854775808) mod 18446744073709551616
      = (x + 9223372036854775808 + 18446744073709551616) mod 18446744073709551616"
    by (rule mod_add_self2 [symmetric])
  also have "\<dots> = x + 9223372036854775808 + 18446744073709551616"
    by (rule mod_pos_pos_trivial) (use assms in \<open>simp_all add: minInt_def\<close>)
  finally show ?thesis by (simp add: wrap64_def)
qed

lemma set_range_panic:
  assumes "field_slice mn mx bits" "mn \<le> lo" "lo \<le> hi" "hi \<le> mx" "step \<le> maxInt" "maxInt < lo + step"
  shows "set_range lo hi step mn bits = Some Panic"
proof -
  define i where "i = lo + step - 18446744073709551616"
  have i: "wrap64 (lo + step) = i"
    unfolding i_def by (rule wrap64_overflow) (use assms in \<open>simp_all add: field_slice_def maxInt_def\<close>)
  have lo: "wrap64 (lo - mn) = lo - mn"
    by (rule wrap64_id) (use assms in \<open>simp_all add: field_slice_def minInt_def maxInt_def\<close>)
  have "\<not> (0 \<le> wrap64 (i - mn) \<and> wrap64 (i - mn) < int (length bits))"
  proof (cases "i - mn < minInt")
    case True
    then have "wrap64 (i - mn) = i - mn + 18446744073709551616"
      by (rule wrap64_underflow) (use assms in \<open>simp_all add: field_slice_def minInt_def maxInt_def i_def\<close>)
    then show ?thesis using assms by (simp add: i_def field_slice_def maxInt_def)
  next
    case False
    then have "wrap64 (i - mn) = i - mn"
      by (intro wrap64_id) (use assms in \<open>simp_all add: field_slice_def minInt_def maxInt_def i_def\<close>)
    then show ?thesis using assms by (simp add: i_def field_slice_def maxInt_def)
  qed
  moreover have "i \<le> hi" using assms by (simp add: i_def field_slice_def maxInt_def)
  ultimately show ?thesis
    using assms lo i
    by (auto simp: set_range.simps [of lo] set_range.simps [of i] set_bit_at_def field_slice_def)
qed

lemma set_range_cases:
  assumes "field_slice mn mx bits" "mn \<le> lo" "lo \<le> hi" "hi \<le> mx" "1 \<le> step" "step \<le> maxInt"
  shows "set_range lo hi step mn bits =
    Some (if lo + step \<le> maxInt then Ok (mark lo hi step mn bits) else Panic)"
  using set_range_mark [of mn mx bits lo hi step] set_range_panic [of mn mx bits lo hi step] assms
  by auto


lemma digits_val_nonneg: "digits_val acc s = Some n \<Longrightarrow> 0 \<le> acc \<Longrightarrow> 0 \<le> n"
  by (induction s arbitrary: acc) (auto simp: digit_val_def Let_def split: option.splits if_splits)

lemma parse_nat_nonneg: "parse_nat s = Some n \<Longrightarrow> 0 \<le> n"
  by (auto simp: parse_nat_def dest: digits_val_nonneg split: if_splits)

lemma Atoi_range: "Atoi s = Some v \<Longrightarrow> int64 v"
  by (auto simp: Atoi_def minInt_def maxInt_def dest: parse_nat_nonneg
      split: list.splits if_splits option.splits)

text \<open>The meaning of one comma-separated part and of a field.\<close>

definition part_denotes :: "string \<Rightarrow> int \<Rightarrow> int \<Rightarrow> (string \<times> int) list option \<Rightarrow> int \<Rightarrow> bool" where
  "part_denotes part0 mn mx names x =
     (case split_step part0 of
        Ok (step, part) \<Rightarrow>
          if part = ''*'' then mn \<le> x \<and> x \<le> mx \<and> (x - mn) mod step = 0
          else
            (case Index part (CHR ''-'') of
               Some idx \<Rightarrow>
                 (case (parseValue (take idx part) names, parseValue (drop (Suc idx) part) names) of
                    (Some lo, Some hi) \<Rightarrow> lo \<le> x \<and> x \<le> hi \<and> (x - lo) mod step = 0
                  | _ \<Rightarrow> False)
             | None \<Rightarrow> parseValue part names = Some x)
      | _ \<Rightarrow> False)"

definition field_denotes :: "string \<Rightarrow> int \<Rightarrow> int \<Rightarrow> (string \<times> int) list option \<Rightarrow> int \<Rightarrow> bool" where
  "field_denotes field mn mx names x =
     list_ex (\<lambda>part. part_denotes part mn mx names x) (Split field (CHR '',''))"

text \<open>\<open>bits'\<close> adds to \<open>bits\<close> the entries of the values satisfying \<open>P\<close>, and is not all false.\<close>

definition marks :: "bool list \<Rightarrow> (int \<Rightarrow> bool) \<Rightarrow> int \<Rightarrow> bool list \<Rightarrow> bool" where
  "marks bits P mn bits' \<longleftrightarrow> length bits' = length bits \<and>
     (\<forall>k < length bits. bits' ! k \<longleftrightarrow> bits ! k \<or> P (mn + int k)) \<and> (\<exists>k < length bits. bits' ! k)"

lemma split_step_bounds: "split_step part0 = Ok (step, part) \<Longrightarrow> 1 \<le> step \<and> step \<le> maxInt"
  by (auto simp: split_step_def maxInt_def dest!: Atoi_range split: option.splits if_splits)

lemma split_step_no_panic: "split_step part \<noteq> Panic"
  by (auto simp: split_step_def split: option.splits)

lemma marks_mark:
  assumes "field_slice mn mx bits" "mn \<le> lo" "lo \<le> hi" "hi \<le> mx"
  shows "marks bits (\<lambda>x. lo \<le> x \<and> x \<le> hi \<and> (x - lo) mod step = 0) mn (mark lo hi step mn bits)"
proof -
  have "nat (lo - mn) < length bits" and "mn + int (nat (lo - mn)) = lo"
    using assms by (simp_all add: field_slice_def nat_less_iff)
  then have "\<exists>k < length bits. mark lo hi step mn bits ! k"
    using assms by (intro exI [of _ "nat (lo - mn)"]) (simp add: nth_mark)
  then show ?thesis by (simp add: marks_def nth_mark)
qed

lemma marks_single:
  assumes "field_slice mn mx bits" "mn \<le> v" "v \<le> mx"
  shows "\<exists>bits'. set_bit_at bits (wrap64 (v - mn)) = Ok bits' \<and> marks bits (\<lambda>x. v = x) mn bits'"
proof -
  have w: "wrap64 (v - mn) = v - mn"
    by (rule wrap64_small) (use assms in \<open>simp_all add: field_slice_def\<close>)
  have k: "nat (v - mn) < length bits" using assms by (simp add: field_slice_def nat_less_iff)
  have "marks bits (\<lambda>x. v = x) mn (bits[nat (v - mn) := True])"
    using k assms by (auto simp: marks_def nth_list_update)
  then show ?thesis using assms w by (simp add: set_bit_at_def field_slice_def)
qed

lemma parsePart_spec:
  assumes "field_slice mn mx bits"
  obtains bits' where "parsePart part mn mx bits names = Some (Ok bits')"
      "marks bits (part_denotes part mn mx names) mn bits'"
  | e where "parsePart part mn mx bits names = Some (Error e)"
  | "parsePart part mn mx bits names = Some Panic"
proof (cases "split_step part")
  case (Ok sp)
  obtain step p where sp: "sp = (step, p)" by (cases sp)
  note st = split_step_bounds [OF Ok [unfolded sp]]
  note range = set_range_cases [OF assms _ _ _ st [THEN conjunct1] st [THEN conjunct2]]
  have mnmx: "mn \<le> mx" using assms by (simp add: field_slice_def)
  consider (star) "p = ''*''" | (range) idx where "p \<noteq> ''*''" "Index p (CHR ''-'') = Some idx"
    | (single) "p \<noteq> ''*''" "Index p (CHR ''-'') = None" by (cases "Index p (CHR ''-'')") auto
  then show ?thesis
  proof cases
    case star
    have D: "part_denotes part mn mx names = (\<lambda>x. mn \<le> x \<and> x \<le> mx \<and> (x - mn) mod step = 0)"
      by (rule ext) (simp add: part_denotes_def Ok sp star)
    show ?thesis
      using that range [of mn mx] marks_mark [OF assms _ mnmx] star D mnmx
      by (cases "mn + step \<le> maxInt") (simp_all add: parsePart_def Ok sp)
  next
    case range: (range idx)
    show ?thesis
    proof (cases "\<exists>lo hi. parseValue (take idx p) names = Some lo \<and> parseValue (drop (Suc idx) p) names = Some hi
        \<and> mn \<le> lo \<and> hi \<le> mx \<and> lo \<le> hi")
      case True
      then obtain lo hi where v: "parseValue (take idx p) names = Some lo"
        "parseValue (drop (Suc idx) p) names = Some hi" "mn \<le> lo" "hi \<le> mx" "lo \<le> hi" by blast
      have D: "part_denotes part mn mx names = (\<lambda>x. lo \<le> x \<and> x \<le> hi \<and> (x - lo) mod step = 0)"
        by (rule ext) (simp add: part_denotes_def Ok sp range v)
      have "parsePart part mn mx bits names = set_range lo hi step mn bits"
        using v by (simp add: parsePart_def Ok sp range)
      with that set_range_cases [OF assms v(3,5,4) st [THEN conjunct1] st [THEN conjunct2]]
        marks_mark [OF assms v(3,5,4)] D show ?thesis
        by (cases "lo + step \<le> maxInt") simp_all
    next
      case False
      then have "\<exists>e. parsePart part mn mx bits names = Some (Error e)"
        by (auto simp: parsePart_def Ok sp range not_less split: option.splits)
      with that show ?thesis by blast
    qed
  next
    case single
    show ?thesis
    proof (cases "\<exists>v. parseValue p names = Some v \<and> mn \<le> v \<and> v \<le> mx")
      case True
      then obtain v where v: "parseValue p names = Some v" "mn \<le> v" "v \<le> mx" by blast
      have D: "part_denotes part mn mx names = (\<lambda>x. v = x)"
        by (rule ext) (simp add: part_denotes_def Ok sp single v)
      from marks_single [OF assms v(2,3)] that D show ?thesis
        using v by (auto simp: parsePart_def Ok sp single)
    next
      case False
      then have "\<exists>e. parsePart part mn mx bits names = Some (Error e)"
        by (auto simp: parsePart_def Ok sp single not_less split: option.splits)
      with that show ?thesis by blast
    qed
  qed
next
  case (Error e)
  with that show ?thesis by (simp add: parsePart_def)
next
  case Panic
  then show ?thesis by (simp add: split_step_no_panic)
qed


lemma marks_trans:
  assumes "marks bits P mn bits'" "marks bits' Q mn bits''"
  shows "marks bits (\<lambda>x. P x \<or> Q x) mn bits''"
  using assms by (auto simp: marks_def)

lemma field_slice_marks: "field_slice mn mx bits \<Longrightarrow> marks bits P mn bits' \<Longrightarrow> field_slice mn mx bits'"
  by (simp add: field_slice_def marks_def)

lemma parseParts_spec:
  assumes "field_slice mn mx bits" "parts \<noteq> []"
  shows "(\<exists>bits'. parseParts parts mn mx bits names = Some (Ok bits') \<and>
        marks bits (\<lambda>x. list_ex (\<lambda>part. part_denotes part mn mx names x) parts) mn bits')
    \<or> (\<exists>e. parseParts parts mn mx bits names = Some (Error e))
    \<or> parseParts parts mn mx bits names = Some Panic"
  using assms
proof (induction parts arbitrary: bits)
  case Nil
  then show ?case by simp
next
  case (Cons part parts)
  show ?case
  proof (cases rule: parsePart_spec [OF Cons.prems(1), of part names])
    case (1 bits')
    show ?thesis
    proof (cases "parts = []")
      case True
      with 1 show ?thesis by auto
    next
      case False
      from Cons.IH [OF field_slice_marks [OF Cons.prems(1) 1(2)] False]
      show ?thesis using 1 by (auto dest: marks_trans)
    qed
  next
    case (2 e)
    then show ?thesis by simp
  next
    case 3
    then show ?thesis by simp
  qed
qed

lemma parseField_spec:
  assumes "field_slice mn mx bits"
  shows "(\<exists>bits'. parseField field mn mx bits names = Some (Ok bits') \<and>
        marks bits (field_denotes field mn mx names) mn bits')
    \<or> (\<exists>e. parseField field mn mx bits names = Some (Error e))
    \<or> parseField field mn mx bits names = Some Panic"
  using parseParts_spec [OF assms Split_not_Nil, of field "CHR '',''" names]
  by (simp add: parseField_def field_denotes_def [abs_def])

text \<open>A parsed field: the slice's length, exactly the denoted values set, at least one of them.\<close>

lemma parseField_Ok:
  assumes "parseField field mn mx (replicate n False) names = Some (Ok bits)"
    "0 \<le> mn" "mn \<le> mx" "mx \<le> 1000" "int n = mx - mn + 1"
  shows "length bits = n \<and> (\<forall>k < n. bits ! k \<longleftrightarrow> field_denotes field mn mx names (mn + int k)) \<and>
    (\<exists>k < n. bits ! k)"
  using parseField_spec [of mn mx "replicate n False" field names] assms
  by (auto simp: field_slice_def marks_def)

lemma parseField_returns:
  assumes "0 \<le> mn" "mn \<le> mx" "mx \<le> 1000" "int n = mx - mn + 1"
  shows "\<exists>r. parseField field mn mx (replicate n False) names = Some r"
  using parseField_spec [of mn mx "replicate n False" field names] assms
  by (auto simp: field_slice_def)

text \<open>The well-formed schedules: the arrays have the sizes of the struct and every field has a value.\<close>

definition cron_wf :: "CronSchedule \<Rightarrow> bool" where
  "cron_wf cs \<longleftrightarrow>
     length (cs_Minutes cs) = 60 \<and> length (cs_Hours cs) = 24 \<and> length (cs_Days cs) = 32 \<and>
     length (cs_Months cs) = 13 \<and> length (cs_Weekdays cs) = 7 \<and>
     True \<in> set (cs_Minutes cs) \<and> True \<in> set (cs_Hours cs) \<and> True \<in> set (tl (cs_Days cs)) \<and>
     True \<in> set (tl (cs_Months cs)) \<and> True \<in> set (cs_Weekdays cs)"

lemma bind_go_Ok: "bind_go m f = Some (Ok y) \<Longrightarrow> \<exists>x. m = Some (Ok x) \<and> f x = Some (Ok y)"
  by (cases "(m, f)" rule: bind_go.cases) auto

lemma in_field_Ok: "in_field k m = Some (Ok x) \<longleftrightarrow> m = Some (Ok x)"
  by (cases "(k, m)" rule: in_field.cases) auto

lemma bind_go_returns: "m \<noteq> None \<Longrightarrow> (\<And>x. f x \<noteq> None) \<Longrightarrow> bind_go m f \<noteq> None"
  by (cases "(m, f)" rule: bind_go.cases) auto

lemma in_field_returns: "m \<noteq> None \<Longrightarrow> in_field k m \<noteq> None"
  by (cases "(k, m)" rule: in_field.cases) auto

lemma ParseCron_OkD:
  assumes "ParseCron expr = Some (Ok cs)"
  obtains f0 f1 f2 f3 f4 d mo where "Fields expr = [f0, f1, f2, f3, f4]"
    "parseField f0 0 59 (replicate 60 False) None = Some (Ok (cs_Minutes cs))"
    "parseField f1 0 23 (replicate 24 False) None = Some (Ok (cs_Hours cs))"
    "parseField f2 1 31 (replicate 31 False) None = Some (Ok d)" "cs_Days cs = False # d"
    "parseField f3 1 12 (replicate 12 False) (Some monthNames) = Some (Ok mo)" "cs_Months cs = False # mo"
    "parseField f4 0 6 (replicate 7 False) (Some weekdayNames) = Some (Ok (cs_Weekdays cs))"
proof -
  have len: "length (Fields expr) = 5" using assms by (auto simp: ParseCron_def Let_def split: if_splits)
  then obtain f0 f1 f2 f3 f4 where F: "Fields expr = [f0, f1, f2, f3, f4]"
    by (auto simp: length_Suc_conv eval_nat_numeral)
  show thesis
    using assms F that [of f0 f1 f2 f3 f4]
    by (auto simp: ParseCron_def Let_def in_field_Ok dest!: bind_go_Ok)
qed

lemma ex_nth_set: "\<exists>k < length xs. xs ! k \<Longrightarrow> True \<in> set xs"
  by (metis nth_mem)


section \<open>Round trips of the expression constructors\<close>

lemma Itoa_nonneg: "0 \<le> v \<Longrightarrow> Itoa v = show_nat (nat v)"
  by (simp add: Itoa_def)

lemma Fields_aux_show_nat_space:
  "Fields_aux (show_nat n @ CHR '' '' # s) [] = show_nat n # Fields_aux s []"
proof -
  have "\<forall>c \<in> set (show_nat n). \<not> is_space c"
    using show_nat_char_range by (fastforce simp: is_space_def Let_def)
  then show ?thesis using Fields_aux_word_space [of "[]" "show_nat n" s] by simp
qed

lemma Fields_aux_show_nat: "Fields_aux (show_nat n) [] = [show_nat n]"
proof -
  have "\<forall>c \<in> set (show_nat n). \<not> is_space c"
    using show_nat_char_range by (fastforce simp: is_space_def Let_def)
  then show ?thesis using Fields_aux_word [of "[]" "show_nat n"] by simp
qed

lemma show_nat_plain:
  "CHR '','' \<notin> set (show_nat n)" "CHR ''/'' \<notin> set (show_nat n)" "CHR ''-'' \<notin> set (show_nat n)"
  "CHR ''*'' \<notin> set (show_nat n)"
  by (rule show_nat_other_char; simp)+

lemma show_nat_not_name:
  assumes "names = None \<or> names = Some monthNames \<or> names = Some weekdayNames" "int64 v" "0 \<le> v"
  shows "parseValue (show_nat (nat v)) names = Some v"
proof -
  obtain c r where s: "show_nat (nat v) = c # r" by (cases "show_nat (nat v)") auto
  have "48 \<le> (of_char c :: nat) \<and> (of_char c :: nat) \<le> 57"
    using show_nat_char_range [of c "nat v"] s by simp
  then have c: "lower_char c = c" and d: "\<not> 58 \<le> (of_char c :: nat)"
    by (simp_all add: lower_char_def Let_def)
  have names: "\<forall>k \<in> fst ` set (monthNames @ weekdayNames). 58 \<le> (of_char (hd k) :: nat)"
    by (simp add: monthNames_def weekdayNames_def)
  have "hd (ToLower (show_nat (nat v))) = c" by (simp add: s c ToLower_def)
  with d have "ToLower (show_nat (nat v)) \<notin> fst ` set (monthNames @ weekdayNames)"
    using names by metis
  then have "map_of monthNames (ToLower (show_nat (nat v))) = None"
    and "map_of weekdayNames (ToLower (show_nat (nat v))) = None"
    by (simp_all add: map_of_eq_None_iff image_Un)
  moreover have "Atoi (show_nat (nat v)) = Some v"
    using Atoi_Itoa [of v] assms by (simp add: Itoa_nonneg)
  ultimately show ?thesis using assms(1) by (auto simp: parseValue_def)
qed

lemma parseField_number:
  assumes "names = None \<or> names = Some monthNames \<or> names = Some weekdayNames"
    "0 \<le> mn" "mn \<le> v" "v \<le> mx" "mx \<le> 1000" "int n = mx - mn + 1"
  shows "parseField (show_nat (nat v)) mn mx (replicate n False) names
      = Some (Ok ((replicate n False)[nat (v - mn) := True]))"
proof -
  have "parseValue (show_nat (nat v)) names = Some v"
    using assms by (intro show_nat_not_name) (auto simp: minInt_def maxInt_def)
  moreover have "wrap64 (v - mn) = v - mn"
    using assms by (intro wrap64_small) auto
  moreover have "show_nat (nat v) \<noteq> ''*''"
    using show_nat_plain(4) [of "nat v"] by auto
  ultimately show ?thesis
    using assms
    by (simp add: parseField_def Split_no_sep show_nat_plain parsePart_def split_step_def set_bit_at_def)
qed

lemma parseField_star:
  assumes "0 \<le> mn" "mn \<le> mx" "mx \<le> 1000" "int n = mx - mn + 1"
  shows "parseField ''*'' mn mx (replicate n False) names = Some (Ok (replicate n True))"
proof -
  have "mark mn mx 1 mn (replicate n False) = replicate n True"
    by (rule nth_equalityI) (use assms in \<open>auto simp: nth_mark\<close>)
  then show ?thesis
    using set_range_cases [of mn mx "replicate n False" mn mx 1] assms
    by (simp add: parseField_def parsePart_def split_step_def field_slice_def maxInt_def)
qed

definition only :: "nat \<Rightarrow> int \<Rightarrow> bool list" where
  "only n v = (replicate n False)[nat v := True]"

lemma bits_only: "0 \<le> v \<Longrightarrow> False # (replicate n False)[nat (v - 1) := True] = only (Suc n) v" if "1 \<le> v"
  using that by (cases "nat v") (simp_all add: only_def nat_diff_distrib)

lemma ParseCron_five:
  assumes "Fields expr = [f0, f1, f2, f3, f4]"
    "parseField f0 0 59 (replicate 60 False) None = Some (Ok mi)"
    "parseField f1 0 23 (replicate 24 False) None = Some (Ok h)"
    "parseField f2 1 31 (replicate 31 False) None = Some (Ok d)"
    "parseField f3 1 12 (replicate 12 False) (Some monthNames) = Some (Ok mo)"
    "parseField f4 0 6 (replicate 7 False) (Some weekdayNames) = Some (Ok w)"
  shows "ParseCron expr = Some (Ok \<lparr>cs_Minutes = mi, cs_Hours = h, cs_Days = False # d,
    cs_Months = False # mo, cs_Weekdays = w\<rparr>)"
  using assms by (simp add: ParseCron_def)

lemma Fields_Daily: "0 \<le> h \<Longrightarrow> 0 \<le> m \<Longrightarrow>
    Fields (DailyCron h m) = [show_nat (nat m), show_nat (nat h), ''*'', ''*'', ''*'']"
  by (simp add: Fields_def DailyCron_def Itoa_nonneg Fields_aux_show_nat_space is_space_def)

lemma Fields_Weekly: "0 \<le> w \<Longrightarrow> 0 \<le> h \<Longrightarrow> 0 \<le> m \<Longrightarrow>
    Fields (WeeklyCron w h m) = [show_nat (nat m), show_nat (nat h), ''*'', ''*'', show_nat (nat w)]"
  by (simp add: Fields_def WeeklyCron_def Itoa_nonneg Fields_aux_show_nat_space Fields_aux_show_nat is_space_def)

lemma Fields_Monthly: "0 \<le> d \<Longrightarrow> 0 \<le> h \<Longrightarrow> 0 \<le> m \<Longrightarrow>
    Fields (MonthlyCron d h m) = [show_nat (nat m), show_nat (nat h), show_nat (nat d), ''*'', ''*'']"
  by (simp add: Fields_def MonthlyCron_def Itoa_nonneg Fields_aux_show_nat_space is_space_def)


section \<open>Correctness of the search\<close>

text \<open>An instant matches when all five fields of its local reading are set.\<close>

definition matches :: "CronSchedule \<Rightarrow> location \<Rightarrow> int \<Rightarrow> bool" where
  "matches cs loc t \<longleftrightarrow>
     cs_Months cs ! nat (t_Month loc t) \<and> cs_Days cs ! nat (t_Day loc t) \<and>
     cs_Weekdays cs ! nat (t_Weekday loc t) \<and> cs_Hours cs ! nat (t_Hour loc t) \<and>
     cs_Minutes cs ! nat (t_Minute loc t)"

text \<open>Zones with a constant offset of whole minutes; instants on a whole minute.\<close>

abbreviation minute_zone :: "int \<Rightarrow> bool" where
  "minute_zone off \<equiv> off mod 60 = 0"

definition on_minute :: "int \<Rightarrow> bool" where
  "on_minute t \<longleftrightarrow> t mod 60 = 0"

text \<open>No instant on a whole minute from \<open>a\<close> up to \<open>b\<close> matches.\<close>

definition no_match :: "CronSchedule \<Rightarrow> location \<Rightarrow> int \<Rightarrow> int \<Rightarrow> bool" where
  "no_match cs loc a b \<longleftrightarrow> (\<forall>s. a \<le> s \<longrightarrow> s < b \<longrightarrow> on_minute s \<longrightarrow> \<not> matches cs loc s)"

lemma no_match_trans: "no_match cs loc a b \<Longrightarrow> no_match cs loc b c \<Longrightarrow> no_match cs loc a c"
  unfolding no_match_def by (meson not_less)

lemma no_match_mono: "no_match cs loc a b \<Longrightarrow> c \<le> b \<Longrightarrow> no_match cs loc a c"
  unfolding no_match_def by (meson less_le_trans)

lemma fixed_local_day: "local_day (fixed_zone off) t = (t + off) div 86400"
  by (simp add: local_day_def)

text \<open>The months passed over by the inner loop are all unset.\<close>

lemma find_month_some:
  assumes "find_month ty y m months = Some (y', m')" "1 \<le> m" "m \<le> 12"
  shows "1 \<le> m' \<and> m' \<le> 12 \<and> months ! nat m' \<and>
    days_of_civil y m (month_length y m) < days_of_civil y' m' 1 \<and>
    (\<forall>n. days_of_civil y m (month_length y m) < n \<longrightarrow> n < days_of_civil y' m' 1 \<longrightarrow> \<not> months ! nat (month_of_day n))"
  using assms
proof (induction ty y m months rule: find_month.induct)
  case (1 ty y m months)
  define m1 where "m1 = (if m + 1 > 12 then 1 else m + 1)"
  define y1 where "y1 = (if m + 1 > 12 then y + 1 else y)"
  have unf: "find_month ty y m months = (if months ! nat m1 then Some (y1, m1)
      else if y1 > ty + 5 then None else find_month ty y1 m1 months)"
    by (subst find_month.simps) (simp add: Let_def m1_def y1_def)
  have m1: "1 \<le> m1" "m1 \<le> 12" using "1.prems" by (auto simp: m1_def)
  have first: "days_of_civil y m (month_length y m) + 1 = days_of_civil y1 m1 1"
    using cal.next_month [of m y] "1.prems" by (auto simp: m1_def y1_def)
  show ?case
  proof (cases "months ! nat m1")
    case True
    with "1.prems" have "y' = y1" "m' = m1"
      by (simp_all add: unf)
    with True m1 first show ?thesis by auto
  next
    case False
    with "1.prems" have nx: "\<not> y1 > ty + 5" "find_month ty y1 m1 months = Some (y', m')"
      by (auto simp: unf split: if_splits)
    have IH: "1 \<le> m' \<and> m' \<le> 12 \<and> months ! nat m' \<and>
      days_of_civil y1 m1 (month_length y1 m1) < days_of_civil y' m' 1 \<and>
      (\<forall>n. days_of_civil y1 m1 (month_length y1 m1) < n \<longrightarrow> n < days_of_civil y' m' 1 \<longrightarrow> \<not> months ! nat (month_of_day n))"
      using "1.IH" [OF m1_def y1_def] False nx m1 by blast
    have pos: "days_of_civil y1 m1 1 \<le> days_of_civil y1 m1 (month_length y1 m1)"
      using month_length_bounds [OF m1, of y1] by (simp add: days_of_civil_def)
    have "\<not> months ! nat (month_of_day n)"
      if "days_of_civil y m (month_length y m) < n" "n < days_of_civil y' m' 1" for n
    proof (cases "n \<le> days_of_civil y1 m1 (month_length y1 m1)")
      case True
      with that first have "month_of_day n = m1" by (intro cal.month_run(1) [OF m1]) auto
      with False show ?thesis by simp
    next
      case n: False
      with IH that show ?thesis by simp
    qed
    with IH first pos show ?thesis by auto
  qed
qed

lemma find_month_exists:
  assumes "months ! nat k" "1 \<le> k" "k \<le> 12" "1 \<le> m" "m \<le> 12" "y \<le> ty + 5 - (if k \<le> m then 1 else 0)"
  shows "find_month ty y m months \<noteq> None"
  using assms
proof (induction ty y m months rule: find_month.induct)
  case (1 ty y m months)
  define m1 where "m1 = (if m + 1 > 12 then 1 else m + 1)"
  define y1 where "y1 = (if m + 1 > 12 then y + 1 else y)"
  have unf: "find_month ty y m months = (if months ! nat m1 then Some (y1, m1)
      else if y1 > ty + 5 then None else find_month ty y1 m1 months)"
    by (subst find_month.simps) (simp add: Let_def m1_def y1_def)
  show ?case
  proof (cases "months ! nat m1")
    case True
    then show ?thesis by (simp add: unf)
  next
    case False
    with "1.prems" have "k \<noteq> m1" by auto
    then have y1: "y1 \<le> ty + 5 - (if k \<le> m1 then 1 else 0)" "1 \<le> m1" "m1 \<le> 12"
      using "1.prems" by (auto simp: m1_def y1_def split: if_splits)
    then have "\<not> y1 > ty + 5" by (auto split: if_splits)
    then show ?thesis
      using "1.IH" [OF m1_def y1_def False] y1 "1.prems" by (simp add: unf False)
  qed
qed


subsection \<open>One step of the search passes over no match\<close>

lemma day_hour_split:
  fixes x :: int
  shows "x div 86400 = x div 3600 div 24" and "x mod 86400 div 3600 = x div 3600 mod 24"
proof -
  show "x div 86400 = x div 3600 div 24"
    using zdiv_zmult2_eq [of 24 x 3600] by simp
  have "x mod 86400 = 3600 * (x div 3600 mod 24) + x mod 3600"
    using zmod_zmult2_eq [of 24 x 3600] by simp
  then show "x mod 86400 div 3600 = x div 3600 mod 24" by simp
qed

lemma hours_join: "86400 * (q div 24) + 3600 * (q mod 24) = 3600 * (q :: int)"
proof -
  define a b where "a = q div 24" and "b = q mod 24"
  have "q = 24 * a + b" by (simp add: a_def b_def)
  then show ?thesis unfolding a_def [symmetric] b_def [symmetric] by linarith
qed

lemma on_minute_multiple: "60 dvd c \<Longrightarrow> minute_zone off \<Longrightarrow> on_minute (c * n - off)"
  by (simp add: on_minute_def mod_eq_0_iff_dvd)

lemma fixed_month [simp]: "t_Month (fixed_zone off) t = month_of_day ((t + off) div 86400)"
  by (simp add: t_Month_def fixed_local_day)

lemma fixed_hour: "t_Hour (fixed_zone off) t = (t + off) div 3600 mod 24"
  by (simp add: t_Hour_def day_hour_split)

lemma same_day_fields:
  assumes "local_day loc s = local_day loc t"
  shows "t_Month loc s = t_Month loc t" "t_Day loc s = t_Day loc t" "t_Weekday loc s = t_Weekday loc t"
  using assms by (simp_all add: t_Month_def t_Day_def t_Weekday_def)

lemma next_day_fixed: "start_of_next_day (fixed_zone off) t = 86400 * ((t + off) div 86400 + 1) - off"
proof -
  let ?Z = "fixed_zone off" and ?D = "(t + off) div 86400"
  define r where "r = 3600 * t_Hour ?Z t + 60 * t_Minute ?Z t + t_Second ?Z t"
  have r: "0 \<le> r" "r < 86400"
    using clock_ranges [of ?Z t] by (auto simp: r_def t_Second_def intro: add_nonneg_nonneg)
  have "days_of_civil (t_Year ?Z t) (t_Month ?Z t) (t_Day ?Z t + 1) = ?D + 1"
    using days_of_civil_of_day [of ?D] by (simp add: t_Year_def t_Day_def fixed_local_day days_of_civil_add)
  then have "add_days ?Z t 1 = 86400 * (?D + 1) + r - off"
    by (simp add: add_days_def r_def)
  then have "local_day ?Z (add_days ?Z t 1) = (86400 * (?D + 1) + r) div 86400"
    by (simp add: fixed_local_day)
  also have "\<dots> = ?D + 1"
    by (rule int_div_pos_eq [of _ _ _ r]) (use r in auto)
  finally have "local_day ?Z (add_days ?Z t 1) = ?D + 1" .
  then show ?thesis
    using days_of_civil_of_day [of "?D + 1"]
    by (simp add: start_of_next_day_def Let_def t_Year_def t_Day_def t_Month_def del: fixed_month)
qed

lemma next_hour_fixed: "start_of_next_hour (fixed_zone off) t = 3600 * ((t + off) div 3600 + 1) - off"
proof -
  let ?Z = "fixed_zone off" and ?q = "(t + off) div 3600 + 1"
  have q: "(t + 3600 + off) div 3600 = ?q"
    using div_add_self2 [of 3600 "t + off"] by (simp add: algebra_simps)
  have "days_of_civil (t_Year ?Z (t + 3600)) (t_Month ?Z (t + 3600)) (t_Day ?Z (t + 3600)) = ?q div 24"
    using days_of_civil_of_day [of "?q div 24"]
    by (simp add: t_Year_def t_Day_def t_Month_def local_day_def day_hour_split(1) q del: fixed_month)
  moreover have "t_Hour ?Z (t + 3600) = ?q mod 24" by (simp add: fixed_hour q)
  moreover have "86400 * (?q div 24) + 3600 * (?q mod 24) = 3600 * ?q" by (rule hours_join)
  ultimately show ?thesis by (simp add: start_of_next_hour_def Let_def)
qed

lemma month_step:
  assumes "\<not> cs_Months cs ! nat (t_Month (fixed_zone off) t)" "cs_Months cs ! nat k" "1 \<le> k" "k \<le> 12"
    "minute_zone off"
  shows "t < advanceToNextMonth cs (fixed_zone off) t"
    and "no_match cs (fixed_zone off) t (advanceToNextMonth cs (fixed_zone off) t)"
    and "on_minute (advanceToNextMonth cs (fixed_zone off) t)"
proof -
  let ?Z = "fixed_zone off" and ?D = "(t + off) div 86400"
  define y m where "y = year_of_day ?D" and "m = month_of_day ?D"
  have m: "1 \<le> m" "m \<le> 12" using month_of_day_range by (simp_all add: m_def)
  have "y \<le> y + 5 - (if k \<le> m then 1 else 0)" by simp
  then obtain y' m' where f: "find_month y y m (cs_Months cs) = Some (y', m')"
    using find_month_exists [OF assms(2-4) m, of y y] by (cases "find_month y y m (cs_Months cs)") auto
  note F = find_month_some [OF f m]
  have adv: "advanceToNextMonth cs ?Z t = 86400 * days_of_civil y' m' 1 - off"
    using f by (simp add: advanceToNextMonth_def t_Year_def fixed_local_day y_def m_def)
  have D: "days_of_civil y m 1 \<le> ?D" "?D \<le> days_of_civil y m (month_length y m)"
    using cal.month_first_le [of ?D] cal.month_last_ge [of ?D] by (simp_all add: y_def m_def)
  have t: "t + off < 86400 * (?D + 1)" using pos_mod_bound [of 86400 "t + off"] by simp
  show "t < advanceToNextMonth cs ?Z t" unfolding adv using t D F by simp
  show "on_minute (advanceToNextMonth cs ?Z t)"
    unfolding adv using assms(5) by (intro on_minute_multiple) simp_all
  show "no_match cs ?Z t (advanceToNextMonth cs ?Z t)"
    unfolding no_match_def adv
  proof (intro allI impI)
    fix s assume s: "t \<le> s" "s < 86400 * days_of_civil y' m' 1 - off"
    let ?E = "(s + off) div 86400"
    have E: "?D \<le> ?E" "?E < days_of_civil y' m' 1"
      using s by (auto intro!: zdiv_mono1)
    have "\<not> cs_Months cs ! nat (month_of_day ?E)"
    proof (cases "?E \<le> days_of_civil y m (month_length y m)")
      case True
      with D E have "month_of_day ?E = m" by (intro cal.month_run(1) [OF m]) auto
      with assms(1) show ?thesis by (simp add: m_def)
    next
      case False
      with F E show ?thesis by simp
    qed
    then show "\<not> matches cs ?Z s" by (simp add: matches_def)
  qed
qed


lemma day_step:
  assumes "\<not> cs_Days cs ! nat (t_Day (fixed_zone off) t) \<or> \<not> cs_Weekdays cs ! nat (t_Weekday (fixed_zone off) t)"
    "minute_zone off"
  shows "t < start_of_next_day (fixed_zone off) t"
    and "no_match cs (fixed_zone off) t (start_of_next_day (fixed_zone off) t)"
    and "on_minute (start_of_next_day (fixed_zone off) t)"
proof -
  let ?Z = "fixed_zone off" and ?D = "(t + off) div 86400"
  show "t < start_of_next_day ?Z t"
    unfolding next_day_fixed using pos_mod_bound [of 86400 "t + off"] by simp
  show "on_minute (start_of_next_day ?Z t)"
    unfolding next_day_fixed using assms(2) by (intro on_minute_multiple) simp_all
  show "no_match cs ?Z t (start_of_next_day ?Z t)"
    unfolding no_match_def next_day_fixed
  proof (intro allI impI)
    fix s assume s: "t \<le> s" "s < 86400 * (?D + 1) - off"
    have "(s + off) div 86400 = ?D"
    proof (rule antisym)
      show "?D \<le> (s + off) div 86400" using s by (intro zdiv_mono1) auto
      show "(s + off) div 86400 \<le> ?D" using s pos_mod_sign [of 86400 "s + off"] by simp
    qed
    then have "local_day ?Z s = local_day ?Z t" by (simp add: fixed_local_day)
    from same_day_fields [OF this] assms(1) show "\<not> matches cs ?Z s" by (auto simp: matches_def)
  qed
qed

lemma hour_step:
  assumes "\<not> cs_Hours cs ! nat (t_Hour (fixed_zone off) t)" "minute_zone off"
  shows "t < start_of_next_hour (fixed_zone off) t"
    and "no_match cs (fixed_zone off) t (start_of_next_hour (fixed_zone off) t)"
    and "on_minute (start_of_next_hour (fixed_zone off) t)"
proof -
  let ?Z = "fixed_zone off" and ?q = "(t + off) div 3600"
  show "t < start_of_next_hour ?Z t"
    unfolding next_hour_fixed using pos_mod_bound [of 3600 "t + off"] by simp
  show "on_minute (start_of_next_hour ?Z t)"
    unfolding next_hour_fixed using assms(2) by (intro on_minute_multiple) simp_all
  show "no_match cs ?Z t (start_of_next_hour ?Z t)"
    unfolding no_match_def next_hour_fixed
  proof (intro allI impI)
    fix s assume s: "t \<le> s" "s < 3600 * (?q + 1) - off"
    have "(s + off) div 3600 = ?q"
    proof (rule antisym)
      show "?q \<le> (s + off) div 3600" using s by (intro zdiv_mono1) auto
      show "(s + off) div 3600 \<le> ?q" using s pos_mod_sign [of 3600 "s + off"] by simp
    qed
    with assms(1) show "\<not> matches cs ?Z s" by (auto simp: matches_def fixed_hour)
  qed
qed

lemma minute_step:
  assumes "\<not> matches cs loc t" "on_minute t"
  shows "no_match cs loc t (t + 60)" and "on_minute (t + 60)"
proof -
  have "s = t" if s: "t \<le> s" "s < t + 60" "on_minute s" for s
  proof -
    have "(s - t) mod 60 = 0" using s assms(2) unfolding on_minute_def by (simp add: mod_eq_0_iff_dvd)
    moreover have "(s - t) mod 60 = s - t" using s by (intro mod_pos_pos_trivial) simp_all
    ultimately show ?thesis by simp
  qed
  with assms(1) show "no_match cs loc t (t + 60)" unfolding no_match_def by blast
  show "on_minute (t + 60)" using assms(2) by (simp add: on_minute_def)
qed

subsection \<open>The search\<close>

text \<open>What the search promises from a state: the first match before the limit, or that there is none.\<close>

definition least_match :: "CronSchedule \<Rightarrow> location \<Rightarrow> int \<Rightarrow> int \<Rightarrow> int option \<Rightarrow> bool" where
  "least_match cs loc a limit r \<longleftrightarrow>
     (case r of
        Some t \<Rightarrow> a \<le> t \<and> t < limit \<and> on_minute t \<and> matches cs loc t \<and> no_match cs loc a t
      | None \<Rightarrow> no_match cs loc a limit)"

lemma least_match_skip:
  assumes "least_match cs loc b limit r" "no_match cs loc a b" "a \<le> b"
  shows "least_match cs loc a limit r"
  using assms by (auto simp: least_match_def split: option.splits intro: no_match_trans)

lemma least_match_past: "no_match cs loc a b \<Longrightarrow> limit \<le> b \<Longrightarrow> least_match cs loc a limit None"
  by (auto simp: least_match_def intro: no_match_mono)

lemma next_loop_least:
  assumes "cs_Months cs ! nat k" "1 \<le> k" "k \<le> 12" "minute_zone off" "on_minute t"
  shows "\<exists>r. next_loop cs (fixed_zone off) limit t = Some r \<and> least_match cs (fixed_zone off) t limit r"
  using assms(5)
proof (induction "nat (limit - t)" arbitrary: t rule: less_induct)
  case less
  let ?Z = "fixed_zone off"
  have step: "\<exists>r. next_loop cs ?Z limit t' = Some r \<and> least_match cs ?Z t limit r"
    if "t < limit" "t < t'" "no_match cs ?Z t t'" "on_minute t'" for t'
  proof -
    have "\<exists>r. next_loop cs ?Z limit t' = Some r \<and> least_match cs ?Z t' limit r"
      using that by (intro less.hyps) auto
    with that show ?thesis using least_match_skip by (metis less_imp_le)
  qed
  show ?case
  proof (cases "t < limit")
    case False
    then show ?thesis by (auto simp: next_loop.simps least_match_def no_match_def)
  next
    case True
    consider (month) "\<not> cs_Months cs ! nat (t_Month ?Z t)"
      | (day) "cs_Months cs ! nat (t_Month ?Z t)"
          "\<not> cs_Days cs ! nat (t_Day ?Z t) \<or> \<not> cs_Weekdays cs ! nat (t_Weekday ?Z t)"
      | (hour) "cs_Months cs ! nat (t_Month ?Z t)" "cs_Days cs ! nat (t_Day ?Z t)"
          "cs_Weekdays cs ! nat (t_Weekday ?Z t)" "\<not> cs_Hours cs ! nat (t_Hour ?Z t)"
      | (minute) "cs_Months cs ! nat (t_Month ?Z t)" "cs_Days cs ! nat (t_Day ?Z t)"
          "cs_Weekdays cs ! nat (t_Weekday ?Z t)" "cs_Hours cs ! nat (t_Hour ?Z t)"
          "\<not> cs_Minutes cs ! nat (t_Minute ?Z t)"
      | (found) "matches cs ?Z t"
      by (auto simp: matches_def)
    then show ?thesis
    proof cases
      case month
      then show ?thesis
        using step [OF True month_step [OF month assms(1-4)]] True
        by (simp add: next_loop.simps [of cs ?Z limit t])
    next
      case day
      then show ?thesis
        using step [OF True day_step [OF day(2) assms(4)]] True
        by (simp add: next_loop.simps [of cs ?Z limit t])
    next
      case hour
      then show ?thesis
        using step [OF True hour_step [OF hour(4) assms(4)]] True
        by (simp add: next_loop.simps [of cs ?Z limit t])
    next
      case minute
      then have "\<not> matches cs ?Z t" by (simp add: matches_def)
      then show ?thesis
        using step [OF True _ minute_step [OF _ less.prems]] minute True
        by (simp add: next_loop.simps [of cs ?Z limit t])
    next
      case found
      then show ?thesis
        using True less.prems
        by (auto simp: next_loop.simps [of cs ?Z limit t] matches_def least_match_def no_match_def)
    qed
  qed
qed

lemma cron_wf_month: "cron_wf cs \<Longrightarrow> \<exists>k. 1 \<le> k \<and> k \<le> 12 \<and> cs_Months cs ! nat k"
proof -
  assume "cron_wf cs"
  then obtain i where "i < length (tl (cs_Months cs))" "tl (cs_Months cs) ! i" "length (cs_Months cs) = 13"
    by (auto simp: cron_wf_def in_set_conv_nth)
  then show ?thesis
    by (intro exI [of _ "int (Suc i)"]) (auto simp: nth_tl nat_add_distrib)
qed

lemma first_candidate_on_minute: "on_minute (first_candidate from)"
  by (simp add: on_minute_def first_candidate_def)


subsection \<open>Clocks that are set back\<close>

text \<open>
  In the hour before \<open>e\<close> the zone is \<open>o1\<close> seconds from UTC, from \<open>e\<close> on one hour less, so the hour
  starting at \<open>e - 3600\<close> is read twice; \<open>time.Date\<close> answers with the first reading.
\<close>

definition set_back_at :: "location \<Rightarrow> int \<Rightarrow> int \<Rightarrow> int \<Rightarrow> bool" where
  "set_back_at loc o1 start e \<longleftrightarrow>
     loc (e - 3600) = (o1, start, e) \<and> loc (e - 3600 + o1) = (o1, start, e) \<and> fst (loc e) = o1 - 3600 \<and>
     start \<le> e - 3600 \<and> o1 \<noteq> 0 \<and> (e - 3600 + o1) mod 3600 = 0"

lemma next_hour_set_back:
  assumes "set_back_at loc o1 start e"
  shows "start_of_next_hour loc (e - 3600) = e - 3600"
proof -
  define x where "x = e - 3600 + o1"
  have ls: "local_sec loc e = x"
    using assms by (simp add: set_back_at_def local_sec_def offset_at_def x_def)
  have "x mod 3600 = 0" using assms by (simp add: set_back_at_def x_def)
  then have h: "3600 * (x div 3600) = x" using mult_div_mod_eq [of 3600 x] by (simp only: add_0_right)
  have "days_of_civil (t_Year loc e) (t_Month loc e) (t_Day loc e) = x div 3600 div 24"
    using days_of_civil_of_day [of "x div 86400"]
    by (simp add: t_Year_def t_Month_def t_Day_def local_day_def ls day_hour_split(1))
  moreover have "t_Hour loc e = x div 3600 mod 24"
    by (simp add: t_Hour_def ls day_hour_split(2))
  ultimately have u: "86400 * days_of_civil (t_Year loc e) (t_Month loc e) (t_Day loc e) + 3600 * t_Hour loc e = x"
    using hours_join [of "x div 3600"] h by simp
  have "loc x = (o1, start, e)" "x - o1 = e - 3600" "o1 \<noteq> 0" "start \<le> e - 3600"
    using assms by (simp_all add: set_back_at_def x_def)
  with u show ?thesis
    by (simp add: start_of_next_hour_def Let_def time_Date_def)
qed

text \<open>A state the loop maps to itself is never left.\<close>

lemma next_loop_stuck:
  assumes "t < limit" "cs_Months cs ! nat (t_Month loc t)" "cs_Days cs ! nat (t_Day loc t)"
    "cs_Weekdays cs ! nat (t_Weekday loc t)" "\<not> cs_Hours cs ! nat (t_Hour loc t)"
    "start_of_next_hour loc t = t"
  shows "next_loop cs loc limit t = None"
proof (rule ccontr)
  assume "next_loop cs loc limit t \<noteq> None"
  then obtain r where r: "next_loop cs loc limit t = Some r" by auto
  have "\<not> (cs = cs \<and> loc = loc \<and> limit = limit \<and> t = t)"
    by (rule next_loop.raw_induct [where P = "\<lambda>cs' loc' limit' t' r. \<not> (cs' = cs \<and> loc' = loc \<and> limit' = limit \<and> t' = t)", OF _ r])
      (use assms in fastforce)
  then show False by simp
qed

lemma next_loop_hour_step:
  assumes "t < limit" "cs_Months cs ! nat (t_Month loc t)" "cs_Days cs ! nat (t_Day loc t)"
    "cs_Weekdays cs ! nat (t_Weekday loc t)" "\<not> cs_Hours cs ! nat (t_Hour loc t)"
  shows "next_loop cs loc limit t = next_loop cs loc limit (start_of_next_hour loc t)"
  using assms by (simp add: next_loop.simps [of cs loc limit t])

lemma parseField_Ok_set:
  assumes "parseField field mn mx (replicate n False) names = Some (Ok bits)"
    "0 \<le> mn" "mn \<le> mx" "mx \<le> 1000" "int n = mx - mn + 1"
  shows "length bits = n \<and> True \<in> set bits"
  using parseField_Ok [OF assms] ex_nth_set [of bits] by simp

lemma slice_returns:
  "0 \<le> mn \<Longrightarrow> mn \<le> mx \<Longrightarrow> mx \<le> 1000 \<Longrightarrow> int n = mx - mn + 1 \<Longrightarrow>
   parseField field mn mx (replicate n False) names \<noteq> None"
  using parseField_returns [of mn mx n field names] by auto

section \<open>Example schedules\<close>

definition daily_nine :: CronSchedule where
  "daily_nine = \<lparr>cs_Minutes = only 60 0, cs_Hours = only 24 9,
     cs_Days = False # replicate 31 True, cs_Months = False # replicate 12 True, cs_Weekdays = replicate 7 True\<rparr>"

definition leap_day_schedule :: CronSchedule where
  "leap_day_schedule = \<lparr>cs_Minutes = only 60 0, cs_Hours = only 24 0, cs_Days = only 32 29,
     cs_Months = only 13 2, cs_Weekdays = replicate 7 True\<rparr>"

text \<open>New York in 2024: daylight saving time until 06:00 UTC on the 3rd of November, then standard time.\<close>

definition new_york_2024 :: location where
  "new_york_2024 = (\<lambda>t. if t < 1730613600 then (- 14400, 1710054000, 1730613600)
     else (- 18000, 1730613600, 1741503600))"

lemma ParseCron_daily_nine: "ParseCron (DailyCron 9 0) = Some (Ok daily_nine)"
  by code_simp

lemma leap_day_wf: "cron_wf leap_day_schedule"
  by (simp add: cron_wf_def leap_day_schedule_def only_def eval_nat_numeral)

lemma only_nth: "nat v < n \<Longrightarrow> k < n \<Longrightarrow> only n v ! k \<longleftrightarrow> k = nat v"
  by (auto simp: only_def nth_list_update)

lemma div_zero_less: "(x :: int) div k = 0 \<Longrightarrow> 0 < k \<Longrightarrow> x < k"
  using mult_div_mod_eq [of k x] pos_mod_bound [of k x] by simp

text \<open>The only instants the leap day schedule matches are midnights of a 29th of February.\<close>

lemma leap_day_matches:
  assumes "matches leap_day_schedule UTC t" "on_minute t"
  obtains y where "leap_year y" "t = 86400 * days_of_civil y 2 29"
proof -
  define n where "n = t div 86400"
  have loc: "local_sec UTC t = t" "local_day UTC t = n" by (simp_all add: UTC_def local_day_def n_def)
  have m: "month_of_day n = 2"
    using assms(1) month_of_day_range [of n]
    by (auto simp: matches_def leap_day_schedule_def only_nth t_Month_def loc)
  have d: "mday_of_day n = 29"
    using assms(1) t_Day_range [of UTC t]
    by (auto simp: matches_def leap_day_schedule_def only_nth t_Day_def loc)
  have h: "t_Hour UTC t = 0" "t_Minute UTC t = 0"
    using assms(1) clock_ranges [of UTC t]
    by (auto simp: matches_def leap_day_schedule_def only_nth)
  have z: "t mod 86400 div 3600 = 0" "t mod 3600 div 60 = 0"
    using h unfolding t_Hour_def t_Minute_def loc .
  have "t mod 86400 < 3600" "t mod 3600 < 60"
    using div_zero_less [OF z(1)] div_zero_less [OF z(2)] by simp_all
  then have e1: "t mod 3600 = t mod 86400" and e2: "t mod 60 = t mod 3600"
    using mod_mod_cancel [of 3600 86400 t] mod_mod_cancel [of 60 3600 t]
      mod_pos_pos_trivial [of "t mod 86400" 3600] mod_pos_pos_trivial [of "t mod 3600" 60]
    by auto
  have "t mod 86400 = 0" using e1 e2 assms(2) by (simp add: on_minute_def)
  then have t: "t = 86400 * n" unfolding n_def using mult_div_mod_eq [of 86400 t] by (simp only: add_0_right)
  have "29 \<le> month_length (year_of_day n) 2" using mday_of_day_range [of n] m d by simp
  then have "leap_year (year_of_day n)" by (simp add: month_length_def leap_add_def split: if_splits)
  moreover have "days_of_civil (year_of_day n) 2 29 = n" using days_of_civil_of_day [of n] m d by simp
  ultimately show thesis using that t by metis
qed

section \<open>Properties\<close>

text \<open>The parser always returns: no expression makes one of its loops run forever.\<close>

theorem ParseCron_returns: "\<exists>r. ParseCron expr = Some r"
proof -
  have "ParseCron expr \<noteq> None"
    unfolding ParseCron_def Let_def
    by (split if_split) (intro conjI impI bind_go_returns in_field_returns slice_returns option.distinct; simp)
  then show ?thesis by auto
qed

lemma ParseCron_wf:
  assumes "ParseCron expr = Some (Ok cs)"
  shows "cron_wf cs"
proof -
  obtain f0 f1 f2 f3 f4 d mo where F: "Fields expr = [f0, f1, f2, f3, f4]"
    "parseField f0 0 59 (replicate 60 False) None = Some (Ok (cs_Minutes cs))"
    "parseField f1 0 23 (replicate 24 False) None = Some (Ok (cs_Hours cs))"
    "parseField f2 1 31 (replicate 31 False) None = Some (Ok d)" "cs_Days cs = False # d"
    "parseField f3 1 12 (replicate 12 False) (Some monthNames) = Some (Ok mo)" "cs_Months cs = False # mo"
    "parseField f4 0 6 (replicate 7 False) (Some weekdayNames) = Some (Ok (cs_Weekdays cs))"
    using ParseCron_OkD [OF assms] .
  show ?thesis
    unfolding cron_wf_def F(5,7)
    using parseField_Ok_set [OF F(2)] parseField_Ok_set [OF F(3)] parseField_Ok_set [OF F(4)]
      parseField_Ok_set [OF F(6)] parseField_Ok_set [OF F(8)] by simp
qed

text \<open>
  C13. When the parser succeeds, the schedule is well formed and each array holds exactly the values its
  field denotes.
\<close>

theorem ParseCron_denotes:
  assumes "ParseCron expr = Some (Ok cs)"
  shows "cron_wf cs \<and> (\<exists>f0 f1 f2 f3 f4. Fields expr = [f0, f1, f2, f3, f4] \<and>
    (\<forall>x \<in> {0..59}. cs_Minutes cs ! nat x \<longleftrightarrow> field_denotes f0 0 59 None x) \<and>
    (\<forall>x \<in> {0..23}. cs_Hours cs ! nat x \<longleftrightarrow> field_denotes f1 0 23 None x) \<and>
    (\<forall>x \<in> {1..31}. cs_Days cs ! nat x \<longleftrightarrow> field_denotes f2 1 31 None x) \<and>
    (\<forall>x \<in> {1..12}. cs_Months cs ! nat x \<longleftrightarrow> field_denotes f3 1 12 (Some monthNames) x) \<and>
    (\<forall>x \<in> {0..6}. cs_Weekdays cs ! nat x \<longleftrightarrow> field_denotes f4 0 6 (Some weekdayNames) x))"
proof -
  obtain f0 f1 f2 f3 f4 d mo where F: "Fields expr = [f0, f1, f2, f3, f4]"
    "parseField f0 0 59 (replicate 60 False) None = Some (Ok (cs_Minutes cs))"
    "parseField f1 0 23 (replicate 24 False) None = Some (Ok (cs_Hours cs))"
    "parseField f2 1 31 (replicate 31 False) None = Some (Ok d)" "cs_Days cs = False # d"
    "parseField f3 1 12 (replicate 12 False) (Some monthNames) = Some (Ok mo)" "cs_Months cs = False # mo"
    "parseField f4 0 6 (replicate 7 False) (Some weekdayNames) = Some (Ok (cs_Weekdays cs))"
    using ParseCron_OkD [OF assms] .
  note P = parseField_Ok [OF F(2)] parseField_Ok [OF F(3)] parseField_Ok [OF F(4)]
    parseField_Ok [OF F(6)] parseField_Ok [OF F(8)]
  have shift: "(False # bs) ! nat x \<longleftrightarrow> Q x"
    if x: "\<forall>k < n. bs ! k \<longleftrightarrow> Q (1 + int k)" "1 \<le> x" "x \<le> int n" for bs Q n x
  proof -
    obtain k where k: "x = 1 + int k" using x(2) by (metis zle_iff_zadd)
    then have "nat x = Suc k" "k < n" using x(3) by simp_all
    with x(1) k show ?thesis by simp
  qed
  have base: "bs ! nat x \<longleftrightarrow> Q x"
    if "\<forall>k < n. bs ! k \<longleftrightarrow> Q (int k)" "0 \<le> x" "x < int n" for bs :: "bool list" and Q n x
    using that(1) [rule_format, of "nat x"] that(2,3) by auto
  have "cron_wf cs" by (rule ParseCron_wf [OF assms])
  moreover have "\<forall>x \<in> {0..59}. cs_Minutes cs ! nat x \<longleftrightarrow> field_denotes f0 0 59 None x"
    and "\<forall>x \<in> {0..23}. cs_Hours cs ! nat x \<longleftrightarrow> field_denotes f1 0 23 None x"
    and "\<forall>x \<in> {0..6}. cs_Weekdays cs ! nat x \<longleftrightarrow> field_denotes f4 0 6 (Some weekdayNames) x"
    using P(1,2,5) by (auto intro!: base)
  moreover have "\<forall>x \<in> {1..31}. cs_Days cs ! nat x \<longleftrightarrow> field_denotes f2 1 31 None x"
    and "\<forall>x \<in> {1..12}. cs_Months cs ! nat x \<longleftrightarrow> field_denotes f3 1 12 (Some monthNames) x"
    unfolding F(5,7) using P(3,4) by (auto intro!: shift)
  ultimately show ?thesis using F(1) by blast
qed


theorem ParseCron_denotes_witness:
  "ParseCron (DailyCron 9 0) = Some (Ok daily_nine) \<and> cron_wf daily_nine"
  using ParseCron_denotes [OF ParseCron_daily_nine] ParseCron_daily_nine by blast

text \<open>
  A step of the largest integer makes the loop counter of a field that starts at 1 wrap around, and
  the parser panics with an index out of range instead of returning an error.
\<close>

theorem ParseCron_step_overflow_panics:
  "ParseCron ''0 0 */9223372036854775807 * *'' = Some Panic"
  by code_simp

text \<open>
  The expressions built for daily, weekly and monthly schedules parse back to exactly the hour, the
  minute and the day they were built from, every other field unrestricted.
\<close>

theorem cron_constructors_roundtrip:
  assumes "0 \<le> h" "h \<le> 23" "0 \<le> m" "m \<le> 59" "0 \<le> w" "w \<le> 6" "1 \<le> d" "d \<le> 31"
  shows "ParseCron (DailyCron h m) = Some (Ok \<lparr>cs_Minutes = only 60 m, cs_Hours = only 24 h,
      cs_Days = False # replicate 31 True, cs_Months = False # replicate 12 True, cs_Weekdays = replicate 7 True\<rparr>)
    \<and> ParseCron (WeeklyCron w h m) = Some (Ok \<lparr>cs_Minutes = only 60 m, cs_Hours = only 24 h,
      cs_Days = False # replicate 31 True, cs_Months = False # replicate 12 True, cs_Weekdays = only 7 w\<rparr>)
    \<and> ParseCron (MonthlyCron d h m) = Some (Ok \<lparr>cs_Minutes = only 60 m, cs_Hours = only 24 h,
      cs_Days = only 32 d, cs_Months = False # replicate 12 True, cs_Weekdays = replicate 7 True\<rparr>)"
proof (intro conjI)
  note N = parseField_number [of None 0 m 59 60] parseField_number [of None 0 h 23 24]
  note S = parseField_star [of 1 31 31 None] parseField_star [of 1 12 12 "Some monthNames"]
    parseField_star [of 0 6 7 "Some weekdayNames"]
  have "0 \<le> d" using assms by simp
  show "ParseCron (DailyCron h m) = Some (Ok \<lparr>cs_Minutes = only 60 m, cs_Hours = only 24 h,
      cs_Days = False # replicate 31 True, cs_Months = False # replicate 12 True, cs_Weekdays = replicate 7 True\<rparr>)"
    using ParseCron_five [OF Fields_Daily [OF assms(1,3)]] N S assms by (simp add: only_def)
  show "ParseCron (WeeklyCron w h m) = Some (Ok \<lparr>cs_Minutes = only 60 m, cs_Hours = only 24 h,
      cs_Days = False # replicate 31 True, cs_Months = False # replicate 12 True, cs_Weekdays = only 7 w\<rparr>)"
    using ParseCron_five [OF Fields_Weekly [OF assms(5,1,3)]] N S assms
      parseField_number [of "Some weekdayNames" 0 w 6 7] by (simp add: only_def)
  show "ParseCron (MonthlyCron d h m) = Some (Ok \<lparr>cs_Minutes = only 60 m, cs_Hours = only 24 h,
      cs_Days = only 32 d, cs_Months = False # replicate 12 True, cs_Weekdays = replicate 7 True\<rparr>)"
    using ParseCron_five [OF Fields_Monthly [OF \<open>0 \<le> d\<close> assms(1,3)]] N S assms
      parseField_number [of None 1 d 31 31] bits_only [of d 31] by (simp add: only_def)
qed

theorem cron_constructors_roundtrip_witness:
  "ParseCron (WeeklyCron 1 9 30) = Some (Ok \<lparr>cs_Minutes = only 60 30, cs_Hours = only 24 9,
     cs_Days = False # replicate 31 True, cs_Months = False # replicate 12 True, cs_Weekdays = only 7 1\<rparr>)"
  using cron_constructors_roundtrip [of 9 30 1 1] by simp

lemma Next_least:
  assumes "cron_wf cs" "minute_zone off"
  shows "\<exists>r. Next cs from (fixed_zone off) = Some r \<and>
    least_match cs (fixed_zone off) (first_candidate from) (first_candidate from + four_years) r"
proof -
  obtain k where "1 \<le> k" "k \<le> 12" "cs_Months cs ! nat k"
    using cron_wf_month [OF assms(1)] by blast
  then show ?thesis
    using next_loop_least [OF _ _ _ assms(2) first_candidate_on_minute] by (simp add: Next_def Let_def)
qed

text \<open>
  C1. In a zone of constant offset the search always ends, and its result is the first whole minute
  after the given instant that matches the schedule within four times 365 days, or the zero time when
  there is none.
\<close>

theorem Next_least_match:
  assumes "cron_wf cs" "minute_zone off"
  shows "\<exists>r. Next cs from (fixed_zone off) = Some r \<and>
    (let next_minute = 60 * (from div 60000000000) + 60
     in least_match cs (fixed_zone off) next_minute (next_minute + four_years) r)"
  using Next_least [OF assms, of "from"] by (simp add: first_candidate_def Let_def)

theorem Next_least_match_witness:
  "cron_wf leap_day_schedule \<and> (\<exists>r. Next leap_day_schedule 0 UTC = Some r \<and>
     least_match leap_day_schedule UTC 60 (60 + four_years) r)"
  using Next_least_match [OF leap_day_wf, of 0 0] leap_day_wf by (simp add: UTC_def first_candidate_def)

text \<open>
  The window of the search is one day shorter than four years with a leap day: a schedule for the
  29th of February, asked at the very moment it fires on 2024-02-29, finds no next run, although
  2028-02-29 matches.
\<close>

theorem Next_misses_leap_day:
  "ParseCron ''0 0 29 2 *'' = Some (Ok leap_day_schedule) \<and>
   Next leap_day_schedule (86400000000000 * days_of_civil 2024 2 29) UTC = Some None \<and>
   matches leap_day_schedule UTC (86400 * days_of_civil 2028 2 29)"
proof (intro conjI)
  show "ParseCron ''0 0 29 2 *'' = Some (Ok leap_day_schedule)" by code_simp
  show "matches leap_day_schedule UTC (86400 * days_of_civil 2028 2 29)" by code_simp
  have c: "first_candidate (86400000000000 * days_of_civil 2024 2 29) = 1709164860"
    by (simp add: first_candidate_def days_of_civil_def year_start_def)
  obtain k where k: "1 \<le> k" "k \<le> 12" "cs_Months leap_day_schedule ! nat k"
    using cron_wf_month [OF leap_day_wf] by blast
  obtain r where r: "next_loop leap_day_schedule UTC (1709164860 + four_years) 1709164860 = Some r"
    "least_match leap_day_schedule UTC 1709164860 (1709164860 + four_years) r"
    using next_loop_least [OF k(3,1,2), of 0 1709164860 "1709164860 + four_years"]
    by (auto simp: UTC_def on_minute_def)
  have "r = None"
  proof (rule ccontr)
    assume "r \<noteq> None"
    then obtain t where t: "1709164860 \<le> t" "t < 1835308860" "on_minute t" "matches leap_day_schedule UTC t"
      using r(2) by (auto simp: least_match_def four_years_def)
    obtain y where y: "leap_year y" "t = 86400 * days_of_civil y 2 29"
      using leap_day_matches [OF t(4,3)] .
    have d: "days_of_civil y 2 29 = year_start y + 59" by (simp add: days_of_civil_def)
    have ys: "year_start 2024 = 19723" "year_start 2028 = 21184" by (simp_all add: year_start_def)
    have "2024 < y" using t(1) y(2) year_start_mono [of y 2024] ys d by (cases "y \<le> 2024") simp_all
    moreover have "y < 2028" using t(2) y(2) year_start_mono [of 2028 y] ys d
      by (cases "2028 \<le> y") simp_all
    ultimately have "y = 2025 \<or> y = 2026 \<or> y = 2027" by linarith
    with y(1) show False by (auto simp: leap_year_def)
  qed
  with r c show "Next leap_day_schedule (86400000000000 * days_of_civil 2024 2 29) UTC = Some None"
    by (simp add: Next_def)
qed

text \<open>
  C17. Where clocks are set back and the repeated hour is not one the schedule fires in, the search
  reaches the first reading of that hour and never leaves it: \<open>Next\<close> does not return.
\<close>

theorem next_loop_diverges_when_clocks_set_back:
  assumes "set_back_at loc o1 start e" "e - 3600 < limit"
    "cs_Months cs ! nat (t_Month loc (e - 3600))" "cs_Days cs ! nat (t_Day loc (e - 3600))"
    "cs_Weekdays cs ! nat (t_Weekday loc (e - 3600))" "\<not> cs_Hours cs ! nat (t_Hour loc (e - 3600))"
  shows "next_loop cs loc limit (e - 3600) = None"
  using assms by (intro next_loop_stuck next_hour_set_back)

theorem next_loop_diverges_when_clocks_set_back_witness:
  "ParseCron (DailyCron 9 0) = Some (Ok daily_nine) \<and>
   Next daily_nine 1730606400000000000 new_york_2024 = None"
proof -
  let ?lim = "1730606460 + four_years"
  have sb: "set_back_at new_york_2024 (- 14400) 1710054000 1730613600"
    by (simp add: set_back_at_def new_york_2024_def)
  have first: "first_candidate 1730606400000000000 = 1730606460" by (simp add: first_candidate_def)
  have one: "next_loop daily_nine new_york_2024 ?lim (1730613600 - 3600) = None"
    by (rule next_loop_diverges_when_clocks_set_back [OF sb]) code_simp+
  have "next_loop daily_nine new_york_2024 ?lim 1730606460
      = next_loop daily_nine new_york_2024 ?lim (start_of_next_hour new_york_2024 1730606460)"
    by (rule next_loop_hour_step) code_simp+
  moreover have "start_of_next_hour new_york_2024 1730606460 = 1730613600 - 3600" by code_simp
  ultimately show ?thesis using one ParseCron_daily_nine by (simp add: Next_def first)
qed

end
