(* ===== verification/Scheduler.thy ===== *)
theory Scheduler
  imports Cron ProviderCore
begin

text \<open>
  The schedule engine (\<^verbatim>\<open>internal/scheduler/engine.go\<close>), the schedule model and repository
  (\<^verbatim>\<open>internal/domain/model/schedule.go\<close>, \<^verbatim>\<open>internal/infrastructure/repository/schedule_repo.go\<close>) and the schedule service
  (\<^verbatim>\<open>internal/service/schedule_service.go\<close>).

  The operations the engine triggers and the queue it feeds are arguments, over a state of any type. The
  database of time zones and the parser of RFC 3339 times are the parameter \<open>sched_lib\<close>. A call that
  does not return, or panics, does so because of the cron expression: the results of \<open>Cron\<close> carry that on.
  Times are in nanoseconds.
\<close>

section \<open>Data\<close>

datatype ScheduleType =
    ScheduleTypeOnce | ScheduleTypeDaily | ScheduleTypeWeekly | ScheduleTypeMonthly | ScheduleTypeCron | ScheduleTypeOther string

datatype ScheduleStatus = ScheduleActive | SchedulePaused | ScheduleDisabled | ScheduleExpired

datatype ScheduleOperationType =
    ScheduleOpInventorySync | ScheduleOpVMPowerOn | ScheduleOpVMPowerOff | ScheduleOpVMReboot | ScheduleOpVMSnapshot
  | ScheduleOpVMBulkPowerOn | ScheduleOpVMBulkPowerOff | ScheduleOpVMBulkReboot | ScheduleOpVMBulkSnapshot
  | ScheduleOpOther string

record Schedule =
  sc_ID :: string
  sc_DeletedAt :: "int option"
  sc_Name :: string
  sc_Description :: string
  sc_OperationType :: ScheduleOperationType
  sc_TargetType :: string
  sc_TargetIDs :: "string list"
  sc_ScheduleType :: ScheduleType
  sc_CronExpression :: string
  sc_Timezone :: string
  sc_Enabled :: bool
  sc_Status :: ScheduleStatus
  sc_LastRunAt :: "int option"
  sc_NextRunAt :: "int option"
  sc_LastTaskID :: "string option"
  sc_LastRunStatus :: string
  sc_RunCount :: int
  sc_FailureCount :: int
  sc_MaxRuns :: int
  sc_ExpiresAt :: "int option"
  sc_Payload :: "jmap option"
  sc_CreatedBy :: "string option"

record ScheduleExecution =
  se_ScheduleID :: string
  se_TaskID :: "string option"
  se_Status :: string
  se_ErrorMessage :: string
  se_TriggeredAt :: int

record ScheduleRunUpdate =
  ru_LastRunAt :: int
  ru_NextRunAt :: "int option"
  ru_LastTaskID :: "string option"
  ru_LastRunStatus :: string
  ru_RunCount :: int
  ru_FailureCount :: int
  ru_Status :: ScheduleStatus

record SnapshotSpec =
  sp_Name :: string
  sp_Description :: string

type_synonym ('s, 'a) op = "'a \<Rightarrow> 's \<Rightarrow> 's \<times> (go_error + string)"

record 's SchedulerOps =
  op_SyncInventory :: "('s, string) op"
  op_VMPowerOn :: "('s, string) op"
  op_VMPowerOff :: "('s, string) op"
  op_VMReboot :: "('s, string) op"
  op_VMSnapshot :: "('s, string \<times> SnapshotSpec) op"
  op_VMBulkPowerOn :: "('s, string list) op"
  op_VMBulkPowerOff :: "('s, string list) op"
  op_VMBulkReboot :: "('s, string list) op"
  op_VMBulkSnapshot :: "('s, string list \<times> SnapshotSpec) op"
  op_Enqueue :: "string \<Rightarrow> int \<Rightarrow> 's \<Rightarrow> 's \<times> go_error option"

record sched_lib =
  load_location :: "string \<Rightarrow> location option"
  parse_rfc3339 :: "string \<Rightarrow> int option"

record CreateScheduleRequest =
  cq_Name :: string
  cq_Description :: string
  cq_OperationType :: ScheduleOperationType
  cq_TargetType :: string
  cq_TargetIDs :: "string list"
  cq_ScheduleType :: ScheduleType
  cq_CronExpression :: string
  cq_Timezone :: string
  cq_Enabled :: bool
  cq_MaxRuns :: int
  cq_ExpiresAt :: "int option"
  cq_Payload :: "jmap option"

record UpdateScheduleRequest =
  uq_Name :: "string option"
  uq_Description :: "string option"
  uq_OperationType :: "ScheduleOperationType option"
  uq_TargetType :: "string option"
  uq_TargetIDs :: "string list option"
  uq_ScheduleType :: "ScheduleType option"
  uq_CronExpression :: "string option"
  uq_Timezone :: "string option"
  uq_Enabled :: "bool option"
  uq_MaxRuns :: "int option"
  uq_ExpiresAt :: "int option"
  uq_Payload :: "jmap option"

record schedule_db =
  sdb_schedules :: "Schedule list"
  sdb_executions :: "ScheduleExecution list"
  sdb_next :: nat
  sdb_faults :: "go_error option list"

section \<open>The repository\<close>

definition sched_stmt :: "(schedule_db \<Rightarrow> schedule_db \<times> (go_error + 'a)) \<Rightarrow> schedule_db \<Rightarrow> schedule_db \<times> (go_error + 'a)" where
  "sched_stmt f d =
     (case sdb_faults d of
        [] \<Rightarrow> f d
      | None # fs \<Rightarrow> f (d\<lparr>sdb_faults := fs\<rparr>)
      | Some e # fs \<Rightarrow> (d\<lparr>sdb_faults := fs\<rparr>, Inl e))"

text \<open>As for policies, the insert replaces the zero value of a column by its default: a disabled schedule is stored enabled.\<close>

definition sched_repo_Create :: "uuid_lib \<Rightarrow> Schedule \<Rightarrow> schedule_db \<Rightarrow> schedule_db \<times> (go_error + Schedule)" where
  "sched_repo_Create U s = sched_stmt (\<lambda>d.
     let s = s\<lparr>sc_ID := uuid_new U (sdb_next d), sc_Enabled := (if \<not> sc_Enabled s then True else sc_Enabled s)\<rparr>
     in (d\<lparr>sdb_schedules := sdb_schedules d @ [s], sdb_next := sdb_next d + 1\<rparr>, Inr s))"

definition sched_repo_GetByID :: "string \<Rightarrow> schedule_db \<Rightarrow> schedule_db \<times> (go_error + Schedule)" where
  "sched_repo_GetByID i = sched_stmt (\<lambda>d.
     (d, case find (\<lambda>s. sc_ID s = i \<and> sc_DeletedAt s = None) (sdb_schedules d) of
           None \<Rightarrow> Inl (Errorf ''record not found'') | Some s \<Rightarrow> Inr s))"

definition sched_repo_Update :: "Schedule \<Rightarrow> schedule_db \<Rightarrow> schedule_db \<times> (go_error + unit)" where
  "sched_repo_Update s = sched_stmt (\<lambda>d.
     (d\<lparr>sdb_schedules := map (\<lambda>x. if sc_ID x = sc_ID s then s else x) (sdb_schedules d)\<rparr>, Inr ()))"

definition sched_repo_Delete :: "int \<Rightarrow> string \<Rightarrow> schedule_db \<Rightarrow> schedule_db \<times> (go_error + unit)" where
  "sched_repo_Delete now i = sched_stmt (\<lambda>d.
     (d\<lparr>sdb_schedules := map (\<lambda>x. if sc_ID x = i \<and> sc_DeletedAt x = None then x\<lparr>sc_DeletedAt := Some now\<rparr> else x) (sdb_schedules d)\<rparr>, Inr ()))"

definition is_due :: "int \<Rightarrow> Schedule \<Rightarrow> bool" where
  "is_due now s \<longleftrightarrow> sc_DeletedAt s = None \<and> sc_Enabled s \<and> sc_Status s = ScheduleActive \<and>
     (case sc_NextRunAt s of None \<Rightarrow> False | Some t \<Rightarrow> t \<le> now)"

definition ListDue :: "int \<Rightarrow> schedule_db \<Rightarrow> schedule_db \<times> (go_error + Schedule list)" where
  "ListDue now = sched_stmt (\<lambda>d. (d, Inr (sort_key (\<lambda>s. the (sc_NextRunAt s)) (filter (is_due now) (sdb_schedules d)))))"

definition apply_update :: "ScheduleRunUpdate \<Rightarrow> Schedule \<Rightarrow> Schedule" where
  "apply_update u s = s\<lparr>sc_LastRunAt := Some (ru_LastRunAt u), sc_NextRunAt := ru_NextRunAt u, sc_LastRunStatus := ru_LastRunStatus u,
     sc_RunCount := ru_RunCount u, sc_FailureCount := ru_FailureCount u, sc_Status := ru_Status u,
     sc_LastTaskID := (case ru_LastTaskID u of None \<Rightarrow> sc_LastTaskID s | Some t \<Rightarrow> Some t)\<rparr>"

definition UpdateAfterRun :: "string \<Rightarrow> ScheduleRunUpdate \<Rightarrow> schedule_db \<Rightarrow> schedule_db \<times> (go_error + unit)" where
  "UpdateAfterRun i u = sched_stmt (\<lambda>d.
     (d\<lparr>sdb_schedules := map (\<lambda>x. if sc_ID x = i \<and> sc_DeletedAt x = None then apply_update u x else x) (sdb_schedules d)\<rparr>, Inr ()))"

definition exec_Create :: "ScheduleExecution \<Rightarrow> schedule_db \<Rightarrow> schedule_db \<times> (go_error + unit)" where
  "exec_Create e = sched_stmt (\<lambda>d. (d\<lparr>sdb_executions := sdb_executions d @ [e]\<rparr>, Inr ()))"

section \<open>The engine\<close>

definition poll_interval :: "int \<Rightarrow> int" where
  "poll_interval i = (if i \<le> 0 then 30000000000 else i)"

text \<open>One operation per target, each followed by a push into the queue; the first error ends the loop.\<close>

fun dispatch_each ::
  "'s SchedulerOps \<Rightarrow> string \<Rightarrow> ('s, string) op \<Rightarrow> string list \<Rightarrow> string \<Rightarrow> 's \<Rightarrow> 's \<times> (go_error + string)" where
  "dispatch_each ops msg op [] firstTaskID s = (s, Inr firstTaskID)"
| "dispatch_each ops msg op (t # ts) firstTaskID s =
     (case op t s of
        (s, Inl e) \<Rightarrow> (s, Inl (Wrapf (msg @ t) e))
      | (s, Inr taskID) \<Rightarrow>
          dispatch_each ops msg op ts (if firstTaskID = '''' then taskID else firstTaskID) (fst (op_Enqueue ops taskID 5 s)))"

definition dispatchVMOp :: "'s SchedulerOps \<Rightarrow> Schedule \<Rightarrow> ('s, string) op \<Rightarrow> 's \<Rightarrow> 's \<times> (go_error + string)" where
  "dispatchVMOp ops sc op s =
     (if sc_TargetIDs sc = [] then (s, Inl (Errorf ''VM operation schedule has no target VM IDs''))
      else dispatch_each ops ''VM op on '' op (sc_TargetIDs sc) '''' s)"

definition dispatchBulkOp :: "'s SchedulerOps \<Rightarrow> Schedule \<Rightarrow> ('s, string list) op \<Rightarrow> 's \<Rightarrow> 's \<times> (go_error + string)" where
  "dispatchBulkOp ops sc op s =
     (if sc_TargetIDs sc = [] then (s, Inl (Errorf ''bulk operation schedule has no target VM IDs''))
      else (case op (sc_TargetIDs sc) s of
              (s, Inl e) \<Rightarrow> (s, Inl e)
            | (s, Inr taskID) \<Rightarrow> (fst (op_Enqueue ops taskID 5 s), Inr taskID)))"

definition snapshot_name :: "int \<Rightarrow> Schedule \<Rightarrow> string" where
  "snapshot_name now sc =
     (let t = now div 1000000000;
          generated = ''scheduled-'' @ pad4 (t_Year UTC t) @ ''-'' @ pad2 (t_Month UTC t) @ ''-'' @ pad2 (t_Day UTC t) @ ''T'' @
                      pad2 (t_Hour UTC t) @ ''-'' @ pad2 (t_Minute UTC t)
      in case sc_Payload sc of
           None \<Rightarrow> generated
         | Some p \<Rightarrow> (case jstring p ''snapshot_name'' of Some n \<Rightarrow> if n \<noteq> '''' then n else generated | None \<Rightarrow> generated))"

definition sched_dispatch :: "'s SchedulerOps \<Rightarrow> int \<Rightarrow> Schedule \<Rightarrow> 's \<Rightarrow> 's \<times> (go_error + string)" where
  "sched_dispatch ops now sc s =
     (case sc_OperationType sc of
        ScheduleOpInventorySync \<Rightarrow>
          if sc_TargetIDs sc = [] then (s, Inl (Errorf ''inventory sync schedule has no target hypervisor IDs''))
          else dispatch_each ops ''sync hypervisor '' (op_SyncInventory ops) (sc_TargetIDs sc) '''' s
      | ScheduleOpVMPowerOn \<Rightarrow> dispatchVMOp ops sc (op_VMPowerOn ops) s
      | ScheduleOpVMPowerOff \<Rightarrow> dispatchVMOp ops sc (op_VMPowerOff ops) s
      | ScheduleOpVMReboot \<Rightarrow> dispatchVMOp ops sc (op_VMReboot ops) s
      | ScheduleOpVMSnapshot \<Rightarrow>
          if sc_TargetIDs sc = [] then (s, Inl (Errorf ''snapshot schedule has no target VM IDs''))
          else dispatch_each ops ''snapshot VM '' (\<lambda>vm. op_VMSnapshot ops (vm, \<lparr>sp_Name = snapshot_name now sc,
                 sp_Description = ''Scheduled snapshot by schedule '' @ sc_Name sc\<rparr>)) (sc_TargetIDs sc) '''' s
      | ScheduleOpVMBulkPowerOn \<Rightarrow> dispatchBulkOp ops sc (op_VMBulkPowerOn ops) s
      | ScheduleOpVMBulkPowerOff \<Rightarrow> dispatchBulkOp ops sc (op_VMBulkPowerOff ops) s
      | ScheduleOpVMBulkReboot \<Rightarrow> dispatchBulkOp ops sc (op_VMBulkReboot ops) s
      | ScheduleOpVMBulkSnapshot \<Rightarrow>
          if sc_TargetIDs sc = [] then (s, Inl (Errorf ''bulk snapshot schedule has no target VM IDs''))
          else (case op_VMBulkSnapshot ops (sc_TargetIDs sc, \<lparr>sp_Name = snapshot_name now sc,
                       sp_Description = ''Scheduled bulk snapshot by schedule '' @ sc_Name sc\<rparr>) s of
                  (s, Inl e) \<Rightarrow> (s, Inl e)
                | (s, Inr taskID) \<Rightarrow> (fst (op_Enqueue ops taskID 5 s), Inr taskID))
      | ScheduleOpOther t \<Rightarrow> (s, Inl (Errorf (''unsupported schedule operation: '' @ t))))"

text \<open>\<open>Next\<close> gives seconds; its zero time stands for no further run.\<close>

definition next_run :: "string \<Rightarrow> int \<Rightarrow> location \<Rightarrow> int option go" where
  "next_run expr after loc =
     bind_go (ParseCron expr) (\<lambda>cs. map_option (\<lambda>t. Ok (map_option ((*) 1000000000) t)) (Next cs after loc))"

definition computeNextRun :: "sched_lib \<Rightarrow> Schedule \<Rightarrow> int \<Rightarrow> int option go" where
  "computeNextRun L sc after =
     (if sc_ScheduleType sc = ScheduleTypeOnce then Some (Ok None)
      else next_run (sc_CronExpression sc) after (case load_location L (sc_Timezone sc) of None \<Rightarrow> UTC | Some loc \<Rightarrow> loc))"

definition status_after_run :: "int \<Rightarrow> Schedule \<Rightarrow> ScheduleStatus" where
  "status_after_run now sc =
     (let newRunCount = sc_RunCount sc + 1;
          st = (if sc_MaxRuns sc > 0 \<and> newRunCount \<ge> sc_MaxRuns sc then ScheduleExpired else sc_Status sc)
      in case sc_ExpiresAt sc of
           Some e \<Rightarrow> if now > e then ScheduleExpired else st
         | None \<Rightarrow> st)"

text \<open>
  One firing of the snapshot \<open>sc\<close> of a schedule; \<open>now\<close> is the time of day while it runs. An expression that
  does not parse leaves everything as it is.
\<close>

definition run_update :: "uuid_lib \<Rightarrow> int \<Rightarrow> int \<Rightarrow> Schedule \<Rightarrow> int option \<Rightarrow> go_error + string \<Rightarrow> ScheduleRunUpdate" where
  "run_update U now firedAt sc nextRun r =
     \<lparr>ru_LastRunAt = firedAt, ru_NextRunAt = nextRun,
      ru_LastTaskID = (case r of Inr t \<Rightarrow> if t \<noteq> '''' then Some (uuid_or_nil U t) else None | Inl _ \<Rightarrow> None),
      ru_LastRunStatus = (case r of Inl _ \<Rightarrow> ''failed'' | Inr _ \<Rightarrow> ''success''),
      ru_RunCount = sc_RunCount sc + 1,
      ru_FailureCount = (case r of Inl _ \<Rightarrow> sc_FailureCount sc + 1 | Inr _ \<Rightarrow> sc_FailureCount sc),
      ru_Status = status_after_run now sc\<rparr>"

definition execution_of :: "uuid_lib \<Rightarrow> int \<Rightarrow> Schedule \<Rightarrow> go_error + string \<Rightarrow> ScheduleExecution" where
  "execution_of U firedAt sc r =
     \<lparr>se_ScheduleID = sc_ID sc,
      se_TaskID = (case r of Inr t \<Rightarrow> if t \<noteq> '''' then Some (uuid_or_nil U t) else None | Inl _ \<Rightarrow> None),
      se_Status = (case r of Inl _ \<Rightarrow> ''failed'' | Inr _ \<Rightarrow> ''triggered''),
      se_ErrorMessage = (case r of Inl e \<Rightarrow> Error_text e | Inr _ \<Rightarrow> ''''), se_TriggeredAt = firedAt\<rparr>"

definition fire ::
  "uuid_lib \<Rightarrow> sched_lib \<Rightarrow> 's SchedulerOps \<Rightarrow> int \<Rightarrow> int \<Rightarrow> Schedule \<Rightarrow> schedule_db \<times> 's \<Rightarrow> (schedule_db \<times> 's) go" where
  "fire U L ops now firedAt sc = (\<lambda>(d, s).
     case computeNextRun L sc firedAt of
       None \<Rightarrow> None
     | Some Panic \<Rightarrow> Some Panic
     | Some (Error e) \<Rightarrow> Some (Ok (d, s))
     | Some (Ok nextRun) \<Rightarrow>
         (let (s, r) = sched_dispatch ops now sc s;
              d = fst (exec_Create (execution_of U firedAt sc r) d);
              d = fst (UpdateAfterRun (sc_ID sc) (run_update U now firedAt sc nextRun r) d)
          in Some (Ok (d, s))))"

text \<open>A poll starts one goroutine per due schedule, each with its own snapshot of the row.\<close>

definition tick :: "int \<Rightarrow> schedule_db \<Rightarrow> schedule_db \<times> Schedule list" where
  "tick now d = (case ListDue now d of (d, Inl e) \<Rightarrow> (d, []) | (d, Inr schedules) \<Rightarrow> (d, schedules))"

section \<open>The service\<close>

definition normaliseCron :: "ScheduleType \<Rightarrow> string \<Rightarrow> (go_error + string) go" where
  "normaliseCron schedType expr =
     (let checked = (case ParseCron expr of
                       None \<Rightarrow> None
                     | Some Panic \<Rightarrow> Some Panic
                     | Some (Error e) \<Rightarrow> Some (Ok (Inl (Errorf (''invalid cron expression '' @ expr))))
                     | Some (Ok _) \<Rightarrow> Some (Ok (Inr expr)))
      in case schedType of
           ScheduleTypeCron \<Rightarrow> checked
         | ScheduleTypeOnce \<Rightarrow> Some (Ok (Inr (if expr = '''' then ''0 0 1 1 *'' else expr)))
         | ScheduleTypeOther t \<Rightarrow> Some (Ok (Inl (Errorf (''unsupported schedule type: '' @ t))))
         | _ \<Rightarrow> if expr = '''' then Some (Ok (Inl (Errorf ''cron_expression is required''))) else checked)"

definition first_run :: "sched_lib \<Rightarrow> int \<Rightarrow> CreateScheduleRequest \<Rightarrow> string \<Rightarrow> location \<Rightarrow> int option go" where
  "first_run L now req cronExpr loc =
     (if cq_ScheduleType req \<noteq> ScheduleTypeOnce then next_run cronExpr now loc
      else case cq_Payload req of
             None \<Rightarrow> Some (Ok None)
           | Some p \<Rightarrow> Some (Ok (case jstring p ''run_at'' of None \<Rightarrow> None | Some runAt \<Rightarrow> parse_rfc3339 L runAt)))"

definition new_schedule :: "string option \<Rightarrow> CreateScheduleRequest \<Rightarrow> string \<Rightarrow> string \<Rightarrow> int option \<Rightarrow> Schedule" where
  "new_schedule caller req cronExpr tz nextRun =
     \<lparr>sc_ID = '''', sc_DeletedAt = None, sc_Name = cq_Name req, sc_Description = cq_Description req,
      sc_OperationType = cq_OperationType req, sc_TargetType = cq_TargetType req, sc_TargetIDs = cq_TargetIDs req,
      sc_ScheduleType = cq_ScheduleType req, sc_CronExpression = cronExpr, sc_Timezone = tz, sc_Enabled = cq_Enabled req,
      sc_Status = (if \<not> cq_Enabled req then SchedulePaused else ScheduleActive), sc_LastRunAt = None, sc_NextRunAt = nextRun,
      sc_LastTaskID = None, sc_LastRunStatus = '''', sc_RunCount = 0, sc_FailureCount = 0, sc_MaxRuns = cq_MaxRuns req,
      sc_ExpiresAt = cq_ExpiresAt req, sc_Payload = cq_Payload req, sc_CreatedBy = caller\<rparr>"

definition schedule_Create ::
  "uuid_lib \<Rightarrow> sched_lib \<Rightarrow> int \<Rightarrow> string option \<Rightarrow> CreateScheduleRequest \<Rightarrow> schedule_db \<Rightarrow> (schedule_db \<times> (go_error + Schedule)) go" where
  "schedule_Create U L now caller req d =
     bind_go (normaliseCron (cq_ScheduleType req) (cq_CronExpression req)) (\<lambda>c.
       case c of
         Inl e \<Rightarrow> Some (Ok (d, Inl (Wrapf ''invalid schedule'' e)))
       | Inr cronExpr \<Rightarrow>
           (let tz = (if cq_Timezone req = '''' then ''UTC'' else cq_Timezone req) in
            case load_location L tz of
              None \<Rightarrow> Some (Ok (d, Inl (Errorf (''invalid timezone '' @ tz))))
            | Some loc \<Rightarrow>
                (case first_run L now req cronExpr loc of
                   None \<Rightarrow> None
                 | Some Panic \<Rightarrow> Some Panic
                 | Some (Error e) \<Rightarrow> Some (Ok (d, Inl (Errorf ''cron parse error'')))
                 | Some (Ok nextRun) \<Rightarrow>
                     (case sched_repo_Create U (new_schedule caller req cronExpr tz nextRun) d of
                        (d, Inl e) \<Rightarrow> Some (Ok (d, Inl (Wrapf ''creating schedule'' e)))
                      | (d, Inr sc) \<Rightarrow> Some (Ok (d, Inr sc))))))"

definition updated_fields :: "UpdateScheduleRequest \<Rightarrow> Schedule \<Rightarrow> Schedule" where
  "updated_fields req sc = sc\<lparr>sc_Name := set_opt (uq_Name req) (sc_Name sc), sc_Description := set_opt (uq_Description req) (sc_Description sc),
     sc_OperationType := set_opt (uq_OperationType req) (sc_OperationType sc), sc_TargetType := set_opt (uq_TargetType req) (sc_TargetType sc),
     sc_TargetIDs := set_opt (uq_TargetIDs req) (sc_TargetIDs sc), sc_Enabled := set_opt (uq_Enabled req) (sc_Enabled sc),
     sc_Status := (case uq_Enabled req of None \<Rightarrow> sc_Status sc | Some b \<Rightarrow> if b then ScheduleActive else SchedulePaused),
     sc_MaxRuns := set_opt (uq_MaxRuns req) (sc_MaxRuns sc),
     sc_ExpiresAt := (case uq_ExpiresAt req of None \<Rightarrow> sc_ExpiresAt sc | Some e \<Rightarrow> Some e),
     sc_Payload := (case uq_Payload req of None \<Rightarrow> sc_Payload sc | Some p \<Rightarrow> Some p)\<rparr>"

definition rescheduled :: "sched_lib \<Rightarrow> int \<Rightarrow> UpdateScheduleRequest \<Rightarrow> Schedule \<Rightarrow> (go_error + Schedule) go" where
  "rescheduled L now req sc =
     (let schedType = set_opt (uq_ScheduleType req) (sc_ScheduleType sc); cronExpr = set_opt (uq_CronExpression req) (sc_CronExpression sc) in
      if uq_ScheduleType req = None \<and> uq_CronExpression req = None then Some (Ok (Inr sc))
      else bind_go (normaliseCron schedType cronExpr) (\<lambda>c.
        case c of
          Inl e \<Rightarrow> Some (Ok (Inl (Wrapf ''invalid schedule'' e)))
        | Inr newCron \<Rightarrow>
            (let sc = sc\<lparr>sc_ScheduleType := schedType, sc_CronExpression := newCron\<rparr>;
                 loc = (case load_location L (set_opt (uq_Timezone req) (sc_Timezone sc)) of None \<Rightarrow> UTC | Some loc \<Rightarrow> loc) in
             if schedType = ScheduleTypeOnce then Some (Ok (Inr sc))
             else (case next_run newCron now loc of
                     None \<Rightarrow> None
                   | Some Panic \<Rightarrow> Some Panic
                   | Some (Error e) \<Rightarrow> Some (Ok (Inr sc))
                   | Some (Ok None) \<Rightarrow> Some (Ok (Inr sc))
                   | Some (Ok (Some t)) \<Rightarrow> Some (Ok (Inr (sc\<lparr>sc_NextRunAt := Some t\<rparr>)))))))"

definition schedule_Update ::
  "sched_lib \<Rightarrow> int \<Rightarrow> string \<Rightarrow> UpdateScheduleRequest \<Rightarrow> schedule_db \<Rightarrow> (schedule_db \<times> (go_error + Schedule)) go" where
  "schedule_Update L now i req d =
     (case sched_repo_GetByID i d of
        (d, Inl e) \<Rightarrow> Some (Ok (d, Inl e))
      | (d, Inr sc) \<Rightarrow>
          bind_go (rescheduled L now req (updated_fields req sc)) (\<lambda>r.
            case r of
              Inl e \<Rightarrow> Some (Ok (d, Inl e))
            | Inr sc \<Rightarrow>
                (let sc = sc\<lparr>sc_Timezone := set_opt (uq_Timezone req) (sc_Timezone sc)\<rparr> in
                 case sched_repo_Update sc d of
                   (d, Inl e) \<Rightarrow> Some (Ok (d, Inl (Wrapf ''updating schedule'' e)))
                 | (d, Inr _) \<Rightarrow> Some (Ok (d, Inr sc)))))"

definition schedule_set_enabled :: "bool \<Rightarrow> string \<Rightarrow> schedule_db \<Rightarrow> schedule_db \<times> go_error option" where
  "schedule_set_enabled b i d =
     (case sched_repo_GetByID i d of
        (d, Inl e) \<Rightarrow> (d, Some e)
      | (d, Inr sc) \<Rightarrow>
          (case sched_repo_Update (sc\<lparr>sc_Enabled := b, sc_Status := (if b then ScheduleActive else SchedulePaused)\<rparr>) d of
             (d, Inl e) \<Rightarrow> (d, Some e)
           | (d, Inr _) \<Rightarrow> (d, None)))"

definition schedule_Enable :: "string \<Rightarrow> schedule_db \<Rightarrow> schedule_db \<times> go_error option" where
  "schedule_Enable i d = schedule_set_enabled True i d"

definition schedule_Disable :: "string \<Rightarrow> schedule_db \<Rightarrow> schedule_db \<times> go_error option" where
  "schedule_Disable i d = schedule_set_enabled False i d"

definition schedule_Delete :: "int \<Rightarrow> string \<Rightarrow> schedule_db \<Rightarrow> schedule_db \<times> (go_error + unit)" where
  "schedule_Delete now i d = sched_repo_Delete now i d"

text \<open>The engine is injected after the service has been built.\<close>

definition TriggerNow ::
  "uuid_lib \<Rightarrow> 's SchedulerOps option \<Rightarrow> int \<Rightarrow> string \<Rightarrow> schedule_db \<times> 's \<Rightarrow> (schedule_db \<times> 's) \<times> (go_error + string)" where
  "TriggerNow U engine now i = (\<lambda>(d, s).
     case sched_repo_GetByID i d of
       (d, Inl e) \<Rightarrow> ((d, s), Inl (Wrapf ''schedule not found'' e))
     | (d, Inr sc) \<Rightarrow>
         (case engine of
            None \<Rightarrow> ((d, s), Inl (Errorf ''scheduler engine not available''))
          | Some ops \<Rightarrow>
              (case sched_dispatch ops now sc s of
                 (s, Inl e) \<Rightarrow> ((d, s), Inl (Wrapf ''trigger schedule'' e))
               | (s, Inr taskID) \<Rightarrow> ((fst (exec_Create (execution_of U now sc (Inr taskID)) d), s), Inr taskID))))"


section \<open>What a firing does\<close>

lemma sched_stmt_clean [simp]: "sdb_faults d = [] \<Longrightarrow> sched_stmt f d = f d"
  by (simp add: sched_stmt_def)

definition recorded :: "ScheduleExecution \<Rightarrow> string \<Rightarrow> ScheduleRunUpdate \<Rightarrow> schedule_db \<Rightarrow> schedule_db" where
  "recorded e i u d = d\<lparr>sdb_executions := sdb_executions d @ [e],
     sdb_schedules := map (\<lambda>x. if sc_ID x = i \<and> sc_DeletedAt x = None then apply_update u x else x) (sdb_schedules d)\<rparr>"

lemma fire_clean:
  assumes "sdb_faults d = []" "computeNextRun L sc firedAt = Some (Ok nextRun)"
  shows "fire U L ops now firedAt sc (d, s) =
    (let (s', r) = sched_dispatch ops now sc s
     in Some (Ok (recorded (execution_of U firedAt sc r) (sc_ID sc) (run_update U now firedAt sc nextRun r) d, s')))"
  using assms by (simp add: fire_def exec_Create_def UpdateAfterRun_def recorded_def split_beta Let_def)

lemma fire_cases:
  assumes "sdb_faults d = []" "fire U L ops now firedAt sc (d, s) = Some (Ok (d', s'))"
  obtains "d' = d" | nextRun r where "d' = recorded (execution_of U firedAt sc r) (sc_ID sc) (run_update U now firedAt sc nextRun r) d"
proof (cases "\<exists>nextRun. computeNextRun L sc firedAt = Some (Ok nextRun)")
  case True
  then obtain nextRun where "computeNextRun L sc firedAt = Some (Ok nextRun)" by blast
  then have "d' = recorded (execution_of U firedAt sc (snd (sched_dispatch ops now sc s))) (sc_ID sc)
      (run_update U now firedAt sc nextRun (snd (sched_dispatch ops now sc s))) d"
    using assms(2) fire_clean [OF assms(1), of L sc firedAt nextRun U ops now s] by (simp add: split_beta Let_def)
  then show thesis by (rule that(2))
next
  case False
  with assms(2) that(1) show thesis
    by (cases "computeNextRun L sc firedAt") (auto simp: fire_def split: outcome.splits)
qed

lemma apply_update_simps [simp]:
  "sc_ID (apply_update u x) = sc_ID x" "sc_DeletedAt (apply_update u x) = sc_DeletedAt x" "sc_Enabled (apply_update u x) = sc_Enabled x"
  "sc_MaxRuns (apply_update u x) = sc_MaxRuns x" "sc_RunCount (apply_update u x) = ru_RunCount u"
  "sc_Status (apply_update u x) = ru_Status u" "sc_NextRunAt (apply_update u x) = ru_NextRunAt u"
  by (simp_all add: apply_update_def)

lemma run_update_simps [simp]:
  "ru_RunCount (run_update U now t sc n r) = sc_RunCount sc + 1" "ru_Status (run_update U now t sc n r) = status_after_run now sc"
  "ru_NextRunAt (run_update U now t sc n r) = n"
  by (simp_all add: run_update_def)

lemma execution_of_simps [simp]:
  "se_ScheduleID (execution_of U t sc r) = sc_ID sc" "se_TriggeredAt (execution_of U t sc r) = t"
  by (simp_all add: execution_of_def)

lemma recorded_simps [simp]:
  "sdb_faults (recorded e i u d) = sdb_faults d" "sdb_executions (recorded e i u d) = sdb_executions d @ [e]"
  "sdb_schedules (recorded e i u d) = map (\<lambda>x. if sc_ID x = i \<and> sc_DeletedAt x = None then apply_update u x else x) (sdb_schedules d)"
  by (simp_all add: recorded_def)

lemma recorded_ids: "map sc_ID (sdb_schedules (recorded e i u d)) = map sc_ID (sdb_schedules d)"
  by simp

text \<open>Rows are told apart by their identifiers.\<close>

definition rows_ok :: "schedule_db \<Rightarrow> bool" where
  "rows_ok d \<longleftrightarrow> sdb_faults d = [] \<and> distinct (map sc_ID (sdb_schedules d))"

lemma rows_ok_recorded: "rows_ok d \<Longrightarrow> rows_ok (recorded e i u d)"
  unfolding rows_ok_def recorded_ids by simp

lemma same_row:
  "rows_ok d \<Longrightarrow> x \<in> set (sdb_schedules d) \<Longrightarrow> y \<in> set (sdb_schedules d) \<Longrightarrow> sc_ID x = sc_ID y \<Longrightarrow> x = y"
  unfolding rows_ok_def by (metis distinct_map inj_onD)

lemma image_replace_one:
  assumes "a \<in> S" "\<And>x. x \<in> S \<Longrightarrow> P x \<longleftrightarrow> x = a"
  shows "(\<lambda>x. if P x then g x else x) ` S = insert (g a) (S - {a})"
  using assms by auto

lemma recorded_rows:
  assumes "rows_ok d" "sc \<in> set (sdb_schedules d)" "sc_DeletedAt sc = None"
  shows "set (sdb_schedules (recorded e (sc_ID sc) u d)) = insert (apply_update u sc) (set (sdb_schedules d) - {sc})"
  unfolding recorded_simps set_map
  by (rule image_replace_one [OF assms(2)]) (use assms(3) same_row [OF assms(1) _ assms(2)] in blast)

lemma first_candidate_after: "from < 1000000000 * first_candidate from"
proof -
  define q where "q = from div 60000000000"
  define r where "r = from mod 60000000000"
  have "r < 60000000000" "from = q * 60000000000 + r" by (simp_all add: q_def r_def)
  moreover have "first_candidate from = 60 * q + 60" by (simp add: first_candidate_def q_def)
  ultimately show ?thesis by simp
qed

text \<open>C23. A firing moves a recurring schedule on. With a working database and a zone of constant offset, firing a schedule
  whose expression parses always completes; its row counts the run, its next run is the first minute
  after the firing that matches the expression (none when four times 365 days hold none), so it is no
  longer due at the time it fired; and every other row is untouched.\<close>

theorem fire_reschedules:
  assumes "rows_ok d" "sc \<in> set (sdb_schedules d)" "sc_DeletedAt sc = None" "sc_ScheduleType sc \<noteq> ScheduleTypeOnce"
    "ParseCron (sc_CronExpression sc) = Some (Ok cs)" "load_location L (sc_Timezone sc) = Some (fixed_zone off)" "minute_zone off"
  shows "\<exists>d' s' row t. fire U L ops now firedAt sc (d, s) = Some (Ok (d', s')) \<and> row \<in> set (sdb_schedules d') \<and>
    sc_ID row = sc_ID sc \<and> sc_RunCount row = sc_RunCount sc + 1 \<and> sc_NextRunAt row = map_option ((*) 1000000000) t \<and>
    least_match cs (fixed_zone off) (60 * (firedAt div 60000000000) + 60) (60 * (firedAt div 60000000000) + 60 + four_years) t \<and>
    \<not> is_due firedAt row \<and>
    set (sdb_schedules d') = insert row (set (sdb_schedules d) - {sc})"
proof -
  obtain t where t: "Next cs firedAt (fixed_zone off) = Some t"
    "least_match cs (fixed_zone off) (first_candidate firedAt) (first_candidate firedAt + four_years) t"
    using Next_least [OF ParseCron_wf [OF assms(5)] assms(7)] by blast
  have c: "computeNextRun L sc firedAt = Some (Ok (map_option ((*) 1000000000) t))"
    using assms(4-6) t(1) by (simp add: computeNextRun_def next_run_def)
  obtain s' r where r: "sched_dispatch ops now sc s = (s', r)" by (metis surj_pair)
  define u where "u = run_update U now firedAt sc (map_option ((*) 1000000000) t) r"
  define d' where "d' = recorded (execution_of U firedAt sc r) (sc_ID sc) u d"
  have clean: "sdb_faults d = []" using assms(1) by (simp add: rows_ok_def)
  have f: "fire U L ops now firedAt sc (d, s) = Some (Ok (d', s'))"
    using fire_clean [OF clean c, of U ops now s] r by (simp add: d'_def u_def)
  have rows: "set (sdb_schedules d') = insert (apply_update u sc) (set (sdb_schedules d) - {sc})"
    by (simp add: d'_def recorded_rows [OF assms(1-3)] del: recorded_simps)
  have "\<not> is_due firedAt (apply_update u sc)"
  proof (cases t)
    case None
    then show ?thesis by (simp add: is_due_def u_def)
  next
    case (Some x)
    then have "first_candidate firedAt \<le> x" using t(2) by (simp add: least_match_def)
    then have "firedAt < 1000000000 * x" using first_candidate_after [of firedAt] by linarith
    with Some show ?thesis by (simp add: is_due_def u_def)
  qed
  with f rows t(2) show ?thesis
    by (intro exI [of _ d'] exI [of _ s'] exI [of _ "apply_update u sc"] exI [of _ t]) (simp add: u_def first_candidate_def)
qed


section \<open>Polls and firings interleaved\<close>

text \<open>
  The state of the running engine: the tables, the state the operations work on, and the firings that
  were started and have not run yet, each with the snapshot of its row and the time of its poll. With
  \<open>overlap\<close> a poll may come while firings are outstanding, as it can in the program, which does not wait for
  them; without it every poll finds the firings of the last one done.
\<close>

type_synonym 's engine_state = "schedule_db \<times> 's \<times> (Schedule \<times> int) list"

inductive sched_step :: "uuid_lib \<Rightarrow> sched_lib \<Rightarrow> 's SchedulerOps \<Rightarrow> bool \<Rightarrow> 's engine_state \<Rightarrow> 's engine_state \<Rightarrow> bool"
  for U L ops overlap where
  poll: "overlap \<or> fl = [] \<Longrightarrow> tick now d = (d', due) \<Longrightarrow>
     sched_step U L ops overlap (d, s, fl) (d', s, fl @ map (\<lambda>sc. (sc, now)) due)"
| firing: "fire U L ops now firedAt sc (d, s) = Some (Ok (d', s')) \<Longrightarrow>
     sched_step U L ops overlap (d, s, xs @ (sc, firedAt) # ys) (d', s', xs @ ys)"

inductive_cases sched_stepE: "sched_step U L ops overlap (d, s, fl) st"

abbreviation sched_reach where
  "sched_reach U L ops overlap \<equiv> (sched_step U L ops overlap)\<^sup>*\<^sup>*"

lemma tick_clean: "sdb_faults d = [] \<Longrightarrow> tick now d = (d, sort_key (\<lambda>s. the (sc_NextRunAt s)) (filter (is_due now) (sdb_schedules d)))"
  by (simp add: tick_def ListDue_def)

subsection \<open>Schedules that are not active do not fire\<close>

definition idle :: "Schedule \<Rightarrow> schedule_db \<Rightarrow> 's \<Rightarrow> (Schedule \<times> int) list \<Rightarrow> bool" where
  "idle sc d s fl \<longleftrightarrow> rows_ok d \<and> sc \<in> set (sdb_schedules d) \<and> (\<forall>(x, t) \<in> set fl. sc_ID x \<noteq> sc_ID sc) \<and>
     (\<forall>e \<in> set (sdb_executions d). se_ScheduleID e \<noteq> sc_ID sc)"

lemma idle_step:
  assumes "sched_step U L ops overlap (d, s, fl) (d', s', fl')" "idle sc d s fl" "\<And>t. \<not> is_due t sc"
  shows "idle sc d' s' fl'"
  using assms(1)
proof (cases rule: sched_step.cases)
  case (poll now due)
  have ok: "rows_ok d" using assms(2) by (simp add: idle_def)
  then have d: "d' = d" "set due = {x \<in> set (sdb_schedules d). is_due now x}"
    using poll tick_clean [of d now] by (auto simp: rows_ok_def)
  have "sc_ID x \<noteq> sc_ID sc" if "x \<in> set due" for x
    using that d(2) assms(2,3) same_row [OF ok] by (auto simp: idle_def)
  with assms(2) poll d(1) show ?thesis by (auto simp: idle_def)
next
  case (firing now t x xs ys)
  have ok: "rows_ok d" and ne: "sc_ID x \<noteq> sc_ID sc" using assms(2) firing(1) by (auto simp: idle_def)
  have clean: "sdb_faults d = []" using ok by (simp add: rows_ok_def)
  show ?thesis
    using clean firing(3)
  proof (cases rule: fire_cases)
    case 1
    with assms(2) firing show ?thesis by (auto simp: idle_def)
  next
    case (2 nextRun r)
    have "sc \<in> set (sdb_schedules d')" using assms(2) ne unfolding 2 by (force simp: idle_def image_iff)
    with assms(2) firing ne rows_ok_recorded [OF ok] show ?thesis by (auto simp: idle_def 2)
  qed
qed

text \<open>A paused schedule stays quiet. A schedule that is disabled, deleted, not active or has no next run is never fired by
  the engine, however polls and firings interleave: its row stays as it is and no execution of it is
  recorded.\<close>

theorem idle_schedule_never_fires:
  assumes "rows_ok d" "sdb_executions d = []" "sc \<in> set (sdb_schedules d)"
    "\<not> sc_Enabled sc \<or> sc_Status sc \<noteq> ScheduleActive \<or> sc_DeletedAt sc \<noteq> None \<or> sc_NextRunAt sc = None"
    "sched_reach U L ops overlap (d, s, []) (d', s', fl)"
  shows "sc \<in> set (sdb_schedules d') \<and> sc_ID sc \<notin> se_ScheduleID ` set (sdb_executions d') \<and> sc_ID sc \<notin> (sc_ID \<circ> fst) ` set fl"
proof -
  have nd: "\<not> is_due t sc" for t using assms(4) by (auto simp: is_due_def)
  have "case st of (d', s', fl) \<Rightarrow> idle sc d' s' fl" if "sched_reach U L ops overlap (d, s, []) st" for st
    using that
  proof (induction rule: rtranclp_induct)
    case base
    show ?case using assms(1-3) by (simp add: idle_def)
  next
    case (step y z)
    then show ?case by (cases y; cases z) (auto intro: idle_step [OF _ _ nd])
  qed
  from this [OF assms(5)] show ?thesis by (auto simp: idle_def)
qed


subsection \<open>The limit on runs\<close>

definition runs :: "schedule_db \<Rightarrow> string \<Rightarrow> int" where
  "runs d i = int (length (filter (\<lambda>e. se_ScheduleID e = i) (sdb_executions d)))"

lemma runs_recorded [simp]: "runs (recorded e i u d) j = runs d j + (if se_ScheduleID e = j then 1 else 0)"
  by (simp add: runs_def)

definition within_limit :: "schedule_db \<Rightarrow> Schedule \<Rightarrow> bool" where
  "within_limit d sc \<longleftrightarrow> sc_RunCount sc = runs d (sc_ID sc) \<and>
     (sc_MaxRuns sc > 0 \<longrightarrow> sc_RunCount sc \<le> sc_MaxRuns sc \<and> (sc_Status sc = ScheduleActive \<longrightarrow> sc_RunCount sc < sc_MaxRuns sc))"

definition paced :: "schedule_db \<Rightarrow> (Schedule \<times> int) list \<Rightarrow> bool" where
  "paced d fl \<longleftrightarrow> rows_ok d \<and> (\<forall>sc \<in> set (sdb_schedules d). within_limit d sc) \<and> distinct (map (sc_ID \<circ> fst) fl) \<and>
     (\<forall>(sc, t) \<in> set fl. sc \<in> set (sdb_schedules d) \<and> is_due t sc)"

lemma within_limit_fired:
  assumes "within_limit d sc" "is_due t sc"
  shows "within_limit (recorded (execution_of U firedAt sc r) (sc_ID sc) (run_update U now firedAt sc n r) d)
     (apply_update (run_update U now firedAt sc n r) sc)"
proof -
  have st: "sc_Status sc = ScheduleActive" using assms(2) by (simp add: is_due_def)
  have "status_after_run now sc = ScheduleActive \<Longrightarrow> sc_MaxRuns sc > 0 \<Longrightarrow> sc_RunCount sc + 1 < sc_MaxRuns sc"
    by (auto simp: status_after_run_def Let_def split: if_splits option.splits)
  with assms(1) st show ?thesis by (auto simp: within_limit_def)
qed

lemma paced_poll:
  assumes "paced d []" "tick now d = (d', due)"
  shows "paced d' (map (\<lambda>sc. (sc, now)) due)"
proof -
  have ok: "rows_ok d" using assms(1) by (simp add: paced_def)
  then have d: "d' = d" "due = sort_key (\<lambda>s. the (sc_NextRunAt s)) (filter (is_due now) (sdb_schedules d))"
    using assms(2) tick_clean [of d now] by (auto simp: rows_ok_def)
  have "distinct (map sc_ID due)"
    using ok unfolding d(2) rows_ok_def by (auto simp: distinct_map inj_on_def)
  then show ?thesis using assms(1) d by (auto simp: paced_def comp_def)
qed

lemma paced_firing:
  assumes "paced d (xs @ (sc, t) # ys)" "fire U L ops now t sc (d, s) = Some (Ok (d', s'))"
  shows "paced d' (xs @ ys)"
proof -
  have ok: "rows_ok d" and sc: "sc \<in> set (sdb_schedules d)" "is_due t sc" "within_limit d sc"
    using assms(1) by (auto simp: paced_def)
  have del: "sc_DeletedAt sc = None" using sc(2) by (simp add: is_due_def)
  have clean: "sdb_faults d = []" using ok by (simp add: rows_ok_def)
  show ?thesis
    using clean assms(2)
  proof (cases rule: fire_cases)
    case 1
    with assms(1) show ?thesis by (auto simp: paced_def)
  next
    case (2 nextRun r)
    note rows = recorded_rows [OF ok sc(1) del]
    have old: "within_limit d' x" if "x \<in> set (sdb_schedules d)" "x \<noteq> sc" for x
    proof -
      have "sc_ID x \<noteq> sc_ID sc" using same_row [OF ok that(1) sc(1)] that(2) by blast
      with assms(1) that(1) show ?thesis by (auto simp: paced_def within_limit_def 2)
    qed
    have "within_limit d' x" if "x \<in> set (sdb_schedules d')" for x
      using that old within_limit_fired [OF sc(3,2)] unfolding 2 rows by blast
    moreover have "x \<in> set (sdb_schedules d') \<and> is_due t' x" if "(x, t') \<in> set (xs @ ys)" for x t'
    proof -
      have "x \<in> set (sdb_schedules d)" "is_due t' x" using assms(1) that by (auto simp: paced_def)
      moreover have "sc_ID sc \<notin> set (map (sc_ID \<circ> fst) (xs @ ys))" using assms(1) by (simp add: paced_def)
      then have "x \<noteq> sc" using that by (force simp: image_iff)
      ultimately show ?thesis unfolding 2 rows by blast
    qed
    moreover have "rows_ok d'" unfolding 2 by (rule rows_ok_recorded [OF ok])
    moreover have "distinct (map (sc_ID \<circ> fst) (xs @ ys))" using assms(1) by (simp add: paced_def)
    ultimately show ?thesis unfolding paced_def by blast
  qed
qed

lemma paced_step:
  assumes "sched_step U L ops False (d, s, fl) (d', s', fl')" "paced d fl"
  shows "paced d' fl'"
  using assms(1)
proof (cases rule: sched_step.cases)
  case (poll now due)
  with assms(2) paced_poll [of d now d' due] show ?thesis by simp
next
  case (firing now t x xs ys)
  with assms(2) show ?thesis using paced_firing [of d xs x t ys U L ops now s d' s'] by simp
qed


section \<open>A concrete engine\<close>

definition log_ops :: "string list SchedulerOps" where
  "log_ops = (let one = (\<lambda>t s. (s @ [t], Inr (''task-'' @ t))); many = (\<lambda>ts s. (s @ ts, Inr ''task-bulk''))
     in \<lparr>op_SyncInventory = one, op_VMPowerOn = one, op_VMPowerOff = one, op_VMReboot = one, op_VMSnapshot = one \<circ> fst,
         op_VMBulkPowerOn = many, op_VMBulkPowerOff = many, op_VMBulkReboot = many, op_VMBulkSnapshot = many \<circ> fst,
         op_Enqueue = (\<lambda>t p s. (s, None))\<rparr>)"

definition utc_lib :: sched_lib where
  "utc_lib = \<lparr>load_location = (\<lambda>s. if s = ''UTC'' then Some (fixed_zone 0) else None), parse_rfc3339 = (\<lambda>s. None)\<rparr>"

definition echo_uuids :: uuid_lib where
  "echo_uuids = \<lparr>uuid_parse = Some, uuid_new = show_nat\<rparr>"

definition demo_schedule :: "ScheduleType \<Rightarrow> bool \<Rightarrow> Schedule" where
  "demo_schedule ty en = \<lparr>sc_ID = ''s1'', sc_DeletedAt = None, sc_Name = ''nightly'', sc_Description = '''',
      sc_OperationType = ScheduleOpVMPowerOff, sc_TargetType = ''vm'', sc_TargetIDs = [''vm1''], sc_ScheduleType = ty,
      sc_CronExpression = DailyCron 9 0, sc_Timezone = ''UTC'', sc_Enabled = en, sc_Status = ScheduleActive, sc_LastRunAt = None,
      sc_NextRunAt = Some 0, sc_LastTaskID = None, sc_LastRunStatus = '''', sc_RunCount = 0, sc_FailureCount = 0, sc_MaxRuns = 1,
      sc_ExpiresAt = None, sc_Payload = None, sc_CreatedBy = None\<rparr>"

definition demo_sdb :: "ScheduleType \<Rightarrow> bool \<Rightarrow> schedule_db" where
  "demo_sdb ty en = \<lparr>sdb_schedules = [demo_schedule ty en], sdb_executions = [], sdb_next = 0, sdb_faults = []\<rparr>"

lemma demo_sdb_ok [simp]: "rows_ok (demo_sdb ty en)" "sdb_executions (demo_sdb ty en) = []"
  "sdb_schedules (demo_sdb ty en) = [demo_schedule ty en]" "sdb_faults (demo_sdb ty en) = []"
  by (simp_all add: demo_sdb_def rows_ok_def)

definition fired_once :: schedule_db where
  "fired_once = recorded (execution_of echo_uuids 5 (demo_schedule ScheduleTypeOnce True) (Inr ''task-vm1'')) ''s1''
     (run_update echo_uuids 6 5 (demo_schedule ScheduleTypeOnce True) None (Inr ''task-vm1'')) (demo_sdb ScheduleTypeOnce True)"

definition fired_twice :: schedule_db where
  "fired_twice = recorded (execution_of echo_uuids 5 (demo_schedule ScheduleTypeOnce True) (Inr ''task-vm1'')) ''s1''
     (run_update echo_uuids 6 5 (demo_schedule ScheduleTypeOnce True) None (Inr ''task-vm1'')) fired_once"

lemma demo_fire:
  assumes "sdb_faults d = []"
  shows "fire echo_uuids utc_lib log_ops 6 5 (demo_schedule ScheduleTypeOnce True) (d, s) =
    Some (Ok (recorded (execution_of echo_uuids 5 (demo_schedule ScheduleTypeOnce True) (Inr ''task-vm1'')) ''s1''
     (run_update echo_uuids 6 5 (demo_schedule ScheduleTypeOnce True) None (Inr ''task-vm1'')) d, s @ [''vm1'']))"
proof -
  have "computeNextRun utc_lib (demo_schedule ScheduleTypeOnce True) 5 = Some (Ok None)"
    by (simp add: computeNextRun_def demo_schedule_def)
  moreover have "sched_dispatch log_ops 6 (demo_schedule ScheduleTypeOnce True) s = (s @ [''vm1''], Inr ''task-vm1'')"
    by (simp add: sched_dispatch_def demo_schedule_def dispatchVMOp_def log_ops_def Let_def)
  moreover have "sc_ID (demo_schedule ScheduleTypeOnce True) = ''s1''" by (simp add: demo_schedule_def)
  ultimately show ?thesis using fire_clean [OF assms, of utc_lib "demo_schedule ScheduleTypeOnce True" 5 None echo_uuids log_ops 6 s] by simp
qed

text \<open>Overlapping polls run a schedule twice. Since a row is only updated after its operation has been dispatched, a poll
  that comes before finds the schedule still due: a one-time schedule limited to one run powers its
  virtual machine off twice, two executions are recorded, and the run count says one.\<close>

theorem overlapping_polls_fire_twice:
  "\<exists>d' row. sched_reach echo_uuids utc_lib log_ops True (demo_sdb ScheduleTypeOnce True, [], []) (d', [''vm1'', ''vm1''], []) \<and>
     sdb_schedules d' = [row] \<and> sc_MaxRuns row = 1 \<and> sc_RunCount row = 1 \<and> runs d' (sc_ID row) = 2"
proof -
  let ?sc = "demo_schedule ScheduleTypeOnce True" and ?d = "demo_sdb ScheduleTypeOnce True"
  let ?step = "sched_step echo_uuids utc_lib log_ops True"
  have due: "tick 5 ?d = (?d, [?sc])"
    by (simp add: tick_clean is_due_def) (simp add: demo_schedule_def)
  have "?step (?d, [], []) (?d, [], [(?sc, 5)])"
    using sched_step.poll [OF _ due, of True "[]" echo_uuids utc_lib log_ops "[]"] by simp
  moreover have "?step (?d, [], [(?sc, 5)]) (?d, [], [(?sc, 5), (?sc, 5)])"
    using sched_step.poll [OF _ due, of True "[(?sc, 5)]" echo_uuids utc_lib log_ops "[]"] by simp
  moreover have "?step (?d, [], [(?sc, 5), (?sc, 5)]) (fired_once, [''vm1''], [(?sc, 5)])"
    using sched_step.firing [OF demo_fire [of ?d "[]"], of True "[]" "[(?sc, 5)]"] by (simp add: fired_once_def)
  moreover have "?step (fired_once, [''vm1''], [(?sc, 5)]) (fired_twice, [''vm1'', ''vm1''], [])"
    using sched_step.firing [OF demo_fire [of fired_once "[''vm1'']"], of True "[]" "[]"] by (simp add: fired_once_def fired_twice_def)
  ultimately have "sched_reach echo_uuids utc_lib log_ops True (?d, [], []) (fired_twice, [''vm1'', ''vm1''], [])"
    by (meson converse_rtranclp_into_rtranclp rtranclp.rtrancl_refl)
  moreover have "\<exists>row. sdb_schedules fired_twice = [row] \<and> sc_MaxRuns row = 1 \<and> sc_RunCount row = 1 \<and> runs fired_twice (sc_ID row) = 2"
    by (simp add: fired_twice_def fired_once_def) (simp add: demo_schedule_def runs_def)
  ultimately show ?thesis by blast
qed


theorem fire_reschedules_witness:
  "\<exists>d' s' row t. fire echo_uuids utc_lib log_ops 6 5 (demo_schedule ScheduleTypeDaily True) (demo_sdb ScheduleTypeDaily True, []) = Some (Ok (d', s')) \<and>
     row \<in> set (sdb_schedules d') \<and> sc_RunCount row = 1 \<and> \<not> is_due 5 row \<and> least_match daily_nine UTC 60 (60 + four_years) t"
proof -
  let ?sc = "demo_schedule ScheduleTypeDaily True"
  have "?sc \<in> set (sdb_schedules (demo_sdb ScheduleTypeDaily True))" "sc_DeletedAt ?sc = None" "sc_ScheduleType ?sc \<noteq> ScheduleTypeOnce"
    "ParseCron (sc_CronExpression ?sc) = Some (Ok daily_nine)" "load_location utc_lib (sc_Timezone ?sc) = Some (fixed_zone 0)" "minute_zone 0"
    "sc_RunCount ?sc = 0"
    by (simp_all add: demo_schedule_def utc_lib_def ParseCron_daily_nine)
  with fire_reschedules [of "demo_sdb ScheduleTypeDaily True" ?sc daily_nine utc_lib 0 echo_uuids log_ops 6 5 "[]"]
  show ?thesis by (fastforce simp: UTC_def)
qed

theorem idle_schedule_never_fires_witness:
  "sched_reach echo_uuids utc_lib log_ops True (demo_sdb ScheduleTypeOnce False, [], []) (demo_sdb ScheduleTypeOnce False, [], []) \<and>
   sc_ID (demo_schedule ScheduleTypeOnce False) \<notin> se_ScheduleID ` set (sdb_executions (demo_sdb ScheduleTypeOnce False))"
proof -
  let ?d = "demo_sdb ScheduleTypeOnce False"
  have "tick 5 ?d = (?d, [])" by (simp add: tick_clean is_due_def) (simp add: demo_schedule_def)
  then have "sched_step echo_uuids utc_lib log_ops True (?d, [], []) (?d, [], [])"
    using sched_step.poll [of True "[]" 5 ?d ?d "[]" echo_uuids utc_lib log_ops "[]"] by simp
  then have r: "sched_reach echo_uuids utc_lib log_ops True (?d, [], []) (?d, [], [])" by (rule r_into_rtranclp)
  moreover have "\<not> sc_Enabled (demo_schedule ScheduleTypeOnce False)" by (simp add: demo_schedule_def)
  ultimately show ?thesis using idle_schedule_never_fires [OF _ _ _ _ r, of "demo_schedule ScheduleTypeOnce False"] by simp
qed


end
