(* ===== verification/Workflow.thy ===== *)
theory Workflow
  imports Scheduler "HOL-Library.Char_ord" "HOL-Library.List_Lexorder"
begin

text \<open>
  The workflow engine (\<^verbatim>\<open>internal/scheduler/workflow_engine.go\<close>), the workflow model and repositories
  (\<^verbatim>\<open>internal/domain/model/workflow.go\<close>, \<^verbatim>\<open>internal/infrastructure/repository/workflow_repo.go\<close>) and the workflow service
  (\<^verbatim>\<open>internal/service/workflow_service.go\<close>).

  The operations an action calls, the HTTP client, the sleeping and the context with its deadline are
  arguments, over a state of any type. The formatting of floating-point numbers is a parameter.
\<close>

section \<open>Data\<close>

datatype WorkflowTriggerType =
    WorkflowTriggerSchedule | WorkflowTriggerProviderDisconnected | WorkflowTriggerSyncFailure
  | WorkflowTriggerTaskFailure | WorkflowTriggerVMStateChange | WorkflowTriggerManual

datatype WorkflowStatus = WorkflowActive | WorkflowPaused | WorkflowDisabled

datatype WorkflowRunStatus = RunPending | RunRunning | RunCompleted | RunFailed | RunCancelled

datatype WorkflowActionType =
    WorkflowActionCreateSnapshot | WorkflowActionPowerOn | WorkflowActionPowerOff | WorkflowActionReboot
  | WorkflowActionSendNotification | WorkflowActionTriggerSync | WorkflowActionWebhook | WorkflowActionDelay
  | WorkflowActionOther string

record WorkflowAction =
  wa_WorkflowID :: string
  wa_Order :: int
  wa_ActionType :: WorkflowActionType
  wa_Name :: string
  wa_Description :: string
  wa_Config :: jmap
  wa_RetryCount :: int
  wa_TimeoutSeconds :: int
  wa_ContinueOnError :: "bool option"

record Workflow =
  wf_ID :: string
  wf_DeletedAt :: "int option"
  wf_Name :: string
  wf_Description :: string
  wf_Enabled :: bool
  wf_Status :: WorkflowStatus
  wf_TriggerType :: WorkflowTriggerType
  wf_TriggerConfig :: jmap
  wf_Conditions :: jmap
  wf_ContinueOnError :: bool
  wf_MaxConcurrentRuns :: int
  wf_RunCount :: int
  wf_FailureCount :: int
  wf_LastRunAt :: "int option"
  wf_LastRunStatus :: string
  wf_CreatedBy :: "string option"
  wf_Actions :: "WorkflowAction list"

text \<open>One entry of the log of a run: the action, its order and how it ended.\<close>

record run_log_entry =
  le_Action :: string
  le_ActionType :: WorkflowActionType
  le_Order :: int
  le_Error :: "string option"

record WorkflowRun =
  wr_ID :: string
  wr_WorkflowID :: string
  wr_Status :: WorkflowRunStatus
  wr_TriggerType :: WorkflowTriggerType
  wr_TriggerData :: jmap
  wr_StartedAt :: "int option"
  wr_CompletedAt :: "int option"
  wr_ErrorMessage :: string
  wr_ActionsRun :: int
  wr_ActionsFailed :: int
  wr_Logs :: "run_log_entry list"
  wr_TriggeredBy :: "string option"

record webhook_request =
  wh_Method :: string
  wh_URL :: string
  wh_Run :: WorkflowRun
  wh_Message :: "string option"
  wh_Headers :: "(string \<times> string) list"

record workflow_event =
  ev_WorkflowID :: string
  ev_WorkflowName :: string
  ev_RunID :: string
  ev_Message :: string

text \<open>
  \<open>ctx_WithTimeout\<close> sets the deadline of the context an action runs in, \<open>ctx_Wait\<close> waits for some seconds or for
  the end of the context, \<open>http_NewRequest\<close> checks a request and \<open>http_Do\<close> sends a request and gives the status code.
\<close>

record 's WorkflowOps =
  wo_VMPowerOn :: "('s, string) op"
  wo_VMPowerOff :: "('s, string) op"
  wo_VMReboot :: "('s, string) op"
  wo_VMSnapshot :: "('s, string \<times> SnapshotSpec) op"
  wo_SyncInventory :: "('s, string) op"
  wo_ListVMsByTag :: "(string \<Rightarrow> 's \<Rightarrow> 's \<times> (go_error + string list)) option"
  wo_DispatchEvent :: "(workflow_event \<Rightarrow> 's \<Rightarrow> 's \<times> go_error option) option"
  wo_Enqueue :: "(string \<Rightarrow> int \<Rightarrow> 's \<Rightarrow> 's \<times> go_error option) option"
  http_NewRequest :: "webhook_request \<Rightarrow> go_error option"
  http_Do :: "webhook_request \<Rightarrow> 's \<Rightarrow> 's \<times> (go_error + int)"
  ctx_WithTimeout :: "int \<Rightarrow> 's \<Rightarrow> 's"
  ctx_Wait :: "int \<Rightarrow> 's \<Rightarrow> 's \<times> go_error option"
  time_Sleep :: "int \<Rightarrow> 's \<Rightarrow> 's"

record CreateWorkflowActionRequest =
  cw_Order :: int
  cw_ActionType :: WorkflowActionType
  cw_Name :: string
  cw_Description :: string
  cw_Config :: jmap
  cw_RetryCount :: int
  cw_TimeoutSeconds :: int
  cw_ContinueOnError :: "bool option"

record CreateWorkflowRequest =
  cwf_Name :: string
  cwf_Description :: string
  cwf_Enabled :: bool
  cwf_TriggerType :: WorkflowTriggerType
  cwf_TriggerConfig :: jmap
  cwf_Conditions :: jmap
  cwf_ContinueOnError :: bool
  cwf_MaxConcurrentRuns :: int
  cwf_Actions :: "CreateWorkflowActionRequest list"

record UpdateWorkflowRequest =
  uwf_Name :: "string option"
  uwf_Description :: "string option"
  uwf_Enabled :: "bool option"
  uwf_TriggerType :: "WorkflowTriggerType option"
  uwf_TriggerConfig :: "jmap option"
  uwf_Conditions :: "jmap option"
  uwf_ContinueOnError :: "bool option"
  uwf_MaxConcurrentRuns :: "int option"
  uwf_Actions :: "CreateWorkflowActionRequest list option"

record workflow_db =
  wdb_workflows :: "Workflow list"
  wdb_actions :: "WorkflowAction list"
  wdb_runs :: "WorkflowRun list"
  wdb_next :: nat
  wdb_faults :: "go_error option list"

section \<open>Repositories\<close>

definition wf_stmt :: "(workflow_db \<Rightarrow> workflow_db \<times> (go_error + 'a)) \<Rightarrow> workflow_db \<Rightarrow> workflow_db \<times> (go_error + 'a)" where
  "wf_stmt f d =
     (case wdb_faults d of
        [] \<Rightarrow> f d
      | None # fs \<Rightarrow> f (d\<lparr>wdb_faults := fs\<rparr>)
      | Some e # fs \<Rightarrow> (d\<lparr>wdb_faults := fs\<rparr>, Inl e))"

definition with_actions :: "workflow_db \<Rightarrow> Workflow \<Rightarrow> Workflow" where
  "with_actions d w = w\<lparr>wf_Actions := sort_key wa_Order (filter (\<lambda>a. wa_WorkflowID a = wf_ID w) (wdb_actions d))\<rparr>"

text \<open>
  Writing a workflow also inserts the actions it carries that are not stored yet; actions it no longer
  carries stay in their table. The insert applies the defaults of columns that hold a zero value.
\<close>

definition wf_repo_Create :: "uuid_lib \<Rightarrow> Workflow \<Rightarrow> workflow_db \<Rightarrow> workflow_db \<times> (go_error + Workflow)" where
  "wf_repo_Create U w = wf_stmt (\<lambda>d.
     let i = uuid_new U (wdb_next d);
         w = w\<lparr>wf_ID := i, wf_Enabled := (if \<not> wf_Enabled w then True else wf_Enabled w),
               wf_MaxConcurrentRuns := (if wf_MaxConcurrentRuns w = 0 then 1 else wf_MaxConcurrentRuns w),
               wf_Actions := map (\<lambda>a. a\<lparr>wa_WorkflowID := i\<rparr>) (wf_Actions w)\<rparr>
     in (d\<lparr>wdb_workflows := wdb_workflows d @ [w\<lparr>wf_Actions := []\<rparr>], wdb_actions := wdb_actions d @ wf_Actions w,
           wdb_next := wdb_next d + 1\<rparr>, Inr w))"

definition wf_repo_GetByID :: "string \<Rightarrow> workflow_db \<Rightarrow> workflow_db \<times> (go_error + Workflow)" where
  "wf_repo_GetByID i = wf_stmt (\<lambda>d.
     (d, case find (\<lambda>w. wf_ID w = i \<and> wf_DeletedAt w = None) (wdb_workflows d) of
           None \<Rightarrow> Inl (Errorf ''record not found'') | Some w \<Rightarrow> Inr (with_actions d w)))"

definition wf_repo_Update :: "WorkflowAction list \<Rightarrow> Workflow \<Rightarrow> workflow_db \<Rightarrow> workflow_db \<times> (go_error + unit)" where
  "wf_repo_Update new w = wf_stmt (\<lambda>d.
     (d\<lparr>wdb_workflows := map (\<lambda>x. if wf_ID x = wf_ID w then w\<lparr>wf_Actions := []\<rparr> else x) (wdb_workflows d),
        wdb_actions := wdb_actions d @ new\<rparr>, Inr ()))"

definition wf_repo_Delete :: "int \<Rightarrow> string \<Rightarrow> workflow_db \<Rightarrow> workflow_db \<times> (go_error + unit)" where
  "wf_repo_Delete now i = wf_stmt (\<lambda>d.
     (d\<lparr>wdb_workflows := map (\<lambda>x. if wf_ID x = i \<and> wf_DeletedAt x = None then x\<lparr>wf_DeletedAt := Some now\<rparr> else x) (wdb_workflows d)\<rparr>, Inr ()))"

definition ListByTrigger :: "WorkflowTriggerType \<Rightarrow> workflow_db \<Rightarrow> workflow_db \<times> (go_error + Workflow list)" where
  "ListByTrigger t = wf_stmt (\<lambda>d.
     (d, Inr (map (with_actions d) (filter (\<lambda>w. wf_DeletedAt w = None \<and> wf_Enabled w \<and> wf_Status w = WorkflowActive \<and>
        wf_TriggerType w = t) (wdb_workflows d)))))"

definition wf_UpdateAfterRun :: "string \<Rightarrow> int \<Rightarrow> string \<Rightarrow> int \<Rightarrow> int \<Rightarrow> workflow_db \<Rightarrow> workflow_db \<times> (go_error + unit)" where
  "wf_UpdateAfterRun i lastRunAt lastRunStatus runCount failureCount = wf_stmt (\<lambda>d.
     (d\<lparr>wdb_workflows := map (\<lambda>x. if wf_ID x = i \<and> wf_DeletedAt x = None then x\<lparr>wf_LastRunAt := Some lastRunAt,
          wf_LastRunStatus := lastRunStatus, wf_RunCount := runCount, wf_FailureCount := failureCount\<rparr> else x) (wdb_workflows d)\<rparr>, Inr ()))"

definition run_repo_Create :: "WorkflowRun \<Rightarrow> workflow_db \<Rightarrow> workflow_db \<times> (go_error + unit)" where
  "run_repo_Create r = wf_stmt (\<lambda>d. (d\<lparr>wdb_runs := wdb_runs d @ [r]\<rparr>, Inr ()))"

definition run_repo_Update :: "WorkflowRun \<Rightarrow> workflow_db \<Rightarrow> workflow_db \<times> (go_error + unit)" where
  "run_repo_Update r = wf_stmt (\<lambda>d. (d\<lparr>wdb_runs := map (\<lambda>x. if wr_ID x = wr_ID r then r else x) (wdb_runs d)\<rparr>, Inr ()))"

definition CountActive :: "string \<Rightarrow> workflow_db \<Rightarrow> workflow_db \<times> (go_error + int)" where
  "CountActive i = wf_stmt (\<lambda>d. (d, Inr (int (length (filter (\<lambda>r. wr_WorkflowID r = i \<and>
     (wr_Status r = RunPending \<or> wr_Status r = RunRunning)) (wdb_runs d))))))"

section \<open>Conditions\<close>

text \<open>
  \<^verbatim>\<open>fmt.Sprintf("%v", x)\<close> of a value decoded from JSON. The text of a floating-point number is the
  parameter \<open>F\<close>; members of an object are printed in the order of their names.
\<close>

function sprint :: "(rat \<Rightarrow> string) \<Rightarrow> jval \<Rightarrow> string" where
  "sprint F JNull = ''<nil>''"
| "sprint F (JBool b) = (if b then ''true'' else ''false'')"
| "sprint F (JNum q) = F q"
| "sprint F (JStr s) = s"
| "sprint F (JArr vs) = ''['' @ Join (map (sprint F) vs) '' '' @ '']''"
| "sprint F (JObj ms) =
     ''map['' @ Join (map (\<lambda>(k, t). k @ '':'' @ t) (sort_key fst (map (\<lambda>(k, v). (k, sprint F v)) ms))) '' '' @ '']''"
  by pat_completeness auto
termination
proof (relation "measure (size \<circ> snd)")
  show "((F, v), F, JArr vs) \<in> measure (size \<circ> snd)" if "v \<in> set vs" for F :: "rat \<Rightarrow> string" and v vs
    using size_list_estimation' [OF that order_refl, of size] by simp
  show "((F, v), F, JObj ms) \<in> measure (size \<circ> snd)" if "kv \<in> set ms" "(k, v) = kv" for F :: "rat \<Rightarrow> string" and kv k v ms
  proof -
    have "size v \<le> size_prod (\<lambda>_. 0) size kv" by (simp add: that(2) [symmetric])
    from size_list_estimation' [where f = "size_prod (\<lambda>_. 0) size", OF that(1) this] show ?thesis by simp
  qed
qed simp

definition wf_evaluateCondition :: "(rat \<Rightarrow> string) \<Rightarrow> jval option \<Rightarrow> string \<Rightarrow> jval option \<Rightarrow> bool" where
  "wf_evaluateCondition F actual operator expected =
     (let text = (\<lambda>v. sprint F (case v of None \<Rightarrow> JNull | Some v \<Rightarrow> v))
      in if operator = ''eq'' \<or> operator = ''equals'' then text actual = text expected
         else if operator = ''neq'' \<or> operator = ''not_equals'' then text actual \<noteq> text expected
         else if operator = ''exists'' then (case actual of None \<Rightarrow> False | Some v \<Rightarrow> v \<noteq> JNull)
         else True)"

fun check_rules :: "(rat \<Rightarrow> string) \<Rightarrow> jval list \<Rightarrow> jmap \<Rightarrow> bool" where
  "check_rules F [] triggerData = True"
| "check_rules F (JObj rule # rs) triggerData =
     (if \<not> wf_evaluateCondition F (jget triggerData (jstring0 rule ''field'')) (jstring0 rule ''operator'') (jget rule ''value'') then False
      else check_rules F rs triggerData)"
| "check_rules F (_ # rs) triggerData = check_rules F rs triggerData"

definition checkConditions :: "(rat \<Rightarrow> string) \<Rightarrow> Workflow \<Rightarrow> jmap \<Rightarrow> bool" where
  "checkConditions F w triggerData =
     (if wf_Conditions w = [] then True
      else case jget (wf_Conditions w) ''rules'' of
             Some (JArr rules) \<Rightarrow> check_rules F rules triggerData
           | _ \<Rightarrow> True)"

section \<open>Actions\<close>

definition extractStringSlice :: "jmap \<Rightarrow> string \<Rightarrow> string list" where
  "extractStringSlice cfg key =
     (case jget cfg key of
        Some (JArr vs) \<Rightarrow> concat (map (\<lambda>v. case v of JStr s \<Rightarrow> [s] | _ \<Rightarrow> []) vs)
      | _ \<Rightarrow> [])"

fun resolve_tags :: "(string \<Rightarrow> 's \<Rightarrow> 's \<times> (go_error + string list)) \<Rightarrow> string list \<Rightarrow> string list \<Rightarrow> 's \<Rightarrow> 's \<times> (go_error + string list)" where
  "resolve_tags f [] vmIDs s = (s, Inr vmIDs)"
| "resolve_tags f (tag # tags) vmIDs s =
     (case f tag s of
        (s, Inl e) \<Rightarrow> (s, Inl (Wrapf (''resolving tag '' @ tag) e))
      | (s, Inr ids) \<Rightarrow> resolve_tags f tags (vmIDs @ ids) s)"

definition target_vms :: "'s WorkflowOps \<Rightarrow> jmap \<Rightarrow> 's \<Rightarrow> 's \<times> (go_error + string list)" where
  "target_vms ops cfg s =
     (case wo_ListVMsByTag ops of
        Some f \<Rightarrow> if jstring0 cfg ''target_type'' = ''tag'' then resolve_tags f (extractStringSlice cfg ''target_ids'') [] s
                  else (s, Inr (extractStringSlice cfg ''target_ids''))
      | None \<Rightarrow> (s, Inr (extractStringSlice cfg ''target_ids'')))"

definition wf_enqueue :: "'s WorkflowOps \<Rightarrow> string \<Rightarrow> 's \<Rightarrow> 's \<times> go_error option" where
  "wf_enqueue ops taskID s = (case wo_Enqueue ops of None \<Rightarrow> (s, None) | Some f \<Rightarrow> f taskID 5 s)"

fun each_vm :: "'s WorkflowOps \<Rightarrow> string \<Rightarrow> ('s, string) op \<Rightarrow> string list \<Rightarrow> 's \<Rightarrow> 's \<times> go_error option" where
  "each_vm ops msg op [] s = (s, None)"
| "each_vm ops msg op (vm # vms) s =
     (case op vm s of
        (s, Inl e) \<Rightarrow> (s, Some (Wrapf (msg @ vm) e))
      | (s, Inr taskID) \<Rightarrow> each_vm ops msg op vms (fst (wf_enqueue ops taskID s)))"

definition actionPowerOp :: "'s WorkflowOps \<Rightarrow> jmap \<Rightarrow> ('s, string) op \<Rightarrow> 's \<Rightarrow> 's \<times> go_error option" where
  "actionPowerOp ops cfg op s =
     (case target_vms ops cfg s of
        (s, Inl e) \<Rightarrow> (s, Some e)
      | (s, Inr vms) \<Rightarrow> each_vm ops ''power op on VM '' op vms s)"

definition actionCreateSnapshot :: "'s WorkflowOps \<Rightarrow> int \<Rightarrow> jmap \<Rightarrow> 's \<Rightarrow> 's \<times> go_error option" where
  "actionCreateSnapshot ops now cfg s =
     (let t = now div 1000000000;
          name = (if jstring0 cfg ''name_template'' = ''''
                  then ''workflow-'' @ pad4 (t_Year UTC t) @ ''-'' @ pad2 (t_Month UTC t) @ ''-'' @ pad2 (t_Day UTC t) @ ''T'' @
                       pad2 (t_Hour UTC t) @ ''-'' @ pad2 (t_Minute UTC t)
                  else jstring0 cfg ''name_template'')
      in case target_vms ops cfg s of
           (s, Inl e) \<Rightarrow> (s, Some e)
         | (s, Inr vms) \<Rightarrow> each_vm ops ''snapshot VM '' (\<lambda>vm. wo_VMSnapshot ops (vm, \<lparr>sp_Name = name,
                             sp_Description = jstring0 cfg ''description''\<rparr>)) vms s)"

definition actionSendNotification :: "'s WorkflowOps \<Rightarrow> jmap \<Rightarrow> Workflow \<Rightarrow> WorkflowRun \<Rightarrow> 's \<Rightarrow> 's \<times> go_error option" where
  "actionSendNotification ops cfg w rn s =
     (case wo_DispatchEvent ops of
        None \<Rightarrow> (s, None)
      | Some f \<Rightarrow>
          (let message = (if jstring0 cfg ''message'' = ''''
                          then ''Workflow '' @ [CHR 0x27] @ wf_Name w @ [CHR 0x27] @ '' executed (run '' @ wr_ID rn @ '')''
                          else jstring0 cfg ''message'')
           in f \<lparr>ev_WorkflowID = wf_ID w, ev_WorkflowName = wf_Name w, ev_RunID = wr_ID rn, ev_Message = message\<rparr> s))"

definition actionTriggerSync :: "'s WorkflowOps \<Rightarrow> jmap \<Rightarrow> 's \<Rightarrow> 's \<times> go_error option" where
  "actionTriggerSync ops cfg s =
     (let hypervisorID = jstring0 cfg ''hypervisor_id''
      in if hypervisorID = '''' then (s, Some (Errorf ''trigger_sync action missing hypervisor_id''))
         else (case wo_SyncInventory ops hypervisorID s of
                 (s, Inl e) \<Rightarrow> (s, Some (Wrapf (''trigger sync for hypervisor '' @ hypervisorID) e))
               | (s, Inr taskID) \<Rightarrow> wf_enqueue ops taskID s))"

definition actionWebhook :: "'s WorkflowOps \<Rightarrow> jmap \<Rightarrow> WorkflowRun \<Rightarrow> 's \<Rightarrow> 's \<times> go_error option" where
  "actionWebhook ops cfg rn s =
     (let url = jstring0 cfg ''url'';
          method = (if jstring0 cfg ''method'' = '''' then ''POST'' else jstring0 cfg ''method'');
          message = (case jstring cfg ''body'' of Some b \<Rightarrow> if b \<noteq> '''' then Some b else None | None \<Rightarrow> None);
          headers = [(''Content-Type'', ''application/json''), (''User-Agent'', ''VMOrbit-Workflow/1.0'')] @
            (case jget cfg ''headers'' of
               Some (JObj hs) \<Rightarrow> concat (map (\<lambda>(k, v). case v of JStr sv \<Rightarrow> [(k, sv)] | _ \<Rightarrow> []) hs)
             | _ \<Rightarrow> [])
      in if url = '''' then (s, Some (Errorf ''webhook action missing url''))
         else (let req = \<lparr>wh_Method = method, wh_URL = url, wh_Run = rn, wh_Message = message, wh_Headers = headers\<rparr> in
               case http_NewRequest ops req of
                 Some e \<Rightarrow> (s, Some (Wrapf ''build webhook request'' e))
               | None \<Rightarrow>
                   (case http_Do ops req s of
                      (s, Inl e) \<Rightarrow> (s, Some (Wrapf ''webhook request failed'' e))
                    | (s, Inr code) \<Rightarrow>
                        if code < 200 \<or> code \<ge> 300 then (s, Some (Errorf (''webhook returned status '' @ Itoa code))) else (s, None))))"

text \<open>Converting a number to \<^verbatim>\<open>int\<close> truncates towards zero; a number out of range gives the least \<^verbatim>\<open>int\<close>, as on amd64.\<close>

definition to_int :: "rat \<Rightarrow> int" where
  "to_int q = (let n = (if q \<ge> 0 then \<lfloor>q\<rfloor> else - \<lfloor>- q\<rfloor>) in if int64 n then n else minInt)"

definition runAction :: "'s WorkflowOps \<Rightarrow> int \<Rightarrow> Workflow \<Rightarrow> WorkflowRun \<Rightarrow> WorkflowAction \<Rightarrow> 's \<Rightarrow> 's \<times> go_error option" where
  "runAction ops now w rn action s =
     (let cfg = wa_Config action in
      case wa_ActionType action of
        WorkflowActionCreateSnapshot \<Rightarrow> actionCreateSnapshot ops now cfg s
      | WorkflowActionPowerOn \<Rightarrow> actionPowerOp ops cfg (wo_VMPowerOn ops) s
      | WorkflowActionPowerOff \<Rightarrow> actionPowerOp ops cfg (wo_VMPowerOff ops) s
      | WorkflowActionReboot \<Rightarrow> actionPowerOp ops cfg (wo_VMReboot ops) s
      | WorkflowActionSendNotification \<Rightarrow> actionSendNotification ops cfg w rn s
      | WorkflowActionTriggerSync \<Rightarrow> actionTriggerSync ops cfg s
      | WorkflowActionWebhook \<Rightarrow> actionWebhook ops cfg rn s
      | WorkflowActionDelay \<Rightarrow>
          (let seconds = (case jnum cfg ''seconds'' of None \<Rightarrow> 0 | Some q \<Rightarrow> to_int q)
           in if seconds > 0 then ctx_Wait ops (wrap64 (seconds * 1000000000)) s else (s, None))
      | WorkflowActionOther t \<Rightarrow> (s, Some (Errorf (''unsupported action type: '' @ t))))"

function attempt_loop ::
  "'s WorkflowOps \<Rightarrow> ('s \<Rightarrow> 's \<times> go_error option) \<Rightarrow> int \<Rightarrow> int \<Rightarrow> go_error option \<Rightarrow> 's \<Rightarrow> 's \<times> go_error option" where
  "attempt_loop ops act maxAttempts attempt lastErr s =
     (if attempt \<le> maxAttempts then
        (case act s of
           (s, None) \<Rightarrow> (s, None)
         | (s, Some e) \<Rightarrow>
             attempt_loop ops act maxAttempts (attempt + 1) (Some e)
               (if attempt < maxAttempts then time_Sleep ops (attempt * attempt * 1000000000) s else s))
      else (s, lastErr))"
  by pat_completeness auto
termination
  by (relation "measure (\<lambda>(_, _, m, a, _, _). nat (m + 1 - a))") auto

declare attempt_loop.simps [simp del]

definition executeAction :: "'s WorkflowOps \<Rightarrow> int \<Rightarrow> Workflow \<Rightarrow> WorkflowRun \<Rightarrow> WorkflowAction \<Rightarrow> 's \<Rightarrow> 's \<times> go_error option" where
  "executeAction ops now w rn action s =
     (let timeout = wa_TimeoutSeconds action * 1000000000;
          timeout = (if timeout \<le> 0 then 300000000000 else timeout);
          s = ctx_WithTimeout ops timeout s
      in attempt_loop ops (runAction ops now w rn action) (wa_RetryCount action + 1) 1 None s)"

section \<open>Runs\<close>

definition log_entry :: "WorkflowAction \<Rightarrow> go_error option \<Rightarrow> run_log_entry" where
  "log_entry a err = \<lparr>le_Action = wa_Name a, le_ActionType = wa_ActionType a, le_Order = wa_Order a, le_Error = map_option Error_text err\<rparr>"

definition continues :: "Workflow \<Rightarrow> WorkflowAction \<Rightarrow> bool" where
  "continues w a = (case wa_ContinueOnError a of Some b \<Rightarrow> b | None \<Rightarrow> wf_ContinueOnError w)"

fun run_actions ::
  "'s WorkflowOps \<Rightarrow> int \<Rightarrow> Workflow \<Rightarrow> WorkflowRun \<Rightarrow> WorkflowAction list \<Rightarrow> run_log_entry list \<Rightarrow> int \<Rightarrow> int \<Rightarrow> 's
   \<Rightarrow> 's \<times> run_log_entry list \<times> int \<times> int \<times> go_error option" where
  "run_actions ops now w rn [] logs n failed s = (s, logs, n, failed, None)"
| "run_actions ops now w rn (a # as) logs n failed s =
     (case executeAction ops now w rn a s of
        (s, None) \<Rightarrow> run_actions ops now w rn as (logs @ [log_entry a None]) (n + 1) failed s
      | (s, Some e) \<Rightarrow>
          if \<not> continues w a then (s, logs @ [log_entry a (Some e)], n + 1, failed + 1, Some e)
          else run_actions ops now w rn as (logs @ [log_entry a (Some e)]) (n + 1) (failed + 1) s)"

definition finished_run :: "int \<Rightarrow> run_log_entry list \<Rightarrow> int \<Rightarrow> int \<Rightarrow> go_error option \<Rightarrow> WorkflowRun \<Rightarrow> WorkflowRun" where
  "finished_run completedAt logs actionsRun actionsFailed runErr rn =
     rn\<lparr>wr_CompletedAt := Some completedAt, wr_ActionsRun := actionsRun, wr_ActionsFailed := actionsFailed, wr_Logs := logs,
        wr_Status := (case runErr of Some _ \<Rightarrow> RunFailed | None \<Rightarrow> RunCompleted),
        wr_ErrorMessage := (case runErr of Some e \<Rightarrow> Error_text e | None \<Rightarrow> wr_ErrorMessage rn)\<rparr>"

definition executeRun :: "'s WorkflowOps \<Rightarrow> int \<Rightarrow> int \<Rightarrow> Workflow \<Rightarrow> WorkflowRun \<Rightarrow> workflow_db \<times> 's \<Rightarrow> workflow_db \<times> 's" where
  "executeRun ops now completedAt w rn = (\<lambda>(d, s).
     let rn = rn\<lparr>wr_Status := RunRunning, wr_StartedAt := Some now\<rparr>;
         d = fst (run_repo_Update rn d);
         (s, logs, actionsRun, actionsFailed, runErr) = run_actions ops now w rn (wf_Actions w) [] 0 0 s;
         d = fst (run_repo_Update (finished_run completedAt logs actionsRun actionsFailed runErr rn) d);
         d = fst (wf_UpdateAfterRun (wf_ID w) completedAt (case runErr of Some _ \<Rightarrow> ''failed'' | None \<Rightarrow> ''success'')
               (wf_RunCount w + 1) (case runErr of Some _ \<Rightarrow> wf_FailureCount w + 1 | None \<Rightarrow> wf_FailureCount w) d)
     in (d, s))"

definition createRun ::
  "uuid_lib \<Rightarrow> Workflow \<Rightarrow> WorkflowTriggerType \<Rightarrow> jmap \<Rightarrow> string option \<Rightarrow> workflow_db \<Rightarrow> workflow_db \<times> (go_error + WorkflowRun)" where
  "createRun U w triggerType triggerData triggeredBy d =
     (let rn = \<lparr>wr_ID = uuid_new U (wdb_next d), wr_WorkflowID = wf_ID w, wr_Status = RunPending, wr_TriggerType = triggerType,
                 wr_TriggerData = triggerData, wr_StartedAt = None, wr_CompletedAt = None, wr_ErrorMessage = '''', wr_ActionsRun = 0,
                 wr_ActionsFailed = 0, wr_Logs = [], wr_TriggeredBy = triggeredBy\<rparr>
      in case run_repo_Create rn (d\<lparr>wdb_next := wdb_next d + 1\<rparr>) of
           (d, Inl e) \<Rightarrow> (d, Inl (Wrapf ''creating workflow run'' e))
         | (d, Inr _) \<Rightarrow> (d, Inr rn))"

text \<open>Runs that were started, with the workflow as it was read: each is executed by a goroutine of its own.\<close>

type_synonym started = "(Workflow \<times> WorkflowRun) list"

definition TriggerManual ::
  "uuid_lib \<Rightarrow> string \<Rightarrow> jmap \<Rightarrow> string option \<Rightarrow> workflow_db \<Rightarrow> workflow_db \<times> started \<times> (go_error + string)" where
  "TriggerManual U workflowID triggerData triggeredBy d =
     (case wf_repo_GetByID workflowID d of
        (d, Inl e) \<Rightarrow> (d, [], Inl (Wrapf ''workflow not found'' e))
      | (d, Inr w) \<Rightarrow>
          if \<not> wf_Enabled w then (d, [], Inl (Errorf (''workflow '' @ wf_Name w @ '' is disabled'')))
          else (case createRun U w WorkflowTriggerManual triggerData triggeredBy d of
                  (d, Inl e) \<Rightarrow> (d, [], Inl e)
                | (d, Inr rn) \<Rightarrow> (d, [(w, rn)], Inr (wr_ID rn))))"

fun start_runs :: "uuid_lib \<Rightarrow> (rat \<Rightarrow> string) \<Rightarrow> WorkflowTriggerType \<Rightarrow> jmap \<Rightarrow> Workflow list \<Rightarrow> workflow_db \<Rightarrow> workflow_db \<times> started" where
  "start_runs U F t triggerData [] d = (d, [])"
| "start_runs U F t triggerData (w # ws) d =
     (if \<not> checkConditions F w triggerData then start_runs U F t triggerData ws d
      else (case CountActive (wf_ID w) d of
        (d, active) \<Rightarrow>
          if (case active of Inl _ \<Rightarrow> False | Inr n \<Rightarrow> n \<ge> wf_MaxConcurrentRuns w \<and> wf_MaxConcurrentRuns w > 0)
          then start_runs U F t triggerData ws d
          else (case createRun U w t triggerData None d of
                  (d, Inl e) \<Rightarrow> start_runs U F t triggerData ws d
                | (d, Inr rn) \<Rightarrow> (case start_runs U F t triggerData ws d of (d, rs) \<Rightarrow> (d, (w, rn) # rs)))))"

definition handleEvent ::
  "uuid_lib \<Rightarrow> (rat \<Rightarrow> string) \<Rightarrow> WorkflowTriggerType \<Rightarrow> jmap option \<Rightarrow> workflow_db \<Rightarrow> workflow_db \<times> started" where
  "handleEvent U F triggerType payload d =
     (case ListByTrigger triggerType d of
        (d, Inl e) \<Rightarrow> (d, [])
      | (d, Inr workflows) \<Rightarrow> start_runs U F triggerType (case payload of None \<Rightarrow> [] | Some m \<Rightarrow> m) workflows d)"

text \<open>The subscriptions of \<^verbatim>\<open>Start\<close>, by topic.\<close>

datatype bus_event = HypervisorDisconnected "jmap option" | TaskStatusChanged "jmap option" | VMStatusChanged "jmap option"

fun on_event :: "uuid_lib \<Rightarrow> (rat \<Rightarrow> string) \<Rightarrow> bus_event \<Rightarrow> workflow_db \<Rightarrow> workflow_db \<times> started" where
  "on_event U F (HypervisorDisconnected p) d = handleEvent U F WorkflowTriggerProviderDisconnected p d"
| "on_event U F (TaskStatusChanged None) d = (d, [])"
| "on_event U F (TaskStatusChanged (Some payload)) d =
     (let failed = (jstring0 payload ''status'' = ''failed'');
          taskType = jstring0 payload ''type'';
          (d, rs) = (if failed \<and> (taskType = ''inventory.sync'' \<or> taskType = ''hypervisor.sync'')
                     then handleEvent U F WorkflowTriggerSyncFailure (Some payload) d else (d, []));
          (d, rs') = (if failed then handleEvent U F WorkflowTriggerTaskFailure (Some payload) d else (d, []))
      in (d, rs @ rs'))"
| "on_event U F (VMStatusChanged p) d = handleEvent U F WorkflowTriggerVMStateChange p d"

section \<open>The service\<close>

definition new_action :: "string \<Rightarrow> nat \<Rightarrow> CreateWorkflowActionRequest \<Rightarrow> WorkflowAction" where
  "new_action i k a = \<lparr>wa_WorkflowID = i, wa_Order = (if cw_Order a = 0 then int k + 1 else cw_Order a), wa_ActionType = cw_ActionType a,
     wa_Name = cw_Name a, wa_Description = cw_Description a, wa_Config = cw_Config a, wa_RetryCount = cw_RetryCount a,
     wa_TimeoutSeconds = (if cw_TimeoutSeconds a \<le> 0 then 300 else cw_TimeoutSeconds a), wa_ContinueOnError = cw_ContinueOnError a\<rparr>"

definition new_actions :: "string \<Rightarrow> CreateWorkflowActionRequest list \<Rightarrow> WorkflowAction list" where
  "new_actions i as = map (\<lambda>(k, a). new_action i k a) (enumerate 0 as)"

definition workflow_Create :: "uuid_lib \<Rightarrow> string option \<Rightarrow> CreateWorkflowRequest \<Rightarrow> workflow_db \<Rightarrow> workflow_db \<times> (go_error + Workflow)" where
  "workflow_Create U caller req d =
     (case wf_repo_Create U
         \<lparr>wf_ID = '''', wf_DeletedAt = None, wf_Name = cwf_Name req, wf_Description = cwf_Description req, wf_Enabled = cwf_Enabled req,
          wf_Status = (if \<not> cwf_Enabled req then WorkflowPaused else WorkflowActive), wf_TriggerType = cwf_TriggerType req,
          wf_TriggerConfig = cwf_TriggerConfig req, wf_Conditions = cwf_Conditions req, wf_ContinueOnError = cwf_ContinueOnError req,
          wf_MaxConcurrentRuns = (if cwf_MaxConcurrentRuns req \<le> 0 then 1 else cwf_MaxConcurrentRuns req), wf_RunCount = 0,
          wf_FailureCount = 0, wf_LastRunAt = None, wf_LastRunStatus = '''', wf_CreatedBy = caller,
          wf_Actions = new_actions '''' (cwf_Actions req)\<rparr> d of
        (d, Inl e) \<Rightarrow> (d, Inl (Wrapf ''creating workflow'' e))
      | (d, Inr w) \<Rightarrow> (d, Inr w))"

definition wf_update_fields :: "UpdateWorkflowRequest \<Rightarrow> Workflow \<Rightarrow> Workflow" where
  "wf_update_fields req w = w\<lparr>wf_Name := set_opt (uwf_Name req) (wf_Name w), wf_Description := set_opt (uwf_Description req) (wf_Description w),
     wf_Enabled := set_opt (uwf_Enabled req) (wf_Enabled w),
     wf_Status := (case uwf_Enabled req of None \<Rightarrow> wf_Status w | Some b \<Rightarrow> if b then WorkflowActive else WorkflowPaused),
     wf_TriggerType := set_opt (uwf_TriggerType req) (wf_TriggerType w), wf_TriggerConfig := set_opt (uwf_TriggerConfig req) (wf_TriggerConfig w),
     wf_Conditions := set_opt (uwf_Conditions req) (wf_Conditions w), wf_ContinueOnError := set_opt (uwf_ContinueOnError req) (wf_ContinueOnError w),
     wf_MaxConcurrentRuns := set_opt (uwf_MaxConcurrentRuns req) (wf_MaxConcurrentRuns w)\<rparr>"

definition workflow_Update :: "string \<Rightarrow> UpdateWorkflowRequest \<Rightarrow> workflow_db \<Rightarrow> workflow_db \<times> (go_error + Workflow)" where
  "workflow_Update i req d =
     (case wf_repo_GetByID i d of
        (d, Inl e) \<Rightarrow> (d, Inl e)
      | (d, Inr w) \<Rightarrow>
          (let w = wf_update_fields req w;
               new = (case uwf_Actions req of None \<Rightarrow> [] | Some as \<Rightarrow> new_actions (wf_ID w) as);
               w = (case uwf_Actions req of None \<Rightarrow> w | Some _ \<Rightarrow> w\<lparr>wf_Actions := new\<rparr>)
           in case wf_repo_Update new w d of
                (d, Inl e) \<Rightarrow> (d, Inl (Wrapf ''updating workflow'' e))
              | (d, Inr _) \<Rightarrow> (d, Inr w)))"

definition wf_set_enabled :: "bool \<Rightarrow> string \<Rightarrow> workflow_db \<Rightarrow> workflow_db \<times> go_error option" where
  "wf_set_enabled b i d =
     (case wf_repo_GetByID i d of
        (d, Inl e) \<Rightarrow> (d, Some e)
      | (d, Inr w) \<Rightarrow>
          (case wf_repo_Update [] (w\<lparr>wf_Enabled := b, wf_Status := (if b then WorkflowActive else WorkflowPaused)\<rparr>) d of
             (d, Inl e) \<Rightarrow> (d, Some e)
           | (d, Inr _) \<Rightarrow> (d, None)))"

definition workflow_Enable :: "string \<Rightarrow> workflow_db \<Rightarrow> workflow_db \<times> go_error option" where
  "workflow_Enable i d = wf_set_enabled True i d"

definition workflow_Disable :: "string \<Rightarrow> workflow_db \<Rightarrow> workflow_db \<times> go_error option" where
  "workflow_Disable i d = wf_set_enabled False i d"

definition workflow_Delete :: "int \<Rightarrow> string \<Rightarrow> workflow_db \<Rightarrow> workflow_db \<times> (go_error + unit)" where
  "workflow_Delete now i d = wf_repo_Delete now i d"

definition workflow_TriggerNow ::
  "uuid_lib \<Rightarrow> string option \<Rightarrow> string \<Rightarrow> jmap \<Rightarrow> workflow_db \<Rightarrow> workflow_db \<times> started \<times> (go_error + string)" where
  "workflow_TriggerNow U caller i triggerData d =
     (case TriggerManual U i triggerData caller d of
        (d, rs, Inl e) \<Rightarrow> (d, rs, Inl (Wrapf ''trigger workflow'' e))
      | (d, rs, Inr runID) \<Rightarrow> (d, rs, Inr runID))"


section \<open>How a run ends\<close>

definition failures :: "run_log_entry list \<Rightarrow> int" where
  "failures ls = int (length (filter (\<lambda>l. le_Error l \<noteq> None) ls))"

text \<open>
  The log \<open>ls\<close> tells how the actions \<open>as\<close> went: an entry for each action of a prefix, in order; every failed
  one but the last continues; and either all were run and the last continues too if it failed, or the last
  one failed with the error that ended the run and does not continue.
\<close>

definition log_of :: "Workflow \<Rightarrow> WorkflowAction list \<Rightarrow> run_log_entry list \<Rightarrow> go_error option \<Rightarrow> bool" where
  "log_of w as ls err \<longleftrightarrow> length ls \<le> length as \<and>
     (\<forall>k < length ls. le_Action (ls ! k) = wa_Name (as ! k) \<and> le_Order (ls ! k) = wa_Order (as ! k)) \<and>
     (\<forall>k < length ls. le_Error (ls ! k) \<noteq> None \<longrightarrow> continues w (as ! k) \<or> err \<noteq> None \<and> Suc k = length ls) \<and>
     (case err of
        None \<Rightarrow> length ls = length as
      | Some e \<Rightarrow> ls \<noteq> [] \<and> le_Error (last ls) = Some (Error_text e) \<and> \<not> continues w (as ! (length ls - 1)))"

lemma failures_simps [simp]: "failures [] = 0" "failures (l # ls) = failures ls + (if le_Error l \<noteq> None then 1 else 0)"
  by (simp_all add: failures_def)

lemma log_entry_simps [simp]:
  "le_Action (log_entry a e) = wa_Name a" "le_Order (log_entry a e) = wa_Order a" "le_Error (log_entry a e) = map_option Error_text e"
  by (simp_all add: log_entry_def)

lemma log_of_Cons:
  assumes "log_of w as ls err" "le_Action l = wa_Name a" "le_Order l = wa_Order a" "le_Error l = None \<or> continues w a"
  shows "log_of w (a # as) (l # ls) err"
  unfolding log_of_def
proof (intro conjI allI impI)
  show "length (l # ls) \<le> length (a # as)" using assms(1) by (simp add: log_of_def)
  fix k assume k: "k < length (l # ls)"
  show "le_Action ((l # ls) ! k) = wa_Name ((a # as) ! k)" "le_Order ((l # ls) ! k) = wa_Order ((a # as) ! k)"
    using k assms(1-3) by (cases k; simp add: log_of_def)+
  show "continues w ((a # as) ! k) \<or> err \<noteq> None \<and> Suc k = length (l # ls)" if "le_Error ((l # ls) ! k) \<noteq> None"
    using k that assms(1,4) by (cases k) (auto simp: log_of_def)
next
  show "case err of None \<Rightarrow> length (l # ls) = length (a # as)
    | Some e \<Rightarrow> l # ls \<noteq> [] \<and> le_Error (last (l # ls)) = Some (Error_text e) \<and> \<not> continues w ((a # as) ! (length (l # ls) - 1))"
    using assms(1) by (cases err) (auto simp: log_of_def nth_Cons' Suc_le_eq)
qed

lemma run_actions_log:
  assumes "run_actions ops now w rn as logs n failed s = (s', logs', n', failed', err)"
  shows "\<exists>ls. logs' = logs @ ls \<and> n' = n + int (length ls) \<and> failed' = failed + failures ls \<and> log_of w as ls err"
  using assms
proof (induction as arbitrary: logs n failed s)
  case Nil
  then show ?case by (auto simp: log_of_def)
next
  case (Cons a as)
  obtain s1 r where e: "executeAction ops now w rn a s = (s1, r)" by (metis surj_pair)
  show ?case
  proof (cases "r \<noteq> None \<and> \<not> continues w a")
    case True
    then obtain er where r: "r = Some er" by blast
    have "log_of w (a # as) [log_entry a r] r" using True r by (simp add: log_of_def)
    then show ?thesis using Cons.prems e True r by (intro exI [of _ "[log_entry a r]"]) auto
  next
    case False
    define f where "f = failed + (if r = None then 0 else 1)"
    from False Cons.prems e
    have "run_actions ops now w rn as (logs @ [log_entry a r]) (n + 1) f s1 = (s', logs', n', failed', err)"
      by (cases r) (simp_all add: f_def)
    from Cons.IH [OF this] obtain ls where ls: "logs' = (logs @ [log_entry a r]) @ ls" "n' = n + 1 + int (length ls)"
      "failed' = f + failures ls" "log_of w as ls err" by blast
    have "log_of w (a # as) (log_entry a r # ls) err" using ls(4) False by (intro log_of_Cons) auto
    with ls show ?thesis by (intro exI [of _ "log_entry a r # ls"]) (auto simp: f_def)
  qed
qed

lemma wf_stmt_clean [simp]: "wdb_faults d = [] \<Longrightarrow> wf_stmt f d = f d"
  by (simp add: wf_stmt_def)

definition set_run :: "WorkflowRun \<Rightarrow> WorkflowRun list \<Rightarrow> WorkflowRun list" where
  "set_run r rs = map (\<lambda>x. if wr_ID x = wr_ID r then r else x) rs"

lemma set_run_twice: "wr_ID r = wr_ID r' \<Longrightarrow> set_run r (set_run r' rs) = set_run r rs"
  by (simp add: set_run_def)

lemma run_repo_Update_clean: "wdb_faults d = [] \<Longrightarrow> fst (run_repo_Update r d) = d\<lparr>wdb_runs := set_run r (wdb_runs d)\<rparr>"
  by (simp add: run_repo_Update_def set_run_def)

lemma finished_run_simps [simp]:
  "wr_ID (finished_run c ls n f err rn) = wr_ID rn" "wr_Logs (finished_run c ls n f err rn) = ls"
  "wr_ActionsRun (finished_run c ls n f err rn) = n" "wr_ActionsFailed (finished_run c ls n f err rn) = f"
  "wr_Status (finished_run c ls n f err rn) = (if err = None then RunCompleted else RunFailed)"
  "err = Some e \<Longrightarrow> wr_ErrorMessage (finished_run c ls n f err rn) = Error_text e"
  "wr_WorkflowID (finished_run c ls n f err rn) = wr_WorkflowID rn"
  by (simp_all add: finished_run_def split: option.split)

lemma executeRun_runs:
  assumes "wdb_faults d = []" "executeRun ops now completedAt w rn (d, s) = (d', s')"
  shows "\<exists>row err. wdb_runs d' = set_run row (wdb_runs d) \<and> wr_ID row = wr_ID rn \<and>
    wr_ActionsRun row = int (length (wr_Logs row)) \<and> wr_ActionsFailed row = failures (wr_Logs row) \<and>
    log_of w (wf_Actions w) (wr_Logs row) err \<and>
    wr_Status row = (if err = None then RunCompleted else RunFailed) \<and> (\<forall>e. err = Some e \<longrightarrow> wr_ErrorMessage row = Error_text e)"
proof -
  define rn1 where "rn1 = rn\<lparr>wr_Status := RunRunning, wr_StartedAt := Some now\<rparr>"
  obtain s1 logs n f err where r: "run_actions ops now w rn1 (wf_Actions w) [] 0 0 s = (s1, logs, n, f, err)"
    by (metis prod_cases5)
  define row where "row = finished_run completedAt logs n f err rn1"
  have ids: "wr_ID row = wr_ID rn" "wr_ID rn1 = wr_ID rn" by (simp_all add: row_def rn1_def)
  have "wdb_runs d' = set_run row (set_run rn1 (wdb_runs d))"
    using assms r by (auto simp: executeRun_def Let_def run_repo_Update_clean wf_UpdateAfterRun_def rn1_def [symmetric] row_def [symmetric])
  then have "wdb_runs d' = set_run row (wdb_runs d)" using ids by (simp add: set_run_twice)
  moreover obtain ls where "logs = ls" "n = int (length ls)" "f = failures ls" "log_of w (wf_Actions w) ls err"
    using run_actions_log [OF r] by auto
  ultimately show ?thesis by (intro exI [of _ row] exI [of _ err]) (simp add: row_def rn1_def)
qed

text \<open>C25. How a run ends. With a working database, executing a run stores it under its identifier with one log entry for each
  action of a prefix of the workflow, in order, the counts of run and failed actions being those of the
  log; it is completed exactly when every action was run and each failure was one to continue after, and
  failed exactly when it stopped at a failed action that does not continue, whose error it reports.\<close>

theorem executeRun_outcome:
  assumes "wdb_faults d = []" "executeRun ops now completedAt w rn (d, s) = (d', s')" "r \<in> set (wdb_runs d')" "wr_ID r = wr_ID rn"
  shows "wr_ActionsRun r = int (length (wr_Logs r)) \<and> wr_ActionsFailed r = failures (wr_Logs r) \<and>
    (wr_Status r = RunCompleted \<and> log_of w (wf_Actions w) (wr_Logs r) None \<or>
     wr_Status r = RunFailed \<and> (\<exists>e. log_of w (wf_Actions w) (wr_Logs r) (Some e) \<and> wr_ErrorMessage r = Error_text e))"
proof -
  obtain row err where R: "wdb_runs d' = set_run row (wdb_runs d)" "wr_ID row = wr_ID rn"
    "wr_ActionsRun row = int (length (wr_Logs row))" "wr_ActionsFailed row = failures (wr_Logs row)"
    "log_of w (wf_Actions w) (wr_Logs row) err" "wr_Status row = (if err = None then RunCompleted else RunFailed)"
    "\<forall>e. err = Some e \<longrightarrow> wr_ErrorMessage row = Error_text e"
    using executeRun_runs [OF assms(1,2)] by blast
  have "r = row" using assms(3,4) R(1,2) by (auto simp: set_run_def split: if_splits)
  with R show ?thesis by (cases err) auto
qed

section \<open>The limit on concurrent runs\<close>

definition active_runs :: "workflow_db \<Rightarrow> string \<Rightarrow> int" where
  "active_runs d i = int (length (filter (\<lambda>r. wr_WorkflowID r = i \<and> (wr_Status r = RunPending \<or> wr_Status r = RunRunning)) (wdb_runs d)))"

lemma createRun_clean:
  assumes "wdb_faults d = []" "createRun U w t td by d = (d', x)"
  shows "wdb_faults d' = [] \<and> (\<exists>rn. x = Inr rn) \<and> (\<forall>i. active_runs d' i = active_runs d i + (if i = wf_ID w then 1 else 0))"
  using assms by (auto simp: createRun_def run_repo_Create_def active_runs_def Let_def)

lemma start_runs_limit:
  assumes "wdb_faults d = []" "distinct (map wf_ID ws)" "start_runs U F t td ws d = (d', rs)"
  shows "wdb_faults d' = [] \<and> fst ` set rs \<subseteq> set ws \<and> (\<forall>i. i \<notin> wf_ID ` set ws \<longrightarrow> active_runs d' i = active_runs d i) \<and>
    (\<forall>(w, rn) \<in> set rs. wf_MaxConcurrentRuns w > 0 \<longrightarrow> active_runs d' (wf_ID w) \<le> wf_MaxConcurrentRuns w)"
  using assms
proof (induction ws arbitrary: d rs)
  case (Cons w ws)
  have count: "CountActive (wf_ID w) d = (d, Inr (active_runs d (wf_ID w)))"
    using Cons.prems(1) by (simp add: CountActive_def active_runs_def)
  show ?case
  proof (cases "checkConditions F w td \<and> \<not> (active_runs d (wf_ID w) \<ge> wf_MaxConcurrentRuns w \<and> wf_MaxConcurrentRuns w > 0)")
    case False
    then have "start_runs U F t td ws d = (d', rs)" using Cons.prems(3) count by (auto split: if_splits)
    from Cons.IH [OF Cons.prems(1) _ this] Cons.prems(2) show ?thesis by auto
  next
    case True
    obtain d1 x where c: "createRun U w t td None d = (d1, x)" by (metis surj_pair)
    note C = createRun_clean [OF Cons.prems(1) c]
    then obtain rn where x: "x = Inr rn" by blast
    obtain d2 rs' where r: "start_runs U F t td ws d1 = (d2, rs')" by (metis surj_pair)
    have e: "d2 = d'" "rs = (w, rn) # rs'" using Cons.prems(3) True count c x r by auto
    have "wdb_faults d1 = []" "distinct (map wf_ID ws)" using C Cons.prems(2) by auto
    note IH = Cons.IH [OF this r [unfolded e(1)]]
    have "wf_ID w \<notin> wf_ID ` set ws" using Cons.prems(2) by auto
    then have "active_runs d' (wf_ID w) = active_runs d (wf_ID w) + 1" using IH C by simp
    then have w: "wf_MaxConcurrentRuns w > 0 \<longrightarrow> active_runs d' (wf_ID w) \<le> wf_MaxConcurrentRuns w" using True by auto
    have o: "active_runs d' i = active_runs d i" if "i \<notin> wf_ID ` set (w # ws)" for i
      using that IH C by simp
    show ?thesis unfolding e(2) using IH w o by auto
  qed
qed auto


section \<open>Updates\<close>

lemma wf_repo_GetByID_clean:
  assumes "wdb_faults d = []" "find (\<lambda>w. wf_ID w = i \<and> wf_DeletedAt w = None) (wdb_workflows d) = Some w"
  shows "wf_repo_GetByID i d = (d, Inr (with_actions d w))"
  using assms by (simp add: wf_repo_GetByID_def)

text \<open>Updating the actions of a workflow does not replace them. With a working database, an update that supplies actions
  leaves every old action of the workflow stored beside the new ones, so that the next run executes
  both, in the order of their numbers.\<close>

theorem update_keeps_old_actions:
  assumes "wdb_faults d = []" "find (\<lambda>w. wf_ID w = i \<and> wf_DeletedAt w = None) (wdb_workflows d) = Some w" "uwf_Actions req = Some as"
    "workflow_Update i req d = (d', r)"
  shows "\<exists>w'. wf_repo_GetByID i d' = (d', Inr w') \<and>
    wf_Actions w' = sort_key wa_Order (filter (\<lambda>a. wa_WorkflowID a = i) (wdb_actions d) @ new_actions i as)"
proof -
  have w: "wf_ID w = i" "wf_DeletedAt w = None" using assms(2) by (auto simp: find_Some_iff)
  define w1 where "w1 = (wf_update_fields req (with_actions d w))\<lparr>wf_Actions := []\<rparr>"
  have w1: "wf_ID w1 = i" "wf_DeletedAt w1 = None" using w by (simp_all add: w1_def wf_update_fields_def with_actions_def)
  have "wf_ID (wf_update_fields req (with_actions d w)) = i" using w by (simp add: wf_update_fields_def with_actions_def)
  then have d': "d' = d\<lparr>wdb_workflows := map (\<lambda>x. if wf_ID x = i then w1 else x) (wdb_workflows d),
      wdb_actions := wdb_actions d @ new_actions i as\<rparr>"
    using assms(1,3,4) wf_repo_GetByID_clean [OF assms(1,2)]
    by (auto simp: workflow_Update_def Let_def wf_repo_Update_def w1_def)
  have "find (\<lambda>w. wf_ID w = i \<and> wf_DeletedAt w = None) (map (\<lambda>x. if wf_ID x = i then w1 else x) ws) = Some w1"
    if "find (\<lambda>w. wf_ID w = i \<and> wf_DeletedAt w = None) ws = Some w" for ws
    using that w1 by (induction ws) (auto split: if_splits)
  then have "find (\<lambda>w. wf_ID w = i \<and> wf_DeletedAt w = None) (wdb_workflows d') = Some w1"
    using assms(2) by (simp add: d')
  moreover have "wdb_faults d' = []" using assms(1) by (simp add: d')
  moreover have "filter (\<lambda>a. wa_WorkflowID a = i) (new_actions i as) = new_actions i as"
    by (auto simp: new_actions_def new_action_def filter_id_conv)
  ultimately show ?thesis using wf_repo_GetByID_clean w1(1) by (simp add: with_actions_def) (simp add: d')
qed

lemma negative_retry_count_skips:
  assumes "wa_RetryCount action < 0"
  shows "snd (executeAction ops now w rn action s) = None"
  using assms by (simp add: executeAction_def attempt_loop.simps)


section \<open>A concrete engine\<close>

definition log_wf_ops :: "string list WorkflowOps" where
  "log_wf_ops = (let one = (\<lambda>t s. if t = ''gone'' then (s, Inl (Errorf ''not found'')) else (s @ [t], Inr (''task-'' @ t)))
     in \<lparr>wo_VMPowerOn = one, wo_VMPowerOff = one, wo_VMReboot = one, wo_VMSnapshot = one \<circ> fst, wo_SyncInventory = one,
         wo_ListVMsByTag = None, wo_DispatchEvent = None, wo_Enqueue = None, http_NewRequest = (\<lambda>r. None), http_Do = (\<lambda>r s. (s, Inr 200)),
         ctx_WithTimeout = (\<lambda>t s. s), ctx_Wait = (\<lambda>t s. (s, None)), time_Sleep = (\<lambda>t s. s @ [''sleep''])\<rparr>)"

definition demo_action :: "string \<Rightarrow> CreateWorkflowActionRequest" where
  "demo_action vm = \<lparr>cw_Order = 0, cw_ActionType = WorkflowActionPowerOff, cw_Name = ''stop '' @ vm, cw_Description = '''',
     cw_Config = [(''target_ids'', JArr [JStr vm])], cw_RetryCount = 1, cw_TimeoutSeconds = 0, cw_ContinueOnError = None\<rparr>"

definition demo_workflow :: CreateWorkflowRequest where
  "demo_workflow = \<lparr>cwf_Name = ''stop all'', cwf_Description = '''', cwf_Enabled = True, cwf_TriggerType = WorkflowTriggerTaskFailure,
     cwf_TriggerConfig = [], cwf_Conditions = [], cwf_ContinueOnError = False, cwf_MaxConcurrentRuns = 1,
     cwf_Actions = [demo_action ''vm1'', demo_action ''gone'', demo_action ''vm2'']\<rparr>"

definition empty_workflow_db :: workflow_db where
  "empty_workflow_db = \<lparr>wdb_workflows = [], wdb_actions = [], wdb_runs = [], wdb_next = 0, wdb_faults = []\<rparr>"

definition demo_wdb :: workflow_db where
  "demo_wdb = fst (workflow_Create echo_uuids None demo_workflow empty_workflow_db)"

definition demo_event :: "workflow_db \<times> started" where
  "demo_event = handleEvent echo_uuids (\<lambda>q. '''') WorkflowTriggerTaskFailure None demo_wdb"

definition demo_run :: "workflow_db \<times> string list" where
  "demo_run = executeRun log_wf_ops 0 1 (fst (hd (snd demo_event))) (snd (hd (snd demo_event))) (fst demo_event, [])"

theorem executeRun_outcome_witness:
  "snd demo_run = [''vm1'', ''sleep''] \<and> map wr_Status (wdb_runs (fst demo_run)) = [RunFailed] \<and>
   wr_ActionsRun (hd (wdb_runs (fst demo_run))) = 2 \<and>
   (\<exists>e. log_of (fst (hd (snd demo_event))) (wf_Actions (fst (hd (snd demo_event)))) (wr_Logs (hd (wdb_runs (fst demo_run)))) (Some e))"
proof -
  define r where "r = hd (wdb_runs (fst demo_run))"
  have e: "snd demo_run = [''vm1'', ''sleep'']" "map wr_Status (wdb_runs (fst demo_run)) = [RunFailed]" "wr_ActionsRun r = 2"
    "wr_Status r = RunFailed" "wr_ID r = wr_ID (snd (hd (snd demo_event)))" "wdb_faults (fst demo_event) = []"
    unfolding r_def by code_simp+
  have "r \<in> set (wdb_runs (fst demo_run))" using e(2) by (cases "wdb_runs (fst demo_run)") (auto simp: r_def)
  moreover have "executeRun log_wf_ops 0 1 (fst (hd (snd demo_event))) (snd (hd (snd demo_event))) (fst demo_event, []) = (fst demo_run, snd demo_run)"
    by (simp add: demo_run_def)
  ultimately show ?thesis using executeRun_outcome [OF e(6) _ _ e(5)] e(1-4) unfolding r_def by fastforce
qed


definition demo_update :: UpdateWorkflowRequest where
  "demo_update = \<lparr>uwf_Name = None, uwf_Description = None, uwf_Enabled = None, uwf_TriggerType = None, uwf_TriggerConfig = None,
     uwf_Conditions = None, uwf_ContinueOnError = None, uwf_MaxConcurrentRuns = None, uwf_Actions = Some [demo_action ''vm9'']\<rparr>"

theorem update_keeps_old_actions_witness:
  "\<exists>w'. wf_repo_GetByID ''0'' (fst (workflow_Update ''0'' demo_update demo_wdb)) = (fst (workflow_Update ''0'' demo_update demo_wdb), Inr w') \<and>
     map wa_Name (wf_Actions w') = [''stop vm1'', ''stop vm9'', ''stop gone'', ''stop vm2'']"
proof -
  have f: "wdb_faults demo_wdb = []" by code_simp
  have "map_option wf_ID (find (\<lambda>w. wf_ID w = ''0'' \<and> wf_DeletedAt w = None) (wdb_workflows demo_wdb)) = Some ''0''" by code_simp
  then obtain w where w: "find (\<lambda>w. wf_ID w = ''0'' \<and> wf_DeletedAt w = None) (wdb_workflows demo_wdb) = Some w" by auto
  have a: "uwf_Actions demo_update = Some [demo_action ''vm9'']" by (simp add: demo_update_def)
  have "map wa_Name (sort_key wa_Order (filter (\<lambda>a. wa_WorkflowID a = ''0'') (wdb_actions demo_wdb) @ new_actions ''0'' [demo_action ''vm9''])) =
    [''stop vm1'', ''stop vm9'', ''stop gone'', ''stop vm2'']" by code_simp
  with update_keeps_old_actions [OF f w a prod.collapse [symmetric]] show ?thesis by auto
qed

end
