(* ===== verification/Hub.thy ===== *)
theory Hub
  imports Prelude
begin

text \<open>
  The WebSocket hub (\<^verbatim>\<open>internal/websocket/hub.go\<close>) and the in-process event bus
  (\<^verbatim>\<open>internal/infrastructure/messaging/eventbus.go\<close>).

  Clients are addresses in a store. The goroutines of the program are the steps of \<open>hub_step\<close>: what the
  hub's loop does with one entry of one of its channels, the pumps of a client, and the callers of
  \<^verbatim>\<open>Register\<close> and of the broadcast functions. Everything under the hub's mutex is one step. Sending on a closed
  channel, or closing it again, panics, and a panic in the loop of the hub ends the process: the value \<open>None\<close>.
\<close>

section \<open>The event bus\<close>

datatype EventType =
    EventVMStatusChanged | EventTaskStatusChanged | EventTaskProgress | EventTaskLogAppended | EventTaskCancelled
  | EventHypervisorConnected | EventHypervisorDisconnected | EventInventorySynced | EventPlatformEvent

record 'h InMemoryEventBus =
  bus_handlers :: "EventType \<Rightarrow> (nat \<times> 'h) list"
  bus_nextID :: nat

definition NewInMemoryEventBus :: "'h InMemoryEventBus" where
  "NewInMemoryEventBus = \<lparr>bus_handlers = (\<lambda>t. []), bus_nextID = 0\<rparr>"

text \<open>\<^verbatim>\<open>Subscribe\<close> gives back the identifier that its unsubscribe function deletes.\<close>

definition Subscribe :: "EventType \<Rightarrow> 'h \<Rightarrow> 'h InMemoryEventBus \<Rightarrow> 'h InMemoryEventBus \<times> nat" where
  "Subscribe t h b = (b\<lparr>bus_handlers := (bus_handlers b)(t := bus_handlers b t @ [(bus_nextID b, h)]), bus_nextID := bus_nextID b + 1\<rparr>,
     bus_nextID b)"

definition unsubscribe :: "EventType \<Rightarrow> nat \<Rightarrow> 'h InMemoryEventBus \<Rightarrow> 'h InMemoryEventBus" where
  "unsubscribe t i b = b\<lparr>bus_handlers := (bus_handlers b)(t := filter (\<lambda>(j, h). j \<noteq> i) (bus_handlers b t))\<rparr>"

text \<open>The handlers an event is given to, each in a goroutine of its own.\<close>

definition Publish :: "EventType \<Rightarrow> 'h InMemoryEventBus \<Rightarrow> 'h list" where
  "Publish t b = map snd (bus_handlers b t)"

section \<open>The hub\<close>

definition maxConnsPerUser :: int where
  "maxConnsPerUser = 5"

definition send_capacity :: nat where
  "send_capacity = 256"

record Client =
  cl_userID :: string
  cl_send :: "string list"
  cl_closed :: bool
  cl_rooms :: "string list"

record Hub =
  hub_store :: "nat \<Rightarrow> Client option"
  hub_clients :: "nat list"
  hub_rooms :: "string \<Rightarrow> nat list"
  hub_userConns :: "string \<Rightarrow> int"
  hub_register :: "nat list"
  hub_unregister :: "nat list"
  hub_broadcast :: "(string \<times> string) list"
  hub_next :: nat

definition NewHub :: Hub where
  "NewHub = \<lparr>hub_store = (\<lambda>c. None), hub_clients = [], hub_rooms = (\<lambda>r. []), hub_userConns = (\<lambda>u. 0), hub_register = [],
     hub_unregister = [], hub_broadcast = [], hub_next = 0\<rparr>"

definition insert_new :: "'a \<Rightarrow> 'a list \<Rightarrow> 'a list" where
  "insert_new x xs = (if x \<in> set xs then xs else xs @ [x])"

subsection \<open>What the loop does\<close>

definition on_register :: "nat \<Rightarrow> Hub \<Rightarrow> Hub" where
  "on_register c h =
     (case hub_store h c of
        None \<Rightarrow> h
      | Some cl \<Rightarrow> h\<lparr>hub_clients := insert_new c (hub_clients h),
                     hub_userConns := (hub_userConns h)(cl_userID cl := hub_userConns h (cl_userID cl) + 1)\<rparr>)"

definition leave_rooms :: "nat \<Rightarrow> string list \<Rightarrow> (string \<Rightarrow> nat list) \<Rightarrow> string \<Rightarrow> nat list" where
  "leave_rooms c rs rooms = (\<lambda>r. if r \<in> set rs then removeAll c (rooms r) else rooms r)"

definition on_unregister :: "nat \<Rightarrow> Hub \<Rightarrow> Hub option" where
  "on_unregister c h =
     (if c \<notin> set (hub_clients h) then Some h
      else case hub_store h c of
             None \<Rightarrow> Some h
           | Some cl \<Rightarrow>
               if cl_closed cl then None
               else Some (h\<lparr>hub_clients := removeAll c (hub_clients h),
                            hub_store := (hub_store h)(c \<mapsto> cl\<lparr>cl_closed := True\<rparr>),
                            hub_rooms := leave_rooms c (cl_rooms cl) (hub_rooms h),
                            hub_userConns := (if hub_userConns h (cl_userID cl) > 0
                               then (hub_userConns h)(cl_userID cl := hub_userConns h (cl_userID cl) - 1) else hub_userConns h)\<rparr>))"

text \<open>The clients of the target get the message, or are noted as slow when their buffer is full.\<close>

fun deliver :: "string \<Rightarrow> nat list \<Rightarrow> (nat \<Rightarrow> Client option) \<Rightarrow> ((nat \<Rightarrow> Client option) \<times> nat list) option" where
  "deliver msg [] st = Some (st, [])"
| "deliver msg (c # cs) st =
     (case st c of
        None \<Rightarrow> deliver msg cs st
      | Some cl \<Rightarrow>
          if cl_closed cl then None
          else if length (cl_send cl) < send_capacity then deliver msg cs (st(c \<mapsto> cl\<lparr>cl_send := cl_send cl @ [msg]\<rparr>))
          else map_option (\<lambda>(st, slow). (st, c # slow)) (deliver msg cs st))"

fun disconnect_slow :: "nat list \<Rightarrow> Hub \<Rightarrow> Hub option" where
  "disconnect_slow [] h = Some h"
| "disconnect_slow (c # cs) h =
     (case hub_store h c of
        None \<Rightarrow> disconnect_slow cs h
      | Some cl \<Rightarrow>
          if cl_closed cl then None
          else disconnect_slow cs (h\<lparr>hub_store := (hub_store h)(c \<mapsto> cl\<lparr>cl_closed := True\<rparr>),
                 hub_clients := removeAll c (hub_clients h), hub_rooms := leave_rooms c (cl_rooms cl) (hub_rooms h)\<rparr>))"

definition on_broadcast :: "string \<Rightarrow> string \<Rightarrow> Hub \<Rightarrow> Hub option" where
  "on_broadcast room msg h =
     (let targets = (if room = '''' then hub_clients h else hub_rooms h room)
      in case deliver msg targets (hub_store h) of
           None \<Rightarrow> None
         | Some (st, slow) \<Rightarrow> disconnect_slow slow (h\<lparr>hub_store := st\<rparr>))"

subsection \<open>What the callers do\<close>

definition hub_Register :: "string \<Rightarrow> Hub \<Rightarrow> Hub" where
  "hub_Register userID h =
     h\<lparr>hub_store := (hub_store h)(hub_next h \<mapsto> \<lparr>cl_userID = userID, cl_send = [], cl_closed = False, cl_rooms = []\<rparr>),
       hub_register := hub_register h @ [hub_next h], hub_next := hub_next h + 1\<rparr>"

definition JoinRoom :: "nat \<Rightarrow> string \<Rightarrow> Hub \<Rightarrow> Hub" where
  "JoinRoom c room h =
     (case hub_store h c of
        None \<Rightarrow> h
      | Some cl \<Rightarrow> h\<lparr>hub_rooms := (hub_rooms h)(room := insert_new c (hub_rooms h room)),
                     hub_store := (hub_store h)(c \<mapsto> cl\<lparr>cl_rooms := insert_new room (cl_rooms cl)\<rparr>)\<rparr>)"

text \<open>The encoding of a message, which may fail, is the argument \<open>marshal\<close>.\<close>

definition BroadcastToRoom :: "(EventType \<Rightarrow> jval \<Rightarrow> string option) \<Rightarrow> string \<Rightarrow> EventType \<Rightarrow> jval \<Rightarrow> Hub \<Rightarrow> Hub" where
  "BroadcastToRoom marshal room t payload h =
     (case marshal t payload of
        None \<Rightarrow> h
      | Some b \<Rightarrow> h\<lparr>hub_broadcast := hub_broadcast h @ [(room, b)]\<rparr>)"

definition BroadcastAll :: "(EventType \<Rightarrow> jval \<Rightarrow> string option) \<Rightarrow> EventType \<Rightarrow> jval \<Rightarrow> Hub \<Rightarrow> Hub" where
  "BroadcastAll marshal t payload h = BroadcastToRoom marshal '''' t payload h"

text \<open>The rooms an event of the bus goes to.\<close>

definition task_room :: "jval \<Rightarrow> string list" where
  "task_room payload =
     (case payload of
        JObj p \<Rightarrow> if jstring0 p ''task_id'' \<noteq> '''' then [''task:'' @ jstring0 p ''task_id''] else []
      | _ \<Rightarrow> [])"

definition event_rooms :: "EventType \<Rightarrow> jval \<Rightarrow> string list" where
  "event_rooms t payload =
     (case t of
        EventTaskStatusChanged \<Rightarrow> ''tasks'' # task_room payload
      | EventTaskProgress \<Rightarrow> ''tasks'' # task_room payload
      | EventTaskLogAppended \<Rightarrow> task_room payload
      | EventTaskCancelled \<Rightarrow> ''tasks'' # task_room payload
      | EventVMStatusChanged \<Rightarrow> [''vms'']
      | EventInventorySynced \<Rightarrow> [''inventory'']
      | EventPlatformEvent \<Rightarrow> [''events'']
      | _ \<Rightarrow> [])"

definition on_bus_event :: "(EventType \<Rightarrow> jval \<Rightarrow> string option) \<Rightarrow> EventType \<Rightarrow> jval \<Rightarrow> Hub \<Rightarrow> Hub" where
  "on_bus_event marshal t payload h = foldl (\<lambda>h room. BroadcastToRoom marshal room t payload h) h (event_rooms t payload)"

text \<open>A message of a client; \<open>parse\<close> is the JSON parser.\<close>

definition handleIncoming :: "(string \<Rightarrow> jval option) \<Rightarrow> nat \<Rightarrow> string \<Rightarrow> Hub \<Rightarrow> Hub" where
  "handleIncoming parse c data h =
     (case parse data of
        Some (JObj ms) \<Rightarrow>
          if all_members ''type'' decode_string ms \<and> all_members ''room'' decode_string ms
          then (let ty = the (decode_string (member ''type'' ms)); room = the (decode_string (member ''room'' ms))
                in if ty = ''subscribe'' \<and> room \<noteq> '''' then JoinRoom c room h else h)
          else h
      | _ \<Rightarrow> h)"

text \<open>
  The steps. A pump that has nothing to do, or an empty channel, is a step without effect. \<open>StepWrite\<close> takes
  one message out of the buffer of a client, \<open>StepReadEnd\<close> is the end of the read pump of a client.
\<close>

datatype hub_op =
    StepConnect string
  | StepIncoming nat string
  | StepReadEnd nat
  | StepWrite nat
  | StepEvent EventType jval
  | LoopRegister
  | LoopUnregister
  | LoopBroadcast

fun hub_step :: "(string \<Rightarrow> jval option) \<Rightarrow> (EventType \<Rightarrow> jval \<Rightarrow> string option) \<Rightarrow> Hub \<Rightarrow> hub_op \<Rightarrow> Hub option" where
  "hub_step parse marshal h (StepConnect u) = Some (hub_Register u h)"
| "hub_step parse marshal h (StepIncoming c data) = Some (handleIncoming parse c data h)"
| "hub_step parse marshal h (StepReadEnd c) = Some (h\<lparr>hub_unregister := hub_unregister h @ [c]\<rparr>)"
| "hub_step parse marshal h (StepWrite c) =
     (case hub_store h c of
        None \<Rightarrow> Some h
      | Some cl \<Rightarrow> Some (h\<lparr>hub_store := (hub_store h)(c \<mapsto> cl\<lparr>cl_send := tl (cl_send cl)\<rparr>)\<rparr>))"
| "hub_step parse marshal h (StepEvent t payload) = Some (on_bus_event marshal t payload h)"
| "hub_step parse marshal h LoopRegister =
     (case hub_register h of [] \<Rightarrow> Some h | c # cs \<Rightarrow> Some (on_register c (h\<lparr>hub_register := cs\<rparr>)))"
| "hub_step parse marshal h LoopUnregister =
     (case hub_unregister h of [] \<Rightarrow> Some h | c # cs \<Rightarrow> on_unregister c (h\<lparr>hub_unregister := cs\<rparr>))"
| "hub_step parse marshal h LoopBroadcast =
     (case hub_broadcast h of [] \<Rightarrow> Some h | (room, msg) # ms \<Rightarrow> on_broadcast room msg (h\<lparr>hub_broadcast := ms\<rparr>))"

fun hub_run :: "(string \<Rightarrow> jval option) \<Rightarrow> (EventType \<Rightarrow> jval \<Rightarrow> string option) \<Rightarrow> Hub \<Rightarrow> hub_op list \<Rightarrow> Hub option" where
  "hub_run parse marshal h [] = Some h"
| "hub_run parse marshal h (x # xs) = (case hub_step parse marshal h x of None \<Rightarrow> None | Some h \<Rightarrow> hub_run parse marshal h xs)"

section \<open>Connected clients and rooms\<close>

text \<open>
  What keeps the hub from panicking: connected clients and those about to be registered have open
  channels, and the members of a room are connected clients that know they are in it.
\<close>

definition open_client :: "Hub \<Rightarrow> nat \<Rightarrow> bool" where
  "open_client h c \<longleftrightarrow> (\<exists>cl. hub_store h c = Some cl \<and> \<not> cl_closed cl)"

definition hub_ok :: "Hub \<Rightarrow> bool" where
  "hub_ok h \<longleftrightarrow> (\<forall>c \<in> set (hub_clients h). open_client h c) \<and> (\<forall>c \<in> set (hub_register h). open_client h c) \<and>
     distinct (hub_clients h @ hub_register h) \<and> (\<forall>c. hub_store h c \<noteq> None \<longrightarrow> c < hub_next h) \<and>
     (\<forall>r. distinct (hub_rooms h r) \<and> (\<forall>c \<in> set (hub_rooms h r). c \<in> set (hub_clients h) \<and> (\<exists>cl. hub_store h c = Some cl \<and> r \<in> set (cl_rooms cl))))"

text \<open>Subscriptions come from connected clients only.\<close>

fun polite :: "(string \<Rightarrow> jval option) \<Rightarrow> (EventType \<Rightarrow> jval \<Rightarrow> string option) \<Rightarrow> Hub \<Rightarrow> hub_op list \<Rightarrow> bool" where
  "polite parse marshal h [] = True"
| "polite parse marshal h (x # xs) =
     ((case x of StepIncoming c data \<Rightarrow> c \<in> set (hub_clients h) | _ \<Rightarrow> True) \<and>
      (case hub_step parse marshal h x of None \<Rightarrow> True | Some h \<Rightarrow> polite parse marshal h xs))"


lemma insert_new_set [simp]: "set (insert_new x xs) = insert x (set xs)"
  by (auto simp: insert_new_def)

lemma insert_new_distinct [simp]: "distinct (insert_new x xs) \<longleftrightarrow> distinct xs"
  by (auto simp: insert_new_def)

text \<open>Stores that differ in the buffers only.\<close>

definition same_clients :: "(nat \<Rightarrow> Client option) \<Rightarrow> (nat \<Rightarrow> Client option) \<Rightarrow> bool" where
  "same_clients st st' \<longleftrightarrow> (\<forall>c. map_option (\<lambda>cl. cl\<lparr>cl_send := []\<rparr>) (st' c) = map_option (\<lambda>cl. cl\<lparr>cl_send := []\<rparr>) (st c))"

lemma same_clients_refl [simp]: "same_clients st st"
  by (simp add: same_clients_def)

lemma same_clients_trans: "same_clients a b \<Longrightarrow> same_clients b c \<Longrightarrow> same_clients a c"
  by (simp add: same_clients_def)

lemma same_clients_upd: "st c = Some cl \<Longrightarrow> same_clients st (st(c \<mapsto> cl\<lparr>cl_send := q\<rparr>))"
  by (simp add: same_clients_def)

lemma same_clientsD:
  assumes "same_clients st st'" "st c = Some cl"
  obtains q where "st' c = Some (cl\<lparr>cl_send := q\<rparr>)"
proof -
  obtain cl' where cl': "st' c = Some cl'" "cl'\<lparr>cl_send := []\<rparr> = cl\<lparr>cl_send := []\<rparr>"
    using assms by (auto simp: same_clients_def dest!: spec [of _ c] split: option.splits)
  then have "cl' = cl\<lparr>cl_send := cl_send cl'\<rparr>"
    by (metis Client.surjective Client.update_convs(2))
  with cl'(1) that show thesis by metis
qed

lemma hub_ok_member:
  assumes "hub_ok h" "c \<in> set (hub_rooms h r)"
  obtains cl where "c \<in> set (hub_clients h)" "hub_store h c = Some cl" "r \<in> set (cl_rooms cl)"
proof -
  have "c \<in> set (hub_clients h) \<and> (\<exists>cl. hub_store h c = Some cl \<and> r \<in> set (cl_rooms cl))"
    using assms unfolding hub_ok_def by simp
  with that show thesis by blast
qed

lemma hub_okI:
  assumes "\<forall>x \<in> set (hub_clients h). open_client h x" "\<forall>x \<in> set (hub_register h). open_client h x"
    "distinct (hub_clients h @ hub_register h)" "\<And>x. hub_store h x \<noteq> None \<longrightarrow> x < hub_next h" "\<And>r. distinct (hub_rooms h r)"
    "\<And>x r. x \<in> set (hub_rooms h r) \<Longrightarrow> x \<in> set (hub_clients h) \<and> (\<exists>cl. hub_store h x = Some cl \<and> r \<in> set (cl_rooms cl))"
  shows "hub_ok h"
  using assms unfolding hub_ok_def by simp

lemma hub_ok_same:
  assumes "hub_ok h" "same_clients (hub_store h) st"
  shows "hub_ok (h\<lparr>hub_store := st\<rparr>)"
proof -
  have o: "open_client (h\<lparr>hub_store := st\<rparr>) c" if "open_client h c" for c
    using that same_clientsD [OF assms(2), of c] by (fastforce simp: open_client_def)
  have r: "\<exists>cl. st c = Some cl \<and> r \<in> set (cl_rooms cl)" if c: "hub_store h c = Some cl" "r \<in> set (cl_rooms cl)" for c r cl
  proof -
    obtain q where "st c = Some (cl\<lparr>cl_send := q\<rparr>)" by (rule same_clientsD [OF assms(2) c(1)])
    with c(2) show ?thesis by simp
  qed
  have n: "st c \<noteq> None \<Longrightarrow> hub_store h c \<noteq> None" for c
    using assms(2) by (cases "hub_store h c") (auto simp: same_clients_def dest!: spec [of _ c])
  let ?h = "h\<lparr>hub_store := st\<rparr>"
  have cl: "\<forall>x \<in> set (hub_clients ?h). open_client ?h x" using assms(1) o by (simp add: hub_ok_def)
  have rg: "\<forall>x \<in> set (hub_register ?h). open_client ?h x" using assms(1) o by (simp add: hub_ok_def)
  have ds: "distinct (hub_clients ?h @ hub_register ?h)" using assms(1) by (simp add: hub_ok_def)
  have nx: "hub_store ?h x \<noteq> None \<longrightarrow> x < hub_next ?h" for x using assms(1) n [of x] by (simp add: hub_ok_def)
  have dr: "distinct (hub_rooms ?h r)" for r using assms(1) by (simp add: hub_ok_def)
  have m: "x \<in> set (hub_clients ?h) \<and> (\<exists>cl. hub_store ?h x = Some cl \<and> r \<in> set (cl_rooms cl))" if x: "x \<in> set (hub_rooms ?h r)" for x r
  proof -
    obtain cl where "x \<in> set (hub_clients h)" "hub_store h x = Some cl" "r \<in> set (cl_rooms cl)"
      by (rule hub_ok_member [OF assms(1), of x r]) (use x in auto)
    with r [of x cl r] show ?thesis by simp
  qed
  show ?thesis by (rule hub_okI [OF cl rg ds nx dr m])
qed

lemma deliver_ok:
  assumes "\<forall>c \<in> set cs. \<exists>cl. st c = Some cl \<and> \<not> cl_closed cl" "distinct cs"
  shows "\<exists>st' slow. deliver msg cs st = Some (st', slow) \<and> same_clients st st' \<and> distinct slow \<and> set slow \<subseteq> set cs"
  using assms
proof (induction cs arbitrary: st)
  case (Cons c cs)
  obtain cl where cl: "st c = Some cl" "\<not> cl_closed cl" using Cons.prems(1) by auto
  show ?case
  proof (cases "length (cl_send cl) < send_capacity")
    case True
    define st1 where "st1 = st(c \<mapsto> cl\<lparr>cl_send := cl_send cl @ [msg]\<rparr>)"
    have "\<forall>x \<in> set cs. \<exists>cl. st1 x = Some cl \<and> \<not> cl_closed cl" using Cons.prems by (auto simp: st1_def)
    from Cons.IH [OF this] Cons.prems(2) obtain st' slow where r: "deliver msg cs st1 = Some (st', slow)"
      "same_clients st1 st'" "distinct slow" "set slow \<subseteq> set cs" by auto
    have "same_clients st st'" using same_clients_trans [OF same_clients_upd [where st = st and c = c and q = "cl_send cl @ [msg]", OF cl(1)] r(2) [unfolded st1_def]] .
    with r cl True show ?thesis by (auto simp: st1_def)
  next
    case False
    from Cons.IH [of st] Cons.prems obtain st' slow where "deliver msg cs st = Some (st', slow)"
      "same_clients st st'" "distinct slow" "set slow \<subseteq> set cs" by auto
    with cl False Cons.prems(2) show ?thesis by auto
  qed
qed simp

lemma hub_ok_close:
  assumes "hub_ok h" "c \<in> set (hub_clients h)" "hub_store h c = Some cl"
  shows "hub_ok (h\<lparr>hub_store := (hub_store h)(c \<mapsto> cl\<lparr>cl_closed := True\<rparr>), hub_clients := removeAll c (hub_clients h),
    hub_rooms := leave_rooms c (cl_rooms cl) (hub_rooms h)\<rparr>)" (is "hub_ok ?h")
proof -
  have reg: "c \<notin> set (hub_register h)" using assms(1,2) by (auto simp: hub_ok_def)
  have o: "open_client ?h x" if "open_client h x" "x \<noteq> c" for x using that by (simp add: open_client_def)
  have m: "x \<noteq> c \<and> x \<in> set (hub_rooms h r)" if "x \<in> set (hub_rooms ?h r)" for x r
  proof -
    have x: "x \<in> set (hub_rooms h r)" using that by (auto simp: leave_rooms_def split: if_splits)
    have "x \<noteq> c"
    proof
      assume "x = c"
      with hub_ok_member [OF assms(1) x] assms(3) have "r \<in> set (cl_rooms cl)" by auto
      with that \<open>x = c\<close> show False by (simp add: leave_rooms_def)
    qed
    with x show ?thesis by simp
  qed
  have d: "distinct (hub_rooms ?h r)" for r using assms(1) by (simp add: leave_rooms_def hub_ok_def distinct_removeAll)
  have cl: "\<forall>x \<in> set (hub_clients ?h). open_client ?h x" using assms(1) o by (auto simp: hub_ok_def)
  have rg: "\<forall>x \<in> set (hub_register ?h). open_client ?h x" using assms(1) o reg by (auto simp: hub_ok_def)
  have ds: "distinct (hub_clients ?h @ hub_register ?h)" using assms(1) by (auto simp: hub_ok_def distinct_removeAll)
  have nx: "hub_store ?h x \<noteq> None \<longrightarrow> x < hub_next ?h" for x using assms(1,3) by (auto simp: hub_ok_def)
  have mb: "x \<in> set (hub_clients ?h) \<and> (\<exists>cl. hub_store ?h x = Some cl \<and> r \<in> set (cl_rooms cl))" if "x \<in> set (hub_rooms ?h r)" for x r
    using m [OF that] hub_ok_member [OF assms(1), of x r] by auto
  show ?thesis by (rule hub_okI [OF cl rg ds nx d mb])
qed

lemma disconnect_slow_ok:
  assumes "hub_ok h" "distinct cs" "set cs \<subseteq> set (hub_clients h)"
  shows "\<exists>h'. disconnect_slow cs h = Some h' \<and> hub_ok h'"
  using assms
proof (induction cs arbitrary: h)
  case (Cons c cs)
  obtain cl where cl: "hub_store h c = Some cl" "\<not> cl_closed cl" using Cons.prems by (auto simp: hub_ok_def open_client_def)
  define h1 where "h1 = h\<lparr>hub_store := (hub_store h)(c \<mapsto> cl\<lparr>cl_closed := True\<rparr>), hub_clients := removeAll c (hub_clients h),
    hub_rooms := leave_rooms c (cl_rooms cl) (hub_rooms h)\<rparr>"
  have "hub_ok h1" unfolding h1_def by (rule hub_ok_close) (use Cons.prems cl in auto)
  moreover have "distinct cs" "set cs \<subseteq> set (hub_clients h1)" using Cons.prems by (auto simp: h1_def)
  ultimately show ?case using Cons.IH [of h1] cl by (simp add: h1_def)
qed simp

lemma on_broadcast_ok:
  assumes "hub_ok h"
  shows "\<exists>h'. on_broadcast room msg h = Some h' \<and> hub_ok h'"
proof -
  define ts where "ts = (if room = '''' then hub_clients h else hub_rooms h room)"
  have ts: "set ts \<subseteq> set (hub_clients h)" "distinct ts" using assms by (auto simp: ts_def hub_ok_def)
  then have "\<forall>c \<in> set ts. \<exists>cl. hub_store h c = Some cl \<and> \<not> cl_closed cl" using assms by (auto simp: hub_ok_def open_client_def)
  from deliver_ok [OF this ts(2)] obtain st slow where d: "deliver msg ts (hub_store h) = Some (st, slow)"
    "same_clients (hub_store h) st" "distinct slow" "set slow \<subseteq> set ts" by blast
  have "hub_ok (h\<lparr>hub_store := st\<rparr>)" by (rule hub_ok_same [OF assms d(2)])
  from disconnect_slow_ok [OF this d(3)] d(1,4) ts(1) show ?thesis by (auto simp: on_broadcast_def ts_def [symmetric])
qed

lemma hub_upd_order: "h\<lparr>hub_clients := cs, hub_store := st\<rparr> = h\<lparr>hub_store := st, hub_clients := cs\<rparr>"
  by simp

lemma on_unregister_ok:
  assumes "hub_ok h"
  shows "\<exists>h'. on_unregister c h = Some h' \<and> hub_ok h'"
proof (cases "c \<in> set (hub_clients h)")
  case True
  then obtain cl where cl: "hub_store h c = Some cl" "\<not> cl_closed cl" using assms by (auto simp: hub_ok_def open_client_def)
  have "hub_ok (x\<lparr>hub_userConns := u\<rparr>) = hub_ok x" for x u by (simp add: hub_ok_def open_client_def)
  with hub_ok_close [OF assms True cl(1)] True cl show ?thesis by (simp add: on_unregister_def hub_upd_order)
next
  case False
  with assms show ?thesis by (simp add: on_unregister_def)
qed

lemma on_register_ok:
  assumes "hub_ok h" "hub_register h = c # cs"
  shows "hub_ok (on_register c (h\<lparr>hub_register := cs\<rparr>))"
proof -
  have c: "c \<notin> set (hub_clients h)" "open_client h c" using assms by (auto simp: hub_ok_def)
  then obtain cl where "hub_store h c = Some cl" by (auto simp: open_client_def)
  with assms c show ?thesis by (auto simp: on_register_def hub_ok_def open_client_def)
qed

lemma Register_ok:
  assumes "hub_ok h"
  shows "hub_ok (hub_Register u h)"
proof -
  have new: "hub_store h (hub_next h) = None" using assms by (auto simp: hub_ok_def)
  have o: "open_client (hub_Register u h) c" if "open_client h c" for c
    using that new by (auto simp: open_client_def hub_Register_def)
  have "x \<noteq> hub_next h" if "open_client h x" for x using that new by (auto simp: open_client_def)
  with assms o new show ?thesis
    by (auto simp: hub_ok_def hub_Register_def open_client_def less_Suc_eq)
qed

lemma JoinRoom_ok:
  assumes "hub_ok h" "c \<in> set (hub_clients h)"
  shows "hub_ok (JoinRoom c room h)"
proof -
  obtain cl where cl: "hub_store h c = Some cl" "\<not> cl_closed cl" using assms by (auto simp: hub_ok_def open_client_def)
  have o: "open_client (JoinRoom c room h) x" if "open_client h x" for x
    using that cl by (auto simp: open_client_def JoinRoom_def)
  have n: "hub_store (JoinRoom c room h) x \<noteq> None \<longrightarrow> x < hub_next (JoinRoom c room h)" for x
    using assms(1) cl by (auto simp: hub_ok_def JoinRoom_def)
  have s: "hub_clients (JoinRoom c room h) = hub_clients h" "hub_register (JoinRoom c room h) = hub_register h"
    using cl by (simp_all add: JoinRoom_def)
  have d: "distinct (hub_rooms (JoinRoom c room h) r)" for r using assms(1) cl by (simp add: JoinRoom_def hub_ok_def)
  have m: "x \<in> set (hub_clients (JoinRoom c room h)) \<and> (\<exists>cl. hub_store (JoinRoom c room h) x = Some cl \<and> r \<in> set (cl_rooms cl))"
    if x: "x \<in> set (hub_rooms (JoinRoom c room h) r)" for x r
  proof (cases "x = c \<and> r = room")
    case True
    with assms(2) cl s show ?thesis by (simp add: JoinRoom_def)
  next
    case False
    then have "x \<in> set (hub_rooms h r)" using x cl by (auto simp: JoinRoom_def split: if_splits)
    then obtain k where "x \<in> set (hub_clients h)" "hub_store h x = Some k" "r \<in> set (cl_rooms k)"
      by (rule hub_ok_member [OF assms(1)])
    with cl s show ?thesis by (auto simp: JoinRoom_def)
  qed
  show ?thesis by (rule hub_okI [OF _ _ _ n d m]) (use assms(1) o s in \<open>simp_all add: hub_ok_def\<close>)
qed

lemma broadcast_ok: "hub_ok (BroadcastToRoom marshal room t payload h) = hub_ok h"
  by (simp add: BroadcastToRoom_def hub_ok_def open_client_def split: option.split)

lemma bus_event_ok: "hub_ok h \<Longrightarrow> hub_ok (on_bus_event marshal t payload h)"
proof -
  have "hub_ok (foldl (\<lambda>h room. BroadcastToRoom marshal room t payload h) h rs) = hub_ok h" for rs h
    by (induction rs arbitrary: h) (simp_all add: broadcast_ok)
  then show "hub_ok h \<Longrightarrow> hub_ok (on_bus_event marshal t payload h)" by (simp add: on_bus_event_def)
qed

lemma hub_step_ok:
  assumes "hub_ok h" "case x of StepIncoming c data \<Rightarrow> c \<in> set (hub_clients h) | _ \<Rightarrow> True"
  shows "\<exists>h'. hub_step parse marshal h x = Some h' \<and> hub_ok h'"
proof (cases x)
  case (StepIncoming c data)
  with assms JoinRoom_ok show ?thesis by (auto simp: handleIncoming_def Let_def split: option.split jval.split)
next
  case (StepWrite c)
  show ?thesis
  proof (cases "hub_store h c")
    case (Some cl)
    have "hub_ok (h\<lparr>hub_store := (hub_store h)(c \<mapsto> cl\<lparr>cl_send := tl (cl_send cl)\<rparr>)\<rparr>)"
      by (rule hub_ok_same [OF assms(1)], rule same_clients_upd, rule Some)
    with StepWrite Some show ?thesis by simp
  qed (use assms StepWrite in simp)
next
  case LoopRegister
  with assms(1) on_register_ok show ?thesis by (cases "hub_register h") auto
next
  case LoopUnregister
  have "hub_ok (h\<lparr>hub_unregister := cs\<rparr>)" for cs using assms(1) by (simp add: hub_ok_def open_client_def)
  with LoopUnregister on_unregister_ok assms(1) show ?thesis by (cases "hub_unregister h") auto
next
  case LoopBroadcast
  have "hub_ok (h\<lparr>hub_broadcast := cs\<rparr>)" for cs using assms(1) by (simp add: hub_ok_def open_client_def)
  with LoopBroadcast on_broadcast_ok assms(1) show ?thesis by (cases "hub_broadcast h") (auto split: prod.split)
qed (use assms(1) Register_ok bus_event_ok in \<open>auto simp: hub_ok_def open_client_def\<close>)

lemma hub_run_ok:
  assumes "hub_ok h" "polite parse marshal h xs"
  shows "\<exists>h'. hub_run parse marshal h xs = Some h' \<and> hub_ok h'"
  using assms
proof (induction xs arbitrary: h)
  case (Cons x xs)
  have "case x of StepIncoming c data \<Rightarrow> c \<in> set (hub_clients h) | _ \<Rightarrow> True" using Cons.prems(2) by simp
  from hub_step_ok [OF Cons.prems(1) this, of parse marshal]
  obtain h1 where "hub_step parse marshal h x = Some h1" "hub_ok h1" by blast
  with Cons show ?case by simp
qed simp

lemma hub_run_append:
  "hub_run parse marshal h (xs @ ys) = (case hub_run parse marshal h xs of None \<Rightarrow> None | Some h1 \<Rightarrow> hub_run parse marshal h1 ys)"
  by (induction xs arbitrary: h) (simp_all split: option.split)

lemma NewHub_ok: "hub_ok NewHub"
  by (simp add: hub_ok_def NewHub_def)

text \<open>
  C27. As long as only clients that are connected subscribe, no interleaving of connections, subscriptions, events,
  writes, ends of connections and iterations of the loop makes the hub panic, and the members of every room are
  then connected clients with an open channel.
\<close>

theorem hub_never_panics:
  assumes "polite parse marshal NewHub xs"
  shows "\<exists>h. hub_run parse marshal NewHub xs = Some h \<and>
    (\<forall>r. set (hub_rooms h r) \<subseteq> set (hub_clients h)) \<and> (\<forall>c cl. c \<in> set (hub_clients h) \<and> hub_store h c = Some cl \<longrightarrow> \<not> cl_closed cl)"
proof -
  obtain h where h: "hub_run parse marshal NewHub xs = Some h" "hub_ok h" using hub_run_ok [OF NewHub_ok assms] by blast
  have "set (hub_rooms h r) \<subseteq> set (hub_clients h)" for r using hub_ok_member [OF h(2), of _ r] by blast
  moreover have "\<not> cl_closed cl" if "c \<in> set (hub_clients h)" "hub_store h c = Some cl" for c cl
    using h(2) that by (auto simp: hub_ok_def open_client_def)
  ultimately show ?thesis using h(1) by blast
qed

definition sample_parse :: "string \<Rightarrow> jval option" where
  "sample_parse data = Some (JObj [(''type'', JStr ''subscribe''), (''room'', JStr ''vms'')])"

definition sample_marshal :: "EventType \<Rightarrow> jval \<Rightarrow> string option" where
  "sample_marshal t payload = Some ''message''"

lemmas hub_eval = NewHub_def hub_Register_def on_register_def JoinRoom_def insert_new_def on_bus_event_def
  event_rooms_def BroadcastToRoom_def on_broadcast_def on_unregister_def leave_rooms_def

lemma hub_never_panics_witness:
  "\<exists>h. hub_run sample_parse sample_marshal NewHub
     [StepConnect ''u'', LoopRegister, StepIncoming 0 ''s'', StepEvent EventVMStatusChanged JNull, LoopBroadcast, StepReadEnd 0, LoopUnregister] = Some h"
proof -
  have "polite sample_parse sample_marshal NewHub
     [StepConnect ''u'', LoopRegister, StepIncoming 0 ''s'', StepEvent EventVMStatusChanged JNull, LoopBroadcast, StepReadEnd 0, LoopUnregister]"
    by code_simp
  from hub_never_panics [OF this] show ?thesis by blast
qed

lemma sample_subscription:
  "all_members ''type'' decode_string [(''type'', JStr ''subscribe''), (''room'', JStr ''vms'')]"
  "all_members ''room'' decode_string [(''type'', JStr ''subscribe''), (''room'', JStr ''vms'')]"
  "decode_string (member ''type'' [(''type'', JStr ''subscribe''), (''room'', JStr ''vms'')]) = Some ''subscribe''"
  "decode_string (member ''room'' [(''type'', JStr ''subscribe''), (''room'', JStr ''vms'')]) = Some ''vms''"
  by code_simp+

text \<open>The hub with one client, number 0, in the room of the virtual machines, and its buffer.\<close>

definition subscribed :: "string \<Rightarrow> string list \<Rightarrow> Hub" where
  "subscribed u q = NewHub\<lparr>hub_store := [0 \<mapsto> \<lparr>cl_userID = u, cl_send = q, cl_closed = False, cl_rooms = [''vms'']\<rparr>],
     hub_clients := [0], hub_rooms := (\<lambda>r. [])(''vms'' := [0]), hub_userConns := (\<lambda>x. 0)(u := 1), hub_next := 1\<rparr>"

lemma subscribed_event:
  assumes "marshal EventVMStatusChanged payload = Some b" "length q < send_capacity"
  shows "hub_run parse marshal (subscribed u q) [StepEvent EventVMStatusChanged payload, LoopBroadcast] = Some (subscribed u (q @ [b]))"
  using assms by (simp add: subscribed_def hub_eval Let_def)

lemma subscribed_events:
  assumes "marshal EventVMStatusChanged payload = Some b" "length q + n \<le> send_capacity"
  shows "hub_run parse marshal (subscribed u q) (concat (replicate n [StepEvent EventVMStatusChanged payload, LoopBroadcast]))
    = Some (subscribed u (q @ replicate n b))"
  using assms(2)
proof (induction n arbitrary: q)
  case (Suc n)
  have "length q < send_capacity" using Suc.prems by simp
  from subscribed_event [where marshal = marshal and parse = parse and u = u, OF assms(1) this]
    hub_run_append [of parse marshal "subscribed u q" "[StepEvent EventVMStatusChanged payload, LoopBroadcast]"] Suc
  show ?case by (simp del: hub_run.simps)
qed simp

text \<open>
  The condition is needed: a client whose write pump stalls while 257 events arrive is disconnected as slow, and when
  it subscribes again before its connection ends, the next event is sent on its closed channel and the process panics.
\<close>

theorem slow_client_resubscribe_panics:
  assumes "parse data = Some (JObj [(''type'', JStr ''subscribe''), (''room'', JStr ''vms'')])"
    and "marshal EventVMStatusChanged payload = Some b"
  shows "hub_run parse marshal NewHub ([StepConnect u, LoopRegister, StepIncoming 0 data]
     @ concat (replicate 257 [StepEvent EventVMStatusChanged payload, LoopBroadcast])
     @ [StepIncoming 0 data, StepEvent EventVMStatusChanged payload, LoopBroadcast]) = None"
proof -
  have in_vms: "handleIncoming parse 0 data h = JoinRoom 0 ''vms'' h" for h
    using assms(1) by (simp add: handleIncoming_def sample_subscription)
  have j: "hub_run parse marshal NewHub [StepConnect u, LoopRegister, StepIncoming 0 data] = Some (subscribed u [])"
    by (simp add: in_vms subscribed_def hub_eval Let_def)
  have e: "hub_run parse marshal (subscribed u []) (concat (replicate 256 [StepEvent EventVMStatusChanged payload, LoopBroadcast]))
    = Some (subscribed u (replicate 256 b))"
    using subscribed_events [where marshal = marshal and q = "[]" and n = 256, OF assms(2), of parse u] by (simp add: send_capacity_def)
  have l: "hub_run parse marshal (subscribed u (replicate 256 b)) [StepEvent EventVMStatusChanged payload, LoopBroadcast,
     StepIncoming 0 data, StepEvent EventVMStatusChanged payload, LoopBroadcast] = None"
    using assms(2) by (simp add: in_vms subscribed_def hub_eval Let_def send_capacity_def)
  have c: "concat (replicate 257 ys) = concat (replicate 256 ys) @ (ys :: hub_op list)" for ys
    using replicate_add [of 256 1 ys] by simp
  show ?thesis unfolding hub_run_append c j option.case e
    using l [folded append.simps] by (simp only: hub_run_append [symmetric] append.simps option.case e)
qed

lemma slow_client_resubscribe_panics_witness:
  "hub_run sample_parse sample_marshal NewHub ([StepConnect ''u'', LoopRegister, StepIncoming 0 ''s'']
     @ concat (replicate 257 [StepEvent EventVMStatusChanged JNull, LoopBroadcast])
     @ [StepIncoming 0 ''s'', StepEvent EventVMStatusChanged JNull, LoopBroadcast]) = None"
  by (rule slow_client_resubscribe_panics) (simp_all add: sample_parse_def sample_marshal_def)


section \<open>Subscriptions of the event bus\<close>

definition bus_ok :: "'h InMemoryEventBus \<Rightarrow> bool" where
  "bus_ok b \<longleftrightarrow> (\<forall>t. distinct (map fst (bus_handlers b t)) \<and> (\<forall>i \<in> set (map fst (bus_handlers b t)). i < bus_nextID b))"

lemma bus_ok_new: "bus_ok NewInMemoryEventBus"
  by (simp add: bus_ok_def NewInMemoryEventBus_def)

lemma bus_ok_subscribe: "bus_ok b \<Longrightarrow> bus_ok (fst (Subscribe t h b))"
  by (fastforce simp: bus_ok_def Subscribe_def less_Suc_eq)

lemma bus_ok_unsubscribe:
  assumes "bus_ok b" shows "bus_ok (unsubscribe t i b)"
  using assms by (force simp: bus_ok_def unsubscribe_def distinct_map_filter)

text \<open>The function that \<^verbatim>\<open>Subscribe\<close> gives back takes out the handler it was given for and no other.\<close>

lemma unsubscribe_subscribe:
  assumes "bus_ok b" and "Subscribe t h b = (b', i)"
  shows "Publish u b' = Publish u b @ (if u = t then [h] else [])" and "Publish u (unsubscribe t i b') = Publish u b"
proof -
  have b': "b' = b\<lparr>bus_handlers := (bus_handlers b)(t := bus_handlers b t @ [(i, h)]), bus_nextID := bus_nextID b + 1\<rparr>" "i = bus_nextID b"
    using assms(2) by (auto simp: Subscribe_def)
  have "\<forall>p \<in> set (bus_handlers b t). fst p \<noteq> i" using assms(1) b'(2) by (force simp: bus_ok_def)
  then have "filter (\<lambda>(j, h). j \<noteq> i) (bus_handlers b t) = bus_handlers b t" by (auto simp: filter_id_conv)
  with b' show "Publish u b' = Publish u b @ (if u = t then [h] else [])" "Publish u (unsubscribe t i b') = Publish u b"
    by (simp_all add: Publish_def unsubscribe_def)
qed

end
