(* ===== verification/ExecutionOrder.thy ===== *)
theory ExecutionOrder
  imports Prelude
begin

text \<open>
  The order in which the virtual machines of an environment are started, stopped, restarted, copied or
  cloned: \<^verbatim>\<open>computeExecutionOrder\<close> of \<^verbatim>\<open>internal/service/environment_service.go\<close>, over the rows of
  \<^verbatim>\<open>internal/domain/model/environment.go\<close>.

  \<^verbatim>\<open>sort.Slice\<close> need not be stable. What it does depends on the outcomes of the comparisons only, so it
  is a function \<open>srt\<close> from the keys to the positions they are taken from; the locale \<open>slice_sort\<close> is its
  documented contract, and a stable sort satisfies it. Positions outside the slice are dropped, which the
  contract makes vacuous and which keeps the loop below total for every \<open>srt\<close>.
\<close>

section \<open>Data\<close>

datatype OrchestrationOperation =
    OrchestrationOpStart | OrchestrationOpStop | OrchestrationOpRestart | OrchestrationOpSnapshot | OrchestrationOpClone

datatype DependencyType = DependencyTypeStartBefore | DependencyTypeStopAfter | DependencyTypeRequires

record EnvironmentVM =
  ev_ID :: string
  ev_EnvironmentID :: string
  ev_VMID :: string
  ev_StartOrder :: int
  ev_StopOrder :: int
  ev_Role :: string
  ev_Notes :: string

record VMDependency =
  vd_ID :: string
  vd_EnvironmentID :: string
  vd_SourceVMID :: string
  vd_TargetVMID :: string
  vd_Type :: DependencyType
  vd_DelaySeconds :: int
  vd_Notes :: string

section \<open>Sorting a slice\<close>

definition sort_Slice :: "(int list \<Rightarrow> nat list) \<Rightarrow> ('a \<Rightarrow> int) \<Rightarrow> 'a list \<Rightarrow> 'a list" where
  "sort_Slice srt key xs = map (\<lambda>i. xs ! i) (filter (\<lambda>i. i < length xs) (srt (map key xs)))"

lemma sort_Slice_within: "set (sort_Slice srt key xs) \<subseteq> set xs"
  by (auto simp: sort_Slice_def)

locale slice_sort =
  fixes srt :: "int list \<Rightarrow> nat list"
  assumes permutes: "mset (srt ks) = mset [0..<length ks]"
    and ascending: "sorted (map (\<lambda>i. ks ! i) (srt ks))"
begin

lemma positions: "i \<in> set (srt ks) \<Longrightarrow> i < length ks"
  using permutes [of ks] by (metis atLeastLessThan_iff atLeastLessThan_upt set_mset_mset)

lemma sort_Slice_positions: "sort_Slice srt key xs = map (\<lambda>i. xs ! i) (srt (map key xs))"
proof -
  have "filter (\<lambda>i. i < length xs) (srt (map key xs)) = srt (map key xs)"
    using positions [of _ "map key xs"] by (auto simp: filter_id_conv)
  then show ?thesis by (simp add: sort_Slice_def)
qed

lemma mset_sort_Slice: "mset (sort_Slice srt key xs) = mset xs"
proof -
  have "mset (sort_Slice srt key xs) = image_mset (\<lambda>i. xs ! i) (mset [0..<length xs])"
    using permutes [of "map key xs"] by (simp add: sort_Slice_positions)
  also have "\<dots> = mset (map (\<lambda>i. xs ! i) [0..<length xs])" by simp
  finally show ?thesis by (simp only: map_nth)
qed

lemma set_sort_Slice: "set (sort_Slice srt key xs) = set xs"
  using mset_sort_Slice [of key xs] by (rule mset_eq_setD)

lemma length_sort_Slice: "length (sort_Slice srt key xs) = length xs"
  using mset_sort_Slice [of key xs] by (rule mset_eq_length)

lemma distinct_sort_Slice: "distinct (sort_Slice srt key xs) = distinct xs"
  using mset_sort_Slice [of key xs] by (rule mset_eq_imp_distinct_iff)

lemma count_sort_Slice: "count_list (sort_Slice srt key xs) x = count_list xs x"
  using mset_sort_Slice [of key xs] by (metis count_mset)

lemma sorted_sort_Slice: "sorted (map key (sort_Slice srt key xs))"
proof -
  have "map key (sort_Slice srt key xs) = map (\<lambda>i. map key xs ! i) (srt (map key xs))"
    using positions [of _ "map key xs"] by (auto simp: sort_Slice_positions)
  then show ?thesis using ascending [of "map key xs"] by simp
qed

end

text \<open>A stable sort, by insertion, which is what the library does on short slices.\<close>

definition stable_positions :: "int list \<Rightarrow> nat list" where
  "stable_positions ks = sort_key (\<lambda>i. ks ! i) [0..<length ks]"

interpretation stable: slice_sort stable_positions
  by unfold_locales (simp_all add: stable_positions_def)

section \<open>The order\<close>

text \<open>The target of a dependency has to start before its source.\<close>

definition order_edges :: "VMDependency list \<Rightarrow> (string \<times> string) list" where
  "order_edges deps = map (\<lambda>d. (vd_TargetVMID d, vd_SourceVMID d))
     (filter (\<lambda>d. vd_Type d = DependencyTypeStartBefore \<or> vd_Type d = DependencyTypeRequires) deps)"

definition vm_map :: "EnvironmentVM list \<Rightarrow> string \<Rightarrow> EnvironmentVM option" where
  "vm_map evs = foldl (\<lambda>m ev. m(ev_VMID ev \<mapsto> ev)) Map.empty evs"

definition zero_EnvironmentVM :: EnvironmentVM where
  "zero_EnvironmentVM = \<lparr>ev_ID = nil_uuid, ev_EnvironmentID = nil_uuid, ev_VMID = nil_uuid, ev_StartOrder = 0, ev_StopOrder = 0,
     ev_Role = '''', ev_Notes = ''''\<rparr>"

text \<open>Reading a map of the language gives the zero value for a missing key.\<close>

definition vm_at :: "(string \<Rightarrow> EnvironmentVM option) \<Rightarrow> string \<Rightarrow> EnvironmentVM" where
  "vm_at m i = (case m i of None \<Rightarrow> zero_EnvironmentVM | Some ev \<Rightarrow> ev)"

definition inner_edges :: "(string \<Rightarrow> EnvironmentVM option) \<Rightarrow> (string \<times> string) list \<Rightarrow> (string \<times> string) list" where
  "inner_edges m es = filter (\<lambda>(u, v). m u \<noteq> None \<and> m v \<noteq> None) es"

text \<open>The adjacency lists and the numbers of incoming edges, counted edge by edge.\<close>

definition adj :: "(string \<times> string) list \<Rightarrow> string \<Rightarrow> string list" where
  "adj es u = map snd (filter (\<lambda>e. fst e = u) es)"

definition in_degree :: "(string \<times> string) list \<Rightarrow> string \<Rightarrow> int" where
  "in_degree es = foldl (\<lambda>d e. d(snd e := d (snd e) + 1)) (\<lambda>v. 0) es"

text \<open>The neighbours of the current machine lose an incoming edge; those that lost their last one are ready.\<close>

fun relax :: "string list \<Rightarrow> (string \<Rightarrow> int) \<Rightarrow> string list \<Rightarrow> (string \<Rightarrow> int) \<times> string list" where
  "relax [] deg q = (deg, q)"
| "relax (v # vs) deg q =
     (let deg = deg(v := deg v - 1)
      in relax vs deg (if deg v = 0 then q @ [v] else q))"

text \<open>What an iteration uses up: the entries of the queue and the positive numbers of incoming edges.\<close>

definition fuel :: "string set \<Rightarrow> (string \<Rightarrow> int) \<Rightarrow> string list \<Rightarrow> nat" where
  "fuel V deg q = length q + (\<Sum>v\<in>V. nat (deg v))"

lemma relax_fuel:
  assumes "finite V" "set vs \<subseteq> V" "relax vs deg q = (deg', q')"
  shows "fuel V deg' q' \<le> fuel V deg q"
  using assms(2,3)
proof (induction vs arbitrary: deg q)
  case (Cons v vs)
  define deg1 where "deg1 = deg(v := deg v - 1)"
  define q1 where "q1 = (if deg1 v = 0 then q @ [v] else q)"
  have v: "v \<in> V" using Cons.prems by simp
  have "(\<Sum>u\<in>V - {v}. nat (deg1 u)) = (\<Sum>u\<in>V - {v}. nat (deg u))" by (rule sum.cong) (auto simp: deg1_def)
  then have "fuel V deg1 q1 \<le> fuel V deg q"
    using sum.remove [OF assms(1) v, of "\<lambda>u. nat (deg1 u)"] sum.remove [OF assms(1) v, of "\<lambda>u. nat (deg u)"]
    by (auto simp: fuel_def deg1_def q1_def)
  moreover have "relax vs deg1 q1 = (deg', q')" using Cons.prems by (simp add: Let_def deg1_def q1_def)
  ultimately show ?case using Cons.IH [of deg1 q1] Cons.prems(1) by simp
qed simp

function kahn ::
  "(int list \<Rightarrow> nat list) \<Rightarrow> (string \<Rightarrow> int) \<Rightarrow> (string \<times> string) list \<Rightarrow> (string \<Rightarrow> int) \<Rightarrow> string list \<Rightarrow> string list \<Rightarrow> string list" where
  "kahn srt key es deg [] result = result"
| "kahn srt key es deg (cur # queue) result =
     (case relax (sort_Slice srt key (adj es cur)) deg queue of
        (deg, queue) \<Rightarrow> kahn srt key es deg queue (result @ [cur]))"
  by pat_completeness auto
termination
proof (relation "measure (\<lambda>(srt, key, es, deg, q, result). fuel (snd ` set es) deg q)", goal_cases)
  case (2 srt key es deg cur queue result deg' queue')
  have "set (sort_Slice srt key (adj es cur)) \<subseteq> snd ` set es"
    using sort_Slice_within [of srt key "adj es cur"] by (auto simp: adj_def)
  with relax_fuel [of "snd ` set es" _ deg queue deg' queue'] 2 show ?case by (fastforce simp: fuel_def)
qed simp

definition computeExecutionOrder ::
  "(int list \<Rightarrow> nat list) \<Rightarrow> EnvironmentVM list \<Rightarrow> VMDependency list \<Rightarrow> OrchestrationOperation \<Rightarrow> EnvironmentVM list" where
  "computeExecutionOrder srt envVMs deps oper =
     (if oper = OrchestrationOpStop then sort_Slice srt (\<lambda>ev. - ev_StopOrder ev) envVMs
      else (let m = vm_map envVMs;
                vmIDs = map ev_VMID envVMs;
                es = inner_edges m (order_edges deps);
                key = (\<lambda>i. ev_StartOrder (vm_at m i));
                queue = sort_Slice srt key (filter (\<lambda>i. in_degree es i = 0) vmIDs);
                result = map (vm_at m) (kahn srt key es (in_degree es) queue []);
                remaining = filter (\<lambda>ev. ev_VMID ev \<notin> ev_VMID ` set result) envVMs
            in result @ sort_Slice srt ev_StartOrder remaining))"

section \<open>The loop\<close>

lemma in_degree_count: "in_degree es v = int (length (filter (\<lambda>e. snd e = v) es))"
  by (induction es rule: rev_induct) (auto simp: in_degree_def)

lemma relax_simps:
  assumes "\<forall>v. int (count_list vs v) \<le> deg v \<or> v \<notin> set vs" "distinct q" "\<forall>v \<in> set vs. v \<notin> set q" "relax vs deg q = (deg', q')"
  shows "deg' = (\<lambda>v. deg v - int (count_list vs v)) \<and> distinct q' \<and> set q' = set q \<union> {v \<in> set vs. deg' v = 0}"
  using assms
proof (induction vs arbitrary: deg q)
  case (Cons v vs)
  define deg1 where "deg1 = deg(v := deg v - 1)"
  define q1 where "q1 = (if deg1 v = 0 then q @ [v] else q)"
  have r: "relax vs deg1 q1 = (deg', q')" using Cons.prems(4) by (simp add: Let_def deg1_def q1_def)
  have c: "int (count_list vs v) \<le> deg1 v" using Cons.prems(1) by (auto simp: deg1_def dest!: spec [of _ v])
  have bound: "\<forall>u. int (count_list vs u) \<le> deg1 u \<or> u \<notin> set vs"
  proof
    fix u show "int (count_list vs u) \<le> deg1 u \<or> u \<notin> set vs"
      using c Cons.prems(1) by (cases "u = v") (auto simp: deg1_def dest!: spec [of _ u] split: if_splits)
  qed
  have new: "v \<notin> set vs" if "deg1 v = 0" using c that by (simp add: count_list_0_iff)
  have d: "distinct q1" using Cons.prems(2,3) by (auto simp: q1_def)
  have o: "\<forall>u \<in> set vs. u \<notin> set q1" using Cons.prems(3) new by (auto simp: q1_def)
  note ih = Cons.IH [OF bound d o r]
  have deg: "deg' = (\<lambda>u. deg u - int (count_list (v # vs) u))" using ih by (auto simp: deg1_def)
  have "deg' v = 0 \<longleftrightarrow> deg1 v = 0" if "v \<notin> set vs" using ih that by (simp add: count_list_0_iff)
  then have "set q' = set q \<union> {u \<in> set (v # vs). deg' u = 0}"
    using ih new by (auto simp: q1_def)
  with deg ih show ?case by blast
qed simp_all

text \<open>The edges into a machine whose origins have not been taken out of the queue.\<close>

definition open_edges :: "(string \<times> string) list \<Rightarrow> string list \<Rightarrow> string \<Rightarrow> (string \<times> string) list" where
  "open_edges es R v = filter (\<lambda>e. snd e = v \<and> fst e \<notin> set R) es"

text \<open>Every origin of an edge stands before its target.\<close>

definition before :: "(string \<times> string) list \<Rightarrow> string list \<Rightarrow> bool" where
  "before es R \<longleftrightarrow> (\<forall>a v b u. R = a @ v # b \<and> (u, v) \<in> set es \<longrightarrow> u \<in> set a)"

definition kahn_inv :: "string set \<Rightarrow> (string \<times> string) list \<Rightarrow> (string \<Rightarrow> int) \<Rightarrow> string list \<Rightarrow> string list \<Rightarrow> bool" where
  "kahn_inv V es deg q R \<longleftrightarrow> distinct (R @ q) \<and> set (R @ q) \<subseteq> V \<and> (\<forall>v. deg v = int (length (open_edges es R v))) \<and>
     (\<forall>v \<in> V. v \<in> set (R @ q) \<longleftrightarrow> deg v = 0) \<and> before es R"

lemma count_adj: "count_list (adj es u) v = length (filter (\<lambda>e. snd e = v \<and> fst e = u) es)"
  by (induction es) (auto simp: adj_def)

lemma open_edges_snoc:
  assumes "u \<notin> set R"
  shows "int (length (open_edges es (R @ [u]) v)) = int (length (open_edges es R v)) - int (count_list (adj es u) v)"
  using assms unfolding count_adj open_edges_def by (induction es) auto

lemma open_edges_Nil: "open_edges es R v = [] \<longleftrightarrow> (\<forall>u. (u, v) \<in> set es \<longrightarrow> u \<in> set R)"
  by (auto simp: open_edges_def filter_empty_conv)

lemma set_adj: "v \<in> set (adj es u) \<longleftrightarrow> (u, v) \<in> set es"
  by (force simp: adj_def)

lemma before_snoc:
  assumes "before es R" "\<forall>u. (u, v) \<in> set es \<longrightarrow> u \<in> set R"
  shows "before es (R @ [v])"
  unfolding before_def
proof (intro allI impI)
  fix a w b u assume h: "R @ [v] = a @ w # b \<and> (u, w) \<in> set es"
  show "u \<in> set a"
  proof (cases b rule: rev_cases)
    case Nil
    with h assms(2) show ?thesis by auto
  next
    case (snoc b' x)
    with h have "R = a @ w # b'" by auto
    with h assms(1) show ?thesis unfolding before_def by blast
  qed
qed

context slice_sort
begin

lemma kahn_step:
  assumes inv: "kahn_inv V es deg (cur # queue) R" and r: "relax (sort_Slice srt key (adj es cur)) deg queue = (deg', queue')"
    and V: "snd ` set es \<subseteq> V"
  shows "kahn_inv V es deg' queue' (R @ [cur])"
proof -
  let ?vs = "sort_Slice srt key (adj es cur)"
  have d: "distinct (R @ cur # queue)" and sub: "set (R @ cur # queue) \<subseteq> V" and deg: "deg v = int (length (open_edges es R v))"
    and ready: "v \<in> V \<Longrightarrow> v \<in> set (R @ cur # queue) \<longleftrightarrow> deg v = 0" and bf: "before es R" for v
    using inv by (auto simp: kahn_inv_def)
  have cur: "cur \<notin> set R" using d by auto
  note step = open_edges_snoc [OF cur, of es]
  have waits: "v \<notin> set (R @ cur # queue)" if v: "v \<in> set ?vs" for v
  proof -
    have e: "(cur, v) \<in> set es" using v by (simp add: set_sort_Slice set_adj)
    then have "open_edges es R v \<noteq> []" using cur unfolding open_edges_Nil by blast
    then have "deg v \<noteq> 0" using deg [of v] by simp
    moreover have "v \<in> V" using e V by force
    ultimately show ?thesis using ready by blast
  qed
  have le: "int (count_list ?vs v) \<le> deg v" for v using step [of v] deg [of v] by (simp add: count_sort_Slice)
  have rs: "deg' = (\<lambda>v. deg v - int (count_list ?vs v))" "distinct queue'" "set queue' = set queue \<union> {v \<in> set ?vs. deg' v = 0}"
    using relax_simps [OF _ _ _ r] le d waits by auto
  have deg': "deg' v = int (length (open_edges es (R @ [cur]) v))" for v
    using step [of v] deg [of v] rs(1) by (simp add: count_sort_Slice)
  have d': "distinct ((R @ [cur]) @ queue')" using d rs waits by auto
  have sub': "set ((R @ [cur]) @ queue') \<subseteq> V" using sub rs(3) V by (auto simp: set_sort_Slice set_adj)
  have ready': "v \<in> set ((R @ [cur]) @ queue') \<longleftrightarrow> deg' v = 0" if v: "v \<in> V" for v
  proof (cases "v \<in> set ?vs")
    case True
    with waits [OF True] rs(3) show ?thesis by auto
  next
    case False
    then have "deg' v = deg v" using rs(1) by (simp add: count_list_0_iff)
    with False ready [OF v] rs(3) show ?thesis by auto
  qed
  have "open_edges es R cur = []" using ready [of cur] sub deg [of cur] by simp
  then have "before es (R @ [cur])" using before_snoc [OF bf] unfolding open_edges_Nil by blast
  with d' sub' deg' ready' show ?thesis unfolding kahn_inv_def by blast
qed

end

lemma kahn_invariant:
  assumes "slice_sort srt" "kahn_inv V es deg q R" "snd ` set es \<subseteq> V"
  shows "kahn_inv V es (\<lambda>v. int (length (open_edges es (kahn srt key es deg q R) v))) [] (kahn srt key es deg q R)"
  using assms
proof (induction srt key es deg q R rule: kahn.induct)
  case (1 srt key es deg R)
  then show ?case by (simp add: kahn_inv_def)
next
  case (2 srt key es deg cur queue R)
  obtain deg' queue' where r: "relax (sort_Slice srt key (adj es cur)) deg queue = (deg', queue')" by fastforce
  from "2.IH" [OF r [symmetric] "2.prems"(1) slice_sort.kahn_step [OF "2.prems"(1,2) r "2.prems"(3)] "2.prems"(3)]
  show ?case by (simp add: r)
qed

lemma distinct_filter_in_degree:
  assumes "slice_sort srt" "distinct vs" "fst ` set es \<union> snd ` set es \<subseteq> set vs"
  shows "kahn_inv (set vs) es (in_degree es) (sort_Slice srt key (filter (\<lambda>i. in_degree es i = 0) vs)) []"
  using assms(2,3)
  by (auto simp: kahn_inv_def in_degree_count open_edges_def before_def slice_sort.set_sort_Slice [OF assms(1)]
    slice_sort.distinct_sort_Slice [OF assms(1)])

text \<open>What the loop returns, for edges inside the set of machines.\<close>

lemma kahn_result:
  assumes "slice_sort srt" "distinct vs" "fst ` set es \<union> snd ` set es \<subseteq> set vs"
    and "R = kahn srt key es (in_degree es) (sort_Slice srt key (filter (\<lambda>i. in_degree es i = 0) vs)) []"
  shows "distinct R" "set R \<subseteq> set vs" "before es R" "\<And>v. v \<in> set vs \<Longrightarrow> v \<in> set R \<longleftrightarrow> (\<forall>u. (u, v) \<in> set es \<longrightarrow> u \<in> set R)"
proof -
  have "snd ` set es \<subseteq> set vs" using assms(3) by simp
  note kahn_invariant [OF assms(1) distinct_filter_in_degree [OF assms(1-3), of key] this, of key]
  then have "kahn_inv (set vs) es (\<lambda>v. int (length (open_edges es R v))) [] R" unfolding assms(4) .
  then show "distinct R" "set R \<subseteq> set vs" "before es R" "\<And>v. v \<in> set vs \<Longrightarrow> v \<in> set R \<longleftrightarrow> (\<forall>u. (u, v) \<in> set es \<longrightarrow> u \<in> set R)"
    by (auto simp: kahn_inv_def open_edges_Nil)
qed

text \<open>A machine that does not depend on a cycle, directly or not, leaves the queue.\<close>

lemma kahn_reaches:
  assumes "slice_sort srt" "distinct vs" "fst ` set es \<union> snd ` set es \<subseteq> set vs"
    and R: "R = kahn srt key es (in_degree es) (sort_Slice srt key (filter (\<lambda>i. in_degree es i = 0) vs)) []"
    and v: "v \<in> set vs" and free: "\<And>x. (x, v) \<in> (set es)\<^sup>* \<Longrightarrow> (x, x) \<notin> (set es)\<^sup>+"
  shows "v \<in> set R"
proof (rule ccontr)
  define A where "A = {x. (x, v) \<in> (set es)\<^sup>*}"
  note k = kahn_result [OF assms(1-3) R]
  assume "v \<notin> set R"
  then have "v \<in> A - set R" by (simp add: A_def)
  moreover have "acyclic (set es \<inter> A \<times> A)" unfolding acyclic_def
  proof (intro allI notI)
    fix x assume x: "(x, x) \<in> (set es \<inter> A \<times> A)\<^sup>+"
    then have "x \<in> A" by (auto dest: tranclD)
    moreover have "(x, x) \<in> (set es)\<^sup>+" using x by (rule trancl_mono) blast
    ultimately show False using free by (simp add: A_def)
  qed
  then have "wf (set es \<inter> A \<times> A)" by (simp add: finite_acyclic_wf)
  ultimately obtain w where w: "w \<in> A - set R" "\<And>u. (u, w) \<in> set es \<inter> A \<times> A \<Longrightarrow> u \<notin> A - set R"
    by (metis wfE_min)
  have "u \<in> set R" if "(u, w) \<in> set es" for u
    using w that by (auto simp: A_def intro: converse_rtrancl_into_rtrancl)
  moreover have "w \<in> set vs"
  proof -
    have "(w, v) \<in> (set es)\<^sup>*" using w(1) by (simp add: A_def)
    then show ?thesis
    proof (cases rule: converse_rtranclE)
      case (step y)
      then have "w \<in> fst ` set es" by force
      then show ?thesis using assms(3) by blast
    qed (use v in simp)
  qed
  ultimately show False using k(4) w(1) by blast
qed

section \<open>The order of the machines\<close>

lemma vm_map_None: "vm_map evs i = None \<longleftrightarrow> i \<notin> ev_VMID ` set evs"
  by (induction evs rule: rev_induct) (auto simp: vm_map_def)

lemma vm_at_id: "i \<in> ev_VMID ` set evs \<Longrightarrow> ev_VMID (vm_at (vm_map evs) i) = i \<and> vm_at (vm_map evs) i \<in> set evs"
proof (induction evs rule: rev_induct)
  case (snoc ev evs)
  then show ?case by (cases "ev_VMID ev = i") (auto simp: vm_map_def vm_at_def)
qed simp

text \<open>What an order has to respect: of the dependencies between machines of the environment, those on starting.\<close>

definition start_constraints :: "EnvironmentVM list \<Rightarrow> VMDependency list \<Rightarrow> (string \<times> string) set" where
  "start_constraints envVMs deps = {(u, v).
     (\<exists>d \<in> set deps. vd_Type d \<noteq> DependencyTypeStopAfter \<and> vd_TargetVMID d = u \<and> vd_SourceVMID d = v) \<and>
     u \<in> ev_VMID ` set envVMs \<and> v \<in> ev_VMID ` set envVMs}"

lemma order_edges_iff:
  "(u, v) \<in> set (order_edges deps) \<longleftrightarrow> (\<exists>d \<in> set deps. vd_Type d \<noteq> DependencyTypeStopAfter \<and> vd_TargetVMID d = u \<and> vd_SourceVMID d = v)"
proof -
  have t: "(vd_Type d = DependencyTypeStartBefore \<or> vd_Type d = DependencyTypeRequires) = (vd_Type d \<noteq> DependencyTypeStopAfter)" for d
    by (cases "vd_Type d") simp_all
  show ?thesis unfolding order_edges_def t by force
qed

lemma set_inner_edges: "set (inner_edges (vm_map envVMs) (order_edges deps)) = start_constraints envVMs deps"
proof -
  have "(u, v) \<in> set (inner_edges (vm_map envVMs) (order_edges deps)) \<longleftrightarrow> (u, v) \<in> start_constraints envVMs deps" for u v
  proof -
    have "(u, v) \<in> set (inner_edges (vm_map envVMs) (order_edges deps)) \<longleftrightarrow>
        (u, v) \<in> set (order_edges deps) \<and> u \<in> ev_VMID ` set envVMs \<and> v \<in> ev_VMID ` set envVMs"
      by (simp only: inner_edges_def set_filter mem_Collect_eq prod.case vm_map_None not_not)
    also have "\<dots> \<longleftrightarrow> (u, v) \<in> start_constraints envVMs deps" by (simp only: order_edges_iff start_constraints_def mem_Collect_eq prod.case)
    finally show ?thesis .
  qed
  then show ?thesis by (simp add: set_eq_iff)
qed

text \<open>The two parts of the order.\<close>

lemma computeExecutionOrder_parts:
  assumes "slice_sort srt" "distinct (map ev_VMID envVMs)" "oper \<noteq> OrchestrationOpStop"
  obtains R where "computeExecutionOrder srt envVMs deps oper = map (vm_at (vm_map envVMs)) R
      @ sort_Slice srt ev_StartOrder (filter (\<lambda>ev. ev_VMID ev \<notin> set R) envVMs)"
    and "distinct R" and "set R \<subseteq> ev_VMID ` set envVMs" and "before (inner_edges (vm_map envVMs) (order_edges deps)) R"
    and "\<And>v. v \<in> ev_VMID ` set envVMs \<Longrightarrow> (\<And>x. (x, v) \<in> (start_constraints envVMs deps)\<^sup>* \<Longrightarrow>
      (x, x) \<notin> (start_constraints envVMs deps)\<^sup>+) \<Longrightarrow> v \<in> set R"
proof -
  define es where "es = inner_edges (vm_map envVMs) (order_edges deps)"
  define key where "key = (\<lambda>i. ev_StartOrder (vm_at (vm_map envVMs) i))"
  define R where "R = kahn srt key es (in_degree es) (sort_Slice srt key (filter (\<lambda>i. in_degree es i = 0) (map ev_VMID envVMs))) []"
  have es: "set es = start_constraints envVMs deps" by (simp add: es_def set_inner_edges)
  have inside: "fst ` set es \<union> snd ` set es \<subseteq> set (map ev_VMID envVMs)" by (auto simp: es start_constraints_def)
  note k = kahn_result [OF assms(1,2) inside R_def]
  have ids: "ev_VMID ` set (map (vm_at (vm_map envVMs)) R) = set R"
    using k(2) vm_at_id [of _ envVMs] by (force simp: image_iff)
  show thesis
  proof (rule that)
    show "computeExecutionOrder srt envVMs deps oper = map (vm_at (vm_map envVMs)) R
      @ sort_Slice srt ev_StartOrder (filter (\<lambda>ev. ev_VMID ev \<notin> set R) envVMs)"
      using assms(3) ids by (simp add: computeExecutionOrder_def Let_def R_def key_def es_def del: set_map)
    show "v \<in> set R" if "v \<in> ev_VMID ` set envVMs" "\<And>x. (x, v) \<in> (start_constraints envVMs deps)\<^sup>* \<Longrightarrow>
      (x, x) \<notin> (start_constraints envVMs deps)\<^sup>+" for v
      using kahn_reaches [OF assms(1,2) inside R_def] that by (simp add: es)
  qed (use k in \<open>simp_all add: es_def\<close>)
qed

lemma mset_computeExecutionOrder:
  assumes "slice_sort srt" and "distinct (map ev_VMID envVMs)"
  shows "mset (computeExecutionOrder srt envVMs deps oper) = mset envVMs"
proof (cases "oper = OrchestrationOpStop")
  case True
  then show ?thesis by (simp add: computeExecutionOrder_def slice_sort.mset_sort_Slice [OF assms(1)])
next
  case False
  then obtain R where R: "computeExecutionOrder srt envVMs deps oper = map (vm_at (vm_map envVMs)) R
      @ sort_Slice srt ev_StartOrder (filter (\<lambda>ev. ev_VMID ev \<notin> set R) envVMs)" "distinct R" "set R \<subseteq> ev_VMID ` set envVMs"
    by (rule computeExecutionOrder_parts [OF assms])
  let ?f = "vm_at (vm_map envVMs)" and ?in = "filter (\<lambda>ev. ev_VMID ev \<in> set R) envVMs"
  have at: "ev_VMID (?f i) = i \<and> ?f i \<in> set envVMs" if "i \<in> set R" for i using vm_at_id that R(3) by blast
  have inj: "inj_on ev_VMID (set envVMs)" "distinct envVMs" using assms(2) by (simp_all add: distinct_map)
  have "set (map ?f R) = set ?in"
  proof
    show "set ?in \<subseteq> set (map ?f R)"
    proof
      fix ev assume "ev \<in> set ?in"
      then have ev: "ev \<in> set envVMs" "ev_VMID ev \<in> set R" by auto
      then have "?f (ev_VMID ev) = ev" using at [OF ev(2)] inj(1) by (meson inj_onD)
      with ev(2) show "ev \<in> set (map ?f R)" by force
    qed
  qed (use at in auto)
  moreover have "distinct (map ?f R)"
    using R(2) at by (metis distinct_map inj_onI)
  ultimately have "mset (map ?f R) = mset ?in" using inj(2) by (simp only: set_eq_iff_mset_eq_distinct [symmetric] distinct_filter)
  then show ?thesis by (simp only: R(1) mset_append slice_sort.mset_sort_Slice [OF assms(1)] mset_filter multiset_partition [symmetric])
qed

text \<open>
  C28. Whatever the dependencies, cyclic ones included, the order contains every machine of the environment
  exactly once.
\<close>

theorem execution_order_permutes:
  assumes "slice_sort srt" and "distinct (map ev_VMID envVMs)"
  shows "mset (computeExecutionOrder srt envVMs deps oper) = mset envVMs"
  using assms by (rule mset_computeExecutionOrder)

text \<open>
  C2. A machine that does not depend on a cycle of dependencies comes after each machine it depends on, in
  every operation but stopping; the rest of the environment may contain cycles.
\<close>

theorem dependencies_come_first:
  assumes "slice_sort srt" and "distinct (map ev_VMID envVMs)" and "oper \<noteq> OrchestrationOpStop"
    and "(t, s) \<in> start_constraints envVMs deps"
    and "\<And>x. (x, s) \<in> (start_constraints envVMs deps)\<^sup>* \<Longrightarrow> (x, x) \<notin> (start_constraints envVMs deps)\<^sup>+"
  shows "\<exists>as T bs S cs. computeExecutionOrder srt envVMs deps oper = as @ T # bs @ S # cs \<and> ev_VMID T = t \<and> ev_VMID S = s"
proof -
  obtain R where R: "computeExecutionOrder srt envVMs deps oper = map (vm_at (vm_map envVMs)) R
      @ sort_Slice srt ev_StartOrder (filter (\<lambda>ev. ev_VMID ev \<notin> set R) envVMs)" "set R \<subseteq> ev_VMID ` set envVMs"
      "before (inner_edges (vm_map envVMs) (order_edges deps)) R"
      "s \<in> ev_VMID ` set envVMs \<Longrightarrow> s \<in> set R"
    using computeExecutionOrder_parts [OF assms(1-3), of deps] assms(5) by metis
  have "s \<in> ev_VMID ` set envVMs" using assms(4) by (simp add: start_constraints_def)
  then obtain a c where s: "R = a @ s # c" using R(4) by (meson split_list)
  moreover have "(t, s) \<in> set (inner_edges (vm_map envVMs) (order_edges deps))" using assms(4) by (simp only: set_inner_edges)
  ultimately have "t \<in> set a" using R(3) unfolding before_def by blast
  then obtain a1 a2 where a: "a = a1 @ t # a2" by (meson split_list)
  have "t \<in> ev_VMID ` set envVMs" "s \<in> ev_VMID ` set envVMs" using R(2) by (auto simp: s a)
  then have "ev_VMID (vm_at (vm_map envVMs) t) = t" "ev_VMID (vm_at (vm_map envVMs) s) = s" using vm_at_id by blast+
  then show ?thesis unfolding R(1) s a by (intro exI conjI) auto
qed

lemma kahn_no_edges: "kahn srt key [] deg q R = R @ q"
proof (induction q arbitrary: deg R)
  case (Cons x q)
  have "sort_Slice srt key (adj [] x) = []" by (simp add: sort_Slice_def adj_def)
  with Cons show ?case by simp
qed simp

text \<open>
  Machines are stopped by descending stop order, whatever their dependencies; without dependencies on
  starting they are started by ascending start order.
\<close>

theorem order_without_dependencies:
  assumes "slice_sort srt"
  shows "sorted (rev (map ev_StopOrder (computeExecutionOrder srt envVMs deps OrchestrationOpStop)))
    \<and> computeExecutionOrder srt envVMs deps OrchestrationOpStop = computeExecutionOrder srt envVMs [] OrchestrationOpStop
    \<and> (distinct (map ev_VMID envVMs) \<and> oper \<noteq> OrchestrationOpStop \<and> start_constraints envVMs deps = {} \<longrightarrow>
         sorted (map ev_StartOrder (computeExecutionOrder srt envVMs deps oper)))"
proof (intro conjI impI)
  have "sorted (map (\<lambda>ev. - ev_StopOrder ev) (sort_Slice srt (\<lambda>ev. - ev_StopOrder ev) envVMs))"
    by (rule slice_sort.sorted_sort_Slice [OF assms])
  then show "sorted (rev (map ev_StopOrder (computeExecutionOrder srt envVMs deps OrchestrationOpStop)))"
    by (simp add: computeExecutionOrder_def sorted_wrt_rev sorted_wrt_map sorted_map)
next
  show "computeExecutionOrder srt envVMs deps OrchestrationOpStop = computeExecutionOrder srt envVMs [] OrchestrationOpStop"
    by (simp add: computeExecutionOrder_def)
next
  assume h: "distinct (map ev_VMID envVMs) \<and> oper \<noteq> OrchestrationOpStop \<and> start_constraints envVMs deps = {}"
  let ?m = "vm_map envVMs"
  let ?key = "\<lambda>i. ev_StartOrder (vm_at ?m i)"
  have none: "inner_edges ?m (order_edges deps) = []" using h set_inner_edges [of envVMs deps] by simp
  have ids: "set (sort_Slice srt ?key (map ev_VMID envVMs)) = ev_VMID ` set envVMs"
    by (simp add: slice_sort.set_sort_Slice [OF assms])
  have out: "ev_VMID ` vm_at ?m ` set (sort_Slice srt ?key (map ev_VMID envVMs)) = ev_VMID ` set envVMs"
    unfolding ids using vm_at_id [of _ envVMs] by (force simp: image_iff)
  have "filter (\<lambda>ev. ev_VMID ev \<notin> ev_VMID ` vm_at ?m ` set (sort_Slice srt ?key (map ev_VMID envVMs))) envVMs = []"
    unfolding out by (simp add: filter_empty_conv)
  moreover have "filter (\<lambda>i. in_degree [] i = 0) (map ev_VMID envVMs) = map ev_VMID envVMs" by (simp add: in_degree_count)
  ultimately have "computeExecutionOrder srt envVMs deps oper = map (vm_at ?m) (sort_Slice srt ?key (map ev_VMID envVMs))
      @ sort_Slice srt ev_StartOrder []"
    using h none by (simp only: computeExecutionOrder_def Let_def if_False kahn_no_edges append_Nil set_map)
  moreover have "sorted (map ?key (sort_Slice srt ?key (map ev_VMID envVMs)))" by (rule slice_sort.sorted_sort_Slice [OF assms])
  ultimately show "sorted (map ev_StartOrder (computeExecutionOrder srt envVMs deps oper))"
    by (simp add: sort_Slice_def comp_def)
qed

section \<open>An environment of three machines\<close>

definition three_vms :: "EnvironmentVM list" where
  "three_vms = map (\<lambda>(i, st, sp). \<lparr>ev_ID = i, ev_EnvironmentID = ''e'', ev_VMID = i, ev_StartOrder = st, ev_StopOrder = sp, ev_Role = '''', ev_Notes = ''''\<rparr>)
     [(''app'', 1, 0), (''db'', 2, 1), (''lb'', 0, 0)]"

definition needs :: "string \<Rightarrow> string \<Rightarrow> VMDependency" where
  "needs s t = \<lparr>vd_ID = s @ t, vd_EnvironmentID = ''e'', vd_SourceVMID = s, vd_TargetVMID = t, vd_Type = DependencyTypeRequires,
     vd_DelaySeconds = 0, vd_Notes = ''''\<rparr>"

lemma three_vms_distinct: "distinct (map ev_VMID three_vms)"
  by (simp add: three_vms_def)

lemma three_vms_constraints: "start_constraints three_vms [needs ''app'' ''db''] = {(''db'', ''app'')}"
  by (auto simp: start_constraints_def three_vms_def needs_def)

lemma execution_order_permutes_witness:
  "mset (map ev_VMID (computeExecutionOrder stable_positions three_vms [needs ''app'' ''db'', needs ''db'' ''app''] OrchestrationOpStart))
    = {#''app'', ''db'', ''lb''#}"
  using execution_order_permutes [OF stable.slice_sort_axioms three_vms_distinct, of "[needs ''app'' ''db'', needs ''db'' ''app'']" OrchestrationOpStart]
  by (simp add: three_vms_def)

lemma dependencies_come_first_witness:
  "\<exists>as T bs S cs. computeExecutionOrder stable_positions three_vms [needs ''app'' ''db''] OrchestrationOpStart = as @ T # bs @ S # cs
    \<and> ev_VMID T = ''db'' \<and> ev_VMID S = ''app''"
proof (rule dependencies_come_first [OF stable.slice_sort_axioms three_vms_distinct])
  show "(x, x) \<notin> (start_constraints three_vms [needs ''app'' ''db''])\<^sup>+" for x
  proof -
    have "acyclic {(''db'', ''app'')}" by (simp only: acyclic_insert) (simp add: acyclic_def)
    then show ?thesis unfolding three_vms_constraints by (simp add: acyclic_def)
  qed
qed (simp_all add: three_vms_constraints)

lemma order_without_dependencies_witness:
  "map ev_VMID (computeExecutionOrder stable_positions three_vms [needs ''app'' ''db''] OrchestrationOpStop) = [''db'', ''app'', ''lb'']
    \<and> sorted (map ev_StartOrder (computeExecutionOrder stable_positions three_vms [needs ''app'' ''x''] OrchestrationOpStart))"
proof
  show "map ev_VMID (computeExecutionOrder stable_positions three_vms [needs ''app'' ''db''] OrchestrationOpStop) = [''db'', ''app'', ''lb'']"
    by code_simp
  have "start_constraints three_vms [needs ''app'' ''x''] = {}" by (simp add: start_constraints_def three_vms_def needs_def)
  with three_vms_distinct order_without_dependencies [OF stable.slice_sort_axioms, of three_vms "[needs ''app'' ''x'']" OrchestrationOpStart]
  show "sorted (map ev_StartOrder (computeExecutionOrder stable_positions three_vms [needs ''app'' ''x''] OrchestrationOpStart))" by simp
qed

end
