(* ===== verification/Environment.thy ===== *)
theory Environment
  imports ExecutionOrder TaskStore "HOL-Library.AList"
begin

text \<open>
  Environments, groups of virtual machines that are started, stopped, restarted, copied and cloned
  together: the model (\<^verbatim>\<open>internal/domain/model/environment.go\<close>), the repositories
  (\<^verbatim>\<open>internal/infrastructure/repository/environment_repo.go\<close>) on tables of rows, and the service
  (\<^verbatim>\<open>internal/service/environment_service.go\<close>).

  As in the theory \<open>Approval\<close>, every statement first consults the list \<open>edb_faults\<close> of the outcomes the database has
  in store. Rows are kept in the order of their creation. Adding and removing a machine also starts
  \<open>RefreshStatus\<close> in a goroutine, which is an operation of its own here.
\<close>

section \<open>Data\<close>

datatype EnvironmentType =
    EnvironmentTypeProduction | EnvironmentTypeStaging | EnvironmentTypeDevelopment | EnvironmentTypeQA
  | EnvironmentTypeDisasterRecovery | EnvironmentTypeCustom

datatype EnvironmentStatus =
    EnvironmentStatusHealthy | EnvironmentStatusDegraded | EnvironmentStatusUnhealthy | EnvironmentStatusUnknown
  | EnvironmentStatusStarting | EnvironmentStatusStopping

datatype OrchestrationRunStatus =
    OrchestrationRunStatusPending | OrchestrationRunStatusRunning | OrchestrationRunStatusCompleted
  | OrchestrationRunStatusFailed | OrchestrationRunStatusCancelled | OrchestrationRunStatusRollingBack
  | OrchestrationRunStatusRolledBack

datatype OrchestrationStepStatus =
    OrchestrationStepStatusPending | OrchestrationStepStatusRunning | OrchestrationStepStatusCompleted
  | OrchestrationStepStatusFailed | OrchestrationStepStatusSkipped

datatype VMStatus =
    VMStatusRunning | VMStatusStopped | VMStatusSuspended | VMStatusPaused | VMStatusUnknown | VMStatusProvisioning
  | VMStatusDeleting | VMStatusError

text \<open>The columns of a virtual machine that are used here.\<close>

record VM =
  vm_ID :: string
  vm_HypervisorID :: string
  vm_ProviderVMID :: string
  vm_Name :: string
  vm_Status :: VMStatus
  vm_Deleted :: bool

record Environment =
  en_ID :: string
  en_Name :: string
  en_Description :: string
  en_Type :: EnvironmentType
  en_Status :: EnvironmentStatus
  en_OwnerID :: "string option"
  en_Tags :: "string list"
  en_Color :: string
  en_Metadata :: "jmap option"

record OrchestrationRun =
  or_ID :: string
  or_EnvironmentID :: string
  or_Operation :: OrchestrationOperation
  or_Status :: OrchestrationRunStatus
  or_Progress :: int
  or_TotalVMs :: int
  or_CompletedVMs :: int
  or_FailedVMs :: int
  or_SkippedVMs :: int
  or_ErrorMessage :: string
  or_Payload :: "jmap option"
  or_StartedAt :: "int option"
  or_CompletedAt :: "int option"
  or_CreatedBy :: "string option"

record OrchestrationStep =
  os_ID :: string
  os_RunID :: string
  os_VMID :: string
  os_ExecutionOrder :: int
  os_Status :: OrchestrationStepStatus
  os_TaskID :: "string option"
  os_ErrorMessage :: string

record CreateEnvironmentRequest =
  ce_Name :: string
  ce_Description :: string
  ce_Type :: "EnvironmentType option"
  ce_OwnerID :: string
  ce_Tags :: "string list"
  ce_Color :: string
  ce_Metadata :: "jmap option"

record UpdateEnvironmentRequest =
  ue_Name :: "string option"
  ue_Description :: "string option"
  ue_Type :: "EnvironmentType option"
  ue_OwnerID :: "string option"
  ue_Tags :: "string list option"
  ue_Color :: "string option"
  ue_Metadata :: "jmap option"

record AddVMToEnvironmentRequest =
  av_StartOrder :: int
  av_StopOrder :: int
  av_Role :: string
  av_Notes :: string

record AddDependencyRequest =
  ad_SourceVMID :: string
  ad_TargetVMID :: string
  ad_Type :: DependencyType
  ad_DelaySeconds :: int
  ad_Notes :: string

record env_db =
  edb_envs :: "Environment list"
  edb_envVMs :: "EnvironmentVM list"
  edb_deps :: "VMDependency list"
  edb_tags :: "(string \<times> string) list"
  edb_runs :: "OrchestrationRun list"
  edb_steps :: "OrchestrationStep list"
  edb_vms :: "VM list"
  edb_tasks :: task_table
  edb_audit :: "(string \<times> string \<times> string) list"
  edb_next :: nat
  edb_faults :: "go_error option list"

section \<open>Repositories\<close>

definition env_stmt :: "(env_db \<Rightarrow> env_db \<times> (go_error + 'a)) \<Rightarrow> env_db \<Rightarrow> env_db \<times> (go_error + 'a)" where
  "env_stmt f d =
     (case edb_faults d of
        [] \<Rightarrow> f d
      | None # fs \<Rightarrow> f (d\<lparr>edb_faults := fs\<rparr>)
      | Some e # fs \<Rightarrow> (d\<lparr>edb_faults := fs\<rparr>, Inl e))"

definition not_found :: "string \<Rightarrow> go_error" where
  "not_found what = Wrapf (what @ '' not found'') (Errorf ''record not found'')"

definition duplicate_key :: go_error where
  "duplicate_key = Errorf ''ERROR: duplicate key value violates unique constraint''"

definition foreign_key :: go_error where
  "foreign_key = Errorf ''ERROR: insert or update violates foreign key constraint''"

text \<open>The first row with a property, or the error of a failed query or of no row.\<close>

definition first_row :: "string \<Rightarrow> (env_db \<Rightarrow> 'a option) \<Rightarrow> env_db \<Rightarrow> env_db \<times> (go_error + 'a)" where
  "first_row what f d =
     (case env_stmt (\<lambda>d. (d, case f d of None \<Rightarrow> Inl (Errorf ''record not found'') | Some r \<Rightarrow> Inr r)) d of
        (d, Inl e) \<Rightarrow> (d, Inl (Wrapf (what @ '' not found'') e))
      | (d, Inr r) \<Rightarrow> (d, Inr r))"

subsection \<open>Environments\<close>

text \<open>The names of environments are unique.\<close>

definition env_Create :: "uuid_lib \<Rightarrow> Environment \<Rightarrow> env_db \<Rightarrow> env_db \<times> (go_error + Environment)" where
  "env_Create U e = env_stmt (\<lambda>d.
     if en_Name e \<in> en_Name ` set (edb_envs d) then (d, Inl duplicate_key)
     else (let e = e\<lparr>en_ID := uuid_new U (edb_next d)\<rparr>
           in (d\<lparr>edb_envs := edb_envs d @ [e], edb_next := edb_next d + 1\<rparr>, Inr e)))"

definition env_GetByID :: "string \<Rightarrow> env_db \<Rightarrow> env_db \<times> (go_error + Environment)" where
  "env_GetByID i = first_row ''environment'' (\<lambda>d. find (\<lambda>e. en_ID e = i) (edb_envs d))"

definition env_Update :: "Environment \<Rightarrow> env_db \<Rightarrow> env_db \<times> (go_error + unit)" where
  "env_Update e = env_stmt (\<lambda>d.
     if en_Name e \<in> en_Name ` set (filter (\<lambda>x. en_ID x \<noteq> en_ID e) (edb_envs d)) then (d, Inl duplicate_key)
     else (d\<lparr>edb_envs := map (\<lambda>x. if en_ID x = en_ID e then e else x) (edb_envs d)\<rparr>, Inr ()))"

text \<open>A transaction: when a statement fails those before it are undone.\<close>

fun transaction :: "(string \<times> (env_db \<Rightarrow> env_db)) list \<Rightarrow> env_db \<Rightarrow> env_db \<times> (go_error + unit)" where
  "transaction [] d = (d, Inr ())"
| "transaction ((what, f) # fs) d =
     (case env_stmt (\<lambda>d. (f d, Inr ())) d of
        (d, Inl e) \<Rightarrow> (d, Inl (Wrapf (''deleting '' @ what) e))
      | (d, Inr _) \<Rightarrow> transaction fs d)"

definition env_Delete :: "string \<Rightarrow> env_db \<Rightarrow> env_db \<times> (go_error + unit)" where
  "env_Delete i d =
     (case transaction
        [(''orchestration steps'', \<lambda>d. d\<lparr>edb_steps := filter (\<lambda>s. os_RunID s \<notin> or_ID ` set (filter (\<lambda>r. or_EnvironmentID r = i) (edb_runs d)))
            (edb_steps d)\<rparr>),
         (''orchestration runs'', \<lambda>d. d\<lparr>edb_runs := filter (\<lambda>r. or_EnvironmentID r \<noteq> i) (edb_runs d)\<rparr>),
         (''vm dependencies'', \<lambda>d. d\<lparr>edb_deps := filter (\<lambda>x. vd_EnvironmentID x \<noteq> i) (edb_deps d)\<rparr>),
         (''environment vms'', \<lambda>d. d\<lparr>edb_envVMs := filter (\<lambda>x. ev_EnvironmentID x \<noteq> i) (edb_envVMs d)\<rparr>),
         (''environment tags'', \<lambda>d. d\<lparr>edb_tags := filter (\<lambda>(e, t). e \<noteq> i) (edb_tags d)\<rparr>),
         (''environment'', \<lambda>d. d\<lparr>edb_envs := filter (\<lambda>e. en_ID e \<noteq> i) (edb_envs d)\<rparr>)] d of
        (d', Inl e) \<Rightarrow> (d\<lparr>edb_faults := edb_faults d'\<rparr>, Inl e)
      | (d', Inr _) \<Rightarrow> (d', Inr ()))"

definition env_UpdateStatus :: "string \<Rightarrow> EnvironmentStatus \<Rightarrow> env_db \<Rightarrow> env_db \<times> (go_error + unit)" where
  "env_UpdateStatus i st = env_stmt (\<lambda>d.
     (d\<lparr>edb_envs := map (\<lambda>x. if en_ID x = i then x\<lparr>en_Status := st\<rparr> else x) (edb_envs d)\<rparr>, Inr ()))"

subsection \<open>Machines of an environment\<close>

definition env_exists :: "string \<Rightarrow> env_db \<Rightarrow> bool" where
  "env_exists i d \<longleftrightarrow> i \<in> en_ID ` set (edb_envs d)"

definition vm_exists :: "string \<Rightarrow> env_db \<Rightarrow> bool" where
  "vm_exists i d \<longleftrightarrow> i \<in> vm_ID ` set (edb_vms d)"

definition same_member :: "EnvironmentVM \<Rightarrow> EnvironmentVM \<Rightarrow> bool" where
  "same_member x y \<longleftrightarrow> ev_EnvironmentID x = ev_EnvironmentID y \<and> ev_VMID x = ev_VMID y"

text \<open>The pair of environment and machine is unique; a second insertion updates the row.\<close>

definition envVM_AddVM :: "uuid_lib \<Rightarrow> EnvironmentVM \<Rightarrow> env_db \<Rightarrow> env_db \<times> (go_error + unit)" where
  "envVM_AddVM U ev = env_stmt (\<lambda>d.
     if \<not> env_exists (ev_EnvironmentID ev) d \<or> \<not> vm_exists (ev_VMID ev) d then (d, Inl foreign_key)
     else if (\<exists>x \<in> set (edb_envVMs d). same_member x ev)
     then (d\<lparr>edb_envVMs := map (\<lambda>x. if same_member x ev then x\<lparr>ev_StartOrder := ev_StartOrder ev, ev_StopOrder := ev_StopOrder ev,
             ev_Role := ev_Role ev, ev_Notes := ev_Notes ev\<rparr> else x) (edb_envVMs d)\<rparr>, Inr ())
     else (d\<lparr>edb_envVMs := edb_envVMs d @ [ev\<lparr>ev_ID := uuid_new U (edb_next d)\<rparr>], edb_next := edb_next d + 1\<rparr>, Inr ()))"

definition envVM_RemoveVM :: "string \<Rightarrow> string \<Rightarrow> env_db \<Rightarrow> env_db \<times> (go_error + unit)" where
  "envVM_RemoveVM e v = env_stmt (\<lambda>d.
     (d\<lparr>edb_envVMs := filter (\<lambda>x. \<not> (ev_EnvironmentID x = e \<and> ev_VMID x = v)) (edb_envVMs d)\<rparr>, Inr ()))"

text \<open>The rows with the machines that are not deleted.\<close>

definition envVM_ListByEnvironment :: "string \<Rightarrow> env_db \<Rightarrow> env_db \<times> (go_error + (EnvironmentVM \<times> VM option) list)" where
  "envVM_ListByEnvironment e = env_stmt (\<lambda>d.
     (d, Inr (map (\<lambda>ev. (ev, find (\<lambda>v. vm_ID v = ev_VMID ev \<and> \<not> vm_Deleted v) (edb_vms d)))
       (sort_key ev_StartOrder (filter (\<lambda>x. ev_EnvironmentID x = e) (edb_envVMs d))))))"

definition envVM_UpdateOrdering :: "string \<Rightarrow> string \<Rightarrow> int \<Rightarrow> int \<Rightarrow> string \<Rightarrow> env_db \<Rightarrow> env_db \<times> (go_error + unit)" where
  "envVM_UpdateOrdering e v startOrder stopOrder role = env_stmt (\<lambda>d.
     (d\<lparr>edb_envVMs := map (\<lambda>x. if ev_EnvironmentID x = e \<and> ev_VMID x = v
          then x\<lparr>ev_StartOrder := startOrder, ev_StopOrder := stopOrder, ev_Role := role\<rparr> else x) (edb_envVMs d)\<rparr>, Inr ()))"

definition envVM_GetByEnvironmentAndVM :: "string \<Rightarrow> string \<Rightarrow> env_db \<Rightarrow> env_db \<times> (go_error + EnvironmentVM)" where
  "envVM_GetByEnvironmentAndVM e v = first_row ''environment vm'' (\<lambda>d. find (\<lambda>x. ev_EnvironmentID x = e \<and> ev_VMID x = v) (edb_envVMs d))"

definition vm_GetByID :: "string \<Rightarrow> env_db \<Rightarrow> env_db \<times> (go_error + VM)" where
  "vm_GetByID i = first_row ''vm'' (\<lambda>d. find (\<lambda>v. vm_ID v = i \<and> \<not> vm_Deleted v) (edb_vms d))"

subsection \<open>Dependencies\<close>

definition same_dependency :: "VMDependency \<Rightarrow> VMDependency \<Rightarrow> bool" where
  "same_dependency x y \<longleftrightarrow> vd_EnvironmentID x = vd_EnvironmentID y \<and> vd_SourceVMID x = vd_SourceVMID y \<and>
     vd_TargetVMID x = vd_TargetVMID y \<and> vd_Type x = vd_Type y"

definition dep_Create :: "uuid_lib \<Rightarrow> VMDependency \<Rightarrow> env_db \<Rightarrow> env_db \<times> (go_error + VMDependency)" where
  "dep_Create U x = env_stmt (\<lambda>d.
     if \<not> env_exists (vd_EnvironmentID x) d \<or> \<not> vm_exists (vd_SourceVMID x) d \<or> \<not> vm_exists (vd_TargetVMID x) d
     then (d, Inl foreign_key)
     else if (\<exists>y \<in> set (edb_deps d). same_dependency y x) then (d, Inl duplicate_key)
     else (let x = x\<lparr>vd_ID := uuid_new U (edb_next d)\<rparr>
           in (d\<lparr>edb_deps := edb_deps d @ [x], edb_next := edb_next d + 1\<rparr>, Inr x)))"

definition dep_GetByID :: "string \<Rightarrow> env_db \<Rightarrow> env_db \<times> (go_error + VMDependency)" where
  "dep_GetByID i = first_row ''dependency'' (\<lambda>d. find (\<lambda>x. vd_ID x = i) (edb_deps d))"

definition dep_Delete :: "string \<Rightarrow> env_db \<Rightarrow> env_db \<times> (go_error + unit)" where
  "dep_Delete i = env_stmt (\<lambda>d. (d\<lparr>edb_deps := filter (\<lambda>x. vd_ID x \<noteq> i) (edb_deps d)\<rparr>, Inr ()))"

definition dep_ListByEnvironment :: "string \<Rightarrow> env_db \<Rightarrow> env_db \<times> (go_error + VMDependency list)" where
  "dep_ListByEnvironment e = env_stmt (\<lambda>d. (d, Inr (filter (\<lambda>x. vd_EnvironmentID x = e) (edb_deps d))))"

definition ListDependenciesOf :: "string \<Rightarrow> string \<Rightarrow> env_db \<Rightarrow> env_db \<times> (go_error + VMDependency list)" where
  "ListDependenciesOf e v = env_stmt (\<lambda>d. (d, Inr (filter (\<lambda>x. vd_EnvironmentID x = e \<and> vd_SourceVMID x = v) (edb_deps d))))"

definition ListDependentsOf :: "string \<Rightarrow> string \<Rightarrow> env_db \<Rightarrow> env_db \<times> (go_error + VMDependency list)" where
  "ListDependentsOf e v = env_stmt (\<lambda>d. (d, Inr (filter (\<lambda>x. vd_EnvironmentID x = e \<and> vd_TargetVMID x = v) (edb_deps d))))"

subsection \<open>Runs and their steps\<close>

definition orun_Create :: "uuid_lib \<Rightarrow> OrchestrationRun \<Rightarrow> env_db \<Rightarrow> env_db \<times> (go_error + OrchestrationRun)" where
  "orun_Create U r = env_stmt (\<lambda>d.
     if \<not> env_exists (or_EnvironmentID r) d then (d, Inl foreign_key)
     else (let r = r\<lparr>or_ID := uuid_new U (edb_next d)\<rparr>
           in (d\<lparr>edb_runs := edb_runs d @ [r], edb_next := edb_next d + 1\<rparr>, Inr r)))"

definition orun_GetByID :: "string \<Rightarrow> env_db \<Rightarrow> env_db \<times> (go_error + OrchestrationRun)" where
  "orun_GetByID i = first_row ''orchestration run'' (\<lambda>d. find (\<lambda>r. or_ID r = i) (edb_runs d))"

definition update_run :: "string \<Rightarrow> (OrchestrationRun \<Rightarrow> OrchestrationRun) \<Rightarrow> env_db \<Rightarrow> env_db \<times> (go_error + unit)" where
  "update_run i f = env_stmt (\<lambda>d. (d\<lparr>edb_runs := map (\<lambda>r. if or_ID r = i then f r else r) (edb_runs d)\<rparr>, Inr ()))"

definition orun_Update :: "OrchestrationRun \<Rightarrow> env_db \<Rightarrow> env_db \<times> (go_error + unit)" where
  "orun_Update r = update_run (or_ID r) (\<lambda>_. r)"

definition orun_UpdateProgress :: "string \<Rightarrow> int \<Rightarrow> int \<Rightarrow> int \<Rightarrow> int \<Rightarrow> env_db \<Rightarrow> env_db \<times> (go_error + unit)" where
  "orun_UpdateProgress i progress completed failed skipped = update_run i (\<lambda>r.
     r\<lparr>or_Progress := progress, or_CompletedVMs := completed, or_FailedVMs := failed, or_SkippedVMs := skipped\<rparr>)"

definition orun_UpdateStatus :: "string \<Rightarrow> OrchestrationRunStatus \<Rightarrow> string \<Rightarrow> env_db \<Rightarrow> env_db \<times> (go_error + unit)" where
  "orun_UpdateStatus i st errMsg = update_run i (\<lambda>r.
     r\<lparr>or_Status := st, or_ErrorMessage := (if errMsg \<noteq> '''' then errMsg else or_ErrorMessage r)\<rparr>)"

definition ostep_CreateBatch :: "uuid_lib \<Rightarrow> OrchestrationStep list \<Rightarrow> env_db \<Rightarrow> env_db \<times> (go_error + unit)" where
  "ostep_CreateBatch U steps d =
     (if steps = [] then (d, Inr ())
      else env_stmt (\<lambda>d. (d\<lparr>edb_steps := edb_steps d @ map (\<lambda>(k, s). s\<lparr>os_ID := uuid_new U (edb_next d + k)\<rparr>) (enumerate 0 steps),
             edb_next := edb_next d + length steps\<rparr>, Inr ())) d)"

definition ostep_GetByID :: "string \<Rightarrow> env_db \<Rightarrow> env_db \<times> (go_error + OrchestrationStep)" where
  "ostep_GetByID i = first_row ''orchestration step'' (\<lambda>d. find (\<lambda>s. os_ID s = i) (edb_steps d))"

definition ostep_ListByRun :: "string \<Rightarrow> env_db \<Rightarrow> env_db \<times> (go_error + OrchestrationStep list)" where
  "ostep_ListByRun i = env_stmt (\<lambda>d. (d, Inr (sort_key os_ExecutionOrder (filter (\<lambda>s. os_RunID s = i) (edb_steps d)))))"

definition ostep_UpdateStatus ::
  "string \<Rightarrow> OrchestrationStepStatus \<Rightarrow> string option \<Rightarrow> string \<Rightarrow> env_db \<Rightarrow> env_db \<times> (go_error + unit)" where
  "ostep_UpdateStatus i st taskID errMsg = env_stmt (\<lambda>d.
     (d\<lparr>edb_steps := map (\<lambda>s. if os_ID s = i
          then s\<lparr>os_Status := st, os_TaskID := (case taskID of None \<Rightarrow> os_TaskID s | Some t \<Rightarrow> Some t),
                 os_ErrorMessage := (if errMsg \<noteq> '''' then errMsg else os_ErrorMessage s)\<rparr> else s) (edb_steps d)\<rparr>, Inr ()))"

text \<open>Inserting a task into its table, which this database shares.\<close>

definition env_task_Create :: "Task \<Rightarrow> env_db \<Rightarrow> env_db \<times> (go_error + unit)" where
  "env_task_Create t = env_stmt (\<lambda>d.
     case Create t (edb_tasks d) of
       (tt, Some e) \<Rightarrow> (d\<lparr>edb_tasks := tt\<rparr>, Inl e)
     | (tt, None) \<Rightarrow> (d\<lparr>edb_tasks := tt\<rparr>, Inr ()))"

section \<open>The service\<close>

definition env_audit :: "string \<Rightarrow> string \<Rightarrow> string \<Rightarrow> env_db \<Rightarrow> env_db" where
  "env_audit action i descr d = d\<lparr>edb_audit := edb_audit d @ [(action, i, descr)]\<rparr>"

definition put_all :: "jmap \<Rightarrow> jmap \<Rightarrow> jmap" where
  "put_all m new = foldl (\<lambda>m (k, v). AList.update k v m) m new"

definition environment_Create :: "uuid_lib \<Rightarrow> CreateEnvironmentRequest \<Rightarrow> env_db \<Rightarrow> env_db \<times> (go_error + Environment)" where
  "environment_Create U req d =
     (let env = \<lparr>en_ID = nil_uuid, en_Name = ce_Name req, en_Description = ce_Description req,
             en_Type = (case ce_Type req of None \<Rightarrow> EnvironmentTypeCustom | Some t \<Rightarrow> t), en_Status = EnvironmentStatusUnknown,
             en_OwnerID = (if ce_OwnerID req \<noteq> '''' then uuid_parse U (ce_OwnerID req) else None), en_Tags = ce_Tags req,
             en_Color = ce_Color req, en_Metadata = ce_Metadata req\<rparr>
      in case env_Create U env d of
           (d, Inl e) \<Rightarrow> (d, Inl (Wrapf ''creating environment'' e))
         | (d, Inr env) \<Rightarrow> (env_audit ''create'' (en_ID env) '''' d, Inr env))"

definition environment_updated :: "uuid_lib \<Rightarrow> UpdateEnvironmentRequest \<Rightarrow> Environment \<Rightarrow> Environment" where
  "environment_updated U req env =
     env\<lparr>en_Name := set_opt (ue_Name req) (en_Name env), en_Description := set_opt (ue_Description req) (en_Description env),
        en_Type := set_opt (ue_Type req) (en_Type env), en_Color := set_opt (ue_Color req) (en_Color env),
        en_Tags := set_opt (ue_Tags req) (en_Tags env),
        en_OwnerID := (case ue_OwnerID req of
            None \<Rightarrow> en_OwnerID env
          | Some o' \<Rightarrow> if o' = '''' then None
                       else (case uuid_parse U o' of None \<Rightarrow> en_OwnerID env | Some i \<Rightarrow> Some i)),
        en_Metadata := (case ue_Metadata req of
            None \<Rightarrow> en_Metadata env
          | Some m \<Rightarrow> Some (put_all (case en_Metadata env of None \<Rightarrow> [] | Some old \<Rightarrow> old) m))\<rparr>"

definition environment_Update :: "uuid_lib \<Rightarrow> string \<Rightarrow> UpdateEnvironmentRequest \<Rightarrow> env_db \<Rightarrow> env_db \<times> (go_error + Environment)" where
  "environment_Update U i req d =
     (case env_GetByID i d of
        (d, Inl e) \<Rightarrow> (d, Inl e)
      | (d, Inr env) \<Rightarrow>
          (let env = environment_updated U req env
           in case env_Update env d of
                (d, Inl e) \<Rightarrow> (d, Inl e)
              | (d, Inr _) \<Rightarrow> (env_audit ''update'' i '''' d, Inr env)))"

definition environment_Delete :: "string \<Rightarrow> env_db \<Rightarrow> env_db \<times> (go_error + unit)" where
  "environment_Delete i d =
     (case env_Delete i d of
        (d, Inl e) \<Rightarrow> (d, Inl e)
      | (d, Inr _) \<Rightarrow> (env_audit ''delete'' i '''' d, Inr ()))"

text \<open>The text of the library's error on an identifier that does not parse is left out.\<close>

definition environment_AddVM ::
  "uuid_lib \<Rightarrow> string \<Rightarrow> string \<Rightarrow> AddVMToEnvironmentRequest \<Rightarrow> env_db \<Rightarrow> env_db \<times> (go_error + unit)" where
  "environment_AddVM U environmentID vmID req d =
     (case env_GetByID environmentID d of
        (d, Inl e) \<Rightarrow> (d, Inl (Wrapf ''environment not found'' e))
      | (d, Inr _) \<Rightarrow>
          (case vm_GetByID vmID d of
             (d, Inl e) \<Rightarrow> (d, Inl (Wrapf ''vm not found'' e))
           | (d, Inr _) \<Rightarrow>
               (case (uuid_parse U environmentID, uuid_parse U vmID) of
                  (None, _) \<Rightarrow> (d, Inl (Errorf ''invalid environment id''))
                | (Some _, None) \<Rightarrow> (d, Inl (Errorf ''invalid vm id''))
                | (Some envUUID, Some vmUUID) \<Rightarrow>
                    (case envVM_AddVM U \<lparr>ev_ID = nil_uuid, ev_EnvironmentID = envUUID, ev_VMID = vmUUID,
                            ev_StartOrder = av_StartOrder req, ev_StopOrder = av_StopOrder req, ev_Role = av_Role req,
                            ev_Notes = av_Notes req\<rparr> d of
                       (d, Inl e) \<Rightarrow> (d, Inl (Wrapf ''adding vm to environment'' e))
                     | (d, Inr _) \<Rightarrow> (d, Inr ())))))"

text \<open>The loop over the dependencies of an environment when a machine is removed.\<close>

fun drop_dependencies :: "string \<Rightarrow> VMDependency list \<Rightarrow> env_db \<Rightarrow> env_db" where
  "drop_dependencies vmID [] d = d"
| "drop_dependencies vmID (x # xs) d =
     drop_dependencies vmID xs (if vd_SourceVMID x = vmID \<or> vd_TargetVMID x = vmID then fst (dep_Delete (vd_ID x) d) else d)"

definition environment_RemoveVM :: "string \<Rightarrow> string \<Rightarrow> env_db \<Rightarrow> env_db \<times> (go_error + unit)" where
  "environment_RemoveVM environmentID vmID d =
     (case envVM_RemoveVM environmentID vmID d of
        (d, Inl e) \<Rightarrow> (d, Inl (Wrapf ''removing vm from environment'' e))
      | (d, Inr _) \<Rightarrow>
          (case dep_ListByEnvironment environmentID d of
             (d, Inl _) \<Rightarrow> (d, Inr ())
           | (d, Inr deps) \<Rightarrow> (drop_dependencies vmID deps d, Inr ())))"

definition environment_AddDependency ::
  "uuid_lib \<Rightarrow> string \<Rightarrow> AddDependencyRequest \<Rightarrow> env_db \<Rightarrow> env_db \<times> (go_error + VMDependency)" where
  "environment_AddDependency U environmentID req d =
     (case (uuid_parse U environmentID, uuid_parse U (ad_SourceVMID req), uuid_parse U (ad_TargetVMID req)) of
        (None, _) \<Rightarrow> (d, Inl (Errorf ''invalid environment id''))
      | (Some _, None, _) \<Rightarrow> (d, Inl (Errorf ''invalid source_vm_id''))
      | (Some _, Some _, None) \<Rightarrow> (d, Inl (Errorf ''invalid target_vm_id''))
      | (Some envUUID, Some srcUUID, Some tgtUUID) \<Rightarrow>
          if srcUUID = tgtUUID then (d, Inl (Errorf ''source and target vm cannot be the same''))
          else (case dep_Create U \<lparr>vd_ID = nil_uuid, vd_EnvironmentID = envUUID, vd_SourceVMID = srcUUID, vd_TargetVMID = tgtUUID,
                        vd_Type = ad_Type req, vd_DelaySeconds = ad_DelaySeconds req, vd_Notes = ad_Notes req\<rparr> d of
                  (d, Inl e) \<Rightarrow> (d, Inl (Wrapf ''creating dependency'' e))
                | (d, Inr dep) \<Rightarrow> (d, Inr dep)))"

subsection \<open>Orchestration\<close>

definition Operation_text :: "OrchestrationOperation \<Rightarrow> string" where
  "Operation_text oper = (case oper of
       OrchestrationOpStart \<Rightarrow> ''start'' | OrchestrationOpStop \<Rightarrow> ''stop'' | OrchestrationOpRestart \<Rightarrow> ''restart''
     | OrchestrationOpSnapshot \<Rightarrow> ''snapshot'' | OrchestrationOpClone \<Rightarrow> ''clone'')"

definition orchestrationTaskType :: "OrchestrationOperation \<Rightarrow> string" where
  "orchestrationTaskType oper = (case oper of
       OrchestrationOpStart \<Rightarrow> ''env.start'' | OrchestrationOpStop \<Rightarrow> ''env.stop'' | OrchestrationOpRestart \<Rightarrow> ''env.restart''
     | OrchestrationOpSnapshot \<Rightarrow> ''env.snapshot'' | OrchestrationOpClone \<Rightarrow> ''env.clone'')"

definition new_run :: "string \<Rightarrow> OrchestrationOperation \<Rightarrow> nat \<Rightarrow> jmap option \<Rightarrow> string option \<Rightarrow> OrchestrationRun" where
  "new_run envUUID oper n payload caller =
     \<lparr>or_ID = nil_uuid, or_EnvironmentID = envUUID, or_Operation = oper, or_Status = OrchestrationRunStatusPending, or_Progress = 0,
      or_TotalVMs = int n, or_CompletedVMs = 0, or_FailedVMs = 0, or_SkippedVMs = 0, or_ErrorMessage = '''', or_Payload = payload,
      or_StartedAt = None, or_CompletedAt = None, or_CreatedBy = caller\<rparr>"

definition new_steps :: "string \<Rightarrow> EnvironmentVM list \<Rightarrow> OrchestrationStep list" where
  "new_steps runID evs = map (\<lambda>(i, ev). \<lparr>os_ID = nil_uuid, os_RunID = runID, os_VMID = ev_VMID ev, os_ExecutionOrder = int i,
     os_Status = OrchestrationStepStatusPending, os_TaskID = None, os_ErrorMessage = ''''\<rparr>) (enumerate 0 evs)"

definition orchestration_task ::
  "string \<Rightarrow> int \<Rightarrow> string \<Rightarrow> string \<Rightarrow> OrchestrationOperation \<Rightarrow> jmap option \<Rightarrow> string option \<Rightarrow> Task" where
  "orchestration_task taskID now environmentID runID oper payload caller =
     \<lparr>tk_ID = taskID, tk_CreatedAt = now, tk_Deleted = False, tk_Type = orchestrationTaskType oper, tk_Status = TaskPending,
      tk_Priority = 5, tk_Progress = 0,
      tk_Payload = put_all [(''environment_id'', JStr environmentID), (''run_id'', JStr runID), (''operation'', JStr (Operation_text oper))]
        (case payload of None \<Rightarrow> [] | Some p \<Rightarrow> p),
      tk_Result = None, tk_ErrorMessage = '''', tk_RetryCount = 0, tk_MaxRetries = 1, tk_StartedAt = None, tk_CompletedAt = None,
      tk_ScheduledAt = Some now, tk_TimeoutAt = None, tk_CreatedBy = caller, tk_HypervisorID = None, tk_VMID = None, tk_ParentTaskID = None\<rparr>"

definition createOrchestrationRun ::
  "uuid_lib \<Rightarrow> (int list \<Rightarrow> nat list) \<Rightarrow> int \<Rightarrow> string option \<Rightarrow> string \<Rightarrow> OrchestrationOperation \<Rightarrow> jmap option \<Rightarrow>
   env_db \<Rightarrow> env_db \<times> (go_error + string)" where
  "createOrchestrationRun U srt now caller environmentID oper payload d =
     (case env_GetByID environmentID d of
        (d, Inl e) \<Rightarrow> (d, Inl (Wrapf ''environment not found'' e))
      | (d, Inr env) \<Rightarrow>
     (case envVM_ListByEnvironment environmentID d of
        (d, Inl e) \<Rightarrow> (d, Inl (Wrapf ''loading environment vms'' e))
      | (d, Inr envVMs) \<Rightarrow>
          if envVMs = [] then (d, Inl (Errorf ''environment has no VMs''))
          else
     (case dep_ListByEnvironment environmentID d of
        (d, Inl e) \<Rightarrow> (d, Inl (Wrapf ''loading dependencies'' e))
      | (d, Inr deps) \<Rightarrow>
          (let orderedVMs = computeExecutionOrder srt (map fst envVMs) deps oper in
     (case orun_Create U (new_run (uuid_or_nil U environmentID) oper (length orderedVMs) payload caller) d of
        (d, Inl e) \<Rightarrow> (d, Inl (Wrapf ''creating orchestration run'' e))
      | (d, Inr r) \<Rightarrow>
     (case ostep_CreateBatch U (new_steps (or_ID r) orderedVMs) d of
        (d, Inl e) \<Rightarrow> (d, Inl (Wrapf ''creating orchestration steps'' e))
      | (d, Inr _) \<Rightarrow>
          (let taskID = uuid_new U (edb_next d);
               d = d\<lparr>edb_next := edb_next d + 1\<rparr> in
     (case env_task_Create (orchestration_task taskID now environmentID (or_ID r) oper payload caller) d of
        (d, Inl e) \<Rightarrow> (d, Inl (Wrapf ''creating orchestration task'' e))
      | (d, Inr _) \<Rightarrow>
          (env_audit ''execute'' environmentID
             (''orchestration '' @ Operation_text oper @ '' started for environment '' @ en_Name env) d, Inr taskID)))))))))"

record EnvironmentSnapshotRequest =
  es_SnapshotName :: string
  es_Description :: string
  es_Memory :: bool

record EnvironmentCloneRequest =
  ec_NewEnvironmentName :: string
  ec_NameSuffix :: string

definition snapshot_payload :: "EnvironmentSnapshotRequest \<Rightarrow> jmap" where
  "snapshot_payload req = [(''snapshot_name'', JStr (es_SnapshotName req)), (''description'', JStr (es_Description req)), (''memory'', JBool (es_Memory req))]"

definition clone_payload :: "EnvironmentCloneRequest \<Rightarrow> jmap" where
  "clone_payload req = [(''new_environment_name'', JStr (ec_NewEnvironmentName req)), (''name_suffix'', JStr (ec_NameSuffix req))]"

text \<open>The five public operations, \<^verbatim>\<open>StartEnvironment\<close> to \<^verbatim>\<open>CloneEnvironment\<close>.\<close>

datatype orchestration_request =
    StartEnvironment | StopEnvironment | RestartEnvironment
  | SnapshotEnvironment EnvironmentSnapshotRequest
  | CloneEnvironment EnvironmentCloneRequest

fun orchestrate ::
  "uuid_lib \<Rightarrow> (int list \<Rightarrow> nat list) \<Rightarrow> int \<Rightarrow> string option \<Rightarrow> string \<Rightarrow> orchestration_request \<Rightarrow> env_db \<Rightarrow> env_db \<times> (go_error + string)" where
  "orchestrate U srt now caller i StartEnvironment = createOrchestrationRun U srt now caller i OrchestrationOpStart None"
| "orchestrate U srt now caller i StopEnvironment = createOrchestrationRun U srt now caller i OrchestrationOpStop None"
| "orchestrate U srt now caller i RestartEnvironment = createOrchestrationRun U srt now caller i OrchestrationOpRestart None"
| "orchestrate U srt now caller i (SnapshotEnvironment req) =
     createOrchestrationRun U srt now caller i OrchestrationOpSnapshot (Some (snapshot_payload req))"
| "orchestrate U srt now caller i (CloneEnvironment req) =
     createOrchestrationRun U srt now caller i OrchestrationOpClone (Some (clone_payload req))"

subsection \<open>Status of an environment and of its runs\<close>

text \<open>The counts of running, stopped and failed machines.\<close>

definition tally :: "VM option list \<Rightarrow> int \<times> int \<times> int" where
  "tally vms = foldl (\<lambda>(running, stopped, error). (\<lambda>vm. case map_option vm_Status vm of
       Some VMStatusRunning \<Rightarrow> (running + 1, stopped, error)
     | Some VMStatusStopped \<Rightarrow> (running, stopped + 1, error)
     | Some VMStatusError \<Rightarrow> (running, stopped, error + 1)
     | _ \<Rightarrow> (running, stopped, error))) (0, 0, 0) vms"

definition aggregate_status :: "VM option list \<Rightarrow> EnvironmentStatus" where
  "aggregate_status vms =
     (case tally vms of (running, stopped, error) \<Rightarrow>
        if error > 0 then EnvironmentStatusUnhealthy
        else if running = int (length vms) then EnvironmentStatusHealthy
        else if stopped = int (length vms) then EnvironmentStatusUnknown
        else if running > 0 then EnvironmentStatusDegraded
        else EnvironmentStatusUnknown)"

definition RefreshStatus :: "string \<Rightarrow> env_db \<Rightarrow> env_db \<times> (go_error + Environment)" where
  "RefreshStatus i d =
     (case envVM_ListByEnvironment i d of
        (d, Inl e) \<Rightarrow> (d, Inl e)
      | (d, Inr envVMs) \<Rightarrow>
          if envVMs = [] then env_GetByID i (fst (env_UpdateStatus i EnvironmentStatusUnknown d))
          else env_GetByID i (fst (env_UpdateStatus i (aggregate_status (map snd envVMs)) d)))"

text \<open>The map of updates, with the times a run started and ended, is built and then not used.\<close>

definition UpdateRunStatus :: "string \<Rightarrow> OrchestrationRunStatus \<Rightarrow> string \<Rightarrow> env_db \<Rightarrow> env_db \<times> (go_error + unit)" where
  "UpdateRunStatus runID st errMsg = orun_UpdateStatus runID st errMsg"

definition UpdateRunProgress :: "string \<Rightarrow> int \<Rightarrow> int \<Rightarrow> int \<Rightarrow> int \<Rightarrow> env_db \<Rightarrow> env_db \<times> (go_error + unit)" where
  "UpdateRunProgress runID progress completed failed skipped = orun_UpdateProgress runID progress completed failed skipped"

definition UpdateStepStatus ::
  "string \<Rightarrow> OrchestrationStepStatus \<Rightarrow> string option \<Rightarrow> string \<Rightarrow> env_db \<Rightarrow> env_db \<times> (go_error + unit)" where
  "UpdateStepStatus stepID st taskID errMsg = ostep_UpdateStatus stepID st taskID errMsg"


section \<open>Sequences of operations\<close>

text \<open>The operations of the service and the goroutines it starts; the database may come to fail in any way.\<close>

datatype env_op =
    EnvCreate CreateEnvironmentRequest
  | EnvUpdate string UpdateEnvironmentRequest
  | EnvDelete string
  | EnvAddVM string string AddVMToEnvironmentRequest
  | EnvRemoveVM string string
  | EnvUpdateVMOrdering string string int int string
  | EnvAddDependency string AddDependencyRequest
  | EnvRemoveDependency string
  | EnvOrchestrate int "string option" string orchestration_request
  | EnvRefreshStatus string
  | EnvUpdateRunStatus string OrchestrationRunStatus string
  | EnvUpdateRunProgress string int int int int
  | EnvUpdateStepStatus string OrchestrationStepStatus "string option" string
  | EnvFaults "go_error option list"

fun env_step :: "uuid_lib \<Rightarrow> (int list \<Rightarrow> nat list) \<Rightarrow> env_db \<Rightarrow> env_op \<Rightarrow> env_db" where
  "env_step U srt d (EnvCreate req) = fst (environment_Create U req d)"
| "env_step U srt d (EnvUpdate i req) = fst (environment_Update U i req d)"
| "env_step U srt d (EnvDelete i) = fst (environment_Delete i d)"
| "env_step U srt d (EnvAddVM e v req) = fst (environment_AddVM U e v req d)"
| "env_step U srt d (EnvRemoveVM e v) = fst (environment_RemoveVM e v d)"
| "env_step U srt d (EnvUpdateVMOrdering e v a z r) = fst (envVM_UpdateOrdering e v a z r d)"
| "env_step U srt d (EnvAddDependency e req) = fst (environment_AddDependency U e req d)"
| "env_step U srt d (EnvRemoveDependency i) = fst (dep_Delete i d)"
| "env_step U srt d (EnvOrchestrate now caller e req) = fst (orchestrate U srt now caller e req d)"
| "env_step U srt d (EnvRefreshStatus i) = fst (RefreshStatus i d)"
| "env_step U srt d (EnvUpdateRunStatus i st msg) = fst (UpdateRunStatus i st msg d)"
| "env_step U srt d (EnvUpdateRunProgress i p c f s) = fst (UpdateRunProgress i p c f s d)"
| "env_step U srt d (EnvUpdateStepStatus i st t msg) = fst (UpdateStepStatus i st t msg d)"
| "env_step U srt d (EnvFaults fs) = d\<lparr>edb_faults := fs\<rparr>"

definition initial_env_db :: "VM list \<Rightarrow> task_table \<Rightarrow> env_db" where
  "initial_env_db vms tt = \<lparr>edb_envs = [], edb_envVMs = [], edb_deps = [], edb_tags = [], edb_runs = [], edb_steps = [], edb_vms = vms,
     edb_tasks = tt, edb_audit = [], edb_next = 0, edb_faults = []\<rparr>"

definition member_key :: "EnvironmentVM \<Rightarrow> string \<times> string" where
  "member_key x = (ev_EnvironmentID x, ev_VMID x)"

text \<open>
  A machine is in an environment at most once, the run of a step has an identifier that was handed out,
  and no run ever has a time at which it started or ended.
\<close>

definition env_inv :: "uuid_lib \<Rightarrow> env_db \<Rightarrow> bool" where
  "env_inv U d \<longleftrightarrow> distinct (map member_key (edb_envVMs d)) \<and>
     (\<forall>s \<in> set (edb_steps d). \<exists>n < edb_next d. os_RunID s = uuid_new U n) \<and>
     (\<forall>r \<in> set (edb_runs d). or_StartedAt r = None \<and> or_CompletedAt r = None)"

lemma env_inv_faults [simp]: "env_inv U (d\<lparr>edb_faults := fs\<rparr>) = env_inv U d"
  by (simp add: env_inv_def)

lemma env_inv_other [simp]:
  "env_inv U (d\<lparr>edb_envs := x\<rparr>) = env_inv U d"
  "env_inv U (d\<lparr>edb_deps := x2\<rparr>) = env_inv U d"
  "env_inv U (d\<lparr>edb_tags := x3\<rparr>) = env_inv U d"
  "env_inv U (d\<lparr>edb_audit := x4\<rparr>) = env_inv U d"
  "env_inv U (d\<lparr>edb_tasks := x5\<rparr>) = env_inv U d"
  by (simp_all add: env_inv_def)

lemma env_inv_next: "env_inv U d \<Longrightarrow> n \<ge> edb_next d \<Longrightarrow> env_inv U (d\<lparr>edb_next := n\<rparr>)"
  unfolding env_inv_def by simp (meson less_le_trans)

lemma env_stmt_cases:
  assumes "env_stmt f d = (d', r)"
  obtains (ran) fs where "f (d\<lparr>edb_faults := fs\<rparr>) = (d', r)"
    | (fault) fs e where "d' = d\<lparr>edb_faults := fs\<rparr>" "r = Inl e"
proof (cases "edb_faults d")
  case Nil
  then have "f d = (d', r)" using assms by (simp add: env_stmt_def)
  then have "f (d\<lparr>edb_faults := edb_faults d\<rparr>) = (d', r)" by simp
  then show thesis by (rule ran)
next
  case (Cons x fs)
  then show thesis using assms ran fault by (cases x) (auto simp: env_stmt_def)
qed

lemma env_stmt_result: "env_stmt f d = (d', Inr x) \<Longrightarrow> \<exists>fs. f (d\<lparr>edb_faults := fs\<rparr>) = (d', Inr x)"
  by (erule env_stmt_cases) auto

lemma env_stmt_inv:
  assumes "env_inv U d" "env_stmt f d = (d', r)" "\<And>d. env_inv U d \<Longrightarrow> env_inv U (fst (f d))"
  shows "env_inv U d'"
  using assms(2)
proof (cases rule: env_stmt_cases)
  case (ran fs)
  with assms(3) [of "d\<lparr>edb_faults := fs\<rparr>"] assms(1) show ?thesis by simp
qed (use assms(1) in simp)

lemma first_row_inv:
  assumes "env_inv U d" "first_row what f d = (d', r)"
  shows "env_inv U d'"
proof -
  let ?g = "\<lambda>d. (d, case f d of None \<Rightarrow> Inl (Errorf ''record not found'') | Some r \<Rightarrow> Inr r)"
  obtain d1 r1 where s: "env_stmt ?g d = (d1, r1)" by fastforce
  have "env_inv U d1" by (rule env_stmt_inv [OF assms(1) s]) simp
  with s assms(2) show ?thesis by (auto simp: first_row_def split: sum.splits)
qed

lemma env_inv_map_members:
  assumes "env_inv U d" "\<And>x. member_key (f x) = member_key x"
  shows "env_inv U (d\<lparr>edb_envVMs := map f (edb_envVMs d)\<rparr>)"
proof -
  have "member_key \<circ> f = member_key" using assms(2) by auto
  then show ?thesis using assms(1) unfolding env_inv_def by simp
qed

lemma env_inv_filter:
  "env_inv U d \<Longrightarrow> env_inv U (d\<lparr>edb_envVMs := filter P (edb_envVMs d)\<rparr>)"
  "env_inv U d \<Longrightarrow> env_inv U (d\<lparr>edb_steps := filter Q (edb_steps d)\<rparr>)"
  "env_inv U d \<Longrightarrow> env_inv U (d\<lparr>edb_runs := filter R (edb_runs d)\<rparr>)"
  by (auto simp: env_inv_def distinct_map_filter)

lemma env_inv_map_runs:
  "env_inv U d \<Longrightarrow> (\<And>r. or_StartedAt (f r) = or_StartedAt r \<and> or_CompletedAt (f r) = or_CompletedAt r) \<Longrightarrow>
   env_inv U (d\<lparr>edb_runs := map f (edb_runs d)\<rparr>)"
  by (auto simp: env_inv_def)

lemma env_inv_map_steps:
  "env_inv U d \<Longrightarrow> (\<And>s. os_RunID (f s) = os_RunID s) \<Longrightarrow> env_inv U (d\<lparr>edb_steps := map f (edb_steps d)\<rparr>)"
  by (auto simp: env_inv_def)

lemmas env_inv_intros = env_inv_next env_inv_map_members env_inv_filter env_inv_map_runs env_inv_map_steps

lemma env_Create_inv: "env_inv U d \<Longrightarrow> env_Create U' e d = (d', a) \<Longrightarrow> env_inv U d'"
  unfolding env_Create_def
  by (erule (1) env_stmt_inv) (auto simp: Let_def member_key_def intro!: env_inv_intros split: prod.split option.split)

lemma env_GetByID_inv: "env_inv U d \<Longrightarrow> env_GetByID i d = (d', a) \<Longrightarrow> env_inv U d'"
  unfolding env_GetByID_def by (rule first_row_inv)

lemma env_Update_inv: "env_inv U d \<Longrightarrow> env_Update e d = (d', a) \<Longrightarrow> env_inv U d'"
  unfolding env_Update_def
  by (erule (1) env_stmt_inv) (auto simp: Let_def member_key_def intro!: env_inv_intros split: prod.split option.split)

lemma env_UpdateStatus_inv: "env_inv U d \<Longrightarrow> env_UpdateStatus i st d = (d', a) \<Longrightarrow> env_inv U d'"
  unfolding env_UpdateStatus_def
  by (erule (1) env_stmt_inv) (auto simp: Let_def member_key_def intro!: env_inv_intros split: prod.split option.split)

lemma envVM_RemoveVM_inv: "env_inv U d \<Longrightarrow> envVM_RemoveVM i v d = (d', a) \<Longrightarrow> env_inv U d'"
  unfolding envVM_RemoveVM_def
  by (erule (1) env_stmt_inv) (auto simp: Let_def member_key_def intro!: env_inv_intros split: prod.split option.split)

lemma envVM_ListByEnvironment_inv: "env_inv U d \<Longrightarrow> envVM_ListByEnvironment i d = (d', a) \<Longrightarrow> env_inv U d'"
  unfolding envVM_ListByEnvironment_def
  by (erule (1) env_stmt_inv) (auto simp: Let_def member_key_def intro!: env_inv_intros split: prod.split option.split)

lemma envVM_UpdateOrdering_inv: "env_inv U d \<Longrightarrow> envVM_UpdateOrdering i v x y z d = (d', a) \<Longrightarrow> env_inv U d'"
  unfolding envVM_UpdateOrdering_def
  by (erule (1) env_stmt_inv) (auto simp: Let_def member_key_def intro!: env_inv_intros split: prod.split option.split)

lemma vm_GetByID_inv: "env_inv U d \<Longrightarrow> vm_GetByID i d = (d', a) \<Longrightarrow> env_inv U d'"
  unfolding vm_GetByID_def by (rule first_row_inv)

lemma dep_Create_inv: "env_inv U d \<Longrightarrow> dep_Create U' x d = (d', a) \<Longrightarrow> env_inv U d'"
  unfolding dep_Create_def
  by (erule (1) env_stmt_inv) (auto simp: Let_def member_key_def intro!: env_inv_intros split: prod.split option.split)

lemma dep_Delete_inv: "env_inv U d \<Longrightarrow> dep_Delete i d = (d', a) \<Longrightarrow> env_inv U d'"
  unfolding dep_Delete_def
  by (erule (1) env_stmt_inv) (auto simp: Let_def member_key_def intro!: env_inv_intros split: prod.split option.split)

lemma dep_ListByEnvironment_inv: "env_inv U d \<Longrightarrow> dep_ListByEnvironment i d = (d', a) \<Longrightarrow> env_inv U d'"
  unfolding dep_ListByEnvironment_def
  by (erule (1) env_stmt_inv) (auto simp: Let_def member_key_def intro!: env_inv_intros split: prod.split option.split)

lemma orun_UpdateProgress_inv: "env_inv U d \<Longrightarrow> orun_UpdateProgress i p c f s d = (d', a) \<Longrightarrow> env_inv U d'"
  unfolding orun_UpdateProgress_def update_run_def
  by (erule (1) env_stmt_inv) (auto simp: Let_def member_key_def intro!: env_inv_intros split: prod.split option.split)

lemma orun_UpdateStatus_inv: "env_inv U d \<Longrightarrow> orun_UpdateStatus i st msg d = (d', a) \<Longrightarrow> env_inv U d'"
  unfolding orun_UpdateStatus_def update_run_def
  by (erule (1) env_stmt_inv) (auto simp: Let_def member_key_def intro!: env_inv_intros split: prod.split option.split)

lemma ostep_UpdateStatus_inv: "env_inv U d \<Longrightarrow> ostep_UpdateStatus i st t msg d = (d', a) \<Longrightarrow> env_inv U d'"
  unfolding ostep_UpdateStatus_def
  by (erule (1) env_stmt_inv) (auto simp: Let_def member_key_def intro!: env_inv_intros split: prod.split option.split)

lemma env_task_Create_inv: "env_inv U d \<Longrightarrow> env_task_Create t d = (d', a) \<Longrightarrow> env_inv U d'"
  unfolding env_task_Create_def
  by (erule (1) env_stmt_inv) (auto simp: Let_def member_key_def intro!: env_inv_intros split: prod.split option.split)

lemma envVM_AddVM_inv:
  assumes "env_inv U d" "envVM_AddVM U' ev d = (d', a)"
  shows "env_inv U d'"
  using assms(2) unfolding envVM_AddVM_def
proof (rule env_stmt_inv [OF assms(1)])
  fix d assume inv: "env_inv U d"
  have upd: "env_inv U (d\<lparr>edb_envVMs := map (\<lambda>x. if same_member x ev then x\<lparr>ev_StartOrder := ev_StartOrder ev,
      ev_StopOrder := ev_StopOrder ev, ev_Role := ev_Role ev, ev_Notes := ev_Notes ev\<rparr> else x) (edb_envVMs d)\<rparr>)"
    using inv by (rule env_inv_map_members) (simp add: member_key_def)
  have ins: "env_inv U (d\<lparr>edb_envVMs := edb_envVMs d @ [ev\<lparr>ev_ID := i\<rparr>], edb_next := edb_next d + 1\<rparr>)"
    if "\<not> (\<exists>x \<in> set (edb_envVMs d). same_member x ev)" for i
  proof -
    have "member_key ev \<notin> member_key ` set (edb_envVMs d)" using that by (auto simp: member_key_def same_member_def)
    moreover have "member_key (ev\<lparr>ev_ID := i\<rparr>) = member_key ev" by (simp add: member_key_def)
    ultimately have "env_inv U (d\<lparr>edb_envVMs := edb_envVMs d @ [ev\<lparr>ev_ID := i\<rparr>]\<rparr>)"
      using inv by (auto simp: env_inv_def)
    from env_inv_next [OF this, of "edb_next d + 1"] show ?thesis by simp
  qed
  show "env_inv U (fst (if \<not> env_exists (ev_EnvironmentID ev) d \<or> \<not> vm_exists (ev_VMID ev) d then (d, Inl foreign_key)
     else if (\<exists>x \<in> set (edb_envVMs d). same_member x ev)
     then (d\<lparr>edb_envVMs := map (\<lambda>x. if same_member x ev then x\<lparr>ev_StartOrder := ev_StartOrder ev, ev_StopOrder := ev_StopOrder ev,
             ev_Role := ev_Role ev, ev_Notes := ev_Notes ev\<rparr> else x) (edb_envVMs d)\<rparr>, Inr ())
     else (d\<lparr>edb_envVMs := edb_envVMs d @ [ev\<lparr>ev_ID := uuid_new U' (edb_next d)\<rparr>], edb_next := edb_next d + 1\<rparr>, Inr ())))"
    using inv upd ins by simp
qed

lemma first_row_result:
  "first_row what f d = (d', Inr x) \<Longrightarrow> \<exists>fs. d' = d\<lparr>edb_faults := fs\<rparr> \<and> f (d\<lparr>edb_faults := fs\<rparr>) = Some x"
  by (auto simp: first_row_def split: prod.splits sum.splits option.splits dest!: env_stmt_result)

text \<open>A run that is created without times, and its steps.\<close>

lemma orun_Create_inv:
  assumes "env_inv U d" "orun_Create U r d = (d', a)" "or_StartedAt r = None" "or_CompletedAt r = None"
  shows "env_inv U d'"
  using assms(2) unfolding orun_Create_def
proof (rule env_stmt_inv [OF assms(1)])
  fix d assume inv: "env_inv U d"
  then have "env_inv U (d\<lparr>edb_runs := edb_runs d @ [r\<lparr>or_ID := i\<rparr>]\<rparr>)" for i using assms(3,4) by (auto simp: env_inv_def)
  from env_inv_next [OF this, where n = "edb_next d + 1"] inv
  show "env_inv U (fst (if \<not> env_exists (or_EnvironmentID r) d then (d, Inl foreign_key)
     else (let r = r\<lparr>or_ID := uuid_new U (edb_next d)\<rparr>
           in (d\<lparr>edb_runs := edb_runs d @ [r], edb_next := edb_next d + 1\<rparr>, Inr r))))" by (simp add: Let_def)
qed

lemma orun_Create_result:
  assumes "orun_Create U r d = (d', Inr r')"
  shows "\<exists>fs. r' = r\<lparr>or_ID := uuid_new U (edb_next d)\<rparr> \<and> d' = d\<lparr>edb_faults := fs, edb_runs := edb_runs d @ [r'], edb_next := edb_next d + 1\<rparr>"
  using env_stmt_result [OF assms [unfolded orun_Create_def]] by (auto simp: Let_def split: if_splits)

lemma ostep_CreateBatch_inv:
  assumes "env_inv U d" "ostep_CreateBatch U' (new_steps (uuid_new U n) evs) d = (d', a)" "n < edb_next d"
  shows "env_inv U d'"
proof (cases "evs = []")
  case True
  with assms(1,2) show ?thesis by (simp add: ostep_CreateBatch_def new_steps_def)
next
  case False
  let ?ss = "new_steps (uuid_new U n) evs"
  let ?P = "\<lambda>d. env_inv U d \<and> n < edb_next d"
  let ?f = "\<lambda>d. d\<lparr>edb_steps := edb_steps d @ map (\<lambda>(k, s). s\<lparr>os_ID := uuid_new U' (edb_next d + k)\<rparr>) (enumerate 0 ?ss),
             edb_next := edb_next d + length ?ss\<rparr>"
  have ok: "env_inv U (?f d)" if "?P d" for d
  proof -
    have "os_RunID s = uuid_new U n" if "s \<in> set (map (\<lambda>(k, s). s\<lparr>os_ID := uuid_new U' (edb_next d + k)\<rparr>) (enumerate 0 ?ss))" for s
      using that by (auto simp: new_steps_def in_set_enumerate_eq nth_enumerate_eq)
    then have "env_inv U (d\<lparr>edb_steps := edb_steps d @ map (\<lambda>(k, s). s\<lparr>os_ID := uuid_new U' (edb_next d + k)\<rparr>) (enumerate 0 ?ss)\<rparr>)"
      using \<open>?P d\<close> by (fastforce simp: env_inv_def)
    from env_inv_next [OF this, of "edb_next d + length ?ss"] show ?thesis by simp
  qed
  have "env_stmt (\<lambda>d. (?f d, Inr ())) d = (d', a)" using assms(2) False by (simp add: ostep_CreateBatch_def new_steps_def enumerate_eq_zip)
  then show ?thesis
  proof (cases rule: env_stmt_cases)
    case (ran fs)
    with ok [of "d\<lparr>edb_faults := fs\<rparr>"] assms(1,3) show ?thesis by auto
  qed (use assms(1) in simp)
qed

lemma ostep_CreateBatch_result:
  assumes "ostep_CreateBatch U ss d = (d', Inr x)" "ss \<noteq> []"
  shows "\<exists>fs. d' = d\<lparr>edb_faults := fs, edb_steps := edb_steps d @ map (\<lambda>(k, s). s\<lparr>os_ID := uuid_new U (edb_next d + k)\<rparr>) (enumerate 0 ss),
    edb_next := edb_next d + length ss\<rparr>"
proof -
  have "env_stmt (\<lambda>d. (d\<lparr>edb_steps := edb_steps d @ map (\<lambda>(k, s). s\<lparr>os_ID := uuid_new U (edb_next d + k)\<rparr>) (enumerate 0 ss),
             edb_next := edb_next d + length ss\<rparr>, Inr ())) d = (d', Inr x)"
    using assms by (simp add: ostep_CreateBatch_def)
  from env_stmt_result [OF this] show ?thesis by auto
qed

text \<open>The state in which a run is created, and what is created.\<close>

lemma createOrchestrationRun_inv:
  assumes inv: "env_inv U d" and r: "createOrchestrationRun U srt now caller e oper payload d = (d', a)"
  shows "env_inv U d'"
proof -
  have run: "env_inv U d2" if "env_inv U d1" "orun_Create U (new_run i oper n payload caller) d1 = (d2, x)" for d1 d2 i n x
    using orun_Create_inv [OF that] by (simp add: new_run_def)
  have steps: "env_inv U d3" if "env_inv U d2" "orun_Create U (new_run i oper n payload caller) d1 = (d2, Inr rn)"
      "ostep_CreateBatch U (new_steps (or_ID rn) evs) d2 = (d3, x)" for d1 d2 d3 i n x rn evs
  proof -
    have "or_ID rn = uuid_new U (edb_next d1)" "edb_next d2 = edb_next d1 + 1"
      using orun_Create_result [OF that(2)] by auto
    with that(1,3) ostep_CreateBatch_inv [of U d2 U "edb_next d1" evs d3 x] show ?thesis by simp
  qed
  have task: "env_inv U d4" if "env_inv U d3" "env_task_Create t (d3\<lparr>edb_next := Suc (edb_next d3)\<rparr>) = (d4, x)" for d3 d4 t x
    using env_task_Create_inv [OF env_inv_next [OF that(1)] that(2)] by simp
  show ?thesis using r inv unfolding createOrchestrationRun_def Let_def env_audit_def
    by (auto simp del: append.simps split: prod.splits sum.splits if_splits)
      ((frule (1) env_GetByID_inv)?; (frule (1) envVM_ListByEnvironment_inv)?; (frule (1) dep_ListByEnvironment_inv)?;
       (frule (1) run)?; (frule (2) steps)?; (frule (1) task)?; simp)+
qed

lemma environment_Create_inv: "env_inv U d \<Longrightarrow> env_inv U (fst (environment_Create U' req d))"
  by (auto simp: environment_Create_def Let_def env_audit_def split: prod.split sum.split dest: env_Create_inv)

lemma environment_Update_inv: "env_inv U d \<Longrightarrow> env_inv U (fst (environment_Update U' i req d))"
  by (auto simp: environment_Update_def Let_def env_audit_def split: prod.split sum.split dest: env_GetByID_inv env_Update_inv)

lemma transaction_inv:
  assumes "env_inv U d" "\<And>d what f. (what, f) \<in> set fs \<Longrightarrow> env_inv U d \<Longrightarrow> env_inv U (f d)" "transaction fs d = (d', r)"
  shows "env_inv U d'"
  using assms
proof (induction fs arbitrary: d)
  case (Cons x fs)
  obtain what f where x: "x = (what, f)" by (cases x)
  obtain d1 r1 where s: "env_stmt (\<lambda>d. (f d, Inr ())) d = (d1, r1 :: go_error + unit)" by fastforce
  have "env_inv U d1" by (rule env_stmt_inv [OF Cons.prems(1) s]) (use Cons.prems(2) x in auto)
  with Cons s x show ?case by (auto split: sum.splits)
qed simp

lemma environment_Delete_inv:
  assumes "env_inv U d"
  shows "env_inv U (fst (environment_Delete i d))"
proof -
  have "env_inv U d'" if "env_Delete i d = (d', r)" for d' r
  proof -
    let ?run = "\<lambda>fs. transaction fs d"
    have tx: "env_inv U d2" if "?run fs = (d2, r2)" "\<And>d what f. (what, f) \<in> set fs \<Longrightarrow> env_inv U d \<Longrightarrow> env_inv U (f d)" for fs d2 r2
      by (rule transaction_inv [OF assms _ that(1)]) (rule that(2))
    show ?thesis using that assms unfolding env_Delete_def
      by (auto simp del: transaction.simps split: prod.splits sum.splits elim!: tx intro: env_inv_filter)
  qed
  then show ?thesis by (auto simp: environment_Delete_def env_audit_def split: prod.split sum.split)
qed

lemma environment_AddVM_inv: "env_inv U d \<Longrightarrow> env_inv U (fst (environment_AddVM U' e v req d))"
  by (auto simp: environment_AddVM_def split: prod.split sum.split option.split)
    ((frule (1) env_GetByID_inv)?; (frule (1) vm_GetByID_inv)?; (frule (1) envVM_AddVM_inv)?; simp)+

lemma drop_dependencies_inv: "env_inv U d \<Longrightarrow> env_inv U (drop_dependencies v xs d)"
proof (induction xs arbitrary: d)
  case (Cons x xs)
  obtain d1 r where "dep_Delete (vd_ID x) d = (d1, r)" by fastforce
  with Cons dep_Delete_inv [of U d "vd_ID x" d1 r] show ?case by simp
qed simp

lemma environment_RemoveVM_inv: "env_inv U d \<Longrightarrow> env_inv U (fst (environment_RemoveVM e v d))"
  by (auto simp: environment_RemoveVM_def split: prod.split sum.split
    dest: envVM_RemoveVM_inv dep_ListByEnvironment_inv intro: drop_dependencies_inv)

lemma environment_AddDependency_inv: "env_inv U d \<Longrightarrow> env_inv U (fst (environment_AddDependency U' e req d))"
  by (auto simp: environment_AddDependency_def split: prod.split sum.split option.split dest: dep_Create_inv)

lemma RefreshStatus_inv:
  assumes "env_inv U d"
  shows "env_inv U (fst (RefreshStatus i d))"
proof -
  have get: "env_inv U (fst (env_GetByID i d))" if "env_inv U d" for d
    using env_GetByID_inv [OF that, of i] by (cases "env_GetByID i d") auto
  have upd: "env_inv U (fst (env_UpdateStatus i st d))" if "env_inv U d" for d st
    using env_UpdateStatus_inv [OF that, of i st] by (cases "env_UpdateStatus i st d") auto
  show ?thesis using assms
    by (auto simp: RefreshStatus_def split: prod.split sum.split dest: envVM_ListByEnvironment_inv intro: get upd)
qed

lemma orchestrate_inv: "env_inv U d \<Longrightarrow> env_inv U (fst (orchestrate U srt now caller e req d))"
proof -
  have c: "env_inv U (fst (createOrchestrationRun U srt now caller e oper p d))" if "env_inv U d" for oper p
    using createOrchestrationRun_inv [OF that] by (cases "createOrchestrationRun U srt now caller e oper p d") auto
  show "env_inv U d \<Longrightarrow> env_inv U (fst (orchestrate U srt now caller e req d))" by (cases req) (simp_all add: c)
qed

lemma env_step_inv:
  assumes "env_inv U d"
  shows "env_inv U (env_step U srt d x)"
proof -
  have f: "env_inv U (fst (g d))" if "\<And>d' r. g d = (d', r) \<Longrightarrow> env_inv U d'" for g :: "env_db \<Rightarrow> env_db \<times> (go_error + 'a)"
    using that by (cases "g d") auto
  show ?thesis
    by (cases x) (simp_all add: assms environment_Create_inv environment_Update_inv environment_Delete_inv environment_AddVM_inv
      environment_RemoveVM_inv environment_AddDependency_inv RefreshStatus_inv orchestrate_inv UpdateRunStatus_def
      UpdateRunProgress_def UpdateStepStatus_def
      f [OF envVM_UpdateOrdering_inv [OF assms]] f [OF dep_Delete_inv [OF assms]] f [OF orun_UpdateStatus_inv [OF assms]]
      f [OF orun_UpdateProgress_inv [OF assms]] f [OF ostep_UpdateStatus_inv [OF assms]])
qed

lemma environments: "component (initial_env_db vms tt) (env_step U srt) (env_inv U)"
proof
  show "env_inv U (initial_env_db vms tt)" by (simp add: env_inv_def initial_env_db_def)
qed (rule env_step_inv)


section \<open>What is planned\<close>

text \<open>The machines of an environment in the order of \<^verbatim>\<open>ListByEnvironment\<close>, and its dependencies.\<close>

definition members :: "string \<Rightarrow> env_db \<Rightarrow> EnvironmentVM list" where
  "members e d = sort_key ev_StartOrder (filter (\<lambda>x. ev_EnvironmentID x = e) (edb_envVMs d))"

definition dependencies :: "string \<Rightarrow> env_db \<Rightarrow> VMDependency list" where
  "dependencies e d = filter (\<lambda>x. vd_EnvironmentID x = e) (edb_deps d)"

text \<open>The machines of the steps of a run, as the executor gets them.\<close>

definition plan_of :: "string \<Rightarrow> env_db \<Rightarrow> string list" where
  "plan_of r d = map os_VMID (sort_key os_ExecutionOrder (filter (\<lambda>s. os_RunID s = r) (edb_steps d)))"

lemma members_distinct:
  assumes "env_inv U d"
  shows "distinct (map ev_VMID (members e d))"
proof -
  have "distinct (map member_key (filter (\<lambda>x. ev_EnvironmentID x = e) (edb_envVMs d)))"
    using assms by (simp add: env_inv_def distinct_map_filter)
  then have "distinct (map member_key (members e d))"
    unfolding members_def by (simp add: distinct_map)
  moreover have "inj_on ev_VMID (set (members e d))" if "inj_on member_key (set (members e d))"
    using that unfolding inj_on_def by (auto simp: members_def member_key_def)
  ultimately show ?thesis by (simp add: distinct_map)
qed

lemma sorted_enumerate: "sorted (map fst (enumerate n xs))"
  by (simp add: map_fst_enumerate)

lemma new_steps_simps:
  "map os_VMID (new_steps r evs) = map ev_VMID evs" "map os_ExecutionOrder (new_steps r evs) = map int [0..<length evs]"
  "s \<in> set (new_steps r evs) \<Longrightarrow> os_RunID s = r"
  by (auto simp: new_steps_def comp_def case_prod_beta map_snd_enumerate [unfolded comp_def] intro!: nth_equalityI
      simp: nth_enumerate_eq in_set_enumerate_eq)

lemma read_results:
  "env_GetByID e d = (d', Inr env) \<Longrightarrow> \<exists>fs. d' = d\<lparr>edb_faults := fs\<rparr>"
  "envVM_ListByEnvironment e d = (d', Inr l) \<Longrightarrow> \<exists>fs. d' = d\<lparr>edb_faults := fs\<rparr> \<and> map fst l = members e d"
  "dep_ListByEnvironment e d = (d', Inr deps) \<Longrightarrow> \<exists>fs. d' = d\<lparr>edb_faults := fs\<rparr> \<and> deps = dependencies e d"
  by (auto simp: env_GetByID_def envVM_ListByEnvironment_def dep_ListByEnvironment_def members_def dependencies_def comp_def
      dest!: first_row_result env_stmt_result)

lemma env_task_Create_result:
  assumes "env_task_Create t d = (d', Inr x)"
  shows "\<exists>fs tt. d' = d\<lparr>edb_faults := fs, edb_tasks := tt\<rparr> \<and> t \<in> set (tt_rows tt)"
  using env_stmt_result [OF assms [unfolded env_task_Create_def]]
  by (fastforce simp: Create_def split: prod.splits option.splits if_splits)

lemma ostep_CreateBatch_ids:
  assumes "ostep_CreateBatch U ss d = (d', Inr x)"
  shows "\<exists>fs ids n. length ids = length ss \<and> d' = d\<lparr>edb_faults := fs, edb_steps := edb_steps d @ map (\<lambda>(i, s). s\<lparr>os_ID := i\<rparr>) (zip ids ss), edb_next := n\<rparr>"
proof (cases "ss = []")
  case True
  with assms have "d' = d" by (simp add: ostep_CreateBatch_def)
  then show ?thesis
    by (intro exI [of _ "edb_faults d"] exI [of _ "[]"] exI [of _ "edb_next d"]) (simp add: True)
next
  case False
  let ?ids = "map (\<lambda>k. uuid_new U (edb_next d + k)) [0..<length ss]"
  have "map (\<lambda>(k, s). s\<lparr>os_ID := uuid_new U (edb_next d + k)\<rparr>) (enumerate 0 ss) = map (\<lambda>(i, s). s\<lparr>os_ID := i\<rparr>) (zip ?ids ss)"
    by (simp add: enumerate_eq_zip zip_map1 case_prod_beta comp_def)
  with ostep_CreateBatch_result [OF assms False] show ?thesis by (metis length_map length_upt minus_nat.diff_0)
qed

lemma map_with_ids:
  assumes "length ids = length ss"
  shows "map os_VMID (map (\<lambda>(i, s). s\<lparr>os_ID := i\<rparr>) (zip ids ss)) = map os_VMID ss"
    and "map os_ExecutionOrder (map (\<lambda>(i, s). s\<lparr>os_ID := i\<rparr>) (zip ids ss)) = map os_ExecutionOrder ss"
  using assms by (induction rule: list_induct2) simp_all

text \<open>What a successful call leaves in the tables.\<close>

lemma createOrchestrationRun_result:
  assumes "createOrchestrationRun U srt now caller e oper payload d = (d', Inr taskID)"
  shows "members e d \<noteq> [] \<and> (let evs = computeExecutionOrder srt (members e d) (dependencies e d) oper; rid = uuid_new U (edb_next d);
      r = (new_run (uuid_or_nil U e) oper (length evs) payload caller)\<lparr>or_ID := rid\<rparr>
    in edb_runs d' = edb_runs d @ [r] \<and>
       (\<exists>ids. length ids = length evs \<and>
         edb_steps d' = edb_steps d @ map (\<lambda>(i, s). s\<lparr>os_ID := i\<rparr>) (zip ids (new_steps rid evs))) \<and>
       (\<exists>t \<in> set (tt_rows (edb_tasks d')). tk_ID t = taskID \<and> t = orchestration_task taskID now e rid oper payload caller))"
proof -
  from assms obtain d1 env d2 l d3 deps d4 r d5 d6 where
    get: "env_GetByID e d = (d1, Inr env)" and l: "envVM_ListByEnvironment e d1 = (d2, Inr l)" "l \<noteq> []"
    and deps: "dep_ListByEnvironment e d2 = (d3, Inr deps)"
    and r: "orun_Create U (new_run (uuid_or_nil U e) oper (length (computeExecutionOrder srt (map fst l) deps oper)) payload caller) d3 = (d4, Inr r)"
    and st: "ostep_CreateBatch U (new_steps (or_ID r) (computeExecutionOrder srt (map fst l) deps oper)) d4 = (d5, Inr ())"
    and t: "env_task_Create (orchestration_task taskID now e (or_ID r) oper payload caller) (d5\<lparr>edb_next := edb_next d5 + 1\<rparr>) = (d6, Inr ())"
    and d': "d' = env_audit ''execute'' e (''orchestration '' @ Operation_text oper @ '' started for environment '' @ en_Name env) d6"
    unfolding createOrchestrationRun_def Let_def
    by (auto simp del: append.simps split: prod.splits sum.splits if_splits)
  obtain f1 where d1: "d1 = d\<lparr>edb_faults := f1\<rparr>" using read_results(1) [OF get] by blast
  obtain f2 where d2: "d2 = d1\<lparr>edb_faults := f2\<rparr>" "map fst l = members e d1" using read_results(2) [OF l(1)] by blast
  obtain f3 where d3: "d3 = d2\<lparr>edb_faults := f3\<rparr>" "deps = dependencies e d2" using read_results(3) [OF deps] by blast
  have in_d: "map fst l = members e d" "deps = dependencies e d" using d1 d2 d3 by (simp_all add: members_def dependencies_def)
  define evs where "evs = computeExecutionOrder srt (members e d) (dependencies e d) oper"
  obtain f4 where d4: "r = (new_run (uuid_or_nil U e) oper (length evs) payload caller)\<lparr>or_ID := uuid_new U (edb_next d)\<rparr>"
      "d4 = d3\<lparr>edb_faults := f4, edb_runs := edb_runs d @ [r], edb_next := edb_next d + 1\<rparr>"
    using orun_Create_result [OF r] d1 d2(1) d3(1) by (auto simp: in_d evs_def)
  obtain f5 ids n where d5: "length ids = length evs"
      "d5 = d4\<lparr>edb_faults := f5, edb_steps := edb_steps d4 @ map (\<lambda>(i, s). s\<lparr>os_ID := i\<rparr>) (zip ids (new_steps (or_ID r) evs)), edb_next := n\<rparr>"
    using ostep_CreateBatch_ids [OF st] new_steps_simps(1) [of "or_ID r" evs, THEN arg_cong, of length] by (auto simp: in_d evs_def)
  obtain f6 tt where d6: "d6 = (d5\<lparr>edb_next := edb_next d5 + 1\<rparr>)\<lparr>edb_faults := f6, edb_tasks := tt\<rparr>"
      "orchestration_task taskID now e (or_ID r) oper payload caller \<in> set (tt_rows tt)"
    using env_task_Create_result [OF t] by blast
  have rid: "or_ID r = uuid_new U (edb_next d)" using d4(1) by simp
  have "members e d \<noteq> []" using l(2) in_d(1) by auto
  moreover have "edb_runs d' = edb_runs d @ [r]" using d' d6 d5 d4 by (simp add: env_audit_def)
  moreover have "edb_steps d' = edb_steps d @ map (\<lambda>(i, s). s\<lparr>os_ID := i\<rparr>) (zip ids (new_steps (uuid_new U (edb_next d)) evs))"
    using d' d6(1) d5(2) d4(2) d3(1) d2(1) d1 by (simp add: env_audit_def rid)
  moreover have "orchestration_task taskID now e (uuid_new U (edb_next d)) oper payload caller \<in> set (tt_rows (edb_tasks d'))"
    using d' d6 by (simp add: env_audit_def rid)
  ultimately show ?thesis using d5(1) d4(1) unfolding Let_def evs_def [symmetric] by (auto simp: orchestration_task_def)
qed

text \<open>
  C29. A successful request to start, stop, restart, copy or clone an environment, in any state the service can reach,
  leaves a pending run whose steps are the machines of the environment, each exactly once and in the
  order computed from their ranks and dependencies, and a task that names the run.
\<close>

theorem orchestration_plan:
  assumes "uuids U" and "slice_sort srt"
    and "createOrchestrationRun U srt now caller e oper payload (run (env_step U srt) (initial_env_db vms tt) ops) = (d', Inr taskID)"
  defines "d \<equiv> run (env_step U srt) (initial_env_db vms tt) ops"
  shows "\<exists>r \<in> set (edb_runs d'). or_Status r = OrchestrationRunStatusPending \<and> or_TotalVMs r = int (length (members e d)) \<and>
    plan_of (or_ID r) d' = map ev_VMID (computeExecutionOrder srt (members e d) (dependencies e d) oper) \<and>
    mset (plan_of (or_ID r) d') = mset (map ev_VMID (members e d)) \<and>
    (\<exists>t \<in> set (tt_rows (edb_tasks d')). tk_ID t = taskID \<and> t = orchestration_task taskID now e (or_ID r) oper payload caller)"
proof -
  define evs where "evs = computeExecutionOrder srt (members e d) (dependencies e d) oper"
  define rid where "rid = uuid_new U (edb_next d)"
  have inv: "env_inv U d" unfolding d_def by (rule component.inv_reachable [OF environments])
  have perm: "mset evs = mset (members e d)" unfolding evs_def
    by (rule mset_computeExecutionOrder [OF assms(2) members_distinct [OF inv]])
  note res = createOrchestrationRun_result [OF assms(3), folded d_def, unfolded Let_def, folded evs_def rid_def]
  define r where "r = (new_run (uuid_or_nil U e) oper (length evs) payload caller)\<lparr>or_ID := rid\<rparr>"
  obtain ids where ids: "length ids = length evs"
      "edb_steps d' = edb_steps d @ map (\<lambda>(i, s). s\<lparr>os_ID := i\<rparr>) (zip ids (new_steps rid evs))" using res by blast
  have old: "os_RunID s \<noteq> rid" if s: "s \<in> set (edb_steps d)" for s
  proof -
    obtain n where "n < edb_next d" "os_RunID s = uuid_new U n" using inv s unfolding env_inv_def by blast
    then show ?thesis using uuids.new_eq_iff [OF assms(1)] by (simp add: rid_def)
  qed
  let ?new = "map (\<lambda>(i, s). s\<lparr>os_ID := i\<rparr>) (zip ids (new_steps rid evs))"
  have len: "length ids = length (new_steps rid evs)" using ids(1) new_steps_simps(1) [of rid evs] by (metis length_map)
  have "filter (\<lambda>s. os_RunID s = rid) (edb_steps d') = ?new"
    using old new_steps_simps(3) [of _ rid evs] by (auto simp: ids(2) filter_empty_conv filter_id_conv dest: set_zip_rightD)
  moreover have vm: "map os_VMID ?new = map os_VMID (new_steps rid evs)" "map os_ExecutionOrder ?new = map os_ExecutionOrder (new_steps rid evs)"
    using map_with_ids [OF len] by simp_all
  moreover have "sorted (map os_ExecutionOrder ?new)" unfolding vm(2) new_steps_simps(2) by (simp add: sorted_map)
  ultimately have plan: "plan_of rid d' = map ev_VMID evs"
    by (simp only: plan_of_def sort_key_id_if_sorted new_steps_simps(1))
  have "r \<in> set (edb_runs d')" "or_ID r = rid" "or_Status r = OrchestrationRunStatusPending"
    using res by (simp_all add: r_def new_run_def)
  moreover have "or_TotalVMs r = int (length (members e d))" using mset_eq_length [OF perm] by (simp add: r_def new_run_def)
  moreover have "mset (plan_of rid d') = mset (map ev_VMID (members e d))" unfolding plan using perm by simp
  moreover obtain t where "t \<in> set (tt_rows (edb_tasks d'))" "tk_ID t = taskID" "t = orchestration_task taskID now e rid oper payload caller"
    using res by blast
  ultimately show ?thesis using plan unfolding evs_def by (intro bexI [of _ r]) blast+
qed

text \<open>
  No sequence of operations of the service, whatever statements fail, ever records when a run started or ended:
  \<^verbatim>\<open>UpdateRunStatus\<close> computes both times and drops them.
\<close>

theorem run_times_never_recorded:
  "\<forall>r \<in> set (edb_runs (run (env_step U srt) (initial_env_db vms tt) ops)). or_StartedAt r = None \<and> or_CompletedAt r = None"
  using component.inv_reachable [OF environments, of U srt vms tt ops] unfolding env_inv_def by blast

text \<open>
  The status of an environment: unhealthy when a machine is in error, otherwise healthy when all of them run, degraded
  when some do, and unknown when none does.
\<close>

theorem aggregate_status_meaning:
  "aggregate_status vms =
     (let st = map (map_option vm_Status) vms
      in if Some VMStatusError \<in> set st then EnvironmentStatusUnhealthy
         else if set st \<subseteq> {Some VMStatusRunning} then EnvironmentStatusHealthy
         else if Some VMStatusRunning \<in> set st then EnvironmentStatusDegraded
         else EnvironmentStatusUnknown)"
proof -
  let ?n = "\<lambda>s. int (length (filter (\<lambda>v. map_option vm_Status v = Some s) vms))"
  have t: "tally vms = (?n VMStatusRunning, ?n VMStatusStopped, ?n VMStatusError)"
    by (induction vms rule: rev_induct) (auto simp: tally_def split: option.splits VMStatus.splits)
  have pos: "0 < ?n s \<longleftrightarrow> Some s \<in> set (map (map_option vm_Status) vms)" for s
  proof -
    have "0 < ?n s \<longleftrightarrow> (\<exists>v \<in> set vms. map_option vm_Status v = Some s)" by (simp add: filter_empty_conv del: map_option_eq_Some)
    then show ?thesis by (metis (no_types, lifting) image_iff list.set_map)
  qed
  have all: "?n s = int (length vms) \<longleftrightarrow> set (map (map_option vm_Status) vms) \<subseteq> {Some s}" for s
  proof -
    have "?n s = int (length vms) \<longleftrightarrow> filter (\<lambda>v. map_option vm_Status v = Some s) vms = vms"
      by (metis length_filter_less nat_less_le of_nat_eq_iff filter_id_conv)
    also have "\<dots> \<longleftrightarrow> (\<forall>v \<in> set vms. map_option vm_Status v = Some s)" by (simp add: filter_id_conv)
    finally show ?thesis by auto
  qed
  have "Some VMStatusRunning \<notin> set (map (map_option vm_Status) vms)" if "set (map (map_option vm_Status) vms) \<subseteq> {Some VMStatusStopped}"
    using that by blast
  then show ?thesis unfolding aggregate_status_def t prod.case pos all Let_def by presburger
qed

section \<open>An environment of an application and its database\<close>

definition demo_vms :: "VM list" where
  "demo_vms = map (\<lambda>i. \<lparr>vm_ID = i, vm_HypervisorID = ''h'', vm_ProviderVMID = i, vm_Name = i, vm_Status = VMStatusStopped, vm_Deleted = False\<rparr>)
     [''app'', ''db'']"

definition no_tasks :: task_table where
  "no_tasks = \<lparr>tt_rows = [], tt_fault = None\<rparr>"

definition demo_member :: "int \<Rightarrow> AddVMToEnvironmentRequest" where
  "demo_member k = \<lparr>av_StartOrder = k, av_StopOrder = 0, av_Role = '''', av_Notes = ''''\<rparr>"

definition demo_ops :: "env_op list" where
  "demo_ops = [EnvCreate \<lparr>ce_Name = ''prod'', ce_Description = '''', ce_Type = None, ce_OwnerID = '''', ce_Tags = [], ce_Color = '''', ce_Metadata = None\<rparr>,
     EnvAddVM ''0'' ''app'' (demo_member 0), EnvAddVM ''0'' ''db'' (demo_member 1),
     EnvAddDependency ''0'' \<lparr>ad_SourceVMID = ''app'', ad_TargetVMID = ''db'', ad_Type = DependencyTypeRequires, ad_DelaySeconds = 0, ad_Notes = ''''\<rparr>]"

definition demo_env :: env_db where
  "demo_env = run (env_step plain_uuids stable_positions) (initial_env_db demo_vms no_tasks) demo_ops"

definition demo_start :: "env_db \<times> (go_error + string)" where
  "demo_start = createOrchestrationRun plain_uuids stable_positions 7 None ''0'' OrchestrationOpStart None demo_env"

lemma orchestration_plan_witness:
  "\<exists>r \<in> set (edb_runs (fst demo_start)). plan_of (or_ID r) (fst demo_start) = [''db'', ''app''] \<and> or_TotalVMs r = 2"
proof -
  have ok: "snd demo_start = Inr ''7''" by code_simp
  have order: "map ev_VMID (computeExecutionOrder stable_positions (members ''0'' demo_env) (dependencies ''0'' demo_env) OrchestrationOpStart)
      = [''db'', ''app'']" by code_simp
  have two: "length (members ''0'' demo_env) = 2" by code_simp
  have "createOrchestrationRun plain_uuids stable_positions 7 None ''0'' OrchestrationOpStart None demo_env = (fst demo_start, Inr ''7'')"
    using ok by (simp add: demo_start_def prod_eq_iff)
  from orchestration_plan [OF plain.uuids_axioms stable.slice_sort_axioms this [unfolded demo_env_def], folded demo_env_def] order two
  show ?thesis by auto
qed

lemma run_times_never_recorded_witness:
  "map (\<lambda>r. (or_Status r, or_StartedAt r)) (edb_runs (run (env_step plain_uuids stable_positions) (initial_env_db demo_vms no_tasks)
     (demo_ops @ [EnvOrchestrate 7 None ''0'' StartEnvironment, EnvUpdateRunStatus ''4'' OrchestrationRunStatusRunning '''',
       EnvUpdateRunStatus ''4'' OrchestrationRunStatusCompleted ''''])))
   = [(OrchestrationRunStatusCompleted, None)]"
proof -
  let ?d = "run (env_step plain_uuids stable_positions) (initial_env_db demo_vms no_tasks)
     (demo_ops @ [EnvOrchestrate 7 None ''0'' StartEnvironment, EnvUpdateRunStatus ''4'' OrchestrationRunStatusRunning '''',
       EnvUpdateRunStatus ''4'' OrchestrationRunStatusCompleted ''''])"
  have "map or_Status (edb_runs ?d) = [OrchestrationRunStatusCompleted]" by code_simp
  then obtain r where r: "edb_runs ?d = [r]" "or_Status r = OrchestrationRunStatusCompleted" by auto
  then have "or_StartedAt r = None" using run_times_never_recorded [where U = plain_uuids and srt = stable_positions and vms = demo_vms
      and tt = no_tasks and ops = "demo_ops @ [EnvOrchestrate 7 None ''0'' StartEnvironment, EnvUpdateRunStatus ''4'' OrchestrationRunStatusRunning '''',
       EnvUpdateRunStatus ''4'' OrchestrationRunStatusCompleted '''']"] by simp
  with r show ?thesis by simp
qed

end
