(* ===== verification/Secrets.thy ===== *)
theory Secrets
  imports ProviderCore
begin

text \<open>
  The encryption of provider credentials (\<^verbatim>\<open>internal/crypto/secrets.go\<close>) and the checks made before the
  program serves requests (\<^verbatim>\<open>internal/startup/validate.go\<close>).

  Hexadecimal and base64 coding are modelled in full. The cipher of the standard library and the
  source of random bytes are parameters, \<open>aead\<close> and the nonce; of the cipher it is only used that opening what
  was sealed under the same key and nonce gives the plain text back. A panic is the value \<open>None\<close>.
\<close>

section \<open>Hexadecimal numbers\<close>

definition hex_val :: "char \<Rightarrow> nat option" where
  "hex_val c = (let n = of_char c in
     if 48 \<le> n \<and> n \<le> 57 then Some (n - 48)
     else if 97 \<le> n \<and> n \<le> 102 then Some (n - 87)
     else if 65 \<le> n \<and> n \<le> 70 then Some (n - 55)
     else None)"

text \<open>The bytes decoded before the first error, and whether there was none.\<close>

fun hex_DecodeString :: "string \<Rightarrow> string \<times> bool" where
  "hex_DecodeString [] = ([], True)"
| "hex_DecodeString [c] = ([], False)"
| "hex_DecodeString (c # d # s) =
     (case (hex_val c, hex_val d) of
        (Some h, Some l) \<Rightarrow> (case hex_DecodeString s of (bs, ok) \<Rightarrow> (char_of (16 * h + l) # bs, ok))
      | _ \<Rightarrow> ([], False))"

lemma hex_length: "hex_DecodeString s = (bs, True) \<Longrightarrow> length s = 2 * length bs"
  by (induction s arbitrary: bs rule: hex_DecodeString.induct) (auto split: option.splits prod.splits)

lemma hex_ok_iff: "snd (hex_DecodeString s) \<longleftrightarrow> even (length s) \<and> (\<forall>c \<in> set s. hex_val c \<noteq> None)"
  by (induction s rule: hex_DecodeString.induct) (auto split: option.splits prod.splits)

section \<open>Base64\<close>

definition base64_alphabet :: string where
  "base64_alphabet = ''ABCDEFGHIJKLMNOPQRSTUVWXYZabcdefghijklmnopqrstuvwxyz0123456789+/''"

definition b64_char :: "nat \<Rightarrow> char" where
  "b64_char n = base64_alphabet ! n"

definition b64_val :: "char \<Rightarrow> nat option" where
  "b64_val c = Index base64_alphabet c"

fun base64_encode :: "string \<Rightarrow> string" where
  "base64_encode [] = []"
| "base64_encode [a] =
     (let n = of_char a * 16 in [b64_char (n div 64), b64_char (n mod 64), CHR ''='', CHR ''=''])"
| "base64_encode [a, b] =
     (let n = (of_char a * 256 + of_char b) * 4
      in [b64_char (n div 4096), b64_char (n div 64 mod 64), b64_char (n mod 64), CHR ''=''])"
| "base64_encode (a # b # c # s) =
     (let n = (of_char a * 256 + of_char b) * 256 + of_char c
      in b64_char (n div 262144) # b64_char (n div 4096 mod 64) # b64_char (n div 64 mod 64) # b64_char (n mod 64) # base64_encode s)"

text \<open>Decoding a text without line breaks; the bits beyond the last whole byte are not looked at.\<close>

fun base64_quanta :: "string \<Rightarrow> string option" where
  "base64_quanta [] = Some []"
| "base64_quanta (a # b # c # d # s) =
     (case (b64_val a, b64_val b) of
        (Some x, Some y) \<Rightarrow>
          (if c = CHR ''='' then
             (if d = CHR ''='' \<and> s = [] then Some [char_of ((x * 64 + y) div 16)] else None)
           else (case b64_val c of
               None \<Rightarrow> None
             | Some z \<Rightarrow>
                 (let n = (x * 64 + y) * 64 + z in
                  if d = CHR ''='' then (if s = [] then Some [char_of (n div 1024), char_of (n div 4 mod 256)] else None)
                  else (case (b64_val d, base64_quanta s) of
                      (Some u, Some bs) \<Rightarrow>
                        (let m = n * 64 + u in Some (char_of (m div 65536) # char_of (m div 256 mod 256) # char_of (m mod 256) # bs))
                    | _ \<Rightarrow> None))))
      | _ \<Rightarrow> None)"
| "base64_quanta _ = None"

definition base64_decode :: "string \<Rightarrow> string option" where
  "base64_decode s = base64_quanta (filter (\<lambda>c. c \<noteq> CHR 0x0A \<and> c \<noteq> CHR 0x0D) s)"

lemma b64_val_char: "n < 64 \<Longrightarrow> b64_val (b64_char n) = Some n"
proof -
  have "list_all (\<lambda>n. b64_val (b64_char n) = Some n) [0..<64]" by code_simp
  then show "n < 64 \<Longrightarrow> ?thesis" by (simp add: list_all_iff)
qed

lemma b64_char_plain: "n < 64 \<Longrightarrow> b64_char n \<noteq> CHR ''='' \<and> b64_char n \<noteq> CHR 0x0A \<and> b64_char n \<noteq> CHR 0x0D"
proof -
  have "list_all (\<lambda>n. b64_char n \<noteq> CHR ''='' \<and> b64_char n \<noteq> CHR 0x0A \<and> b64_char n \<noteq> CHR 0x0D) [0..<64]" by code_simp
  then show "n < 64 \<Longrightarrow> ?thesis" by (simp add: list_all_iff)
qed

lemma of_char_less: "(of_char c :: nat) < 256"
  by (cases c) (simp add: of_char_def)

lemma of_char_le: "(of_char c :: nat) \<le> 255"
  using of_char_less [of c] by linarith

lemma of_char_div [simp]: "(of_char c :: nat) div 256 = 0"
  using of_char_less by (rule div_less)

lemma byte_split: "(m * 256 + of_char c) div 256 = (m :: nat)" "(m * 256 + of_char c) mod 256 = (of_char c :: nat)"
  by (simp only: div_mult_self3 zero_neq_numeral [symmetric] not_False_eq_True of_char_div add_0_right) simp

text \<open>The groups of six bits of one, two and three bytes.\<close>

lemma encode_1:
  obtains x y where "x < 64" "y < 64" "x * 64 + y = of_char a * 16" "base64_encode [a] = [b64_char x, b64_char y, CHR ''='', CHR ''='']"
proof (rule that)
  let ?n = "of_char a * 16 :: nat"
  show "base64_encode [a] = [b64_char (?n div 64), b64_char (?n mod 64), CHR ''='', CHR ''='']" by (simp only: base64_encode.simps Let_def)
  show "?n div 64 < 64" using of_char_less [of a] by (intro less_mult_imp_div_less) linarith
  show "?n div 64 * 64 + ?n mod 64 = ?n" by (rule div_mult_mod_eq)
qed simp

lemma encode_2:
  obtains x y z where "x < 64" "y < 64" "z < 64" "(x * 64 + y) * 64 + z = (of_char a * 256 + of_char b) * 4"
    "base64_encode [a, b] = [b64_char x, b64_char y, b64_char z, CHR ''='']"
proof (rule that)
  let ?n = "(of_char a * 256 + of_char b) * 4 :: nat"
  show "base64_encode [a, b] = [b64_char (?n div 4096), b64_char (?n div 64 mod 64), b64_char (?n mod 64), CHR ''='']"
    by (simp only: base64_encode.simps Let_def)
  have "of_char a \<le> (255 :: nat)" "of_char b \<le> (255 :: nat)" by (rule of_char_le)+
  then show "?n div 4096 < 64" by (intro less_mult_imp_div_less) (simp add: distrib_right)
  have "?n div 4096 * 64 + ?n div 64 mod 64 = ?n div 64" using div_mult_mod_eq [of "?n div 64" 64] by (simp only: div_mult2_eq [symmetric]) simp
  then show "(?n div 4096 * 64 + ?n div 64 mod 64) * 64 + ?n mod 64 = ?n" by (simp only: div_mult_mod_eq)
qed simp_all

lemma encode_3:
  obtains x y z u where "x < 64" "y < 64" "z < 64" "u < 64"
    "((x * 64 + y) * 64 + z) * 64 + u = (of_char a * 256 + of_char b) * 256 + of_char c"
    "base64_encode (a # b # c # s) = b64_char x # b64_char y # b64_char z # b64_char u # base64_encode s"
proof (rule that)
  let ?n = "(of_char a * 256 + of_char b) * 256 + of_char c :: nat"
  show "base64_encode (a # b # c # s) =
      b64_char (?n div 262144) # b64_char (?n div 4096 mod 64) # b64_char (?n div 64 mod 64) # b64_char (?n mod 64) # base64_encode s"
    by (simp only: base64_encode.simps Let_def)
  have "of_char a \<le> (255 :: nat)" "of_char b \<le> (255 :: nat)" "of_char c \<le> (255 :: nat)" by (rule of_char_le)+
  then show "?n div 262144 < 64" by (intro less_mult_imp_div_less) (simp add: distrib_right)
  have "?n div 262144 * 64 + ?n div 4096 mod 64 = ?n div 4096" "?n div 4096 * 64 + ?n div 64 mod 64 = ?n div 64"
    using div_mult_mod_eq [of "?n div 4096" 64] div_mult_mod_eq [of "?n div 64" 64] by (simp_all only: div_mult2_eq [symmetric]) simp_all
  then show "((?n div 262144 * 64 + ?n div 4096 mod 64) * 64 + ?n div 64 mod 64) * 64 + ?n mod 64 = ?n" by (simp only: div_mult_mod_eq)
qed simp_all

lemma base64_encode_plain: "c \<in> set (base64_encode s) \<Longrightarrow> c \<noteq> CHR 0x0A \<and> c \<noteq> CHR 0x0D"
proof (induction s rule: base64_encode.induct)
  case (2 a)
  obtain x y where "x < 64" "y < 64" "base64_encode [a] = [b64_char x, b64_char y, CHR ''='', CHR ''='']" by (rule encode_1)
  with 2 b64_char_plain [of x] b64_char_plain [of y] show ?case by auto
next
  case (3 a b)
  obtain x y z where "x < 64" "y < 64" "z < 64" "base64_encode [a, b] = [b64_char x, b64_char y, b64_char z, CHR ''='']" by (rule encode_2)
  with 3 b64_char_plain [of x] b64_char_plain [of y] b64_char_plain [of z] show ?case by auto
next
  case (4 a b c' s)
  obtain x y z u where "x < 64" "y < 64" "z < 64" "u < 64"
    "base64_encode (a # b # c' # s) = b64_char x # b64_char y # b64_char z # b64_char u # base64_encode s" by (rule encode_3)
  with 4 b64_char_plain [of x] b64_char_plain [of y] b64_char_plain [of z] b64_char_plain [of u] show ?case by auto
qed auto

lemma char_of_low [simp]: "char_of (256 * x + of_char b :: nat) = b"
proof -
  have "of_char (char_of (256 * x + of_char b :: nat)) = (of_char b :: nat)"
    by (simp only: of_char_of mod_mult_self4 of_char_mod_256)
  then show ?thesis by (simp only: of_char_eq_iff)
qed

lemma base64_quanta_encode: "base64_quanta (base64_encode s) = Some s"
proof (induction s rule: base64_encode.induct)
  case (2 a)
  obtain x y where *: "x < 64" "y < 64" "x * 64 + y = of_char a * 16" "base64_encode [a] = [b64_char x, b64_char y, CHR ''='', CHR ''='']"
    by (rule encode_1)
  then show ?case by (simp add: b64_val_char)
next
  case (3 a b)
  obtain x y z where *: "x < 64" "y < 64" "z < 64" "(x * 64 + y) * 64 + z = (of_char a * 256 + of_char b) * 4"
    "base64_encode [a, b] = [b64_char x, b64_char y, b64_char z, CHR ''='']" by (rule encode_2)
  moreover have "(of_char a * 256 + of_char b) * 4 div 1024 = (of_char a :: nat)"
    using of_char_less [of b] by (simp add: div_mult2_eq [of _ 4 256, simplified])
  moreover have "(of_char a * 256 + of_char b) * 4 div 4 mod 256 = (of_char b :: nat)"
    using of_char_less [of b] by simp
  ultimately show ?case using b64_char_plain [of z] by (simp add: b64_val_char Let_def)
next
  case (4 a b c s)
  obtain x y z u where *: "x < 64" "y < 64" "z < 64" "u < 64"
    "((x * 64 + y) * 64 + z) * 64 + u = (of_char a * 256 + of_char b) * 256 + of_char c"
    "base64_encode (a # b # c # s) = b64_char x # b64_char y # b64_char z # b64_char u # base64_encode s" by (rule encode_3)
  let ?n = "(of_char a * 256 + of_char b) * 256 + of_char c :: nat"
  have n: "?n div 256 = of_char a * 256 + of_char b" "?n mod 256 = of_char c" by (rule byte_split)+
  have "?n div 65536 = ?n div 256 div 256" by (simp only: div_mult2_eq [symmetric]) simp
  then have "?n div 65536 = of_char a" "?n div 256 mod 256 = of_char b" unfolding n byte_split by simp_all
  with * n 4 show ?case using b64_char_plain [of z] b64_char_plain [of u]
    by (simp only: base64_quanta.simps b64_val_char option.case prod.case Let_def if_False) simp
qed simp

lemma base64_roundtrip: "base64_decode (base64_encode s) = Some s"
proof -
  have "filter (\<lambda>c. c \<noteq> CHR 0x0A \<and> c \<noteq> CHR 0x0D) (base64_encode s) = base64_encode s"
    using base64_encode_plain by (intro filter_True) auto
  then show ?thesis by (simp add: base64_decode_def base64_quanta_encode)
qed


section \<open>The key\<close>

definition loadKey :: "string \<Rightarrow> string option" where
  "loadKey raw =
     (if raw \<noteq> '''' then
        (case hex_DecodeString raw of (decoded, ok) \<Rightarrow>
           if \<not> ok \<or> length decoded \<noteq> 32 then None else Some decoded)
      else Some ''vmOrbit-secret-key-32bytes-pad!!'')"

definition IsDevelopmentKey :: "string \<Rightarrow> bool" where
  "IsDevelopmentKey raw \<longleftrightarrow> raw = ''''"

lemma loadKey_length: "loadKey raw = Some key \<Longrightarrow> length key = 32"
  by (auto simp: loadKey_def split: if_splits prod.splits)

lemma loadKey_Some_iff: "loadKey raw \<noteq> None \<longleftrightarrow> raw = '''' \<or> length raw = 64 \<and> (\<forall>c \<in> set raw. hex_val c \<noteq> None)"
proof (cases "hex_DecodeString raw")
  case (Pair bs ok)
  then show ?thesis using hex_ok_iff [of raw] hex_length [of raw bs] by (cases ok) (auto simp: loadKey_def)
qed

section \<open>Encryption\<close>

record aead =
  ae_Seal :: "string \<Rightarrow> string \<Rightarrow> string \<Rightarrow> string"
  ae_Open :: "string \<Rightarrow> string \<Rightarrow> string \<Rightarrow> string option"

text \<open>\<^verbatim>\<open>aes.NewCipher\<close> takes keys of three lengths.\<close>

definition NewCipher :: "string \<Rightarrow> go_error option" where
  "NewCipher key = (if length key \<in> {16, 24, 32} then None
     else Some (Errorf (''crypto/aes: invalid key size '' @ Itoa (int (length key)))))"

definition nonceSize :: nat where
  "nonceSize = 12"

definition EncryptSecret :: "aead \<Rightarrow> string \<Rightarrow> go_error + string \<Rightarrow> string \<Rightarrow> (go_error + string) option" where
  "EncryptSecret A raw random plain =
     (if plain = '''' then Some (Inr '''')
      else case loadKey raw of
          None \<Rightarrow> None
        | Some key \<Rightarrow> Some
            (case NewCipher key of
               Some e \<Rightarrow> Inl (Wrapf ''creating cipher'' e)
             | None \<Rightarrow>
                 (case random of
                    Inl e \<Rightarrow> Inl (Wrapf ''generating nonce'' e)
                  | Inr nonce \<Rightarrow> Inr (base64_encode (nonce @ ae_Seal A key nonce plain)))))"

definition DecryptSecret :: "aead \<Rightarrow> string \<Rightarrow> string \<Rightarrow> (go_error + string) option" where
  "DecryptSecret A raw encoded =
     (if encoded = '''' then Some (Inr '''')
      else case base64_decode encoded of
          None \<Rightarrow> Some (Inl (Wrapf ''base64 decode'' (Errorf ''illegal base64 data'')))
        | Some bytes \<Rightarrow>
            (case loadKey raw of
               None \<Rightarrow> None
             | Some key \<Rightarrow> Some
                 (case NewCipher key of
                    Some e \<Rightarrow> Inl (Wrapf ''creating cipher'' e)
                  | None \<Rightarrow>
                      if length bytes < nonceSize then Inl (Errorf ''ciphertext too short'')
                      else (case ae_Open A key (take nonceSize bytes) (drop nonceSize bytes) of
                          None \<Rightarrow> Inl (Wrapf ''decrypting'' (Errorf ''cipher: message authentication failed''))
                        | Some plain \<Rightarrow> Inr plain))))"

definition ReEncryptSecret ::
  "aead \<Rightarrow> string \<Rightarrow> go_error + string \<Rightarrow> (string \<Rightarrow> go_error + string) \<Rightarrow> string \<Rightarrow> (go_error + string) option" where
  "ReEncryptSecret A raw random decryptWithOldKey encoded =
     (case decryptWithOldKey encoded of
        Inl e \<Rightarrow> Some (Inl (Wrapf ''decrypt with old key'' e))
      | Inr plain \<Rightarrow> EncryptSecret A raw random plain)"

text \<open>Opening undoes sealing.\<close>

definition opens_sealed :: "aead \<Rightarrow> bool" where
  "opens_sealed A \<longleftrightarrow> (\<forall>key nonce plain. ae_Open A key nonce (ae_Seal A key nonce plain) = Some plain)"

lemma DecryptSecret_EncryptSecret:
  assumes "opens_sealed A" "length nonce = nonceSize" "EncryptSecret A raw (Inr nonce) plain = Some (Inr enc)"
  shows "DecryptSecret A raw enc = Some (Inr plain)"
proof (cases "plain = ''''")
  case False
  with assms(3) obtain key where key: "loadKey raw = Some key" and enc: "enc = base64_encode (nonce @ ae_Seal A key nonce plain)"
    by (auto simp: EncryptSecret_def split: option.splits)
  have "NewCipher key = None" using loadKey_length [OF key] by (simp add: NewCipher_def)
  moreover have "enc \<noteq> ''''" using base64_roundtrip [of "nonce @ ae_Seal A key nonce plain"] assms(2)
    by (auto simp: enc base64_decode_def nonceSize_def)
  ultimately show ?thesis using assms(1,2)
    by (simp add: DecryptSecret_def enc base64_roundtrip key opens_sealed_def)
qed (use assms(3) in \<open>simp add: EncryptSecret_def DecryptSecret_def\<close>)


text \<open>A cipher for examples, with the nonce as its check sum.\<close>

definition demo_cipher :: aead where
  "demo_cipher = \<lparr>ae_Seal = (\<lambda>key nonce plain. rev plain @ nonce),
     ae_Open = (\<lambda>key nonce ct. let n = length ct - length nonce in
        if drop n ct = nonce then Some (rev (take n ct)) else None)\<rparr>"

lemma opens_demo: "opens_sealed demo_cipher"
  by (simp add: opens_sealed_def demo_cipher_def Let_def)


section \<open>Checks before the start\<close>

record ValidationResult =
  vr_Name :: string
  vr_Passed :: bool
  vr_Message :: string

type_synonym environment = "string \<Rightarrow> string"

definition required_vars :: "string \<Rightarrow> string list" where
  "required_vars mode = [''VMORBIT_DATABASE_HOST'', ''VMORBIT_REDIS_HOST''] @
     (if mode = ''release'' then [''VMORBIT_JWT_SECRET'', ''VMORBIT_ENCRYPTION_KEY''] else [])"

definition validateEnvironment :: "environment \<Rightarrow> ValidationResult" where
  "validateEnvironment env =
     (let mode = env ''VMORBIT_SERVER_MODE'';
          missing = filter (\<lambda>v. env v = '''') (required_vars mode)
      in if missing \<noteq> [] then
           (if mode = ''release'' then \<lparr>vr_Name = ''Environment variables'', vr_Passed = False,
                vr_Message = ''Missing required vars: '' @ Join missing '', ''\<rparr>
            else \<lparr>vr_Name = ''Environment variables'', vr_Passed = True,
                vr_Message = ''Missing vars (dev mode, using defaults): '' @ Join missing '', ''\<rparr>)
         else \<lparr>vr_Name = ''Environment variables'', vr_Passed = True, vr_Message = ''All required variables set''\<rparr>)"

text \<open>The outcomes of the test query and of the search for the table of users.\<close>

definition validateDatabase :: "go_error option \<Rightarrow> go_error + int \<Rightarrow> ValidationResult" where
  "validateDatabase ping tables =
     (case ping of
        Some e \<Rightarrow> \<lparr>vr_Name = ''Database connectivity'', vr_Passed = False, vr_Message = Error_text e\<rparr>
      | None \<Rightarrow>
          (case tables of
             Inl e \<Rightarrow> \<lparr>vr_Name = ''Database migrations'', vr_Passed = False, vr_Message = ''Cannot check migration status: '' @ Error_text e\<rparr>
           | Inr n \<Rightarrow>
               if n = 0 then \<lparr>vr_Name = ''Database migrations'', vr_Passed = False,
                   vr_Message = ''Users table not found '' @ em_dash @ '' migrations may not have run''\<rparr>
               else \<lparr>vr_Name = ''Database connectivity'', vr_Passed = True, vr_Message = ''Connected and migrations verified''\<rparr>))"

definition validateRedis :: "go_error option \<Rightarrow> go_error + string \<Rightarrow> ValidationResult" where
  "validateRedis ping info =
     (case ping of
        Some e \<Rightarrow> \<lparr>vr_Name = ''Redis connectivity'', vr_Passed = False, vr_Message = Error_text e\<rparr>
      | None \<Rightarrow> \<lparr>vr_Name = ''Redis connectivity'', vr_Passed = True,
          vr_Message = (case info of
              Inr i \<Rightarrow> if Contains i ''used_memory_human'' then ''Connected'' else ''Connected (memory info unavailable)''
            | Inl _ \<Rightarrow> ''Connected (memory info unavailable)'')\<rparr>)"

definition validateEncryptionKey :: "environment \<Rightarrow> ValidationResult" where
  "validateEncryptionKey env =
     (let key = env ''VMORBIT_ENCRYPTION_KEY''; mode = env ''VMORBIT_SERVER_MODE'' in
      if key = '''' \<and> mode = ''release'' then \<lparr>vr_Name = ''Encryption key'', vr_Passed = False,
          vr_Message = ''VMORBIT_ENCRYPTION_KEY not set '' @ em_dash @ '' provider credentials cannot be encrypted''\<rparr>
      else if key \<noteq> '''' \<and> length key \<noteq> 64 then \<lparr>vr_Name = ''Encryption key'', vr_Passed = False,
          vr_Message = ''VMORBIT_ENCRYPTION_KEY should be 64 hex chars (got '' @ Itoa (int (length key)) @ '')''\<rparr>
      else if key = '''' then \<lparr>vr_Name = ''Encryption key'', vr_Passed = True, vr_Message = ''Using development key (non-production)''\<rparr>
      else \<lparr>vr_Name = ''Encryption key'', vr_Passed = True, vr_Message = ''Configured (AES-256)''\<rparr>)"

definition validateJWTSecret :: "environment \<Rightarrow> ValidationResult" where
  "validateJWTSecret env =
     (let secret = env ''VMORBIT_JWT_SECRET''; mode = env ''VMORBIT_SERVER_MODE'' in
      if secret = '''' \<and> mode = ''release'' then \<lparr>vr_Name = ''JWT secret'', vr_Passed = False,
          vr_Message = ''VMORBIT_JWT_SECRET not set in production mode''\<rparr>
      else if secret \<noteq> '''' \<and> length secret < 32 then \<lparr>vr_Name = ''JWT secret'', vr_Passed = False,
          vr_Message = ''JWT secret too short ('' @ Itoa (int (length secret)) @ '' chars) '' @ em_dash @ '' use at least 64 chars''\<rparr>
      else if secret = '''' then \<lparr>vr_Name = ''JWT secret'', vr_Passed = True, vr_Message = ''Using default (non-production)''\<rparr>
      else \<lparr>vr_Name = ''JWT secret'', vr_Passed = True, vr_Message = ''Configured''\<rparr>)"

definition ValidateAll ::
  "environment \<Rightarrow> go_error option \<Rightarrow> go_error + int \<Rightarrow> go_error option \<Rightarrow> go_error + string \<Rightarrow> go_error option" where
  "ValidateAll env ping tables redis info =
     (let results = [validateEnvironment env, validateDatabase ping tables, validateRedis redis info, validateEncryptionKey env,
            validateJWTSecret env];
          failures = map (\<lambda>r. vr_Name r @ '': '' @ vr_Message r) (filter (\<lambda>r. \<not> vr_Passed r) results)
      in if failures \<noteq> [] then Some (Errorf (''startup validation failed: '' @ Join failures ''; '')) else None)"

text \<open>The program starts exactly when the database answers and holds the table of users, Redis answers, a given key has 64
  characters and a given token secret at least 32, and in production mode the hosts, the key and the secret are given. A
  key of 64 characters that are not all hexadecimal digits passes, and the first use of it panics.\<close>

theorem startup_accepts:
  "(ValidateAll env ping tables redis info = None \<longleftrightarrow>
     ping = None \<and> (\<exists>n. tables = Inr n \<and> n \<noteq> 0) \<and> redis = None \<and>
     length (env ''VMORBIT_ENCRYPTION_KEY'') \<in> {0, 64} \<and>
     (env ''VMORBIT_JWT_SECRET'' = '''' \<or> 32 \<le> length (env ''VMORBIT_JWT_SECRET'')) \<and>
     (env ''VMORBIT_SERVER_MODE'' = ''release'' \<longrightarrow> list_all (\<lambda>v. env v \<noteq> '''')
        [''VMORBIT_DATABASE_HOST'', ''VMORBIT_REDIS_HOST'', ''VMORBIT_JWT_SECRET'', ''VMORBIT_ENCRYPTION_KEY''])) \<and>
   (let raw = replicate 64 (CHR ''z'') in
     vr_Passed (validateEncryptionKey (env(''VMORBIT_ENCRYPTION_KEY'' := raw))) \<and> EncryptSecret A raw random ''s3cret'' = None)"
proof -
  have e: "vr_Passed (validateEnvironment env) \<longleftrightarrow> (env ''VMORBIT_SERVER_MODE'' = ''release'' \<longrightarrow> list_all (\<lambda>v. env v \<noteq> '''')
        [''VMORBIT_DATABASE_HOST'', ''VMORBIT_REDIS_HOST'', ''VMORBIT_JWT_SECRET'', ''VMORBIT_ENCRYPTION_KEY''])"
    by (simp add: validateEnvironment_def Let_def required_vars_def)
  have d: "vr_Passed (validateDatabase ping tables) \<longleftrightarrow> ping = None \<and> (\<exists>n. tables = Inr n \<and> n \<noteq> 0)"
    by (simp add: validateDatabase_def split: option.split sum.split)
  have r: "vr_Passed (validateRedis redis info) \<longleftrightarrow> redis = None" by (simp add: validateRedis_def split: option.split)
  have k: "vr_Passed (validateEncryptionKey env) \<longleftrightarrow> length (env ''VMORBIT_ENCRYPTION_KEY'') \<in> {0, 64} \<and>
      (env ''VMORBIT_SERVER_MODE'' = ''release'' \<longrightarrow> env ''VMORBIT_ENCRYPTION_KEY'' \<noteq> '''')" for env
    by (auto simp: validateEncryptionKey_def Let_def)
  have j: "vr_Passed (validateJWTSecret env) \<longleftrightarrow> (env ''VMORBIT_JWT_SECRET'' = '''' \<or> 32 \<le> length (env ''VMORBIT_JWT_SECRET'')) \<and>
      (env ''VMORBIT_SERVER_MODE'' = ''release'' \<longrightarrow> env ''VMORBIT_JWT_SECRET'' \<noteq> '''')"
    by (auto simp: validateJWTSecret_def Let_def)
  have all: "ValidateAll env ping tables redis info = None \<longleftrightarrow> vr_Passed (validateEnvironment env) \<and>
      vr_Passed (validateDatabase ping tables) \<and> vr_Passed (validateRedis redis info) \<and> vr_Passed (validateEncryptionKey env) \<and>
      vr_Passed (validateJWTSecret env)"
    unfolding ValidateAll_def Let_def by (auto simp del: filter.simps simp: filter_empty_conv)
  note passed = all e d r k j
  have bad: "loadKey (replicate 64 (CHR ''z'')) = None" by code_simp
  have "vr_Passed (validateEncryptionKey (env(''VMORBIT_ENCRYPTION_KEY'' := replicate 64 (CHR ''z''))))" by (simp add: k)
  with bad show ?thesis unfolding passed Let_def EncryptSecret_def by auto
qed

lemma startup_accepts_witness:
  "ValidateAll (\<lambda>v. if v = ''VMORBIT_SERVER_MODE'' then ''debug'' else '''') None (Inr 1) None (Inr '''') = None"
  by (subst startup_accepts [THEN conjunct1]) simp

end
