(* ===== verification/Upsert.thy ===== *)
theory Upsert
  imports Prelude
begin

text \<open>
  Inserting many rows into a table of the database at once, updating those whose key is taken already:
  GORM's \<^verbatim>\<open>CreateInBatches\<close> with a clause \<^verbatim>\<open>OnConflict\<close>, one \<^verbatim>\<open>INSERT ... ON CONFLICT DO UPDATE\<close> per batch in a single transaction.
  PostgreSQL refuses a statement that would update a row twice, so a batch with two rows of one key fails,
  and with it the transaction.

  The locale \<open>upsert_table\<close> is the contract of a table: an update of the conflicting row keeps its key.
\<close>

definition upsert_row :: "('a \<Rightarrow> 'k) \<Rightarrow> ('a \<Rightarrow> 'a \<Rightarrow> 'a) \<Rightarrow> 'a list \<Rightarrow> 'a \<Rightarrow> 'a list" where
  "upsert_row key merge rows r =
     (if key r \<in> key ` set rows then map (\<lambda>x. if key x = key r then merge x r else x) rows else rows @ [r])"

function batches :: "nat \<Rightarrow> 'a list \<Rightarrow> 'a list list" where
  "batches n xs = (if xs = [] \<or> n = 0 then [] else take n xs # batches n (drop n xs))"
  by pat_completeness auto
termination by (relation "measure (\<lambda>(n, xs). length xs)") auto

declare batches.simps [simp del]

definition bulk_upsert :: "('a \<Rightarrow> 'k) \<Rightarrow> ('a \<Rightarrow> 'a \<Rightarrow> 'a) \<Rightarrow> 'a list \<Rightarrow> 'a list \<Rightarrow> 'a list option" where
  "bulk_upsert key merge rows news =
     (if \<forall>b \<in> set (batches 100 news). distinct (map key b) then Some (foldl (upsert_row key merge) rows news) else None)"

text \<open>Batches of rows without duplicates have none either.\<close>

lemma concat_batches: "0 < n \<Longrightarrow> concat (batches n xs) = xs"
  by (induction n xs rule: batches.induct) (subst batches.simps, auto)

lemma distinct_batches:
  assumes "distinct (map key xs)" "b \<in> set (batches n xs)"
  shows "distinct (map key b)"
  using assms
proof (induction n xs rule: batches.induct)
  case (1 n xs)
  from "1.prems"(2) have ne: "\<not> (xs = [] \<or> n = 0)" by (subst (asm) batches.simps) (auto split: if_splits)
  with "1.prems"(2) consider "b = take n xs" | "b \<in> set (batches n (drop n xs))" by (auto simp: batches.simps [of n xs])
  then show ?case
    by cases (use "1.prems"(1) "1.IH" ne in \<open>auto simp: distinct_map dest: in_set_takeD in_set_dropD intro: inj_on_subset\<close>)
qed

lemma foldl_upsert_all:
  assumes "\<And>x r. Q x \<Longrightarrow> Q r \<Longrightarrow> Q (merge x r)"
  shows "\<forall>x \<in> set rows. Q x \<Longrightarrow> \<forall>r \<in> set news. Q r \<Longrightarrow> \<forall>x \<in> set (foldl (upsert_row key merge) rows news). Q x"
proof (induction news arbitrary: rows)
  case (Cons r news)
  have "\<forall>x \<in> set (upsert_row key merge rows r). Q x" using Cons.prems assms by (auto simp: upsert_row_def)
  with Cons show ?case by simp
qed simp

lemma filter_foldl_upsert:
  assumes "\<And>r x. r \<in> set news \<Longrightarrow> key x = key r \<Longrightarrow> \<not> P x \<and> \<not> P (merge x r)" "\<And>r. r \<in> set news \<Longrightarrow> \<not> P r"
  shows "filter P (foldl (upsert_row key merge) rows news) = filter P rows"
  using assms
proof (induction news arbitrary: rows)
  case (Cons r news)
  have "filter P (map (\<lambda>x. if key x = key r then merge x r else x) rows) = filter P rows"
    using Cons.prems(1) [of r] by (induction rows) auto
  then have "filter P (upsert_row key merge rows r) = filter P rows" using Cons.prems(2) [of r] by (simp add: upsert_row_def)
  moreover have "filter P (foldl (upsert_row key merge) (upsert_row key merge rows r) news) = filter P (upsert_row key merge rows r)"
    by (rule Cons.IH) (use Cons.prems in auto)
  ultimately show ?case by simp
qed simp

locale upsert_table =
  fixes key :: "'a \<Rightarrow> 'k" and merge :: "'a \<Rightarrow> 'a \<Rightarrow> 'a"
  assumes key_merge: "key x = key r \<Longrightarrow> key (merge x r) = key x"
begin

lemma map_key_upsert: "key r \<in> key ` set rows \<Longrightarrow> map key (upsert_row key merge rows r) = map key rows"
  using key_merge by (auto simp: upsert_row_def)

lemma keys_upsert_row: "key ` set (upsert_row key merge rows r) = insert (key r) (key ` set rows)"
proof (cases "key r \<in> key ` set rows")
  case True
  then have "set (map key (upsert_row key merge rows r)) = set (map key rows)" by (simp only: map_key_upsert)
  with True show ?thesis by auto
qed (simp add: upsert_row_def)

lemma distinct_upsert_row: "distinct (map key rows) \<Longrightarrow> distinct (map key (upsert_row key merge rows r))"
proof (cases "key r \<in> key ` set rows")
  case True
  assume "distinct (map key rows)"
  then show ?thesis by (simp only: map_key_upsert [OF True])
qed (simp add: upsert_row_def)

lemma keys_foldl: "key ` set (foldl (upsert_row key merge) rows news) = key ` set rows \<union> key ` set news"
  by (induction news arbitrary: rows) (auto simp: keys_upsert_row)

lemma distinct_foldl: "distinct (map key rows) \<Longrightarrow> distinct (map key (foldl (upsert_row key merge) rows news))"
  by (induction news arbitrary: rows) (auto simp: distinct_upsert_row)

lemma distinct_bulk: "distinct (map key rows) \<Longrightarrow> bulk_upsert key merge rows news = Some rows' \<Longrightarrow> distinct (map key rows')"
  by (auto simp: bulk_upsert_def distinct_foldl split: if_splits)

text \<open>What a row with a given key is after the upsert.\<close>

lemma upsert_row_cases:
  assumes "x \<in> set (upsert_row key merge rows r)"
  obtains (kept) "x \<in> set rows" "key x \<noteq> key r" | (merged) old where "old \<in> set rows" "key old = key r" "x = merge old r"
    | (new) "x = r" "key r \<notin> key ` set rows"
proof (cases "key r \<in> key ` set rows")
  case True
  with assms kept merged show thesis by (auto simp: upsert_row_def split: if_splits)
next
  case False
  then have "y \<in> set rows \<Longrightarrow> key y \<noteq> key r" for y by (metis imageI)
  with assms False kept new show thesis by (auto simp: upsert_row_def)
qed

lemma upsert_row_kept: "x \<in> set rows \<Longrightarrow> key x \<noteq> key r \<Longrightarrow> x \<in> set (upsert_row key merge rows r)"
  by (force simp: upsert_row_def)

lemma foldl_cases:
  assumes "distinct (map key news)" "x \<in> set (foldl (upsert_row key merge) rows news)"
  shows "x \<in> set rows \<and> key x \<notin> key ` set news \<or>
    (\<exists>r \<in> set news. key x = key r \<and> ((\<exists>old \<in> set rows. key old = key r \<and> x = merge old r) \<or> x = r \<and> key r \<notin> key ` set rows))"
  using assms
proof (induction news arbitrary: rows)
  case (Cons n news)
  from Cons.IH [of "upsert_row key merge rows n"] Cons.prems
  consider (a) "x \<in> set (upsert_row key merge rows n)" "key x \<notin> key ` set news"
    | (b) r old where "r \<in> set news" "key x = key r" "old \<in> set (upsert_row key merge rows n)" "key old = key r" "x = merge old r"
    | (c) "x \<in> set news" "key x \<notin> key ` set (upsert_row key merge rows n)" by auto
  then show ?case
  proof cases
    case a
    from a(1) show ?thesis by (cases rule: upsert_row_cases) (use a(2) key_merge in auto)
  next
    case b
    have "key n \<noteq> key r" using Cons.prems(1) b(1) by auto
    from b(3) show ?thesis
      by (cases rule: upsert_row_cases) (use b \<open>key n \<noteq> key r\<close> key_merge in auto)
  next
    case c
    then show ?thesis by (auto simp: keys_upsert_row)
  qed
qed simp

lemma bulk_Some: "distinct (map key news) \<Longrightarrow> bulk_upsert key merge rows news = Some (foldl (upsert_row key merge) rows news)"
  using distinct_batches [of key news _ 100] by (auto simp: bulk_upsert_def)

lemma foldl_kept: "x \<in> set rows \<Longrightarrow> key x \<notin> key ` set news \<Longrightarrow> x \<in> set (foldl (upsert_row key merge) rows news)"
  by (induction news arbitrary: rows) (auto simp: upsert_row_kept)

end

end
