(* ===== verification/Inventory.thy ===== *)
theory Inventory
  imports Environment Secrets Upsert
begin

text \<open>
  Hypervisors and the synchronisation of their inventory (\<^verbatim>\<open>internal/service/hypervisor_service.go\<close>), with the
  models and repositories of hypervisors, virtual machines, data stores, networks, clusters and hosts.

  The database is the record \<open>inv_db\<close>; every statement first consults the outcomes in store, \<open>idb_faults\<close>. A
  provider is what its two calls return. The encryption of secrets is the interface \<open>secret_box\<close>, which the
  functions of the theory \<open>Secrets\<close> provide. The reports of progress are kept in \<open>idb_progress\<close>. Time stamps, logging
  and the closing of the connection are left out.
\<close>

section \<open>Data\<close>

datatype ConnectionStatus =
    ConnectionStatusConnected | ConnectionStatusDisconnected | ConnectionStatusError | ConnectionStatusUnknown

record Hypervisor =
  hv_ID :: string
  hv_Name :: string
  hv_Description :: string
  hv_Provider :: string
  hv_Host :: string
  hv_Port :: int
  hv_Username :: string
  hv_EncryptedSecret :: string
  hv_TLSVerify :: bool
  hv_ConnectionStatus :: ConnectionStatus
  hv_Tags :: "string list"
  hv_Metadata :: "jmap option"

record VMRow = VM +
  vr_Description :: string
  vr_CPUCount :: int
  vr_MemoryMB :: int
  vr_DiskGB :: int
  vr_IPAddresses :: "string list"
  vr_MACAddress :: string
  vr_NetworkName :: string
  vr_GuestOS :: string
  vr_GuestOSType :: string
  vr_ToolsStatus :: string
  vr_Tags :: "string list"
  vr_Metadata :: "jmap option"

record DataStore =
  ds_ID :: string
  ds_HypervisorID :: string
  ds_ProviderID :: string
  ds_Name :: string
  ds_Type :: string
  ds_CapacityGB :: rat
  ds_UsedGB :: rat
  ds_FreeGB :: rat
  ds_Accessible :: bool

record Network =
  nw_ID :: string
  nw_HypervisorID :: string
  nw_ProviderID :: string
  nw_Name :: string
  nw_Type :: string
  nw_VLAN :: int
  nw_Accessible :: bool

record Cluster =
  cl_ID :: string
  cl_HypervisorID :: string
  cl_ProviderID :: string
  cl_Name :: string
  cl_TotalCPU :: int
  cl_TotalMemoryMB :: int
  cl_HostCount :: int
  cl_VMCount :: int
  cl_Metadata :: "jmap option"

record Host =
  ho_ID :: string
  ho_HypervisorID :: string
  ho_ClusterID :: "string option"
  ho_ProviderID :: string
  ho_Name :: string
  ho_Status :: string
  ho_CPUModel :: string
  ho_CPUSockets :: int
  ho_CPUCores :: int
  ho_CPUThreads :: int
  ho_CPUUsageMHz :: int
  ho_TotalMemoryMB :: int
  ho_UsedMemoryMB :: int
  ho_HypervisorVersion :: string
  ho_UptimeSeconds :: int
  ho_VMCount :: int
  ho_Metadata :: "jmap option"

text \<open>The columns of a health record that the synchronisation writes.\<close>

record SyncHealth =
  sh_HypervisorID :: string
  sh_LastSyncAt :: "int option"
  sh_LastSyncStatus :: string
  sh_SyncFailures24h :: int
  sh_VMCount :: int

subsection \<open>What a provider reports\<close>

record VMInfo =
  vi_ProviderVMID :: string
  vi_Name :: string
  vi_Status :: VMStatus
  vi_CPUCount :: int
  vi_MemoryMB :: int
  vi_DiskGB :: int
  vi_IPAddresses :: "string list"
  vi_MACAddress :: string
  vi_NetworkName :: string
  vi_GuestOS :: string
  vi_GuestOSType :: string
  vi_ToolsStatus :: string
  vi_Extra :: jmap

record DataStoreInfo =
  di_ProviderID :: string
  di_Name :: string
  di_Type :: string
  di_CapacityGB :: rat
  di_UsedGB :: rat
  di_FreeGB :: rat
  di_Accessible :: bool

record NetworkInfo =
  ni_ProviderID :: string
  ni_Name :: string
  ni_Type :: string
  ni_VLAN :: int
  ni_Accessible :: bool

record HostInfo =
  hi_ProviderID :: string
  hi_Name :: string
  hi_Status :: string
  hi_ClusterProviderID :: string
  hi_CPUModel :: string
  hi_CPUSockets :: int
  hi_CPUCores :: int
  hi_CPUThreads :: int
  hi_CPUUsageMHz :: int
  hi_TotalMemoryMB :: int
  hi_UsedMemoryMB :: int
  hi_HypervisorVersion :: string
  hi_UptimeSeconds :: int

record ClusterInfo =
  ci_ProviderID :: string
  ci_Name :: string
  ci_TotalCPU :: int
  ci_TotalMemoryMB :: int
  ci_HostCount :: int

record InventorySnapshot =
  is_VMs :: "VMInfo list"
  is_DataStores :: "DataStoreInfo list"
  is_Networks :: "NetworkInfo list"
  is_Hosts :: "HostInfo list"
  is_Clusters :: "ClusterInfo list"

record ProviderCredentials =
  cr_Host :: string
  cr_Port :: int
  cr_Username :: string
  cr_Password :: string
  cr_Token :: string
  cr_TLSVerify :: bool

record provider_calls =
  pc_Connect :: "ProviderCredentials \<Rightarrow> go_error option"
  pc_SyncInventory :: "go_error + InventorySnapshot"

record SyncResult =
  sr_HypervisorID :: string
  sr_VMsUpdated :: int
  sr_VMsRemoved :: int
  sr_StoresUpserted :: int
  sr_NetworksUpserted :: int
  sr_Errors :: "string list"

record RegisterHypervisorRequest =
  rh_Name :: string
  rh_Description :: string
  rh_Provider :: string
  rh_Host :: string
  rh_Port :: int
  rh_Username :: string
  rh_Password :: string
  rh_Token :: string
  rh_TLSVerify :: bool
  rh_Tags :: "string list"
  rh_Metadata :: "jmap option"

record UpdateHypervisorRequest =
  uh_Name :: "string option"
  uh_Description :: "string option"
  uh_Host :: "string option"
  uh_Port :: "int option"
  uh_Username :: "string option"
  uh_Password :: "string option"
  uh_Token :: "string option"
  uh_TLSVerify :: "bool option"
  uh_Tags :: "string list option"
  uh_Metadata :: "jmap option"

section \<open>The database\<close>

record inv_db =
  idb_hypervisors :: "Hypervisor list"
  idb_vms :: "VMRow list"
  idb_stores :: "DataStore list"
  idb_networks :: "Network list"
  idb_clusters :: "Cluster list"
  idb_hosts :: "Host list"
  idb_health :: "SyncHealth list"
  idb_tasks :: task_table
  idb_audit :: "(string \<times> string \<times> string \<times> bool) list"
  idb_events :: "(string \<times> jmap) list"
  idb_progress :: "(int \<times> string) list"
  idb_next :: nat
  idb_faults :: "go_error option list"

definition inv_stmt :: "(inv_db \<Rightarrow> inv_db \<times> (go_error + 'a)) \<Rightarrow> inv_db \<Rightarrow> inv_db \<times> (go_error + 'a)" where
  "inv_stmt f d =
     (case idb_faults d of
        [] \<Rightarrow> f d
      | None # fs \<Rightarrow> f (d\<lparr>idb_faults := fs\<rparr>)
      | Some e # fs \<Rightarrow> (d\<lparr>idb_faults := fs\<rparr>, Inl e))"

subsection \<open>Hypervisors\<close>

definition hv_repo_Create :: "uuid_lib \<Rightarrow> Hypervisor \<Rightarrow> inv_db \<Rightarrow> inv_db \<times> (go_error + Hypervisor)" where
  "hv_repo_Create U h = inv_stmt (\<lambda>d.
     let h = h\<lparr>hv_ID := uuid_new U (idb_next d)\<rparr>
     in (d\<lparr>idb_hypervisors := idb_hypervisors d @ [h], idb_next := idb_next d + 1\<rparr>, Inr h))"

definition hv_repo_GetByID :: "string \<Rightarrow> inv_db \<Rightarrow> inv_db \<times> (go_error + Hypervisor)" where
  "hv_repo_GetByID i d =
     (case inv_stmt (\<lambda>d. (d, case find (\<lambda>h. hv_ID h = i) (idb_hypervisors d) of
              None \<Rightarrow> Inl (Errorf ''record not found'') | Some h \<Rightarrow> Inr h)) d of
        (d, Inl e) \<Rightarrow> (d, Inl (Wrapf ''hypervisor not found'' e))
      | (d, Inr h) \<Rightarrow> (d, Inr h))"

definition hv_repo_Update :: "Hypervisor \<Rightarrow> inv_db \<Rightarrow> inv_db \<times> (go_error + unit)" where
  "hv_repo_Update h = inv_stmt (\<lambda>d.
     (d\<lparr>idb_hypervisors := map (\<lambda>x. if hv_ID x = hv_ID h then h else x) (idb_hypervisors d)\<rparr>, Inr ()))"

definition UpdateConnectionStatus :: "string \<Rightarrow> ConnectionStatus \<Rightarrow> inv_db \<Rightarrow> inv_db \<times> (go_error + unit)" where
  "UpdateConnectionStatus i st = inv_stmt (\<lambda>d.
     (d\<lparr>idb_hypervisors := map (\<lambda>x. if hv_ID x = i then x\<lparr>hv_ConnectionStatus := st\<rparr> else x) (idb_hypervisors d)\<rparr>, Inr ()))"

text \<open>
  Deleting a hypervisor is a transaction of 24 statements, most of them on tables that refer to its machines or
  tasks. The tables outside this record have no effect here, but their statements may fail.
\<close>

fun inv_transaction :: "(string \<times> (inv_db \<Rightarrow> inv_db)) list \<Rightarrow> inv_db \<Rightarrow> inv_db \<times> (go_error + unit)" where
  "inv_transaction [] d = (d, Inr ())"
| "inv_transaction ((what, f) # steps) d =
     (case inv_stmt (\<lambda>d. (f d, Inr ())) d of
        (d, Inl e) \<Rightarrow> (d, Inl (Wrapf what e))
      | (d, Inr _) \<Rightarrow> inv_transaction steps d)"

definition map_tasks :: "(Task \<Rightarrow> Task) \<Rightarrow> inv_db \<Rightarrow> inv_db" where
  "map_tasks f d = d\<lparr>idb_tasks := (idb_tasks d)\<lparr>tt_rows := map f (tt_rows (idb_tasks d))\<rparr>\<rparr>"

definition delete_steps :: "string \<Rightarrow> (string \<times> (inv_db \<Rightarrow> inv_db)) list" where
  "delete_steps i =
     [(''deleting snapshots'', id), (''deleting vm_dependencies'', id), (''deleting environment_vms'', id), (''deleting vm_usage_stats'', id),
      (''deleting orchestration_steps'', id), (''deleting schedule_executions'', id), (''deleting task_logs'', id),
      (''deleting optimization_recommendations'', id), (''deleting provisioning_jobs'', id),
      (''nullifying sub-task parent_task_id'', \<lambda>d. map_tasks (\<lambda>t. if tk_ParentTaskID t \<in> Some ` tk_ID ` set (filter (\<lambda>t. tk_HypervisorID t = Some i)
          (tt_rows (idb_tasks d))) then t\<lparr>tk_ParentTaskID := None\<rparr> else t) d),
      (''nullifying task hypervisor_id'', map_tasks (\<lambda>t. if tk_HypervisorID t = Some i then t\<lparr>tk_HypervisorID := None\<rparr> else t)),
      (''deleting vms'', \<lambda>d. d\<lparr>idb_vms := filter (\<lambda>v. vm_HypervisorID v \<noteq> i) (idb_vms d)\<rparr>), (''deleting vm_templates'', id),
      (''deleting data_stores'', \<lambda>d. d\<lparr>idb_stores := filter (\<lambda>x. ds_HypervisorID x \<noteq> i) (idb_stores d)\<rparr>),
      (''deleting networks'', \<lambda>d. d\<lparr>idb_networks := filter (\<lambda>x. nw_HypervisorID x \<noteq> i) (idb_networks d)\<rparr>),
      (''nullifying web_socket_events hypervisor_id'', id), (''nullifying audit_logs hypervisor_id'', id),
      (''deleting provider_health_histories'', id),
      (''deleting provider_healths'', \<lambda>d. d\<lparr>idb_health := filter (\<lambda>x. sh_HypervisorID x \<noteq> i) (idb_health d)\<rparr>),
      (''deleting capacity_histories'', id), (''deleting provider_capacities'', id),
      (''deleting hosts'', \<lambda>d. d\<lparr>idb_hosts := filter (\<lambda>x. ho_HypervisorID x \<noteq> i) (idb_hosts d)\<rparr>),
      (''deleting clusters'', \<lambda>d. d\<lparr>idb_clusters := filter (\<lambda>x. cl_HypervisorID x \<noteq> i) (idb_clusters d)\<rparr>),
      (''deleting hypervisor'', \<lambda>d. d\<lparr>idb_hypervisors := filter (\<lambda>x. hv_ID x \<noteq> i) (idb_hypervisors d)\<rparr>)]"

definition hv_repo_Delete :: "string \<Rightarrow> inv_db \<Rightarrow> inv_db \<times> (go_error + unit)" where
  "hv_repo_Delete i d =
     (case inv_transaction (delete_steps i) d of
        (d', Inl e) \<Rightarrow> (d\<lparr>idb_faults := idb_faults d'\<rparr>, Inl e)
      | (d', Inr _) \<Rightarrow> (d', Inr ()))"

subsection \<open>Virtual machines\<close>

text \<open>
  Machines are deleted by setting a time stamp; their rows keep their place in the unique index. The columns
  written on a conflict are those the repository lists.
\<close>

definition vm_key :: "VMRow \<Rightarrow> string \<times> string" where
  "vm_key v = (vm_HypervisorID v, vm_ProviderVMID v)"

definition vm_merge :: "VMRow \<Rightarrow> VMRow \<Rightarrow> VMRow" where
  "vm_merge old new = old\<lparr>vm_Name := vm_Name new, vm_Status := vm_Status new, vr_CPUCount := vr_CPUCount new, vr_MemoryMB := vr_MemoryMB new,
     vr_DiskGB := vr_DiskGB new, vr_IPAddresses := vr_IPAddresses new, vr_MACAddress := vr_MACAddress new,
     vr_NetworkName := vr_NetworkName new, vr_GuestOS := vr_GuestOS new, vr_GuestOSType := vr_GuestOSType new,
     vr_ToolsStatus := vr_ToolsStatus new, vr_Tags := vr_Tags new, vr_Metadata := vr_Metadata new\<rparr>"

definition duplicate_in_batch :: go_error where
  "duplicate_in_batch = Errorf ''ERROR: ON CONFLICT DO UPDATE command cannot affect row a second time (SQLSTATE 21000)''"

definition vm_BulkUpsert :: "uuid_lib \<Rightarrow> VMRow list \<Rightarrow> inv_db \<Rightarrow> inv_db \<times> (go_error + unit)" where
  "vm_BulkUpsert U vms d =
     (if vms = [] then (d, Inr ())
      else inv_stmt (\<lambda>d.
        let news = map (\<lambda>(k, v). v\<lparr>vm_ID := uuid_new U (idb_next d + k)\<rparr>) (enumerate 0 vms) in
        case bulk_upsert vm_key vm_merge (idb_vms d) news of
          None \<Rightarrow> (d, Inl duplicate_in_batch)
        | Some rows \<Rightarrow> (d\<lparr>idb_vms := rows, idb_next := idb_next d + length vms\<rparr>, Inr ())) d)"

definition ListProviderIDs :: "string \<Rightarrow> inv_db \<Rightarrow> inv_db \<times> (go_error + string list)" where
  "ListProviderIDs i = inv_stmt (\<lambda>d.
     (d, Inr (map vm_ProviderVMID (filter (\<lambda>v. vm_HypervisorID v = i \<and> \<not> vm_Deleted v) (idb_vms d)))))"

definition MarkDeletedByProviderIDs :: "string \<Rightarrow> string list \<Rightarrow> inv_db \<Rightarrow> inv_db \<times> (go_error + int)" where
  "MarkDeletedByProviderIDs i activeIDs d =
     (if activeIDs = [] then (d, Inr 0)
      else inv_stmt (\<lambda>d.
        let gone = (\<lambda>v. vm_HypervisorID v = i \<and> vm_ProviderVMID v \<notin> set activeIDs \<and> \<not> vm_Deleted v)
        in (d\<lparr>idb_vms := map (\<lambda>v. if gone v then v\<lparr>vm_Deleted := True\<rparr> else v) (idb_vms d)\<rparr>,
            Inr (int (length (filter gone (idb_vms d)))))) d)"

subsection \<open>Data stores, networks, clusters and hosts\<close>

definition batch_stmt ::
  "('a \<Rightarrow> 'k) \<Rightarrow> ('a \<Rightarrow> 'a \<Rightarrow> 'a) \<Rightarrow> (inv_db \<Rightarrow> 'a list) \<Rightarrow> ('a list \<Rightarrow> inv_db \<Rightarrow> inv_db) \<Rightarrow> (nat \<Rightarrow> 'a \<Rightarrow> 'a) \<Rightarrow>
   'a list \<Rightarrow> inv_db \<Rightarrow> inv_db \<times> (go_error + unit)" where
  "batch_stmt key merge get put prepare xs d =
     (if xs = [] then (d, Inr ())
      else inv_stmt (\<lambda>d.
        case bulk_upsert key merge (get d) (map (\<lambda>(k, x). prepare (idb_next d + k) x) (enumerate 0 xs)) of
          None \<Rightarrow> (d, Inl duplicate_in_batch)
        | Some rows \<Rightarrow> (put rows (d\<lparr>idb_next := idb_next d + length xs\<rparr>), Inr ())) d)"

definition ds_key :: "DataStore \<Rightarrow> string \<times> string" where
  "ds_key x = (ds_HypervisorID x, ds_ProviderID x)"

definition ds_merge :: "DataStore \<Rightarrow> DataStore \<Rightarrow> DataStore" where
  "ds_merge old new = old\<lparr>ds_Name := ds_Name new, ds_Type := ds_Type new, ds_CapacityGB := ds_CapacityGB new, ds_UsedGB := ds_UsedGB new,
     ds_FreeGB := ds_FreeGB new, ds_Accessible := ds_Accessible new\<rparr>"

text \<open>The column \<^verbatim>\<open>accessible\<close> has the default true, which replaces the zero value false of an inserted row.\<close>

definition ds_BulkUpsert :: "uuid_lib \<Rightarrow> DataStore list \<Rightarrow> inv_db \<Rightarrow> inv_db \<times> (go_error + unit)" where
  "ds_BulkUpsert U = batch_stmt ds_key ds_merge idb_stores (\<lambda>rows d. d\<lparr>idb_stores := rows\<rparr>)
     (\<lambda>k x. x\<lparr>ds_ID := uuid_new U k, ds_Accessible := True\<rparr>)"

definition ds_List :: "string \<Rightarrow> inv_db \<Rightarrow> inv_db \<times> (go_error + DataStore list)" where
  "ds_List i = inv_stmt (\<lambda>d. (d, Inr (filter (\<lambda>x. ds_HypervisorID x = i) (idb_stores d))))"

definition nw_key :: "Network \<Rightarrow> string \<times> string" where
  "nw_key x = (nw_HypervisorID x, nw_ProviderID x)"

definition nw_merge :: "Network \<Rightarrow> Network \<Rightarrow> Network" where
  "nw_merge old new = old\<lparr>nw_Name := nw_Name new, nw_Type := nw_Type new, nw_VLAN := nw_VLAN new, nw_Accessible := nw_Accessible new\<rparr>"

definition nw_BulkUpsert :: "uuid_lib \<Rightarrow> Network list \<Rightarrow> inv_db \<Rightarrow> inv_db \<times> (go_error + unit)" where
  "nw_BulkUpsert U = batch_stmt nw_key nw_merge idb_networks (\<lambda>rows d. d\<lparr>idb_networks := rows\<rparr>)
     (\<lambda>k x. x\<lparr>nw_ID := uuid_new U k, nw_Accessible := True\<rparr>)"

definition nw_List :: "string \<Rightarrow> inv_db \<Rightarrow> inv_db \<times> (go_error + Network list)" where
  "nw_List i = inv_stmt (\<lambda>d. (d, Inr (filter (\<lambda>x. nw_HypervisorID x = i) (idb_networks d))))"

definition cl_key :: "Cluster \<Rightarrow> string \<times> string" where
  "cl_key x = (cl_HypervisorID x, cl_ProviderID x)"

definition cl_merge :: "Cluster \<Rightarrow> Cluster \<Rightarrow> Cluster" where
  "cl_merge old new = old\<lparr>cl_Name := cl_Name new, cl_TotalCPU := cl_TotalCPU new, cl_TotalMemoryMB := cl_TotalMemoryMB new,
     cl_HostCount := cl_HostCount new, cl_VMCount := cl_VMCount new, cl_Metadata := cl_Metadata new\<rparr>"

definition cl_BulkUpsert :: "uuid_lib \<Rightarrow> Cluster list \<Rightarrow> inv_db \<Rightarrow> inv_db \<times> (go_error + unit)" where
  "cl_BulkUpsert U = batch_stmt cl_key cl_merge idb_clusters (\<lambda>rows d. d\<lparr>idb_clusters := rows\<rparr>) (\<lambda>k x. x\<lparr>cl_ID := uuid_new U k\<rparr>)"

text \<open>The order by name, which only decides between clusters of one provider identifier, is left out.\<close>

definition cl_List :: "string \<Rightarrow> inv_db \<Rightarrow> inv_db \<times> (go_error + Cluster list)" where
  "cl_List i = inv_stmt (\<lambda>d. (d, Inr (filter (\<lambda>x. i = '''' \<or> cl_HypervisorID x = i) (idb_clusters d))))"

definition ho_key :: "Host \<Rightarrow> string \<times> string" where
  "ho_key x = (ho_HypervisorID x, ho_ProviderID x)"

definition ho_merge :: "Host \<Rightarrow> Host \<Rightarrow> Host" where
  "ho_merge old new = new\<lparr>ho_ID := ho_ID old, ho_HypervisorID := ho_HypervisorID old, ho_ProviderID := ho_ProviderID old\<rparr>"

definition ho_BulkUpsert :: "uuid_lib \<Rightarrow> Host list \<Rightarrow> inv_db \<Rightarrow> inv_db \<times> (go_error + unit)" where
  "ho_BulkUpsert U = batch_stmt ho_key ho_merge idb_hosts (\<lambda>rows d. d\<lparr>idb_hosts := rows\<rparr>)
     (\<lambda>k x. x\<lparr>ho_ID := uuid_new U k, ho_Status := (if ho_Status x = '''' then ''unknown'' else ho_Status x)\<rparr>)"

text \<open>The machines of a host are counted by the name of the host in their metadata, under one key for VMware and another for Proxmox.\<close>

definition vms_on :: "string \<Rightarrow> Host \<Rightarrow> VMRow list \<Rightarrow> int" where
  "vms_on k h vms = int (length (filter (\<lambda>v. vm_HypervisorID v = ho_HypervisorID h \<and> \<not> vm_Deleted v \<and>
     (case vr_Metadata v of None \<Rightarrow> False | Some m \<Rightarrow> jstring m k = Some (ho_Name h))) vms))"

definition UpdateVMCount :: "string \<Rightarrow> inv_db \<Rightarrow> inv_db \<times> (go_error + unit)" where
  "UpdateVMCount i d =
     (case inv_stmt (\<lambda>d. (d\<lparr>idb_hosts := map (\<lambda>h. if ho_HypervisorID h = i
              then h\<lparr>ho_VMCount := vms_on ''esxi_host'' h (idb_vms d)\<rparr> else h) (idb_hosts d)\<rparr>, Inr ())) d of
        (d, Inl e) \<Rightarrow> (d, Inl e)
      | (d, Inr _) \<Rightarrow> inv_stmt (\<lambda>d. (d\<lparr>idb_hosts := map (\<lambda>h. if ho_HypervisorID h = i \<and> ho_VMCount h = 0
              then h\<lparr>ho_VMCount := vms_on ''node'' h (idb_vms d)\<rparr> else h) (idb_hosts d)\<rparr>, Inr ())) d)"

subsection \<open>Health records\<close>

definition health_GetByHypervisorID :: "string \<Rightarrow> inv_db \<Rightarrow> inv_db \<times> (go_error + SyncHealth)" where
  "health_GetByHypervisorID i d =
     (case inv_stmt (\<lambda>d. (d, case find (\<lambda>h. sh_HypervisorID h = i) (idb_health d) of
              None \<Rightarrow> Inl (Errorf ''record not found'') | Some h \<Rightarrow> Inr h)) d of
        (d, Inl e) \<Rightarrow> (d, Inl (Wrapf ''provider health not found'' e))
      | (d, Inr h) \<Rightarrow> (d, Inr h))"

definition health_Upsert :: "SyncHealth \<Rightarrow> inv_db \<Rightarrow> inv_db \<times> (go_error + unit)" where
  "health_Upsert h = inv_stmt (\<lambda>d. (d\<lparr>idb_health := upsert_row sh_HypervisorID (\<lambda>_ new. new) (idb_health d) h\<rparr>, Inr ()))"

section \<open>The interface of encryption\<close>

record secret_box =
  sb_Encrypt :: "string \<Rightarrow> go_error + string"
  sb_Decrypt :: "string \<Rightarrow> go_error + string"

locale secret_store =
  fixes B :: secret_box
  assumes encrypts: "\<exists>enc. sb_Encrypt B plain = Inr enc"
    and decrypts: "sb_Encrypt B plain = Inr enc \<Longrightarrow> sb_Decrypt B enc = Inr plain"

text \<open>The package \<^verbatim>\<open>crypto\<close> with a valid key and a given nonce.\<close>

definition crypto_box :: "aead \<Rightarrow> string \<Rightarrow> string \<Rightarrow> secret_box" where
  "crypto_box A raw nonce = \<lparr>
     sb_Encrypt = (\<lambda>plain. case EncryptSecret A raw (Inr nonce) plain of Some r \<Rightarrow> r | None \<Rightarrow> Inl (Errorf ''panic'')),
     sb_Decrypt = (\<lambda>enc. case DecryptSecret A raw enc of Some r \<Rightarrow> r | None \<Rightarrow> Inl (Errorf ''panic''))\<rparr>"

lemma crypto_box_store:
  assumes "opens_sealed A" "length nonce = nonceSize" "loadKey raw \<noteq> None"
  shows "secret_store (crypto_box A raw nonce)"
proof
  fix plain
  from assms(3) obtain key where key: "loadKey raw = Some key" by blast
  have "NewCipher key = None" using loadKey_length [OF key] by (simp add: NewCipher_def)
  then show "\<exists>enc. sb_Encrypt (crypto_box A raw nonce) plain = Inr enc" by (simp add: crypto_box_def EncryptSecret_def key)
next
  fix plain enc assume "sb_Encrypt (crypto_box A raw nonce) plain = Inr enc"
  then have "EncryptSecret A raw (Inr nonce) plain = Some (Inr enc)" by (auto simp: crypto_box_def split: option.splits)
  from DecryptSecret_EncryptSecret [OF assms(1,2) this] show "sb_Decrypt (crypto_box A raw nonce) enc = Inr plain" by (simp add: crypto_box_def)
qed

definition demo_box :: secret_box where
  "demo_box = crypto_box demo_cipher '''' ''abcdefghijkl''"

interpretation dev: secret_store demo_box
  unfolding demo_box_def by (rule crypto_box_store) (simp_all add: opens_demo nonceSize_def loadKey_def)

section \<open>The service\<close>

definition inv_audit :: "string \<Rightarrow> string \<Rightarrow> string \<Rightarrow> bool \<Rightarrow> inv_db \<Rightarrow> inv_db" where
  "inv_audit action i descr ok d = d\<lparr>idb_audit := idb_audit d @ [(action, i, descr, ok)]\<rparr>"

definition hypervisor_Register ::
  "uuid_lib \<Rightarrow> secret_box \<Rightarrow> 'p Registry \<Rightarrow> RegisterHypervisorRequest \<Rightarrow> inv_db \<Rightarrow> inv_db \<times> (go_error + Hypervisor)" where
  "hypervisor_Register U B reg req d =
     (case Get reg (rh_Provider req) of
        Inl e \<Rightarrow> (d, Inl (Wrapf (''unsupported provider \"'' @ rh_Provider req @ ''\"'') e))
      | Inr _ \<Rightarrow>
          (let secret = (if rh_Token req \<noteq> '''' \<and> rh_Password req = '''' then rh_Token req else rh_Password req) in
           case sb_Encrypt B secret of
             Inl e \<Rightarrow> (d, Inl (Wrapf ''encrypting secret'' e))
           | Inr encrypted \<Rightarrow>
               (case hv_repo_Create U \<lparr>hv_ID = nil_uuid, hv_Name = rh_Name req, hv_Description = rh_Description req,
                       hv_Provider = rh_Provider req, hv_Host = rh_Host req, hv_Port = rh_Port req, hv_Username = rh_Username req,
                       hv_EncryptedSecret = encrypted, hv_TLSVerify = rh_TLSVerify req, hv_ConnectionStatus = ConnectionStatusUnknown,
                       hv_Tags = rh_Tags req, hv_Metadata = rh_Metadata req\<rparr> d of
                  (d, Inl e) \<Rightarrow> (d, Inl (Wrapf ''creating hypervisor'' e))
                | (d, Inr h) \<Rightarrow> (inv_audit ''create'' (hv_ID h) '''' True d, Inr h))))"

definition new_secret :: "UpdateHypervisorRequest \<Rightarrow> string" where
  "new_secret req =
     (let secret = (case uh_Password req of Some p \<Rightarrow> if p \<noteq> '''' then p else '''' | None \<Rightarrow> '''')
      in case uh_Token req of Some t \<Rightarrow> if t \<noteq> '''' \<and> secret = '''' then t else secret | None \<Rightarrow> secret)"

definition hypervisor_Update ::
  "secret_box \<Rightarrow> string \<Rightarrow> UpdateHypervisorRequest \<Rightarrow> inv_db \<Rightarrow> inv_db \<times> (go_error + Hypervisor)" where
  "hypervisor_Update B i req d =
     (case hv_repo_GetByID i d of
        (d, Inl e) \<Rightarrow> (d, Inl e)
      | (d, Inr h) \<Rightarrow>
          (let h = h\<lparr>hv_Name := set_opt (uh_Name req) (hv_Name h), hv_Description := set_opt (uh_Description req) (hv_Description h),
                 hv_Host := set_opt (uh_Host req) (hv_Host h), hv_Port := set_opt (uh_Port req) (hv_Port h),
                 hv_Username := set_opt (uh_Username req) (hv_Username h), hv_TLSVerify := set_opt (uh_TLSVerify req) (hv_TLSVerify h),
                 hv_Tags := set_opt (uh_Tags req) (hv_Tags h)\<rparr>;
               secret = new_secret req
           in case (if secret \<noteq> '''' then map_sum id (\<lambda>enc. h\<lparr>hv_EncryptedSecret := enc\<rparr>) (sb_Encrypt B secret) else Inr h) of
                Inl e \<Rightarrow> (d, Inl (Wrapf ''encrypting secret'' e))
              | Inr h \<Rightarrow>
                  (let h = h\<lparr>hv_Metadata := (case uh_Metadata req of None \<Rightarrow> hv_Metadata h
                         | Some m \<Rightarrow> Some (put_all (case hv_Metadata h of None \<Rightarrow> [] | Some old \<Rightarrow> old) m))\<rparr>
                   in case hv_repo_Update h d of
                        (d, Inl e) \<Rightarrow> (d, Inl e)
                      | (d, Inr _) \<Rightarrow> (inv_audit ''update'' i '''' True d, Inr h))))"

definition hypervisor_Delete :: "string \<Rightarrow> inv_db \<Rightarrow> inv_db \<times> (go_error + unit)" where
  "hypervisor_Delete i d =
     (case hv_repo_Delete i d of
        (d, Inl e) \<Rightarrow> (d, Inl e)
      | (d, Inr _) \<Rightarrow> (inv_audit ''delete'' i '''' True d, Inr ()))"

definition buildHypervisorCredentials :: "secret_box \<Rightarrow> Hypervisor \<Rightarrow> ProviderCredentials" where
  "buildHypervisorCredentials B h =
     (let secret = (case sb_Decrypt B (hv_EncryptedSecret h) of Inl _ \<Rightarrow> hv_EncryptedSecret h | Inr s \<Rightarrow> s);
          creds = \<lparr>cr_Host = hv_Host h, cr_Port = hv_Port h, cr_Username = hv_Username h, cr_Password = secret, cr_Token = '''',
            cr_TLSVerify = hv_TLSVerify h\<rparr>
      in if hv_Provider h = ''proxmox'' then
           (case hv_Metadata h of
              None \<Rightarrow> creds
            | Some m \<Rightarrow> (case jstring m ''api_token_id'' of None \<Rightarrow> creds | Some tokenID \<Rightarrow> creds\<lparr>cr_Token := tokenID, cr_Password := secret\<rparr>))
         else creds)"

definition BuildCredentials :: "secret_box \<Rightarrow> string \<Rightarrow> inv_db \<Rightarrow> inv_db \<times> (go_error + ProviderCredentials \<times> string)" where
  "BuildCredentials B i d =
     (case hv_repo_GetByID i d of
        (d, Inl e) \<Rightarrow> (d, Inl (Wrapf ''hypervisor not found'' e))
      | (d, Inr h) \<Rightarrow> (d, Inr (buildHypervisorCredentials B h, hv_Provider h)))"

definition isTLSError :: "go_error \<Rightarrow> bool" where
  "isTLSError e \<longleftrightarrow> (let msg = Error_text e in
     Contains msg ''certificate'' \<or> Contains msg ''x509'' \<or> Contains msg ''tls:'' \<or> Contains msg ''TLS'')"

definition tls_hint :: string where
  "tls_hint = ''TLS certificate verification failed '' @ em_dash @ '' set tls_verify=false for self-signed certificates''"

definition TestConnection :: "secret_box \<Rightarrow> provider_calls Registry \<Rightarrow> string \<Rightarrow> inv_db \<Rightarrow> inv_db \<times> go_error option" where
  "TestConnection B reg i d =
     (case hv_repo_GetByID i d of
        (d, Inl e) \<Rightarrow> (d, Some e)
      | (d, Inr h) \<Rightarrow>
          (case Get reg (hv_Provider h) of
             Inl e \<Rightarrow> (d, Some (Wrapf (''unsupported provider \"'' @ hv_Provider h @ ''\"'') e))
           | Inr p \<Rightarrow>
               (case pc_Connect p (buildHypervisorCredentials B h) of
                  Some e \<Rightarrow> (fst (UpdateConnectionStatus i ConnectionStatusError d),
                    Some (Wrapf (if isTLSError e then tls_hint else ''connection failed'') e))
                | None \<Rightarrow> (fst (UpdateConnectionStatus i ConnectionStatusConnected d), None))))"

text \<open>The task of a synchronisation, which the request only records.\<close>

definition sync_task :: "string \<Rightarrow> int \<Rightarrow> string \<Rightarrow> string \<Rightarrow> string option \<Rightarrow> Task" where
  "sync_task taskID now i hypervisorUUID caller =
     \<lparr>tk_ID = taskID, tk_CreatedAt = now, tk_Deleted = False, tk_Type = ''inventory.sync'', tk_Status = TaskPending, tk_Priority = 5,
      tk_Progress = 0, tk_Payload = [(''hypervisor_id'', JStr i)], tk_Result = None, tk_ErrorMessage = '''', tk_RetryCount = 0,
      tk_MaxRetries = 3, tk_StartedAt = None, tk_CompletedAt = None, tk_ScheduledAt = Some now, tk_TimeoutAt = None,
      tk_CreatedBy = caller, tk_HypervisorID = Some hypervisorUUID, tk_VMID = None, tk_ParentTaskID = None\<rparr>"

definition SyncInventory :: "uuid_lib \<Rightarrow> int \<Rightarrow> string option \<Rightarrow> string \<Rightarrow> inv_db \<Rightarrow> inv_db \<times> (go_error + string)" where
  "SyncInventory U now caller i d =
     (case hv_repo_GetByID i d of
        (d, Inl e) \<Rightarrow> (d, Inl e)
      | (d, Inr _) \<Rightarrow>
          (let taskID = uuid_new U (idb_next d); d = d\<lparr>idb_next := idb_next d + 1\<rparr> in
           case inv_stmt (\<lambda>d. case Create (sync_task taskID now i (uuid_or_nil U i) caller) (idb_tasks d) of
                (tt, Some e) \<Rightarrow> (d\<lparr>idb_tasks := tt\<rparr>, Inl e) | (tt, None) \<Rightarrow> (d\<lparr>idb_tasks := tt\<rparr>, Inr ())) d of
             (d, Inl e) \<Rightarrow> (d, Inl (Wrapf ''creating sync task'' e))
           | (d, Inr _) \<Rightarrow> (d, Inr taskID)))"

section \<open>Synchronisation\<close>

definition mapVMInfoToModel :: "VMInfo \<Rightarrow> string \<Rightarrow> VMRow" where
  "mapVMInfoToModel info hypervisorID =
     \<lparr>vm_ID = nil_uuid, vm_HypervisorID = hypervisorID, vm_ProviderVMID = vi_ProviderVMID info, vm_Name = vi_Name info,
      vm_Status = vi_Status info, vm_Deleted = False, vr_Description = '''', vr_CPUCount = vi_CPUCount info, vr_MemoryMB = vi_MemoryMB info,
      vr_DiskGB = vi_DiskGB info, vr_IPAddresses = vi_IPAddresses info, vr_MACAddress = vi_MACAddress info,
      vr_NetworkName = vi_NetworkName info, vr_GuestOS = vi_GuestOS info, vr_GuestOSType = vi_GuestOSType info,
      vr_ToolsStatus = vi_ToolsStatus info, vr_Tags = [], vr_Metadata = (if vi_Extra info \<noteq> [] then Some (vi_Extra info) else None)\<rparr>"

definition progress :: "int \<Rightarrow> string \<Rightarrow> inv_db \<Rightarrow> inv_db" where
  "progress pct msg d = d\<lparr>idb_progress := idb_progress d @ [(pct, msg)]\<rparr>"

text \<open>The steps of a synchronisation on the database and the result so far.\<close>

definition sync_vms :: "uuid_lib \<Rightarrow> string \<Rightarrow> VMInfo list \<Rightarrow> inv_db \<times> SyncResult \<Rightarrow> inv_db \<times> SyncResult" where
  "sync_vms U i infos st =
     (case st of (d, result) \<Rightarrow>
        if infos = [] then (d, result)
        else
          (let vmModels = map (\<lambda>info. mapVMInfoToModel info (uuid_or_nil U i)) infos;
               activeProviderIDs = map vi_ProviderVMID infos;
               (d, result) = (case vm_BulkUpsert U vmModels d of
                   (d, Inl e) \<Rightarrow> (d, result\<lparr>sr_Errors := sr_Errors result @ [''vm upsert: '' @ Error_text e]\<rparr>)
                 | (d, Inr _) \<Rightarrow> (d, result\<lparr>sr_VMsUpdated := int (length vmModels)\<rparr>))
           in case MarkDeletedByProviderIDs i activeProviderIDs d of
                (d, Inl _) \<Rightarrow> (d, result)
              | (d, Inr removed) \<Rightarrow> (d, result\<lparr>sr_VMsRemoved := removed\<rparr>)))"

definition ds_model :: "string \<Rightarrow> DataStoreInfo \<Rightarrow> DataStore" where
  "ds_model i x = \<lparr>ds_ID = nil_uuid, ds_HypervisorID = i, ds_ProviderID = di_ProviderID x, ds_Name = di_Name x, ds_Type = di_Type x,
     ds_CapacityGB = di_CapacityGB x, ds_UsedGB = di_UsedGB x, ds_FreeGB = di_FreeGB x, ds_Accessible = di_Accessible x\<rparr>"

definition sync_stores :: "uuid_lib \<Rightarrow> string \<Rightarrow> DataStoreInfo list \<Rightarrow> inv_db \<times> SyncResult \<Rightarrow> inv_db \<times> SyncResult" where
  "sync_stores U i infos st =
     (case st of (d, result) \<Rightarrow>
        if infos = [] then (d, result)
        else (case ds_BulkUpsert U (map (ds_model i) infos) d of
            (d, Inl e) \<Rightarrow> (d, result\<lparr>sr_Errors := sr_Errors result @ [''datastore upsert: '' @ Error_text e]\<rparr>)
          | (d, Inr _) \<Rightarrow> (d, result\<lparr>sr_StoresUpserted := int (length infos)\<rparr>)))"

definition nw_model :: "string \<Rightarrow> NetworkInfo \<Rightarrow> Network" where
  "nw_model i x = \<lparr>nw_ID = nil_uuid, nw_HypervisorID = i, nw_ProviderID = ni_ProviderID x, nw_Name = ni_Name x, nw_Type = ni_Type x,
     nw_VLAN = ni_VLAN x, nw_Accessible = ni_Accessible x\<rparr>"

definition sync_networks :: "uuid_lib \<Rightarrow> string \<Rightarrow> NetworkInfo list \<Rightarrow> inv_db \<times> SyncResult \<Rightarrow> inv_db \<times> SyncResult" where
  "sync_networks U i infos st =
     (case st of (d, result) \<Rightarrow>
        if infos = [] then (d, result)
        else (case nw_BulkUpsert U (map (nw_model i) infos) d of
            (d, Inl e) \<Rightarrow> (d, result\<lparr>sr_Errors := sr_Errors result @ [''network upsert: '' @ Error_text e]\<rparr>)
          | (d, Inr _) \<Rightarrow> (d, result\<lparr>sr_NetworksUpserted := int (length infos)\<rparr>)))"

definition cl_model :: "string \<Rightarrow> ClusterInfo \<Rightarrow> Cluster" where
  "cl_model i x = \<lparr>cl_ID = nil_uuid, cl_HypervisorID = i, cl_ProviderID = ci_ProviderID x, cl_Name = ci_Name x, cl_TotalCPU = ci_TotalCPU x,
     cl_TotalMemoryMB = ci_TotalMemoryMB x, cl_HostCount = ci_HostCount x, cl_VMCount = 0, cl_Metadata = None\<rparr>"

definition sync_clusters :: "uuid_lib \<Rightarrow> string \<Rightarrow> ClusterInfo list \<Rightarrow> inv_db \<Rightarrow> inv_db" where
  "sync_clusters U i infos d = (if infos = [] then d else fst (cl_BulkUpsert U (map (cl_model i) infos) d))"

definition cluster_ids :: "Cluster list \<Rightarrow> string \<Rightarrow> string option" where
  "cluster_ids cs = foldl (\<lambda>m c. m(cl_ProviderID c \<mapsto> cl_ID c)) Map.empty cs"

definition ho_model :: "string \<Rightarrow> (string \<Rightarrow> string option) \<Rightarrow> HostInfo \<Rightarrow> Host" where
  "ho_model i clusterProviderToID x = \<lparr>ho_ID = nil_uuid, ho_HypervisorID = i,
     ho_ClusterID = (if hi_ClusterProviderID x \<noteq> '''' then clusterProviderToID (hi_ClusterProviderID x) else None),
     ho_ProviderID = hi_ProviderID x, ho_Name = hi_Name x, ho_Status = hi_Status x, ho_CPUModel = hi_CPUModel x, ho_CPUSockets = hi_CPUSockets x,
     ho_CPUCores = hi_CPUCores x, ho_CPUThreads = hi_CPUThreads x, ho_CPUUsageMHz = hi_CPUUsageMHz x, ho_TotalMemoryMB = hi_TotalMemoryMB x,
     ho_UsedMemoryMB = hi_UsedMemoryMB x, ho_HypervisorVersion = hi_HypervisorVersion x, ho_UptimeSeconds = hi_UptimeSeconds x,
     ho_VMCount = 0, ho_Metadata = None\<rparr>"

definition sync_hosts :: "uuid_lib \<Rightarrow> string \<Rightarrow> HostInfo list \<Rightarrow> inv_db \<Rightarrow> inv_db" where
  "sync_hosts U i infos d =
     (if infos = [] then d
      else (case cl_List i d of
          (d, existing) \<Rightarrow>
            (let ids = (case existing of Inl _ \<Rightarrow> Map.empty | Inr cs \<Rightarrow> cluster_ids cs) in
             case ho_BulkUpsert U (map (ho_model i ids) infos) d of
               (d, Inl _) \<Rightarrow> d
             | (d, Inr _) \<Rightarrow> fst (UpdateVMCount i d))))"

definition synced_event :: "Hypervisor \<Rightarrow> string \<Rightarrow> SyncResult \<Rightarrow> string \<times> jmap" where
  "synced_event h i result = (''inventory.synced'',
     [(''hypervisor_id'', JStr i), (''hypervisor_name'', JStr (hv_Name h)), (''provider'', JStr (hv_Provider h)),
      (''vms_updated'', JNum (of_int (sr_VMsUpdated result))), (''vms_removed'', JNum (of_int (sr_VMsRemoved result))),
      (''stores_upserted'', JNum (of_int (sr_StoresUpserted result))), (''networks_upserted'', JNum (of_int (sr_NetworksUpserted result))),
      (''errors'', JArr (map JStr (sr_Errors result)))])"

text \<open>Everything after the snapshot has been fetched.\<close>

definition store_snapshot :: "uuid_lib \<Rightarrow> string \<Rightarrow> Hypervisor \<Rightarrow> InventorySnapshot \<Rightarrow> inv_db \<Rightarrow> inv_db \<times> SyncResult" where
  "store_snapshot U i h snap d =
     (let d = progress 40 (''discovered '' @ Itoa (int (length (is_VMs snap))) @ '' VMs, '' @ Itoa (int (length (is_DataStores snap)))
                @ '' datastores, '' @ Itoa (int (length (is_Networks snap))) @ '' networks'') d;
          result = \<lparr>sr_HypervisorID = i, sr_VMsUpdated = 0, sr_VMsRemoved = 0, sr_StoresUpserted = 0, sr_NetworksUpserted = 0, sr_Errors = []\<rparr>;
          (d, result) = sync_vms U i (is_VMs snap) (d, result);
          d = progress 65 ''persisting datastores'' d;
          (d, result) = sync_stores U i (is_DataStores snap) (d, result);
          d = progress 80 ''persisting networks'' d;
          (d, result) = sync_networks U i (is_Networks snap) (d, result);
          d = progress 85 ''persisting clusters'' d;
          d = sync_clusters U i (is_Clusters snap) d;
          d = progress 88 ''persisting hosts'' d;
          d = sync_hosts U i (is_Hosts snap) d;
          d = progress 90 ''publishing sync event'' d;
          d = d\<lparr>idb_events := idb_events d @ [synced_event h i result]\<rparr>;
          d = inv_audit ''execute'' i (''inventory sync: '' @ Itoa (sr_VMsUpdated result) @ '' VMs, '' @ Itoa (sr_VMsRemoved result) @ '' removed'')
                (sr_Errors result = []) d
      in (progress 100 ''sync complete'' d, result))"

definition SyncInventoryNow ::
  "uuid_lib \<Rightarrow> secret_box \<Rightarrow> provider_calls Registry \<Rightarrow> string \<Rightarrow> inv_db \<Rightarrow> inv_db \<times> (go_error + SyncResult)" where
  "SyncInventoryNow U B reg i d =
     (case hv_repo_GetByID i d of
        (d, Inl e) \<Rightarrow> (d, Inl (Wrapf ''hypervisor not found'' e))
      | (d, Inr h) \<Rightarrow>
          (let d = progress 5 ''connecting to hypervisor'' d; creds = buildHypervisorCredentials B h in
           case Get reg (hv_Provider h) of
             Inl e \<Rightarrow> (d, Inl (Wrapf ''provider not registered'' e))
           | Inr p \<Rightarrow>
               (case pc_Connect p creds of
                  Some e \<Rightarrow> (fst (UpdateConnectionStatus i ConnectionStatusError d),
                    Inl (Wrapf (if isTLSError e then tls_hint else ''provider connect'') e))
                | None \<Rightarrow>
                    (let d = progress 15 ''fetching inventory from provider'' (fst (UpdateConnectionStatus i ConnectionStatusConnected d)) in
                     case pc_SyncInventory p of
                       Inl e \<Rightarrow> (fst (UpdateConnectionStatus i ConnectionStatusError d), Inl (Wrapf ''provider SyncInventory'' e))
                     | Inr snap \<Rightarrow> (case store_snapshot U i h snap d of (d, result) \<Rightarrow> (d, Inr result))))))"

text \<open>The record of the provider's health is updated in the background after a synchronisation.\<close>

definition updateHealthAfterSync :: "int \<Rightarrow> string \<Rightarrow> string \<Rightarrow> int \<Rightarrow> inv_db \<Rightarrow> inv_db" where
  "updateHealthAfterSync now i syncStatus vmCount d =
     (case health_GetByHypervisorID i d of
        (d, Inl _) \<Rightarrow> d
      | (d, Inr h) \<Rightarrow>
          fst (health_Upsert (h\<lparr>sh_LastSyncAt := Some now, sh_LastSyncStatus := syncStatus, sh_VMCount := vmCount,
            sh_SyncFailures24h := (if syncStatus = ''failed'' then sh_SyncFailures24h h + 1 else sh_SyncFailures24h h)\<rparr>) d))"

definition health_update_of :: "SyncResult \<Rightarrow> string \<times> int" where
  "health_update_of result = (if sr_Errors result \<noteq> [] then ''failed'' else ''success'', sr_VMsUpdated result)"

section \<open>Sequences of operations\<close>

text \<open>Operations in any order; the registry, and with it what the providers answer, and the store of faults change between them.\<close>

datatype inv_op =
    InvRegister "provider_calls Registry" RegisterHypervisorRequest
  | InvUpdate string UpdateHypervisorRequest
  | InvDelete string
  | InvTest "provider_calls Registry" string
  | InvRequestSync int "string option" string
  | InvSync "provider_calls Registry" string
  | InvHealth int string string int
  | InvFaults "go_error option list"

fun inv_step :: "uuid_lib \<Rightarrow> secret_box \<Rightarrow> inv_db \<Rightarrow> inv_op \<Rightarrow> inv_db" where
  "inv_step U B d (InvRegister reg req) = fst (hypervisor_Register U B reg req d)"
| "inv_step U B d (InvUpdate i req) = fst (hypervisor_Update B i req d)"
| "inv_step U B d (InvDelete i) = fst (hypervisor_Delete i d)"
| "inv_step U B d (InvTest reg i) = fst (TestConnection B reg i d)"
| "inv_step U B d (InvRequestSync now caller i) = fst (SyncInventory U now caller i d)"
| "inv_step U B d (InvSync reg i) = fst (SyncInventoryNow U B reg i d)"
| "inv_step U B d (InvHealth now i st n) = updateHealthAfterSync now i st n d"
| "inv_step U B d (InvFaults fs) = d\<lparr>idb_faults := fs\<rparr>"

definition empty_inv_db :: inv_db where
  "empty_inv_db = \<lparr>idb_hypervisors = [], idb_vms = [], idb_stores = [], idb_networks = [], idb_clusters = [], idb_hosts = [], idb_health = [],
     idb_tasks = \<lparr>tt_rows = [], tt_fault = None\<rparr>, idb_audit = [], idb_events = [], idb_progress = [], idb_next = 0, idb_faults = []\<rparr>"

end
