(* ===== verification/InventoryLaws.thy ===== *)
theory InventoryLaws
  imports Inventory
begin

text \<open>
  What the service of hypervisors guarantees. Every operation keeps the invariant \<open>inv_sound\<close> of the tables, whatever
  statements fail: unique keys, identifiers from the supply, and machines that were deleted stay deleted. A
  deletion is atomic and complete, a synchronisation without faults mirrors the report of the provider, and the
  credentials a hypervisor was registered with are those its provider gets.
\<close>

section \<open>What every operation keeps\<close>

text \<open>
  The tables respect their unique indexes, the identifiers of hypervisors come from the supply, and so do those the machines refer
  to. The set \<open>Ks\<close> holds keys of machines that have been deleted.
\<close>

interpretation vm_table: upsert_table vm_key vm_merge
  by unfold_locales (simp add: vm_key_def vm_merge_def)

interpretation ds_table: upsert_table ds_key ds_merge
  by unfold_locales (simp add: ds_key_def ds_merge_def)

interpretation nw_table: upsert_table nw_key nw_merge
  by unfold_locales (simp add: nw_key_def nw_merge_def)

interpretation cl_table: upsert_table cl_key cl_merge
  by unfold_locales (simp add: cl_key_def cl_merge_def)

interpretation ho_table: upsert_table ho_key ho_merge
  by unfold_locales (simp add: ho_key_def ho_merge_def)

interpretation health_table: upsert_table sh_HypervisorID "\<lambda>_ new. new"
  by unfold_locales simp

definition old_ids :: "uuid_lib \<Rightarrow> inv_db \<Rightarrow> string set" where
  "old_ids U d = uuid_new U ` {..<idb_next d}"

definition hv_ids :: "inv_db \<Rightarrow> string set" where
  "hv_ids d = hv_ID ` set (idb_hypervisors d)"

definition dead :: "uuid_lib \<Rightarrow> inv_db \<Rightarrow> string \<times> string \<Rightarrow> bool" where
  "dead U d K \<longleftrightarrow> (\<forall>v \<in> set (idb_vms d). vm_key v = K \<longrightarrow> vm_Deleted v) \<and>
     (K \<in> vm_key ` set (idb_vms d) \<or> fst K \<in> old_ids U d \<and> fst K \<notin> hv_ids d)"

definition unique_keys :: "inv_db \<Rightarrow> bool" where
  "unique_keys d \<longleftrightarrow> distinct (map hv_ID (idb_hypervisors d)) \<and> distinct (map vm_key (idb_vms d)) \<and> distinct (map ds_key (idb_stores d)) \<and>
     distinct (map nw_key (idb_networks d)) \<and> distinct (map cl_key (idb_clusters d)) \<and> distinct (map ho_key (idb_hosts d)) \<and>
     distinct (map sh_HypervisorID (idb_health d))"

definition all_accessible :: "inv_db \<Rightarrow> bool" where
  "all_accessible d \<longleftrightarrow> (\<forall>x \<in> set (idb_stores d). ds_Accessible x) \<and> (\<forall>x \<in> set (idb_networks d). nw_Accessible x)"

definition inv_sound :: "uuid_lib \<Rightarrow> (string \<times> string) set \<Rightarrow> inv_db \<Rightarrow> bool" where
  "inv_sound U Ks d \<longleftrightarrow> unique_keys d \<and> all_accessible d \<and> hv_ids d \<subseteq> old_ids U d \<and>
     vm_HypervisorID ` set (idb_vms d) \<subseteq> old_ids U d \<and> (\<forall>K \<in> Ks. dead U d K)"

text \<open>An operation between two states keeps the invariant and the set of hypervisors.\<close>

definition inv_keeps :: "uuid_lib \<Rightarrow> (string \<times> string) set \<Rightarrow> inv_db \<Rightarrow> inv_db \<Rightarrow> bool" where
  "inv_keeps U Ks d d' \<longleftrightarrow> (inv_sound U Ks d \<longrightarrow> inv_sound U Ks d' \<and> hv_ids d' = hv_ids d)"

lemma inv_keeps_refl [simp, intro]: "inv_keeps U Ks d d"
  by (simp add: inv_keeps_def)

lemma inv_keeps_trans [trans]: "inv_keeps U Ks d d' \<Longrightarrow> inv_keeps U Ks d' d'' \<Longrightarrow> inv_keeps U Ks d d''"
  by (auto simp: inv_keeps_def)

lemmas inv_sound_defs = inv_sound_def unique_keys_def all_accessible_def dead_def old_ids_def hv_ids_def

lemma inv_sound_other [simp]:
  "inv_sound U Ks (d\<lparr>idb_faults := fs\<rparr>) = inv_sound U Ks d"
  "inv_sound U Ks (d\<lparr>idb_tasks := tt\<rparr>) = inv_sound U Ks d"
  "inv_sound U Ks (d\<lparr>idb_audit := au\<rparr>) = inv_sound U Ks d"
  "inv_sound U Ks (d\<lparr>idb_events := ev\<rparr>) = inv_sound U Ks d"
  "inv_sound U Ks (d\<lparr>idb_progress := pr\<rparr>) = inv_sound U Ks d"
  "inv_sound U Ks (d\<lparr>idb_faults := fs, idb_next := n\<rparr>) = inv_sound U Ks (d\<lparr>idb_next := n\<rparr>)"
  by (simp_all add: inv_sound_defs)

lemma hv_ids_other [simp]:
  "hv_ids (d\<lparr>idb_faults := fs\<rparr>) = hv_ids d" "hv_ids (d\<lparr>idb_tasks := tt\<rparr>) = hv_ids d" "hv_ids (d\<lparr>idb_audit := au\<rparr>) = hv_ids d"
  "hv_ids (d\<lparr>idb_events := ev\<rparr>) = hv_ids d" "hv_ids (d\<lparr>idb_progress := pr\<rparr>) = hv_ids d" "hv_ids (d\<lparr>idb_vms := vs\<rparr>) = hv_ids d"
  "hv_ids (d\<lparr>idb_next := n\<rparr>) = hv_ids d"
  by (simp_all add: hv_ids_def)

lemma inv_keeps_stmt:
  assumes "\<And>d'. hv_ids d' = hv_ids d \<Longrightarrow> inv_sound U Ks d' \<Longrightarrow> inv_sound U Ks (fst (f d')) \<and> hv_ids (fst (f d')) = hv_ids d'"
  shows "inv_keeps U Ks d (fst (inv_stmt f d))"
  using assms [of d] assms [of "d\<lparr>idb_faults := fs\<rparr>" for fs] by (auto simp: inv_stmt_def inv_keeps_def split: list.splits option.splits)

text \<open>A larger supply of used identifiers.\<close>

lemma old_ids_next: "idb_next d \<le> n \<Longrightarrow> old_ids U d \<subseteq> old_ids U (d\<lparr>idb_next := n\<rparr>)"
  by (auto simp: old_ids_def)

lemma inv_sound_next:
  assumes "inv_sound U Ks d" "idb_next d \<le> n"
  shows "inv_sound U Ks (d\<lparr>idb_next := n\<rparr>)"
proof -
  note mono = old_ids_next [OF assms(2), of U]
  have "dead U d K \<Longrightarrow> dead U (d\<lparr>idb_next := n\<rparr>) K" for K
    using mono by (auto simp: dead_def)
  with assms(1) mono show ?thesis
    by (auto simp: inv_sound_def unique_keys_def all_accessible_def)
qed

subsection \<open>The statements\<close>

lemma inv_sound_vms:
  assumes "inv_sound U Ks d" "distinct (map vm_key vs)" "vm_HypervisorID ` set vs \<subseteq> old_ids U d"
    and "\<And>K. K \<in> Ks \<Longrightarrow> dead U d K \<Longrightarrow> dead U (d\<lparr>idb_vms := vs\<rparr>) K"
  shows "inv_sound U Ks (d\<lparr>idb_vms := vs\<rparr>)"
  using assms by (auto simp: inv_sound_def unique_keys_def all_accessible_def old_ids_def)

text \<open>Inserting a row of an existing hypervisor: a deleted machine's row is found, and its deletion stays.\<close>

lemma inv_sound_vm_row:
  assumes "inv_sound U Ks d" "vm_HypervisorID r \<in> hv_ids d"
  shows "inv_sound U Ks (d\<lparr>idb_vms := upsert_row vm_key vm_merge (idb_vms d) r\<rparr>)"
proof (rule inv_sound_vms)
  let ?rows = "upsert_row vm_key vm_merge (idb_vms d) r"
  show "distinct (map vm_key ?rows)"
    using assms(1) by (simp add: inv_sound_def unique_keys_def vm_table.distinct_upsert_row)
  show "vm_HypervisorID ` set ?rows \<subseteq> old_ids U d"
    using assms by (auto simp: inv_sound_def upsert_row_def vm_merge_def)
  show "dead U (d\<lparr>idb_vms := ?rows\<rparr>) K" if "dead U d K" for K
  proof -
    from that assms(2) have new: "vm_key r \<in> vm_key ` set (idb_vms d) \<or> vm_key r \<noteq> K"
      by (auto simp: dead_def vm_key_def)
    have "vm_Deleted v" if "v \<in> set ?rows" "vm_key v = K" for v
      using that(1) by (cases rule: vm_table.upsert_row_cases)
        (use that(2) \<open>dead U d K\<close> new in \<open>auto simp: dead_def vm_merge_def vm_key_def\<close>)
    with \<open>dead U d K\<close> show ?thesis by (auto simp: dead_def old_ids_def vm_table.keys_upsert_row)
  qed
qed (rule assms(1))

lemma inv_sound_vm_rows:
  assumes "inv_sound U Ks d" "vm_HypervisorID ` set news \<subseteq> hv_ids d"
  shows "inv_sound U Ks (d\<lparr>idb_vms := foldl (upsert_row vm_key vm_merge) (idb_vms d) news\<rparr>)"
  using assms
proof (induction news arbitrary: d)
  case (Cons r news)
  from Cons.prems have "inv_sound U Ks (d\<lparr>idb_vms := upsert_row vm_key vm_merge (idb_vms d) r\<rparr>)" by (simp add: inv_sound_vm_row)
  with Cons.IH [of "d\<lparr>idb_vms := upsert_row vm_key vm_merge (idb_vms d) r\<rparr>"] Cons.prems show ?case by simp
qed simp

lemma keeps_vm_BulkUpsert:
  assumes "vm_HypervisorID ` set vms \<subseteq> hv_ids d"
  shows "inv_keeps U Ks d (fst (vm_BulkUpsert U vms d))"
proof -
  define news where "news n = map (\<lambda>(k, v). v\<lparr>vm_ID := uuid_new U (n + k)\<rparr>) (enumerate 0 vms)" for n
  have ids: "vm_HypervisorID ` set (news n) \<subseteq> hv_ids d" for n
    using assms by (force simp: news_def in_set_enumerate_eq)
  have "inv_sound U Ks (d'\<lparr>idb_vms := foldl (upsert_row vm_key vm_merge) (idb_vms d') (news n), idb_next := idb_next d' + m\<rparr>)"
    if "inv_sound U Ks d'" "hv_ids d' = hv_ids d" for n m d'
    using inv_sound_next [OF inv_sound_vm_rows [OF that(1), of "news n"], of "idb_next d' + m"] ids that(2) by simp
  then show ?thesis
    unfolding vm_BulkUpsert_def Let_def news_def [symmetric]
    by (simp, intro impI inv_keeps_stmt) (auto simp: bulk_upsert_def)
qed

lemma keeps_MarkDeleted: "inv_keeps U Ks d (fst (MarkDeletedByProviderIDs i ids d))"
proof -
  define del where "del = (\<lambda>v :: VMRow. if vm_HypervisorID v = i \<and> vm_ProviderVMID v \<notin> set ids \<and> \<not> vm_Deleted v then v\<lparr>vm_Deleted := True\<rparr> else v)"
  have key: "vm_key (del v) = vm_key v" "vm_HypervisorID (del v) = vm_HypervisorID v" "vm_Deleted v \<Longrightarrow> vm_Deleted (del v)" for v
    by (simp_all add: del_def vm_key_def)
  have "inv_sound U Ks (d'\<lparr>idb_vms := map del (idb_vms d')\<rparr>)" if "inv_sound U Ks d'" for d'
  proof (rule inv_sound_vms [OF that])
    show "distinct (map vm_key (map del (idb_vms d')))" using that by (simp add: inv_sound_def unique_keys_def comp_def key)
    show "vm_HypervisorID ` set (map del (idb_vms d')) \<subseteq> old_ids U d'" using that by (auto simp: inv_sound_def key)
    show "dead U (d'\<lparr>idb_vms := map del (idb_vms d')\<rparr>) K" if "dead U d' K" for K
      using that by (auto simp: dead_def key image_image old_ids_def)
  qed
  then show ?thesis
    unfolding MarkDeletedByProviderIDs_def Let_def del_def [symmetric]
    by (simp, intro impI inv_keeps_stmt) simp
qed

lemma inv_sound_tables:
  assumes "inv_sound U Ks d"
  shows "distinct (map ds_key xs) \<Longrightarrow> \<forall>x \<in> set xs. ds_Accessible x \<Longrightarrow> inv_sound U Ks (d\<lparr>idb_stores := xs\<rparr>)"
    and "distinct (map nw_key ns) \<Longrightarrow> \<forall>x \<in> set ns. nw_Accessible x \<Longrightarrow> inv_sound U Ks (d\<lparr>idb_networks := ns\<rparr>)"
    and "distinct (map cl_key cs) \<Longrightarrow> inv_sound U Ks (d\<lparr>idb_clusters := cs\<rparr>)"
    and "distinct (map ho_key hs) \<Longrightarrow> inv_sound U Ks (d\<lparr>idb_hosts := hs\<rparr>)"
    and "distinct (map sh_HypervisorID ss) \<Longrightarrow> inv_sound U Ks (d\<lparr>idb_health := ss\<rparr>)"
  using assms by (simp_all add: inv_sound_defs)

lemma keeps_batch_stmt:
  assumes "\<And>rows n d. inv_sound U Ks d \<Longrightarrow> bulk_upsert key merge (get d) (map (\<lambda>(k, x). prepare (n + k) x) (enumerate 0 xs)) = Some rows \<Longrightarrow>
        inv_sound U Ks (put rows d) \<and> hv_ids (put rows d) = hv_ids d"
    and "\<And>d n. get (d\<lparr>idb_next := n\<rparr>) = get d"
  shows "inv_keeps U Ks d (fst (batch_stmt key merge get put prepare xs d))"
proof -
  have "inv_sound U Ks (put rows (d\<lparr>idb_next := idb_next d + m\<rparr>)) \<and> hv_ids (put rows (d\<lparr>idb_next := idb_next d + m\<rparr>)) = hv_ids d"
    if "inv_sound U Ks d" "bulk_upsert key merge (get d) (map (\<lambda>(k, x). prepare (n + k) x) (enumerate 0 xs)) = Some rows" for rows d n m
    using assms(1) [of "d\<lparr>idb_next := idb_next d + m\<rparr>" n rows] inv_sound_next [OF that(1), of "idb_next d + m"] that(2) by (simp add: assms(2))
  then show ?thesis
    unfolding batch_stmt_def
    by (simp, intro impI inv_keeps_stmt) (auto split: option.splits)
qed

lemma inv_sound_distinct:
  assumes "inv_sound U Ks d"
  shows "distinct (map ds_key (idb_stores d))" "distinct (map nw_key (idb_networks d))" "distinct (map cl_key (idb_clusters d))"
    "distinct (map ho_key (idb_hosts d))" "distinct (map sh_HypervisorID (idb_health d))"
    "distinct (map hv_ID (idb_hypervisors d))" "distinct (map vm_key (idb_vms d))"
  using assms by (simp_all add: inv_sound_def unique_keys_def)

lemma inv_sound_accessible:
  assumes "inv_sound U Ks d"
  shows "\<forall>x \<in> set (idb_stores d). ds_Accessible x" "\<forall>x \<in> set (idb_networks d). nw_Accessible x"
  using assms by (simp_all add: inv_sound_def all_accessible_def)

lemma hv_ids_tables [simp]:
  "hv_ids (d\<lparr>idb_stores := xs\<rparr>) = hv_ids d" "hv_ids (d\<lparr>idb_networks := ns\<rparr>) = hv_ids d" "hv_ids (d\<lparr>idb_clusters := cs\<rparr>) = hv_ids d"
  "hv_ids (d\<lparr>idb_hosts := hs\<rparr>) = hv_ids d" "hv_ids (d\<lparr>idb_health := ss\<rparr>) = hv_ids d"
  by (simp_all add: hv_ids_def)

text \<open>The batches of a table whose rows all satisfy \<open>Q\<close>.\<close>

lemma keeps_batch_table:
  assumes "upsert_table key merge" "\<And>x r. Q x \<Longrightarrow> Q r \<Longrightarrow> Q (merge x r)" "\<And>n x. Q (prepare n x)"
    and table: "\<And>d. inv_sound U Ks d \<Longrightarrow> distinct (map key (get d)) \<and> (\<forall>x \<in> set (get d). Q x)"
    and put: "\<And>rows d. inv_sound U Ks d \<Longrightarrow> distinct (map key rows) \<Longrightarrow> \<forall>x \<in> set rows. Q x \<Longrightarrow> inv_sound U Ks (put rows d)"
    and "\<And>d n. get (d\<lparr>idb_next := n\<rparr>) = get d" "\<And>rows d. hv_ids (put rows d) = hv_ids d"
  shows "inv_keeps U Ks d (fst (batch_stmt key merge get put prepare xs d))"
proof (rule keeps_batch_stmt)
  fix rows n and d :: inv_db
  let ?news = "map (\<lambda>(k, x). prepare (n + k) x) (enumerate 0 xs)"
  assume d: "inv_sound U Ks d" and rows: "bulk_upsert key merge (get d) ?news = Some rows"
  note distinct = upsert_table.distinct_bulk [OF assms(1) _ rows]
  have Q: "\<forall>r \<in> set ?news. Q r" using assms(3) by auto
  from rows have "rows = foldl (upsert_row key merge) (get d) ?news" by (simp add: bulk_upsert_def split: if_splits)
  with foldl_upsert_all [where Q = Q and merge = merge and key = key and rows = "get d", OF assms(2) _ Q] table [OF d]
  have "\<forall>x \<in> set rows. Q x" by simp
  with distinct table [OF d] put [OF d] assms(7)
  show "inv_sound U Ks (put rows d) \<and> hv_ids (put rows d) = hv_ids d" by simp
qed (rule assms(6))

lemma keeps_ds_BulkUpsert: "inv_keeps U Ks d (fst (ds_BulkUpsert U xs d))"
  unfolding ds_BulkUpsert_def
  by (rule keeps_batch_table [where Q = ds_Accessible, OF ds_table.upsert_table_axioms])
    (simp_all add: inv_sound_tables inv_sound_distinct inv_sound_accessible ds_merge_def)

lemma keeps_nw_BulkUpsert: "inv_keeps U Ks d (fst (nw_BulkUpsert U xs d))"
  unfolding nw_BulkUpsert_def
  by (rule keeps_batch_table [where Q = nw_Accessible, OF nw_table.upsert_table_axioms])
    (simp_all add: inv_sound_tables inv_sound_distinct inv_sound_accessible nw_merge_def)

lemma keeps_cl_BulkUpsert: "inv_keeps U Ks d (fst (cl_BulkUpsert U xs d))"
  unfolding cl_BulkUpsert_def
  by (rule keeps_batch_table [where Q = "\<lambda>_. True", OF cl_table.upsert_table_axioms]) (simp_all add: inv_sound_tables inv_sound_distinct)

lemma keeps_ho_BulkUpsert: "inv_keeps U Ks d (fst (ho_BulkUpsert U xs d))"
  unfolding ho_BulkUpsert_def
  by (rule keeps_batch_table [where Q = "\<lambda>_. True", OF ho_table.upsert_table_axioms]) (simp_all add: inv_sound_tables inv_sound_distinct)

lemma keeps_health_Upsert: "inv_keeps U Ks d (fst (health_Upsert h d))"
  unfolding health_Upsert_def
  by (rule inv_keeps_stmt) (simp add: inv_sound_tables health_table.distinct_upsert_row inv_sound_distinct)

text \<open>Two statements, the second only when the first succeeded.\<close>

lemma keeps_then:
  assumes "inv_keeps U Ks d (fst r)" "\<And>d x. inv_keeps U Ks d (fst (g d x))"
  shows "inv_keeps U Ks d (fst (case r of (d, y) \<Rightarrow> (case y of Inl e \<Rightarrow> (d, f e) | Inr x \<Rightarrow> g d x)))"
  using assms by (cases r; cases "snd r") (auto intro: inv_keeps_trans)

text \<open>A statement that writes nothing the invariant speaks of.\<close>

lemma keeps_stmt_read: "(\<And>d. inv_sound U Ks (fst (f d)) = inv_sound U Ks d \<and> hv_ids (fst (f d)) = hv_ids d) \<Longrightarrow> inv_keeps U Ks d (fst (inv_stmt f d))"
  by (rule inv_keeps_stmt) simp

lemma keeps_reads:
  "inv_keeps U Ks d (fst (ds_List i d))" "inv_keeps U Ks d (fst (nw_List i d))" "inv_keeps U Ks d (fst (cl_List i d))"
  "inv_keeps U Ks d (fst (ListProviderIDs i d))" "inv_keeps U Ks d (fst (health_GetByHypervisorID i d))"
  by (auto simp: ds_List_def nw_List_def cl_List_def ListProviderIDs_def health_GetByHypervisorID_def intro!: keeps_stmt_read keeps_then)

lemma keeps_GetByID: "inv_keeps U Ks d (fst (hv_repo_GetByID i d))"
  unfolding hv_repo_GetByID_def by (intro keeps_then keeps_stmt_read) simp_all

lemma inv_sound_hv_map:
  assumes "\<And>h. hv_ID (f h) = hv_ID h"
  shows "inv_sound U Ks (d\<lparr>idb_hypervisors := map f (idb_hypervisors d)\<rparr>) = inv_sound U Ks d"
    and "hv_ids (d\<lparr>idb_hypervisors := map f (idb_hypervisors d)\<rparr>) = hv_ids d"
  using assms by (simp_all add: inv_sound_defs comp_def image_image)

lemma keeps_UpdateConnectionStatus: "inv_keeps U Ks d (fst (UpdateConnectionStatus i st d))"
  unfolding UpdateConnectionStatus_def by (rule keeps_stmt_read) (simp add: inv_sound_hv_map)

lemma keeps_hv_repo_Update: "inv_keeps U Ks d (fst (hv_repo_Update h d))"
  unfolding hv_repo_Update_def by (rule keeps_stmt_read) (simp add: inv_sound_hv_map)

lemma keeps_map_hosts:
  assumes "\<And>d x. ho_key (f d x) = ho_key x"
  shows "inv_keeps U Ks d (fst (inv_stmt (\<lambda>d. (d\<lparr>idb_hosts := map (f d) (idb_hosts d)\<rparr>, Inr ())) d))"
  by (rule inv_keeps_stmt) (simp add: inv_sound_tables inv_sound_distinct comp_def assms)

lemma keeps_UpdateVMCount: "inv_keeps U Ks d (fst (UpdateVMCount i d))"
  unfolding UpdateVMCount_def by (intro keeps_then keeps_map_hosts) (simp_all add: ho_key_def)

subsection \<open>The operations\<close>

lemma keeps_frame [simp]:
  "inv_keeps U Ks d (progress pct msg d') = inv_keeps U Ks d d'"
  "inv_keeps U Ks d (inv_audit action i descr ok d') = inv_keeps U Ks d d'"
  "inv_keeps U Ks d (d'\<lparr>idb_events := ev\<rparr>) = inv_keeps U Ks d d'"
  "inv_keeps U Ks d (d'\<lparr>idb_tasks := tt\<rparr>) = inv_keeps U Ks d d'"
  by (simp_all add: inv_keeps_def progress_def inv_audit_def)

lemma keeps_next: "inv_keeps U Ks d (d\<lparr>idb_next := idb_next d + n\<rparr>)"
  by (simp add: inv_keeps_def inv_sound_next)

lemma keeps_case_option: "(x = None \<Longrightarrow> inv_keeps U Ks d (fst a)) \<Longrightarrow> (\<And>y. x = Some y \<Longrightarrow> inv_keeps U Ks d (fst (b y))) \<Longrightarrow>
    inv_keeps U Ks d (fst (case x of None \<Rightarrow> a | Some y \<Rightarrow> b y))"
  by (cases x) simp_all

lemma keeps_case_sum: "(\<And>e. inv_keeps U Ks d (fst (a e))) \<Longrightarrow> (\<And>y. inv_keeps U Ks d (fst (b y))) \<Longrightarrow>
    inv_keeps U Ks d (fst (case x of Inl e \<Rightarrow> a e | Inr y \<Rightarrow> b y))"
  by (cases x) simp_all

lemma keeps_hypervisor_Update: "inv_keeps U Ks d (fst (hypervisor_Update B i req d))"
  unfolding hypervisor_Update_def Let_def
  by (intro keeps_then keeps_GetByID keeps_case_sum keeps_hv_repo_Update) (simp_all add: keeps_hv_repo_Update)

lemma keeps_TestConnection: "inv_keeps U Ks d (fst (TestConnection B reg i d))"
  unfolding TestConnection_def Let_def
  by (intro keeps_then keeps_GetByID keeps_case_sum keeps_case_option) (simp_all add: keeps_UpdateConnectionStatus)

lemma keeps_task_Create:
  "inv_keeps U Ks d (fst (inv_stmt (\<lambda>d. case Create t (idb_tasks d) of
      (tt, Some e) \<Rightarrow> (d\<lparr>idb_tasks := tt\<rparr>, Inl e) | (tt, None) \<Rightarrow> (d\<lparr>idb_tasks := tt\<rparr>, Inr ())) d))"
  by (rule keeps_stmt_read) (simp split: prod.split option.split)

lemma keeps_SyncInventory: "inv_keeps U Ks d (fst (SyncInventory U now caller i d))"
  unfolding SyncInventory_def Let_def
  by (rule keeps_then, rule keeps_GetByID, rule inv_keeps_trans [OF keeps_next], rule keeps_then, rule keeps_task_Create) simp

lemma keeps_updateHealth: "inv_keeps U Ks d (updateHealthAfterSync now i st n d)"
proof -
  have "inv_keeps U Ks d (fst (case health_GetByHypervisorID i d of (d, y) \<Rightarrow> (case y of Inl (e :: go_error) \<Rightarrow> (d, Inl e) | Inr h \<Rightarrow>
      health_Upsert (h\<lparr>sh_LastSyncAt := Some now, sh_LastSyncStatus := st, sh_VMCount := n,
            sh_SyncFailures24h := (if st = ''failed'' then sh_SyncFailures24h h + 1 else sh_SyncFailures24h h)\<rparr>) d)))"
    by (intro keeps_then keeps_reads keeps_health_Upsert)
  then show ?thesis by (simp add: updateHealthAfterSync_def split: prod.splits sum.splits split del: if_split)
qed

subsection \<open>The synchronisation\<close>

lemma keeps_result: "inv_keeps U Ks d (fst r) \<Longrightarrow> inv_keeps U Ks d (fst (case r of (d, y) \<Rightarrow> (case y of Inl e \<Rightarrow> (d, a e) | Inr x \<Rightarrow> (d, b x))))"
  by (cases r; cases "snd r") auto

lemma keeps_sync_vms:
  assumes "uuid_or_nil U i \<in> hv_ids d"
  shows "inv_keeps U Ks d (fst (sync_vms U i infos (d, r)))"
proof -
  let ?vms = "map (\<lambda>info. mapVMInfoToModel info (uuid_or_nil U i)) infos"
  have "inv_keeps U Ks d (fst (vm_BulkUpsert U ?vms d))"
    by (rule keeps_vm_BulkUpsert) (use assms in \<open>auto simp: mapVMInfoToModel_def\<close>)
  moreover have "inv_keeps U Ks d1 d2" if "MarkDeletedByProviderIDs i ids d1 = (d2, x)" for d1 d2 ids x
    using keeps_MarkDeleted [of U Ks d1 i ids] that by simp
  ultimately show ?thesis
    unfolding sync_vms_def Let_def prod.case
    by (auto split: prod.splits sum.splits intro: inv_keeps_trans)
qed

lemma keeps_sync_tables:
  "inv_keeps U Ks d (fst (sync_stores U i ds (d, r)))" "inv_keeps U Ks d (fst (sync_networks U i ns (d, r)))"
  "inv_keeps U Ks d (sync_clusters U i cs d)"
  using keeps_ds_BulkUpsert [of U Ks d "map (ds_model i) ds"] keeps_nw_BulkUpsert [of U Ks d "map (nw_model i) ns"]
  by (auto simp: sync_stores_def sync_networks_def sync_clusters_def keeps_cl_BulkUpsert intro: keeps_result)

lemma keeps_sync_hosts: "inv_keeps U Ks d (sync_hosts U i infos d)"
proof -
  have "inv_keeps U Ks d (case ho_BulkUpsert U hs d of (d, Inl _) \<Rightarrow> d | (d, Inr _) \<Rightarrow> fst (UpdateVMCount i d))" for hs d
    using keeps_ho_BulkUpsert [of U Ks d hs] keeps_UpdateVMCount [of U Ks _ i]
    by (cases "ho_BulkUpsert U hs d") (auto split: sum.splits intro: inv_keeps_trans)
  then show ?thesis
    using keeps_reads(3) [of U Ks d i] unfolding sync_hosts_def Let_def by (cases "cl_List i d") (auto intro: inv_keeps_trans)
qed

lemma keeps_store_snapshot:
  assumes "uuid_or_nil U i \<in> hv_ids d"
  shows "inv_keeps U Ks d (fst (store_snapshot U i h snap d))"
proof -
  define r where "r = \<lparr>sr_HypervisorID = i, sr_VMsUpdated = 0, sr_VMsRemoved = 0, sr_StoresUpserted = 0, sr_NetworksUpserted = 0, sr_Errors = []\<rparr>"
  define pd where "pd = progress 40 (''discovered '' @ Itoa (int (length (is_VMs snap))) @ '' VMs, '' @ Itoa (int (length (is_DataStores snap)))
                @ '' datastores, '' @ Itoa (int (length (is_Networks snap))) @ '' networks'') d"
  obtain d1 r1 where 1: "sync_vms U i (is_VMs snap) (pd, r) = (d1, r1)" by (cases "sync_vms U i (is_VMs snap) (pd, r)")
  obtain d2 r2 where 2: "sync_stores U i (is_DataStores snap) (progress 65 ''persisting datastores'' d1, r1) = (d2, r2)"
    by (cases "sync_stores U i (is_DataStores snap) (progress 65 ''persisting datastores'' d1, r1)")
  obtain d3 r3 where 3: "sync_networks U i (is_Networks snap) (progress 80 ''persisting networks'' d2, r2) = (d3, r3)"
    by (cases "sync_networks U i (is_Networks snap) (progress 80 ''persisting networks'' d2, r2)")
  define d4 where "d4 = sync_clusters U i (is_Clusters snap) (progress 85 ''persisting clusters'' d3)"
  define d5 where "d5 = sync_hosts U i (is_Hosts snap) (progress 88 ''persisting hosts'' d4)"
  have "hv_ids pd = hv_ids d" by (simp add: pd_def progress_def)
  with keeps_sync_vms [of U i pd] assms 1 have "inv_keeps U Ks pd d1" by (metis fst_conv)
  moreover have "inv_keeps U Ks d pd" by (simp add: pd_def)
  moreover have "inv_keeps U Ks (progress 65 ''persisting datastores'' d1) d2" using keeps_sync_tables(1) 2 by (metis fst_conv)
  moreover have "inv_keeps U Ks (progress 80 ''persisting networks'' d2) d3" using keeps_sync_tables(2) 3 by (metis fst_conv)
  moreover have "inv_keeps U Ks (progress 85 ''persisting clusters'' d3) d4" unfolding d4_def by (rule keeps_sync_tables(3))
  moreover have "inv_keeps U Ks (progress 88 ''persisting hosts'' d4) d5" unfolding d5_def by (rule keeps_sync_hosts)
  ultimately have "inv_keeps U Ks d d5" by (simp add: inv_keeps_def progress_def)
  then show ?thesis
    unfolding store_snapshot_def Let_def r_def [symmetric] pd_def [symmetric] 1 prod.case 2 3 d4_def [symmetric] d5_def [symmetric] by simp
qed

lemma GetByID_found: "hv_repo_GetByID i d = (d', Inr h) \<Longrightarrow> h \<in> set (idb_hypervisors d') \<and> hv_ID h = i"
  by (auto simp: hv_repo_GetByID_def inv_stmt_def find_Some_iff split: list.splits option.splits prod.splits sum.splits)

lemma keeps_SyncInventoryNow:
  assumes "\<And>d. inv_sound U Ks d \<Longrightarrow> i \<in> hv_ids d \<Longrightarrow> uuid_or_nil U i = i"
  shows "inv_keeps U Ks d (fst (SyncInventoryNow U B reg i d))"
proof (cases "hv_repo_GetByID i d")
  case (Pair d1 r)
  have k1: "inv_keeps U Ks d d1" using keeps_GetByID [of U Ks d i] Pair by simp
  show ?thesis
  proof (cases r)
    case (Inl e)
    with Pair k1 show ?thesis by (simp add: SyncInventoryNow_def)
  next
    case (Inr h)
    have i: "i \<in> hv_ids d1" using GetByID_found [of i d d1 h] Pair Inr by (auto simp: hv_ids_def)
    define d2 where "d2 st = fst (UpdateConnectionStatus i st (progress 5 ''connecting to hypervisor'' d1))" for st
    define d3 where "d3 = progress 15 ''fetching inventory from provider'' (d2 ConnectionStatusConnected)"
    have k2: "inv_keeps U Ks d1 (d2 st)" for st
      unfolding d2_def by (rule inv_keeps_trans [OF _ keeps_UpdateConnectionStatus]) simp
    have k3: "inv_keeps U Ks d1 d3" using k2 by (simp add: d3_def)
    have k4: "inv_keeps U Ks d (fst (store_snapshot U i h snap d3))" for snap
      unfolding inv_keeps_def
    proof
      assume "inv_sound U Ks d"
      with k1 k3 have *: "inv_sound U Ks d1" "inv_sound U Ks d3" "hv_ids d3 = hv_ids d1" "hv_ids d1 = hv_ids d" by (auto simp: inv_keeps_def)
      with assms [of d1] i have "uuid_or_nil U i \<in> hv_ids d3" by simp
      from keeps_store_snapshot [OF this] * show "inv_sound U Ks (fst (store_snapshot U i h snap d3)) \<and> hv_ids (fst (store_snapshot U i h snap d3)) = hv_ids d"
        by (auto simp: inv_keeps_def)
    qed
    have k5: "store_snapshot U i h snap d3 = (x, y) \<Longrightarrow> inv_keeps U Ks d x" for snap x y using k4 [of snap] by simp
    show ?thesis
      unfolding SyncInventoryNow_def Pair Inr Let_def prod.case sum.case d2_def [symmetric] d3_def [symmetric]
      using inv_keeps_trans [OF k1 k2] inv_keeps_trans [OF inv_keeps_trans [OF k1 k3] keeps_UpdateConnectionStatus] k1 k5
      by (auto split: sum.split option.split prod.split)
  qed
qed

subsection \<open>Registration and deletion change the set of hypervisors\<close>

context uuids
begin

lemma sound_hv_repo_Create: "inv_sound U Ks d \<Longrightarrow> inv_sound U Ks (fst (hv_repo_Create U h d))"
proof -
  have "inv_sound U Ks (d\<lparr>idb_hypervisors := idb_hypervisors d @ [h\<lparr>hv_ID := uuid_new U (idb_next d)\<rparr>], idb_next := idb_next d + 1\<rparr>)"
    if d: "inv_sound U Ks d" for d
  proof -
    have new: "uuid_new U (idb_next d) \<notin> old_ids U d" by (auto simp: old_ids_def new_eq_iff)
    have used: "old_ids U (d\<lparr>idb_hypervisors := hs, idb_next := idb_next d + 1\<rparr>) = insert (uuid_new U (idb_next d)) (old_ids U d)" for hs
      by (auto simp: old_ids_def lessThan_Suc)
    let ?d = "d\<lparr>idb_hypervisors := idb_hypervisors d @ [h\<lparr>hv_ID := uuid_new U (idb_next d)\<rparr>], idb_next := idb_next d + 1\<rparr>"
    have ids: "hv_ids ?d = insert (uuid_new U (idb_next d)) (hv_ids d)" by (auto simp: hv_ids_def)
    have "dead U ?d K" if "dead U d K" for K
      using that new unfolding dead_def used ids by auto
    moreover have "unique_keys ?d" using d new by (auto simp: inv_sound_def unique_keys_def hv_ids_def)
    moreover have "all_accessible ?d" using d by (simp add: inv_sound_def all_accessible_def)
    ultimately show ?thesis using d unfolding inv_sound_def used ids by auto
  qed
  from this [of d] this [of "d\<lparr>idb_faults := fs\<rparr>" for fs]
  show "inv_sound U Ks d \<Longrightarrow> ?thesis"
    by (auto simp: hv_repo_Create_def inv_stmt_def Let_def split: list.splits option.splits)
qed

lemma sound_hypervisor_Register: "inv_sound U Ks d \<Longrightarrow> inv_sound U Ks (fst (hypervisor_Register U B reg req d))"
  using sound_hv_repo_Create [of Ks d]
  by (auto simp: hypervisor_Register_def Let_def inv_audit_def split: sum.splits prod.splits) (metis fst_conv)+

lemma keeps_sync: "inv_keeps U Ks d (fst (SyncInventoryNow U B reg i d))"
  by (rule keeps_SyncInventoryNow) (auto simp: inv_sound_def old_ids_def)

end

subsection \<open>Deletion erases a hypervisor and all that belongs to it\<close>

definition erase :: "string \<Rightarrow> inv_db \<Rightarrow> inv_db" where
  "erase i d =
     (let own = tk_ID ` set (filter (\<lambda>t. tk_HypervisorID t = Some i) (tt_rows (idb_tasks d)))
      in d\<lparr>idb_hypervisors := filter (\<lambda>x. hv_ID x \<noteq> i) (idb_hypervisors d), idb_vms := filter (\<lambda>v. vm_HypervisorID v \<noteq> i) (idb_vms d),
           idb_stores := filter (\<lambda>x. ds_HypervisorID x \<noteq> i) (idb_stores d), idb_networks := filter (\<lambda>x. nw_HypervisorID x \<noteq> i) (idb_networks d),
           idb_clusters := filter (\<lambda>x. cl_HypervisorID x \<noteq> i) (idb_clusters d), idb_hosts := filter (\<lambda>x. ho_HypervisorID x \<noteq> i) (idb_hosts d),
           idb_health := filter (\<lambda>x. sh_HypervisorID x \<noteq> i) (idb_health d),
           idb_tasks := (idb_tasks d)\<lparr>tt_rows := map (\<lambda>t. t\<lparr>tk_ParentTaskID := (if tk_ParentTaskID t \<in> Some ` own then None else tk_ParentTaskID t),
             tk_HypervisorID := (if tk_HypervisorID t = Some i then None else tk_HypervisorID t)\<rparr>) (tt_rows (idb_tasks d))\<rparr>\<rparr>)"

lemma foldl_faults:
  assumes "\<And>s d. s \<in> set steps \<Longrightarrow> snd s (d\<lparr>idb_faults := fs\<rparr>) = (snd s d)\<lparr>idb_faults := fs\<rparr>"
  shows "foldl (\<lambda>d s. snd s d) (d\<lparr>idb_faults := fs\<rparr>) steps = (foldl (\<lambda>d s. snd s d) d steps)\<lparr>idb_faults := fs\<rparr>"
  using assms by (induction steps arbitrary: d) simp_all

lemma transaction_outcome:
  assumes "\<And>s d fs. s \<in> set steps \<Longrightarrow> snd s (d\<lparr>idb_faults := fs\<rparr>) = (snd s d)\<lparr>idb_faults := fs\<rparr>"
  shows "\<exists>fs. case inv_transaction steps d of (d', Inl e) \<Rightarrow> True
      | (d', Inr x) \<Rightarrow> d' = (foldl (\<lambda>d s. snd s d) d steps)\<lparr>idb_faults := fs\<rparr>"
  using assms
proof (induction steps arbitrary: d)
  case Nil
  show ?case by (intro exI [of _ "idb_faults d"]) simp
next
  case (Cons s steps)
  obtain what f where s: "s = (what, f)" by (cases s)
  have f: "f (d\<lparr>idb_faults := fs\<rparr>) = (f d)\<lparr>idb_faults := fs\<rparr>" for d fs using Cons.prems [of s] s by simp
  have fold: "foldl (\<lambda>d s. snd s d) (d\<lparr>idb_faults := fs\<rparr>) steps = (foldl (\<lambda>d s. snd s d) d steps)\<lparr>idb_faults := fs\<rparr>" for d fs
    by (rule foldl_faults) (simp add: Cons.prems)
  have IH: "\<exists>fs. case inv_transaction steps d of (d', Inl e) \<Rightarrow> True
      | (d', Inr x) \<Rightarrow> d' = (foldl (\<lambda>d s. snd s d) d steps)\<lparr>idb_faults := fs\<rparr>" for d
    by (rule Cons.IH) (simp add: Cons.prems)
  show ?case
  proof (cases "idb_faults d")
    case Nil
    with IH [of "f d"] s show ?thesis by (auto simp: inv_stmt_def split: prod.splits sum.splits)
  next
    case (Cons x fs)
    with IH [of "f (d\<lparr>idb_faults := fs\<rparr>)"] s show ?thesis
      by (cases x) (auto simp: inv_stmt_def f fold split: prod.splits sum.splits)
  qed
qed

lemma delete_erases: "foldl (\<lambda>d s. snd s d) d (delete_steps i) = erase i d"
proof -
  have "map (\<lambda>t. if tk_HypervisorID t = Some i then t\<lparr>tk_HypervisorID := None\<rparr> else t)
      (map (\<lambda>t. if tk_ParentTaskID t \<in> own then t\<lparr>tk_ParentTaskID := None\<rparr> else t) ts) =
    map (\<lambda>t. t\<lparr>tk_ParentTaskID := (if tk_ParentTaskID t \<in> own then None else tk_ParentTaskID t),
      tk_HypervisorID := (if tk_HypervisorID t = Some i then None else tk_HypervisorID t)\<rparr>) ts" for own and ts :: "Task list"
    by (auto simp: comp_def)
  note tasks = this
  show ?thesis unfolding delete_steps_def erase_def map_tasks_def Let_def by (simp add: tasks del: map_map map_eq_conv)
qed

lemma hv_repo_Delete_outcome:
  "\<exists>fs. case hv_repo_Delete i d of (d', Inl e) \<Rightarrow> d' = d\<lparr>idb_faults := fs\<rparr> | (d', Inr x) \<Rightarrow> d' = (erase i d)\<lparr>idb_faults := fs\<rparr>"
proof -
  have "snd s (d\<lparr>idb_faults := fs\<rparr>) = (snd s d)\<lparr>idb_faults := fs\<rparr>" if "s \<in> set (delete_steps i)" for s d fs
    using that by (auto simp: delete_steps_def map_tasks_def)
  from transaction_outcome [of "delete_steps i" d, OF this] show ?thesis
    unfolding delete_erases by (auto simp: hv_repo_Delete_def split: prod.splits sum.splits)
qed

lemma distinct_map_filter: "distinct (map f xs) \<Longrightarrow> distinct (map f (filter P xs))"
  by (induction xs) auto

lemma sound_erase:
  assumes d: "inv_sound U Ks d"
  shows "inv_sound U Ks (erase i d)"
proof -
  have ids: "hv_ids (erase i d) = hv_ids d - {i}" by (auto simp: hv_ids_def erase_def Let_def)
  have old: "old_ids U (erase i d) = old_ids U d" by (simp add: old_ids_def erase_def Let_def)
  have vms: "idb_vms (erase i d) = filter (\<lambda>v. vm_HypervisorID v \<noteq> i) (idb_vms d)" by (simp add: erase_def Let_def)
  have "dead U (erase i d) K" if "dead U d K" for K
  proof (cases "fst K = i")
    case True
    moreover from that d have "fst K \<in> old_ids U d" by (auto simp: dead_def inv_sound_def vm_key_def)
    ultimately show ?thesis by (auto simp: dead_def ids old vms vm_key_def)
  next
    case False
    with that show ?thesis by (auto simp: dead_def ids old vms vm_key_def)
  qed
  moreover have "unique_keys (erase i d)" using d by (auto simp: inv_sound_def unique_keys_def erase_def Let_def intro: distinct_map_filter)
  moreover have "all_accessible (erase i d)" using d by (auto simp: inv_sound_def all_accessible_def erase_def Let_def)
  ultimately show ?thesis using d by (auto simp: inv_sound_def ids old vms)
qed

lemma hypervisor_Delete_outcome:
  obtains (failed) e fs where "hypervisor_Delete i d = (d\<lparr>idb_faults := fs\<rparr>, Inl e)"
    | (deleted) fs where "hypervisor_Delete i d = (inv_audit ''delete'' i '''' True ((erase i d)\<lparr>idb_faults := fs\<rparr>), Inr ())"
proof -
  obtain d' r where r: "hv_repo_Delete i d = (d', r)" by (cases "hv_repo_Delete i d")
  show thesis
    using hv_repo_Delete_outcome [where i = i and d = d] r failed deleted
    by (cases r) (auto simp: hypervisor_Delete_def)
qed

lemma sound_hypervisor_Delete: "inv_sound U Ks d \<Longrightarrow> inv_sound U Ks (fst (hypervisor_Delete i d))"
  by (cases rule: hypervisor_Delete_outcome [of i d]) (simp_all add: inv_audit_def sound_erase)

context uuids
begin

lemma sound_inv_step: "inv_sound U Ks d \<Longrightarrow> inv_sound U Ks (inv_step U B d x)"
  using sound_hypervisor_Register sound_hypervisor_Delete keeps_hypervisor_Update [of U Ks d B] keeps_TestConnection [of U Ks d B]
    keeps_SyncInventory [of U Ks d] keeps_sync [of Ks d B] keeps_updateHealth [of U Ks d]
  by (cases x) (simp_all add: inv_keeps_def)

lemma sound_empty: "inv_sound U {} empty_inv_db"
  by (simp add: inv_sound_defs empty_inv_db_def)

lemma inventory: "component empty_inv_db (inv_step U B) (inv_sound U {})"
  by unfold_locales (rule sound_empty, rule sound_inv_step)

lemma sound_inv_run: "inv_sound U Ks d \<Longrightarrow> inv_sound U Ks (run (inv_step U B) d ops)"
  by (induction ops arbitrary: d) (simp_all add: sound_inv_step)

end

lemmas inventory_reachable = component.inv_reachable [OF uuids.inventory]

section \<open>What a synchronisation without faults does to the machines\<close>

definition reported_rows :: "uuid_lib \<Rightarrow> string \<Rightarrow> VMInfo list \<Rightarrow> nat \<Rightarrow> VMRow list" where
  "reported_rows U i infos n = map (\<lambda>(k, info). (mapVMInfoToModel info i)\<lparr>vm_ID := uuid_new U (n + k)\<rparr>) (enumerate 0 infos)"

definition mark_gone :: "string \<Rightarrow> VMInfo list \<Rightarrow> VMRow \<Rightarrow> VMRow" where
  "mark_gone i infos v = (if vm_HypervisorID v = i \<and> vm_ProviderVMID v \<notin> vi_ProviderVMID ` set infos \<and> \<not> vm_Deleted v
     then v\<lparr>vm_Deleted := True\<rparr> else v)"

lemma reported_row: "r \<in> set (reported_rows U i infos n) \<Longrightarrow>
    \<exists>info \<in> set infos. vm_key r = (i, vi_ProviderVMID info) \<and> vm_HypervisorID r = i \<and> vm_ProviderVMID r = vi_ProviderVMID info \<and> \<not> vm_Deleted r \<and>
      (\<forall>old. vm_merge old r = vm_merge old (mapVMInfoToModel info i)) \<and> vm_merge r (mapVMInfoToModel info i) = r"
  by (force simp: reported_rows_def in_set_enumerate_eq vm_key_def mapVMInfoToModel_def vm_merge_def)

lemma reported_keys: "map vm_key (reported_rows U i infos n) = map (\<lambda>info. (i, vi_ProviderVMID info)) infos"
  unfolding reported_rows_def
  by (rule nth_equalityI) (simp_all add: nth_enumerate_eq vm_key_def mapVMInfoToModel_def)

lemma keys_reported: "vm_key ` set (reported_rows U i infos n) = Pair i ` vi_ProviderVMID ` set infos"
  unfolding set_map [symmetric] reported_keys by auto

lemma distinct_reported: "distinct (map vi_ProviderVMID infos) \<Longrightarrow> distinct (map vm_key (reported_rows U i infos n))"
  unfolding reported_keys by (auto simp: distinct_map inj_on_def)

lemma sync_vms_clean:
  assumes "idb_faults d = []" "infos \<noteq> []" "distinct (map vi_ProviderVMID infos)" "uuid_or_nil U i = i"
  defines "rows \<equiv> foldl (upsert_row vm_key vm_merge) (idb_vms d) (reported_rows U i infos (idb_next d))"
  shows "sync_vms U i infos (d, r) =
    (d\<lparr>idb_vms := map (mark_gone i infos) rows, idb_next := idb_next d + length infos\<rparr>,
     r\<lparr>sr_VMsUpdated := int (length infos),
       sr_VMsRemoved := int (length (filter (\<lambda>v. vm_HypervisorID v = i \<and> vm_ProviderVMID v \<notin> vi_ProviderVMID ` set infos \<and> \<not> vm_Deleted v)
         (idb_vms d)))\<rparr>)"
proof -
  have news: "map (\<lambda>(k, v). v\<lparr>vm_ID := uuid_new U (idb_next d + k)\<rparr>) (enumerate 0 (map (\<lambda>info. mapVMInfoToModel info i) infos)) =
      reported_rows U i infos (idb_next d)"
    unfolding reported_rows_def by (rule nth_equalityI) (simp_all add: nth_enumerate_eq)
  have upsert: "vm_BulkUpsert U (map (\<lambda>info. mapVMInfoToModel info i) infos) d =
      (d\<lparr>idb_vms := rows, idb_next := idb_next d + length infos\<rparr>, Inr ())"
    using assms(1,2) unfolding vm_BulkUpsert_def Let_def inv_stmt_def rows_def
    by (simp add: news vm_table.bulk_Some [OF distinct_reported [OF assms(3)]])
  have "filter (\<lambda>v. vm_HypervisorID v = i \<and> vm_ProviderVMID v \<notin> vi_ProviderVMID ` set infos \<and> \<not> vm_Deleted v) rows =
      filter (\<lambda>v. vm_HypervisorID v = i \<and> vm_ProviderVMID v \<notin> vi_ProviderVMID ` set infos \<and> \<not> vm_Deleted v) (idb_vms d)"
    unfolding rows_def by (rule filter_foldl_upsert) (auto dest!: reported_row simp: vm_key_def vm_merge_def)
  then show ?thesis
    using assms(1,2,4)
    by (simp add: sync_vms_def Let_def upsert MarkDeletedByProviderIDs_def inv_stmt_def mark_gone_def [abs_def])
qed

text \<open>The machines of a hypervisor that are live, and those whose rows are marked as deleted.\<close>

definition vms_of :: "bool \<Rightarrow> string \<Rightarrow> VMRow list \<Rightarrow> string set" where
  "vms_of deleted i vs = vm_ProviderVMID ` {v \<in> set vs. vm_HypervisorID v = i \<and> vm_Deleted v = deleted}"

lemma vms_of_iff: "p \<in> vms_of b i vs \<longleftrightarrow> (\<exists>v \<in> set vs. vm_key v = (i, p) \<and> vm_Deleted v = b)"
  by (auto simp: vms_of_def vm_key_def)

text \<open>The columns of a row are those of a report.\<close>

definition shows_report :: "VMInfo \<Rightarrow> VMRow \<Rightarrow> bool" where
  "shows_report info v \<longleftrightarrow> vm_Name v = vi_Name info \<and> vm_Status v = vi_Status info \<and> vr_CPUCount v = vi_CPUCount info \<and>
     vr_MemoryMB v = vi_MemoryMB info \<and> vr_DiskGB v = vi_DiskGB info \<and> vr_IPAddresses v = vi_IPAddresses info \<and>
     vr_MACAddress v = vi_MACAddress info \<and> vr_NetworkName v = vi_NetworkName info \<and> vr_GuestOS v = vi_GuestOS info \<and>
     vr_GuestOSType v = vi_GuestOSType info \<and> vr_ToolsStatus v = vi_ToolsStatus info \<and> vr_Tags v = [] \<and>
     vr_Metadata v = (if vi_Extra info \<noteq> [] then Some (vi_Extra info) else None)"

lemma shows_report_merge: "shows_report info (vm_merge old (mapVMInfoToModel info i))"
  by (simp add: shows_report_def vm_merge_def mapVMInfoToModel_def)

lemma mark_gone_simps [simp]:
  "vm_HypervisorID (mark_gone i infos v) = vm_HypervisorID v" "vm_ProviderVMID (mark_gone i infos v) = vm_ProviderVMID v"
  "vm_key (mark_gone i infos v) = vm_key v" "shows_report info (mark_gone i infos v) = shows_report info v"
  by (simp_all add: mark_gone_def vm_key_def shows_report_def)

text \<open>A row after the upsert is an old row that was not reported, an old row with the report, or the row of a machine that is new.\<close>

lemma upserted_row:
  assumes "distinct (map vi_ProviderVMID infos)" "v \<in> set (foldl (upsert_row vm_key vm_merge) rows (reported_rows U i infos n))"
  obtains (other) "v \<in> set rows" "vm_key v \<notin> Pair i ` vi_ProviderVMID ` set infos"
    | (merged) info old where "info \<in> set infos" "vm_key v = (i, vi_ProviderVMID info)" "old \<in> set rows" "vm_key old = vm_key v"
        "v = vm_merge old (mapVMInfoToModel info i)" "vm_Deleted v = vm_Deleted old" "shows_report info v"
    | (new) info where "info \<in> set infos" "vm_key v = (i, vi_ProviderVMID info)" "vm_key v \<notin> vm_key ` set rows" "\<not> vm_Deleted v" "shows_report info v"
proof -
  note keys = keys_reported [of U i infos n]
  have shown: "shows_report info (vm_merge old r)" if "vm_merge old r = vm_merge old (mapVMInfoToModel info i)" for info old r
    using that shows_report_merge by simp
  have "vm_Deleted (vm_merge old r) = vm_Deleted old" for old r by (simp add: vm_merge_def)
  with vm_table.foldl_cases [OF distinct_reported [OF assms(1)] assms(2)] keys other merged new show thesis
    using shows_report_merge by (metis reported_row)
qed

lemma vms_of_synced:
  fixes rows :: "VMRow list" and i :: string and U :: uuid_lib and n :: nat
  assumes "distinct (map vm_key rows)" "distinct (map vi_ProviderVMID infos)"
  defines "after \<equiv> map (mark_gone i infos) (foldl (upsert_row vm_key vm_merge) rows (reported_rows U i infos n))"
  shows "vms_of False i after = vi_ProviderVMID ` set infos - vms_of True i rows"
    and "\<forall>info \<in> set infos. \<exists>v \<in> set after. vm_key v = (i, vi_ProviderVMID info) \<and> shows_report info v"
    and "filter (\<lambda>v. vm_HypervisorID v \<noteq> i) after = filter (\<lambda>v. vm_HypervisorID v \<noteq> i) rows"
proof -
  let ?rows = "foldl (upsert_row vm_key vm_merge) rows (reported_rows U i infos n)"
  have keys: "vm_key ` set ?rows = vm_key ` set rows \<union> Pair i ` vi_ProviderVMID ` set infos"
    by (simp only: vm_table.keys_foldl keys_reported)
  have one: "x = y" if "x \<in> set rows" "y \<in> set rows" "vm_key x = vm_key y" for x y
    using assms(1) that by (auto simp: distinct_map dest: inj_onD)
  have row: "\<exists>v \<in> set ?rows. vm_key v = (i, vi_ProviderVMID info) \<and> shows_report info v \<and>
      (vm_Deleted v \<longleftrightarrow> vi_ProviderVMID info \<in> vms_of True i rows)" if "info \<in> set infos" for info
  proof -
    have "(i, vi_ProviderVMID info) \<in> vm_key ` set ?rows" unfolding keys using that by blast
    then obtain v where "v \<in> set ?rows" "(i, vi_ProviderVMID info) = vm_key v" by (rule imageE)
    then have v: "v \<in> set ?rows" "vm_key v = (i, vi_ProviderVMID info)" by simp_all
    from assms(2) v(1) show ?thesis
    proof (cases rule: upserted_row)
      case (merged info' old)
      then have "info' = info" using v(2) that assms(2) by (auto simp: distinct_map dest: inj_onD)
      moreover have "vm_Deleted old \<longleftrightarrow> vi_ProviderVMID info \<in> vms_of True i rows"
        unfolding vms_of_iff using merged(3,4) v(2) one [OF merged(3)] by metis
      ultimately show ?thesis using merged v by auto
    next
      case (new info')
      then have "info' = info" using v(2) that assms(2) by (auto simp: distinct_map dest: inj_onD)
      moreover have "vi_ProviderVMID info \<notin> vms_of True i rows" unfolding vms_of_iff using new(3) v(2) by (metis imageI)
      ultimately show ?thesis using new v by auto
    qed (use v that in auto)
  qed
  show "\<forall>info \<in> set infos. \<exists>v \<in> set after. vm_key v = (i, vi_ProviderVMID info) \<and> shows_report info v"
    unfolding after_def using row by fastforce
  have gone: "vm_Deleted (mark_gone i infos v) \<longleftrightarrow> vm_Deleted v \<or> p \<notin> vi_ProviderVMID ` set infos" if "vm_key v = (i, p)" for v p
    using that by (auto simp: mark_gone_def vm_key_def)
  have "p \<in> vms_of False i after \<longleftrightarrow> (\<exists>v \<in> set ?rows. vm_key v = (i, p) \<and> \<not> vm_Deleted v \<and> p \<in> vi_ProviderVMID ` set infos)" for p
    unfolding vms_of_iff after_def set_map bex_simps mark_gone_simps using gone [of _ p] by blast
  then have "vms_of False i after = {p. \<exists>v \<in> set ?rows. vm_key v = (i, p) \<and> \<not> vm_Deleted v \<and> p \<in> vi_ProviderVMID ` set infos}" by blast
  also have "\<dots> = vi_ProviderVMID ` set infos - vms_of True i rows"
  proof -
    have distinct: "distinct (map vm_key ?rows)" by (rule vm_table.distinct_foldl [OF assms(1)])
    then have "vm_Deleted v \<longleftrightarrow> vi_ProviderVMID info \<in> vms_of True i rows"
      if "info \<in> set infos" "v \<in> set ?rows" "vm_key v = (i, vi_ProviderVMID info)" for info v
      using row [OF that(1)] that by (metis distinct_map inj_onD)
    with row show ?thesis by fastforce
  qed
  finally show "vms_of False i after = vi_ProviderVMID ` set infos - vms_of True i rows" .
  have "filter (\<lambda>v. vm_HypervisorID v \<noteq> i) (map (mark_gone i infos) vs) = filter (\<lambda>v. vm_HypervisorID v \<noteq> i) vs" for vs
    by (induction vs) (auto simp: mark_gone_def)
  moreover have "filter (\<lambda>v. vm_HypervisorID v \<noteq> i) ?rows = filter (\<lambda>v. vm_HypervisorID v \<noteq> i) rows"
    by (rule filter_foldl_upsert) (auto dest!: reported_row simp: vm_key_def vm_merge_def)
  ultimately show "filter (\<lambda>v. vm_HypervisorID v \<noteq> i) after = filter (\<lambda>v. vm_HypervisorID v \<noteq> i) rows" by (simp add: after_def)
qed

text \<open>The other steps leave the machines and their counts alone.\<close>

lemma idb_vms_stmt: "(\<And>d. idb_vms (fst (f d)) = idb_vms d) \<Longrightarrow> idb_vms (fst (inv_stmt f d)) = idb_vms d"
  by (simp add: inv_stmt_def split: list.split option.split)

lemma idb_vms_batch:
  assumes "\<And>rows d. idb_vms (put rows d) = idb_vms d"
  shows "idb_vms (fst (batch_stmt key merge get put prepare xs d)) = idb_vms d"
proof -
  have "idb_vms (fst (inv_stmt (\<lambda>d. case bulk_upsert key merge (get d) (map (\<lambda>(k, x). prepare (idb_next d + k) x) (enumerate 0 xs)) of
          None \<Rightarrow> (d, Inl duplicate_in_batch)
        | Some rows \<Rightarrow> (put rows (d\<lparr>idb_next := idb_next d + length xs\<rparr>), Inr ())) d)) = idb_vms d"
    by (rule idb_vms_stmt) (simp add: assms split: option.split)
  then show ?thesis by (simp add: batch_stmt_def)
qed

lemma idb_vms_tables:
  "idb_vms (fst (ds_BulkUpsert U ds d)) = idb_vms d" "idb_vms (fst (nw_BulkUpsert U ns d)) = idb_vms d"
  "idb_vms (fst (cl_BulkUpsert U cs d)) = idb_vms d" "idb_vms (fst (ho_BulkUpsert U hs d)) = idb_vms d"
  "idb_vms (fst (cl_List i d)) = idb_vms d"
  by (simp_all add: ds_BulkUpsert_def nw_BulkUpsert_def cl_BulkUpsert_def ho_BulkUpsert_def cl_List_def idb_vms_batch idb_vms_stmt)

lemma idb_vms_then:
  assumes "idb_vms (fst r) = idb_vms d" "\<And>d x. idb_vms (fst (g d x)) = idb_vms d"
  shows "idb_vms (fst (case r of (d, y) \<Rightarrow> (case y of Inl e \<Rightarrow> (d, f e) | Inr x \<Rightarrow> g d x))) = idb_vms d"
  using assms by (cases r; cases "snd r") auto

lemma idb_vms_UpdateVMCount: "idb_vms (fst (UpdateVMCount i d)) = idb_vms d"
  unfolding UpdateVMCount_def by (intro idb_vms_then idb_vms_stmt) simp_all

lemma idb_vms_sync_tables:
  "idb_vms (fst (sync_stores U i ds st)) = idb_vms (fst st)" "idb_vms (fst (sync_networks U i ns st)) = idb_vms (fst st)"
  "idb_vms (sync_clusters U i cs d) = idb_vms d"
  using idb_vms_tables(1) [of U "map (ds_model i) ds" "fst st"] idb_vms_tables(2) [of U "map (nw_model i) ns" "fst st"]
  by (auto simp: sync_stores_def sync_networks_def sync_clusters_def idb_vms_tables(3) split: prod.splits sum.splits)

lemma idb_vms_sync_hosts: "idb_vms (sync_hosts U i infos d) = idb_vms d"
proof -
  have "idb_vms (case ho_BulkUpsert U hs d of (d, Inl _) \<Rightarrow> d | (d, Inr _) \<Rightarrow> fst (UpdateVMCount i d)) = idb_vms d" for hs d
    using idb_vms_tables(4) [of U hs d] idb_vms_UpdateVMCount by (cases "ho_BulkUpsert U hs d") (auto split: sum.splits)
  then show ?thesis
    using idb_vms_tables(5) [of i d] unfolding sync_hosts_def Let_def by (cases "cl_List i d") auto
qed

lemma counts_sync_tables:
  "sr_VMsUpdated (snd (sync_stores U i ds st)) = sr_VMsUpdated (snd st)" "sr_VMsRemoved (snd (sync_stores U i ds st)) = sr_VMsRemoved (snd st)"
  "sr_VMsUpdated (snd (sync_networks U i ns st)) = sr_VMsUpdated (snd st)" "sr_VMsRemoved (snd (sync_networks U i ns st)) = sr_VMsRemoved (snd st)"
  by (auto simp: sync_stores_def sync_networks_def split: prod.split sum.split)

lemma idb_vms_frame [simp]: "idb_vms (progress pct msg d) = idb_vms d" "idb_vms (inv_audit action i descr ok d) = idb_vms d"
  by (simp_all add: progress_def inv_audit_def)

lemma store_snapshot_vms:
  fixes snap :: InventorySnapshot and d :: inv_db and i :: string
  defines "gone \<equiv> \<lambda>v. vm_HypervisorID v = i \<and> vm_ProviderVMID v \<notin> vi_ProviderVMID ` set (is_VMs snap) \<and> \<not> vm_Deleted v"
  assumes "store_snapshot U i h snap d = (d', r)" "idb_faults d = []" "is_VMs snap \<noteq> []" "distinct (map vi_ProviderVMID (is_VMs snap))" "uuid_or_nil U i = i"
  shows "idb_vms d' = map (mark_gone i (is_VMs snap)) (foldl (upsert_row vm_key vm_merge) (idb_vms d) (reported_rows U i (is_VMs snap) (idb_next d)))"
    and "sr_VMsUpdated r = int (length (is_VMs snap))" and "sr_VMsRemoved r = int (length (filter gone (idb_vms d)))"
proof -
  have pd: "idb_faults (progress pct msg d) = []" "idb_next (progress pct msg d) = idb_next d" for pct msg
    using assms(3) by (simp_all add: progress_def)
  note clean = sync_vms_clean [OF pd(1) assms(4,5,6)]
  note defs = store_snapshot_def Let_def clean split_beta fst_conv snd_conv
  have d': "d' = fst (store_snapshot U i h snap d)" and r: "r = snd (store_snapshot U i h snap d)" using assms(2) by simp_all
  show "idb_vms d' = map (mark_gone i (is_VMs snap)) (foldl (upsert_row vm_key vm_merge) (idb_vms d) (reported_rows U i (is_VMs snap) (idb_next d)))"
    unfolding d' defs by (simp add: idb_vms_sync_tables idb_vms_sync_hosts pd)
  show "sr_VMsUpdated r = int (length (is_VMs snap))" unfolding r defs by (simp add: counts_sync_tables)
  show "sr_VMsRemoved r = int (length (filter gone (idb_vms d)))" unfolding r defs gone_def by (simp add: counts_sync_tables)
qed

lemma find_unique: "x \<in> set xs \<Longrightarrow> P x \<Longrightarrow> \<forall>y \<in> set xs. P y \<longrightarrow> y = x \<Longrightarrow> find P xs = Some x"
  by (cases "find P xs") (metis find_None_iff option.distinct(1), metis find_Some_iff nth_mem)

lemma build_fields [simp]:
  "cr_Host (buildHypervisorCredentials B h) = hv_Host h" "cr_Port (buildHypervisorCredentials B h) = hv_Port h"
  "cr_Username (buildHypervisorCredentials B h) = hv_Username h" "cr_TLSVerify (buildHypervisorCredentials B h) = hv_TLSVerify h"
  by (simp_all add: buildHypervisorCredentials_def Let_def split: option.split)

text \<open>A connected synchronisation that starts without faults is the storage of the snapshot, with the machines still untouched.\<close>

lemma SyncInventoryNow_stores:
  assumes "idb_faults d = []" "h \<in> set (idb_hypervisors d)" "hv_ID h = i" "distinct (map hv_ID (idb_hypervisors d))"
    and "Get reg (hv_Provider h) = Inr p" "pc_Connect p (buildHypervisorCredentials B h) = None" "pc_SyncInventory p = Inr snap"
  shows "\<exists>d1 d' r. SyncInventoryNow U B reg i d = (d', Inr r) \<and> store_snapshot U i h snap d1 = (d', r) \<and>
      idb_faults d1 = [] \<and> idb_vms d1 = idb_vms d \<and> idb_next d1 = idb_next d"
proof -
  have "find (\<lambda>x. hv_ID x = i) (idb_hypervisors d) = Some h"
    by (rule find_unique) (use assms(2-4) in \<open>auto simp: distinct_map dest: inj_onD\<close>)
  then have get: "hv_repo_GetByID i d = (d, Inr h)" using assms(1) by (simp add: hv_repo_GetByID_def inv_stmt_def)
  let ?d = "progress 5 ''connecting to hypervisor'' d"
  have "UpdateConnectionStatus i ConnectionStatusConnected ?d = (?d\<lparr>idb_hypervisors :=
      map (\<lambda>x. if hv_ID x = i then x\<lparr>hv_ConnectionStatus := ConnectionStatusConnected\<rparr> else x) (idb_hypervisors d)\<rparr>, Inr ())"
    using assms(1) by (simp add: UpdateConnectionStatus_def inv_stmt_def progress_def)
  then show ?thesis
    using assms(1,5-7) by (simp add: SyncInventoryNow_def get Let_def progress_def split: prod.split) fastforce
qed

context secret_store
begin

lemma build_decrypts:
  assumes "sb_Encrypt B plain = Inr (hv_EncryptedSecret h)"
  shows "cr_Password (buildHypervisorCredentials B h) = plain"
  using decrypts [OF assms] by (simp add: buildHypervisorCredentials_def Let_def split: option.split)

end

section \<open>Properties\<close>

text \<open>C7. Once a machine is marked as deleted, no sequence of operations and faults ever makes a machine with its identifier on
  this hypervisor live again: a synchronisation that finds the machine again counts it as updated, but leaves the deletion
  mark of its row.\<close>

theorem removed_machine_stays_removed:
  assumes "uuids U" "d = run (inv_step U B) empty_inv_db ops" "v \<in> set (idb_vms d)" "vm_Deleted v"
    and "w \<in> set (idb_vms (run (inv_step U B) d later))" "vm_key w = vm_key v"
  shows "vm_Deleted w"
proof -
  have d: "inv_sound U {} d" unfolding assms(2) by (rule inventory_reachable [OF assms(1)])
  have "x = v" if "x \<in> set (idb_vms d)" "vm_key x = vm_key v" for x
    using inv_sound_distinct(7) [OF d] that assms(3) by (auto simp: distinct_map dest: inj_onD)
  with assms(3,4) have "dead U d (vm_key v)" by (auto simp: dead_def)
  with d have "inv_sound U {vm_key v} d" by (simp add: inv_sound_def)
  then have "inv_sound U {vm_key v} (run (inv_step U B) d later)" by (rule uuids.sound_inv_run [OF assms(1)])
  with assms(5,6) show ?thesis by (auto simp: inv_sound_def dead_def)
qed

text \<open>No data store and no network is ever recorded as inaccessible, whatever the provider reports.\<close>

theorem inventory_always_accessible:
  assumes "uuids U" "d = run (inv_step U B) empty_inv_db ops"
  shows "list_all ds_Accessible (idb_stores d) \<and> list_all nw_Accessible (idb_networks d)"
  using inv_sound_accessible [OF inventory_reachable [OF assms(1), of B ops]] by (simp_all add: assms(2) list_all_iff)


text \<open>C6. A synchronisation mirrors what the provider reports: with a working database, and a report that names machines and
  each of them once, the live machines of the hypervisor are afterwards the reported ones, except those whose row is marked
  as deleted; every reported machine has a row with the reported data; the machines of other hypervisors are
  untouched; and the result counts the reported machines and those that were live and are no longer reported.\<close>

theorem sync_mirrors_provider:
  assumes "uuids U" "d = run (inv_step U B) empty_inv_db ops" "idb_faults d = []" "h \<in> set (idb_hypervisors d)"
    and "Get reg (hv_Provider h) = Inr p" "pc_Connect p (buildHypervisorCredentials B h) = None" "pc_SyncInventory p = Inr snap"
    and "is_VMs snap \<noteq> []" "distinct (map vi_ProviderVMID (is_VMs snap))"
  shows "\<exists>d' r. SyncInventoryNow U B reg (hv_ID h) d = (d', Inr r) \<and>
    vms_of False (hv_ID h) (idb_vms d') = vi_ProviderVMID ` set (is_VMs snap) - vms_of True (hv_ID h) (idb_vms d) \<and>
    (\<forall>info \<in> set (is_VMs snap). \<exists>v \<in> set (idb_vms d'). vm_key v = (hv_ID h, vi_ProviderVMID info) \<and> shows_report info v) \<and>
    filter (\<lambda>v. vm_HypervisorID v \<noteq> hv_ID h) (idb_vms d') = filter (\<lambda>v. vm_HypervisorID v \<noteq> hv_ID h) (idb_vms d) \<and>
    sr_VMsUpdated r = int (length (is_VMs snap)) \<and>
    sr_VMsRemoved r = int (length (filter (\<lambda>v. vm_HypervisorID v = hv_ID h \<and> vm_ProviderVMID v \<notin> vi_ProviderVMID ` set (is_VMs snap) \<and>
      \<not> vm_Deleted v) (idb_vms d)))"
proof -
  have d: "inv_sound U {} d" unfolding assms(2) by (rule inventory_reachable [OF assms(1)])
  have "hv_ID h \<in> old_ids U d" using d assms(4) by (auto simp: inv_sound_def hv_ids_def)
  then have id: "uuid_or_nil U (hv_ID h) = hv_ID h" using uuids.or_nil_new [OF assms(1)] by (auto simp: old_ids_def)
  obtain d1 d' r where sync: "SyncInventoryNow U B reg (hv_ID h) d = (d', Inr r)" and store: "store_snapshot U (hv_ID h) h snap d1 = (d', r)"
    and d1: "idb_faults d1 = []" "idb_vms d1 = idb_vms d"
    using SyncInventoryNow_stores [OF assms(3,4) refl inv_sound_distinct(6) [OF d] assms(5-7)] by blast
  note vms = store_snapshot_vms [OF store d1(1) assms(8,9) id, unfolded d1(2)]
  note rows = vms_of_synced [OF inv_sound_distinct(7) [OF d] assms(9), of "hv_ID h" U "idb_next d1", folded vms(1)]
  show ?thesis using sync rows vms(2,3) by auto
qed

text \<open>The credentials a hypervisor was registered with are those its provider is later called with: the secret is the password,
  or the token when there is no password, and survives encryption and the database.\<close>

theorem registered_credentials:
  assumes "uuids U" "secret_store B" "d = run (inv_step U B) empty_inv_db ops"
    and "hypervisor_Register U B reg req d = (d', Inr h)" "idb_faults d' = []"
  shows "\<exists>creds. BuildCredentials B (hv_ID h) d' = (d', Inr (creds, rh_Provider req)) \<and>
    cr_Host creds = rh_Host req \<and> cr_Port creds = rh_Port req \<and> cr_Username creds = rh_Username req \<and> cr_TLSVerify creds = rh_TLSVerify req \<and>
    cr_Password creds = (if rh_Password req = '''' then rh_Token req else rh_Password req)"
proof -
  let ?secret = "if rh_Token req \<noteq> '''' \<and> rh_Password req = '''' then rh_Token req else rh_Password req"
  have "inv_sound U {} d'"
    using uuids.sound_hypervisor_Register [OF assms(1) inventory_reachable [OF assms(1)], of B reg req B ops] assms(3,4) by simp
  then have distinct: "distinct (map hv_ID (idb_hypervisors d'))" by (rule inv_sound_distinct)
  from assms(4) obtain enc where enc: "sb_Encrypt B ?secret = Inr enc" and h: "h \<in> set (idb_hypervisors d')" "hv_EncryptedSecret h = enc"
      "hv_Host h = rh_Host req" "hv_Port h = rh_Port req" "hv_Username h = rh_Username req" "hv_TLSVerify h = rh_TLSVerify req"
      "hv_Provider h = rh_Provider req"
    by (auto simp: hypervisor_Register_def Let_def hv_repo_Create_def inv_stmt_def inv_audit_def
        split: sum.splits list.splits option.splits prod.splits)
  have "find (\<lambda>x. hv_ID x = hv_ID h) (idb_hypervisors d') = Some h"
    by (rule find_unique) (use h(1) distinct in \<open>auto simp: distinct_map dest: inj_onD\<close>)
  then have get: "hv_repo_GetByID (hv_ID h) d' = (d', Inr h)" using assms(5) by (simp add: hv_repo_GetByID_def inv_stmt_def)
  have "sb_Encrypt B ?secret = Inr (hv_EncryptedSecret h)" using enc h(2) by simp
  from secret_store.build_decrypts [OF assms(2) this] have "cr_Password (buildHypervisorCredentials B h) = ?secret" .
  with h get show ?thesis by (simp add: BuildCredentials_def)
qed

section \<open>Examples\<close>

definition demo_machine :: "string \<Rightarrow> VMInfo" where
  "demo_machine p = \<lparr>vi_ProviderVMID = p, vi_Name = ''vm'' @ p, vi_Status = VMStatusRunning, vi_CPUCount = 2, vi_MemoryMB = 1024, vi_DiskGB = 10,
     vi_IPAddresses = [], vi_MACAddress = '''', vi_NetworkName = '''', vi_GuestOS = '''', vi_GuestOSType = '''', vi_ToolsStatus = '''', vi_Extra = []\<rparr>"

definition demo_snapshot :: "string list \<Rightarrow> InventorySnapshot" where
  "demo_snapshot ps = \<lparr>is_VMs = map demo_machine ps,
     is_DataStores = [\<lparr>di_ProviderID = ''ds'', di_Name = ''store'', di_Type = ''nfs'', di_CapacityGB = 10, di_UsedGB = 4, di_FreeGB = 6, di_Accessible = False\<rparr>],
     is_Networks = [], is_Hosts = [], is_Clusters = []\<rparr>"

definition demo_provider :: "string list \<Rightarrow> provider_calls" where
  "demo_provider ps = \<lparr>pc_Connect = (\<lambda>_. None), pc_SyncInventory = Inr (demo_snapshot ps)\<rparr>"

definition demo_registry :: "string list \<Rightarrow> provider_calls Registry" where
  "demo_registry ps = [(''vmware'', demo_provider ps)]"

definition demo_request :: RegisterHypervisorRequest where
  "demo_request = \<lparr>rh_Name = ''lab'', rh_Description = '''', rh_Provider = ''vmware'', rh_Host = ''esx'', rh_Port = 443, rh_Username = ''root'',
     rh_Password = '''', rh_Token = '''', rh_TLSVerify = False, rh_Tags = [], rh_Metadata = None\<rparr>"

definition demo_ops :: "inv_op list" where
  "demo_ops = [InvRegister (demo_registry []) demo_request, InvSync (demo_registry [''a'', ''b'']) ''0'', InvSync (demo_registry [''b'']) ''0'']"

definition demo_inventory :: inv_db where
  "demo_inventory = run (inv_step plain_uuids demo_box) empty_inv_db demo_ops"

lemma demo_rows:
  "map (\<lambda>v. (vm_key v, vm_Deleted v)) (idb_vms demo_inventory) = [((''0'', ''a''), True), ((''0'', ''b''), False)]"
  "map (\<lambda>v. (vm_key v, vm_Deleted v)) (idb_vms (run (inv_step plain_uuids demo_box) demo_inventory [InvSync (demo_registry [''a'', ''b'']) ''0''])) =
     [((''0'', ''a''), True), ((''0'', ''b''), False)]"
  by code_simp+

lemma demo_rest:
  "idb_faults demo_inventory = []" "map (\<lambda>h. (hv_ID h, hv_Provider h)) (idb_hypervisors demo_inventory) = [(''0'', ''vmware'')]"
  "map ds_Accessible (idb_stores demo_inventory) = [True]"
  by code_simp+

lemma removed_machine_stays_removed_witness:
  "\<exists>v \<in> set (idb_vms demo_inventory). vm_key v = (''0'', ''a'') \<and> vm_Deleted v \<and>
     list_all vm_Deleted (filter (\<lambda>w. vm_key w = (''0'', ''a''))
       (idb_vms (run (inv_step plain_uuids demo_box) demo_inventory [InvSync (demo_registry [''a'', ''b'']) ''0''])))"
proof -
  have "((''0'', ''a''), True) \<in> set (map (\<lambda>v. (vm_key v, vm_Deleted v)) (idb_vms demo_inventory))" unfolding demo_rows by simp
  then obtain v where v: "v \<in> set (idb_vms demo_inventory)" "vm_key v = (''0'', ''a'')" "vm_Deleted v" by auto
  from removed_machine_stays_removed [OF plain.uuids_axioms demo_inventory_def v(1,3)]
  have "list_all vm_Deleted (filter (\<lambda>w. vm_key w = (''0'', ''a'')) (idb_vms (run (inv_step plain_uuids demo_box) demo_inventory later)))" for later
    unfolding v(2) list_all_iff by (simp, blast)
  with v show ?thesis by blast
qed

lemma inventory_always_accessible_witness: "list_all ds_Accessible (idb_stores demo_inventory) \<and> idb_stores demo_inventory \<noteq> []"
  using inventory_always_accessible [OF plain.uuids_axioms demo_inventory_def] demo_rest(3) by auto

lemma sync_mirrors_provider_witness:
  "\<exists>d' r. SyncInventoryNow plain_uuids demo_box (demo_registry [''a'', ''b'', ''c'']) ''0'' demo_inventory = (d', Inr r) \<and>
     vms_of False ''0'' (idb_vms d') = {''b'', ''c''} \<and> sr_VMsUpdated r = 3"
proof -
  from demo_rest(2) obtain h where h: "h \<in> set (idb_hypervisors demo_inventory)" "hv_ID h = ''0''" "hv_Provider h = ''vmware''"
    by (cases "idb_hypervisors demo_inventory") auto
  have marked: "vms_of True ''0'' (idb_vms demo_inventory) = {''a''}"
  proof -
    have iff: "p \<in> vms_of True i vs \<longleftrightarrow> ((i, p), True) \<in> set (map (\<lambda>v. (vm_key v, vm_Deleted v)) vs)" for p i vs
      by (force simp: vms_of_iff)
    have "p \<in> vms_of True ''0'' (idb_vms demo_inventory) \<longleftrightarrow> p = ''a''" for p unfolding iff demo_rows by auto
    then show ?thesis by blast
  qed
  have "Get (demo_registry ps) (hv_Provider h) = Inr (demo_provider ps)" "pc_Connect (demo_provider ps) c = None"
      "pc_SyncInventory (demo_provider ps) = Inr (demo_snapshot ps)" for ps c
    by (simp_all add: demo_registry_def Get_def h(3) demo_provider_def)
  note sync = sync_mirrors_provider [OF plain.uuids_axioms demo_inventory_def demo_rest(1) h(1) this(1,2,3)]
  have infos: "is_VMs (demo_snapshot ps) = map demo_machine ps" "vi_ProviderVMID (demo_machine p) = p" for ps p
    by (simp_all add: demo_snapshot_def demo_machine_def)
  show ?thesis
    using sync [of "[''a'', ''b'', ''c'']"] unfolding infos list.map h(2) marked by (auto simp: infos)
qed

lemma demo_registered:
  "case hypervisor_Register plain_uuids demo_box (demo_registry []) demo_request empty_inv_db of
     (d, Inl _) \<Rightarrow> False | (d, Inr h) \<Rightarrow> idb_faults d = [] \<and> hv_ID h = ''0''"
  by code_simp

lemma registered_credentials_witness:
  "\<exists>d h. hypervisor_Register plain_uuids demo_box (demo_registry []) demo_request empty_inv_db = (d, Inr h) \<and>
     (\<exists>creds. BuildCredentials demo_box (hv_ID h) d = (d, Inr (creds, ''vmware'')) \<and> cr_Host creds = ''esx'')"
proof -
  obtain d h where reg: "hypervisor_Register plain_uuids demo_box (demo_registry []) demo_request empty_inv_db = (d, Inr h)" "idb_faults d = []"
    using demo_registered by (auto split: prod.splits sum.splits)
  have "empty_inv_db = run (inv_step plain_uuids demo_box) empty_inv_db []" by simp
  from registered_credentials [OF plain.uuids_axioms dev.secret_store_axioms this reg] reg(1) show ?thesis
    by (auto simp: demo_request_def)
qed

end
