(* ===== verification/Float64.thy ===== *)
theory Float64
  imports Prelude "HOL-Library.Log_Nat"
begin

text \<open>
  Go's \<^verbatim>\<open>float64\<close>: a result of an arithmetic operation is the exact result, rounded to the nearest number of
  53 binary digits, and to the one with an even last digit when two are nearest. A number is the
  rational it stands for; the range of the exponent, infinities and the sign of zero are left out.
\<close>

definition log2_floor :: "rat \<Rightarrow> int" where
  "log2_floor r = (case quotient_of r of (a, b) \<Rightarrow>
     let k = bitlen a - bitlen b in if 2 powi k \<le> r then k else k - 1)"

definition round_half_even :: "rat \<Rightarrow> int" where
  "round_half_even r =
     (let f = \<lfloor>r\<rfloor>; d = r - of_int f
      in if d < 1 / 2 then f else if d > 1 / 2 then f + 1 else if even f then f else f + 1)"

definition float64 :: "rat \<Rightarrow> rat" where
  "float64 r = (if r = 0 then 0
     else let e = log2_floor \<bar>r\<bar> - 52 in of_int (round_half_even (r / 2 powi e)) * 2 powi e)"

text \<open>Conversion to an integer cuts the fraction off.\<close>

definition float_to_int :: "rat \<Rightarrow> int" where
  "float_to_int r = (if 0 \<le> r then \<lfloor>r\<rfloor> else \<lceil>r\<rceil>)"

lemma round_half_even_int [simp]: "round_half_even (of_int n) = n"
  by (simp add: round_half_even_def)

lemma round_half_even_bounds: "\<lfloor>r\<rfloor> \<le> round_half_even r" "round_half_even r \<le> \<lceil>r\<rceil>"
proof -
  show "\<lfloor>r\<rfloor> \<le> round_half_even r" by (simp add: round_half_even_def Let_def)
  show "round_half_even r \<le> \<lceil>r\<rceil>"
    by (simp add: round_half_even_def Let_def) linarith
qed

lemma round_half_even_mono:
  assumes "x \<le> y"
  shows "round_half_even x \<le> round_half_even y"
proof (cases "\<lfloor>x\<rfloor> = \<lfloor>y\<rfloor>")
  case True
  with assms show ?thesis by (auto simp: round_half_even_def Let_def)
next
  case False
  with floor_mono [OF assms] have "\<lfloor>x\<rfloor> + 1 \<le> \<lfloor>y\<rfloor>" by linarith
  moreover have "\<lceil>x\<rceil> \<le> \<lfloor>x\<rfloor> + 1" by linarith
  ultimately show ?thesis using round_half_even_bounds [of x] round_half_even_bounds [of y] by linarith
qed

lemma log2_floor_bounds:
  assumes "0 < r"
  shows "2 powi log2_floor r \<le> r" "r < 2 powi (log2_floor r + 1)"
proof -
  obtain a b where q: "quotient_of r = (a, b)" by fastforce
  have b: "0 < b" using quotient_of_denom_pos [OF q] .
  have r: "r = of_int a / of_int b" using quotient_of_div [OF q] .
  have a: "0 < a" using assms b by (simp add: r zero_less_divide_iff)
  have pw: "2 ^ nat (bitlen x - 1) \<le> x \<and> x < 2 ^ nat (bitlen x)" if "0 < x" for x using bitlen_bounds [OF that] .
  have powi: "2 powi (bitlen x - 1) \<le> (of_int x :: rat) \<and> (of_int x :: rat) < 2 powi (bitlen x)" if x: "0 < x" for x
  proof -
    have n: "0 \<le> bitlen x - 1" using x bitlen_eq_zero_iff [of x] bitlen_nonneg [of x] by linarith
    have "(2 ^ nat (bitlen x - 1) :: rat) \<le> of_int x" "(of_int x :: rat) < 2 ^ nat (bitlen x)"
      using pw [OF x] by (metis of_int_le_iff of_int_numeral of_int_power, metis of_int_less_iff of_int_numeral of_int_power)
    then show ?thesis using n by (simp add: power_int_def)
  qed
  have "r < 2 powi bitlen a / 2 powi (bitlen b - 1)"
    unfolding r using powi [OF a] powi [OF b] a b by (intro frac_less) auto
  also have "\<dots> = 2 powi (bitlen a - (bitlen b - 1))" by (simp only: power_int_diff zero_neq_numeral [symmetric] simp_thms)
  also have "bitlen a - (bitlen b - 1) = bitlen a - bitlen b + 1" by simp
  finally have hi: "r < 2 powi (bitlen a - bitlen b + 1)" .
  have "2 powi (bitlen a - 1) / 2 powi bitlen b \<le> r"
    unfolding r using powi [OF a] powi [OF b] a b by (intro frac_le) auto
  moreover have "2 powi (bitlen a - 1) / 2 powi bitlen b = (2 powi (bitlen a - bitlen b - 1) :: rat)"
    by (simp add: power_int_diff)
  ultimately have lo: "2 powi (bitlen a - bitlen b - 1) \<le> r" by simp
  from hi lo show "2 powi log2_floor r \<le> r" "r < 2 powi (log2_floor r + 1)"
    by (auto simp: log2_floor_def q Let_def)
qed

lemma float64_scaled:
  assumes "0 < r"
  shows "float64 r = of_int (round_half_even (r / 2 powi (log2_floor r - 52))) * 2 powi (log2_floor r - 52)"
  using assms by (simp add: float64_def Let_def)

lemma mantissa_bounds:
  assumes "0 < r"
  shows "2 ^ 52 \<le> r / 2 powi (log2_floor r - 52)" "r / 2 powi (log2_floor r - 52) < 2 ^ 53"
proof -
  let ?e = "log2_floor r"
  have "(2::rat) powi ?e = 2 ^ 52 * 2 powi (?e - 52)"
    using power_int_add [of "2::rat" 52 "?e - 52"] by simp
  with log2_floor_bounds(1) [OF assms] show "2 ^ 52 \<le> r / 2 powi (?e - 52)" by (simp add: pos_le_divide_eq)
  have "(2::rat) powi (?e + 1) = 2 ^ 53 * 2 powi (?e - 52)"
    using power_int_add [of "2::rat" 53 "?e - 52"] by (simp add: add.commute)
  with log2_floor_bounds(2) [OF assms] show "r / 2 powi (?e - 52) < 2 ^ 53" by (simp add: pos_divide_less_eq)
qed

text \<open>The binade a number lies in bounds its rounding.\<close>

lemma float64_binade:
  assumes "0 < r"
  shows "2 powi log2_floor r \<le> float64 r" "float64 r \<le> 2 powi (log2_floor r + 1)"
proof -
  let ?e = "log2_floor r" and ?m = "r / 2 powi (log2_floor r - 52)"
  have lo: "round_half_even (of_int (2 ^ 52)) \<le> round_half_even ?m"
    using mantissa_bounds(1) [OF assms] by (intro round_half_even_mono) simp
  have hi: "round_half_even ?m \<le> round_half_even (of_int (2 ^ 53))"
    using mantissa_bounds(2) [OF assms] by (intro round_half_even_mono) simp
  have "(2::rat) powi ?e = of_int (2 ^ 52) * 2 powi (?e - 52)" "(2::rat) powi (?e + 1) = of_int (2 ^ 53) * 2 powi (?e - 52)"
    using power_int_add [of "2::rat" 52 "?e - 52"] power_int_add [of "2::rat" 53 "?e - 52"] by (simp_all add: add.commute)
  with lo hi show "2 powi ?e \<le> float64 r" "float64 r \<le> 2 powi (?e + 1)"
    unfolding float64_scaled [OF assms] round_half_even_int by (simp_all add: mult_right_mono del: of_int_power)
qed

lemma float64_nonneg: "0 \<le> r \<Longrightarrow> 0 \<le> float64 r"
proof (cases "r = 0")
  case False
  assume "0 \<le> r"
  with False have "0 < r" by simp
  from float64_binade(1) [OF this] show ?thesis by (meson order_trans zero_le_power_int zero_le_numeral)
qed (simp add: float64_def)

lemma log2_floor_mono:
  assumes "0 < x" "x \<le> y"
  shows "log2_floor x \<le> log2_floor y"
proof (rule ccontr)
  assume "\<not> ?thesis"
  then have "log2_floor y + 1 \<le> log2_floor x" by simp
  then have "(2::rat) powi (log2_floor y + 1) \<le> 2 powi log2_floor x" by (intro power_int_increasing) auto
  with log2_floor_bounds(1) [OF assms(1)] log2_floor_bounds(2) [of y] assms show False by linarith
qed

lemma float64_mono:
  assumes "0 \<le> x" "x \<le> y"
  shows "float64 x \<le> float64 y"
proof (cases "x = 0")
  case True
  with assms float64_nonneg show ?thesis by (simp add: float64_def [of 0])
next
  case False
  then have x: "0 < x" "0 < y" using assms by auto
  show ?thesis
  proof (cases "log2_floor x = log2_floor y")
    case True
    have "x / 2 powi (log2_floor y - 52) \<le> y / 2 powi (log2_floor y - 52)" using assms(2) by (simp add: divide_right_mono)
    then have "round_half_even (x / 2 powi (log2_floor y - 52)) \<le> round_half_even (y / 2 powi (log2_floor y - 52))"
      by (rule round_half_even_mono)
    then show ?thesis unfolding float64_scaled [OF x(1)] float64_scaled [OF x(2)] True by (simp add: mult_right_mono)
  next
    case False
    with log2_floor_mono [OF x(1) assms(2)] have "log2_floor x + 1 \<le> log2_floor y" by linarith
    then have "(2::rat) powi (log2_floor x + 1) \<le> 2 powi log2_floor y" by (intro power_int_increasing) auto
    with float64_binade(2) [OF x(1)] float64_binade(1) [OF x(2)] show ?thesis by linarith
  qed
qed

text \<open>Small integers are represented exactly.\<close>

lemma float64_int:
  assumes "0 \<le> n" "n < 2 ^ 53"
  shows "float64 (of_int n) = of_int n"
proof (cases "n = 0")
  case False
  then have n: "0 < (of_int n :: rat)" using assms by simp
  let ?e = "log2_floor (of_int n)"
  have "2 powi ?e \<le> (of_int n :: rat)" by (rule log2_floor_bounds(1) [OF n])
  also have "\<dots> < of_int (2 ^ 53)" using assms(2) by (simp only: of_int_less_iff)
  also have "\<dots> = 2 powi 53" by simp
  finally have "(2::rat) powi ?e < 2 powi 53" .
  then have e: "?e < 53" by (metis linorder_not_le one_le_numeral power_int_increasing)
  have "(of_int n :: rat) / 2 powi (?e - 52) = of_int n * 2 powi (52 - ?e)"
    by (simp add: power_int_diff)
  also have "\<dots> = of_int (n * 2 ^ nat (52 - ?e))" using e by (simp add: power_int_def)
  finally have m: "(of_int n :: rat) / 2 powi (?e - 52) = of_int (n * 2 ^ nat (52 - ?e))" .
  have "float64 (of_int n) = of_int n / 2 powi (?e - 52) * 2 powi (?e - 52)"
    unfolding float64_scaled [OF n] m round_half_even_int ..
  then show ?thesis by simp
qed (simp add: float64_def)

end
