(* ===== verification/EnvHandlers.thy ===== *)
theory EnvHandlers
  imports Environment TaskEngine Float64 Calendar
begin

text \<open>
  The executor of orchestration runs (\<^verbatim>\<open>internal/task/environment_handlers.go\<close>), a handler of the task engine
  over the database of environments. It works through the steps of a run: a task per machine, waiting for
  each before the next.

  What happens outside is the record \<open>outside\<close>: for each step the state of the context when it begins, the time,
  and the events \<^verbatim>\<open>waitForTask\<close> selects from while it waits, a tick of its timer being what the other workers have
  done to the world since the last one. When the events given are used up the handler is still
  waiting, the value \<open>None\<close>. The refresh of the status at the end runs in a goroutine, and is the
  operation \<open>RefreshStatus\<close> of the theory \<open>Environment\<close>.
\<close>

section \<open>The task repository of the environment database\<close>

definition on_tasks :: "(task_table \<Rightarrow> task_table \<times> 'a) \<Rightarrow> env_db \<Rightarrow> env_db \<times> 'a" where
  "on_tasks f d = (case f (edb_tasks d) of (tt, x) \<Rightarrow> (d\<lparr>edb_tasks := tt\<rparr>, x))"

definition env_TaskRepo :: "env_db TaskRepository" where
  "env_TaskRepo = \<lparr>repo_GetByID = (\<lambda>i d. GetByID i (edb_tasks d)), repo_ListPending = (\<lambda>n d. ListPending n (edb_tasks d)),
     repo_UpdateStatus = (\<lambda>i st res msg. on_tasks (UpdateStatus i st res msg)), repo_UpdateProgress = (\<lambda>i p. on_tasks (UpdateProgress i p))\<rparr>"

interpretation env_repo: task_store env_TaskRepo "\<lambda>d. tt_fault (edb_tasks d) = None" "\<lambda>d. row (edb_tasks d)"
proof
  fix d :: env_db and i st res msg
  assume ok: "tt_fault (edb_tasks d) = None"
  from repo.UpdateStatus [OF ok, of i st res msg] show "\<exists>d'. repo_UpdateStatus env_TaskRepo i st res msg d = (d', None) \<and>
      tt_fault (edb_tasks d') = None \<and> row (edb_tasks d') = (row (edb_tasks d))(i := map_option (set_status st res msg) (row (edb_tasks d) i))"
    by (auto simp: env_TaskRepo_def TaskRepo_def on_tasks_def)
next
  fix d :: env_db and i p
  assume ok: "tt_fault (edb_tasks d) = None"
  from repo.UpdateProgress [OF ok, of i p] show "\<exists>d'. repo_UpdateProgress env_TaskRepo i p d = (d', None) \<and>
      tt_fault (edb_tasks d') = None \<and> row (edb_tasks d') = (row (edb_tasks d))(i := map_option (\<lambda>t. t\<lparr>tk_Progress := p\<rparr>) (row (edb_tasks d) i))"
    by (auto simp: env_TaskRepo_def TaskRepo_def on_tasks_def)
next
  fix d :: env_db and i t
  assume "tt_fault (edb_tasks d) = None" "row (edb_tasks d) i = Some t"
  then show "repo_GetByID env_TaskRepo i d = Inr t" using repo.GetByID by (simp add: env_TaskRepo_def TaskRepo_def)
next
  fix d :: env_db and i
  assume "tt_fault (edb_tasks d) = None" "row (edb_tasks d) i = None"
  then show "\<exists>e. repo_GetByID env_TaskRepo i d = Inl e"
    using repo.GetByID_missing [of "edb_tasks d" i] by (simp add: env_TaskRepo_def TaskRepo_def)
qed

section \<open>Payloads\<close>

text \<open>A value that is not a string is printed with the verb \<^verbatim>\<open>%v\<close>, here \<open>fmt_v\<close>.\<close>

definition stringFromPayload :: "(jval \<Rightarrow> string) \<Rightarrow> jmap \<Rightarrow> string \<Rightarrow> string" where
  "stringFromPayload fmt_v p key =
     (case jget p key of None \<Rightarrow> '''' | Some JNull \<Rightarrow> '''' | Some (JStr s) \<Rightarrow> s | Some v \<Rightarrow> fmt_v v)"

definition boolFromPayload :: "jmap \<Rightarrow> string \<Rightarrow> bool" where
  "boolFromPayload p key = (case jget p key of Some (JBool b) \<Rightarrow> b | _ \<Rightarrow> False)"

section \<open>The task of one machine\<close>

definition base_payload :: "VM \<Rightarrow> jmap" where
  "base_payload vm = [(''vm_id'', JStr (vm_ID vm)), (''provider_vm_id'', JStr (vm_ProviderVMID vm)), (''hypervisor_id'', JStr (vm_HypervisorID vm))]"

definition time_stamp :: "int \<Rightarrow> string" where
  "time_stamp now = (let t = now div 1000000000 in
     pad4 (t_Year UTC t) @ pad2 (t_Month UTC t) @ pad2 (t_Day UTC t) @ ''-'' @ pad2 (t_Hour UTC t) @ pad2 (t_Minute UTC t) @ pad2 (t_Second UTC t))"

definition vm_task :: "(jval \<Rightarrow> string) \<Rightarrow> int \<Rightarrow> VM \<Rightarrow> OrchestrationOperation \<Rightarrow> jmap \<Rightarrow> string \<times> jmap" where
  "vm_task fmt_v now vm oper parentPayload =
     (case oper of
        OrchestrationOpStart \<Rightarrow> (''vm.power_on'', base_payload vm)
      | OrchestrationOpStop \<Rightarrow> (''vm.power_off'', base_payload vm)
      | OrchestrationOpRestart \<Rightarrow> (''vm.reboot'', base_payload vm)
      | OrchestrationOpSnapshot \<Rightarrow>
          (let given = stringFromPayload fmt_v parentPayload ''snapshot_name'';
               name = (if given = '''' then ''env-snapshot-'' @ time_stamp now else given)
           in (''vm.snapshot'', base_payload vm @ [(''name'', JStr (name @ ''-'' @ vm_Name vm)),
                (''description'', JStr (stringFromPayload fmt_v parentPayload ''description'')),
                (''memory'', JBool (boolFromPayload parentPayload ''memory''))]))
      | OrchestrationOpClone \<Rightarrow>
          (let given = stringFromPayload fmt_v parentPayload ''name_suffix'';
               suffix = (if given = '''' then ''-clone'' else given)
           in (''vm.clone'', base_payload vm @ [(''name'', JStr (vm_Name vm @ suffix))])))"

definition child_task :: "string \<Rightarrow> int \<Rightarrow> VM \<Rightarrow> string \<times> jmap \<Rightarrow> Task" where
  "child_task taskID now vm tp =
     \<lparr>tk_ID = taskID, tk_CreatedAt = now, tk_Deleted = False, tk_Type = fst tp, tk_Status = TaskPending, tk_Priority = 5, tk_Progress = 0,
      tk_Payload = snd tp, tk_Result = None, tk_ErrorMessage = '''', tk_RetryCount = 0, tk_MaxRetries = 2, tk_StartedAt = None,
      tk_CompletedAt = None, tk_ScheduledAt = Some now, tk_TimeoutAt = None, tk_CreatedBy = None,
      tk_HypervisorID = Some (vm_HypervisorID vm), tk_VMID = Some (vm_ID vm), tk_ParentTaskID = None\<rparr>"

text \<open>An identifier is drawn from the supply of the database.\<close>

definition draw_id :: "uuid_lib \<Rightarrow> env_db \<Rightarrow> env_db \<times> string" where
  "draw_id U d = (d\<lparr>edb_next := edb_next d + 1\<rparr>, uuid_new U (edb_next d))"

record 'r setting =
  st_U :: uuid_lib
  st_cfg :: TaskEngineConfig
  st_R :: "'r redis"
  st_fmt :: "jval \<Rightarrow> string"
  st_taskID :: string

definition dispatchVMTask ::
  "'r setting \<Rightarrow> int \<Rightarrow> string \<Rightarrow> OrchestrationOperation \<Rightarrow> jmap \<Rightarrow> ('r, env_db) world \<Rightarrow> ('r, env_db) world \<times> (go_error + string)" where
  "dispatchVMTask S now vmID oper parentPayload w =
     (case on_db (vm_GetByID vmID) w of
        (w, Inl e) \<Rightarrow> (w, Inl (Wrapf ''vm not found'' e))
      | (w, Inr vm) \<Rightarrow>
          (case on_db (draw_id (st_U S)) w of
             (w, taskID) \<Rightarrow>
               (case on_db (env_task_Create (child_task taskID now vm (vm_task (st_fmt S) now vm oper parentPayload))) w of
                  (w, Inl e) \<Rightarrow> (w, Inl (Wrapf ''creating child task'' e))
                | (w, Inr _) \<Rightarrow> (fst (engine_Enqueue (st_cfg S) (st_R S) env_TaskRepo taskID 5 w), Inr taskID))))"

section \<open>Waiting\<close>

datatype ('r, 'd) wait_event = WaitDone | WaitTimeout | WaitTick "('r, 'd) world \<Rightarrow> ('r, 'd) world"

fun waitForTask :: "'d TaskRepository \<Rightarrow> string \<Rightarrow> ('r, 'd) wait_event list \<Rightarrow> ('r, 'd) world \<Rightarrow> (('r, 'd) world \<times> go_error option) option" where
  "waitForTask T taskID [] w = None"
| "waitForTask T taskID (WaitDone # es) w = Some (w, Some (Sentinel ErrTaskCancelled))"
| "waitForTask T taskID (WaitTimeout # es) w = Some (w, Some (Errorf (''timeout waiting for task '' @ taskID)))"
| "waitForTask T taskID (WaitTick f # es) w =
     (let w = f w in
      case repo_GetByID T taskID (w_db w) of
        Inl e \<Rightarrow> Some (w, Some (Wrapf (''polling task '' @ taskID) e))
      | Inr t \<Rightarrow>
          (case tk_Status t of
             TaskCompleted \<Rightarrow> Some (w, None)
           | TaskFailed \<Rightarrow> Some (w, Some (Errorf (if tk_ErrorMessage t = '''' then ''task failed'' else tk_ErrorMessage t)))
           | TaskCancelled \<Rightarrow> Some (w, Some (Errorf ''task was cancelled''))
           | TaskTimedOut \<Rightarrow> Some (w, Some (Errorf ''task timed out''))
           | _ \<Rightarrow> waitForTask T taskID es w))"

section \<open>The executor\<close>

record 'r outside =
  ow_ctx :: "nat \<Rightarrow> go_error option"
  ow_now :: "nat \<Rightarrow> int"
  ow_waits :: "nat \<Rightarrow> ('r, env_db) wait_event list"

definition h_Progress :: "'r setting \<Rightarrow> int \<Rightarrow> int \<Rightarrow> string \<Rightarrow> ('r, env_db) world \<Rightarrow> ('r, env_db) world" where
  "h_Progress S now pct message = tc_Progress (st_R S) (st_taskID S) (cfg_TaskTTL (st_cfg S)) now pct message"

definition h_Log :: "'r setting \<Rightarrow> int \<Rightarrow> string \<Rightarrow> string \<Rightarrow> jmap \<Rightarrow> ('r, env_db) world \<Rightarrow> ('r, env_db) world" where
  "h_Log S now level message flds = tc_Log (st_R S) (cfg_MaxLogEntries (st_cfg S)) (st_taskID S) now level message [flds]"

text \<open>One machine: its task is created and awaited, and its step gets the outcome.\<close>

definition execute_step ::
  "'r setting \<Rightarrow> 'r outside \<Rightarrow> nat \<Rightarrow> OrchestrationOperation \<Rightarrow> jmap \<Rightarrow> OrchestrationStep \<Rightarrow> ('r, env_db) world \<Rightarrow>
   (('r, env_db) world \<times> bool) option" where
  "execute_step S out i oper payload step w =
     (let now = ow_now out i;
          w = fst (on_db (UpdateStepStatus (os_ID step) OrchestrationStepStatusRunning None '''') w)
      in case dispatchVMTask S now (os_VMID step) oper payload w of
           (w, Inl e) \<Rightarrow>
             (let w = h_Log S now ''error'' ''failed to dispatch vm task'' [(''vm_id'', JStr (os_VMID step)), (''error'', JStr (Error_text e))] w
              in Some (fst (on_db (UpdateStepStatus (os_ID step) OrchestrationStepStatusFailed None (Error_text e)) w), False))
         | (w, Inr taskID) \<Rightarrow>
             (case waitForTask env_TaskRepo taskID (ow_waits out i) w of
                None \<Rightarrow> None
              | Some (w, Some e) \<Rightarrow>
                  (let w = h_Log S now ''error'' ''vm task failed'' [(''vm_id'', JStr (os_VMID step)), (''task_id'', JStr taskID),
                         (''error'', JStr (Error_text e))] w
                   in Some (fst (on_db (UpdateStepStatus (os_ID step) OrchestrationStepStatusFailed (Some taskID) (Error_text e)) w), False))
              | Some (w, None) \<Rightarrow>
                  Some (fst (on_db (UpdateStepStatus (os_ID step) OrchestrationStepStatusCompleted (Some taskID) '''') w), True)))"

text \<open>The progress after step \<open>i\<close>, counted from 0.\<close>

definition step_progress :: "nat \<Rightarrow> nat \<Rightarrow> int" where
  "step_progress i n = 10 + float_to_int (float64 (float64 (float64 (of_int (int (i + 1))) / float64 (of_int (int n))) * 85))"

fun execute_steps ::
  "'r setting \<Rightarrow> 'r outside \<Rightarrow> OrchestrationOperation \<Rightarrow> jmap \<Rightarrow> string \<Rightarrow> nat \<Rightarrow> nat \<Rightarrow> OrchestrationStep list \<Rightarrow> int \<Rightarrow> int \<Rightarrow>
   ('r, env_db) world \<Rightarrow> (('r, env_db) world \<times> (go_error + int \<times> int)) option" where
  "execute_steps S out oper payload runID n i [] completed failed w = Some (w, Inr (completed, failed))"
| "execute_steps S out oper payload runID n i (step # steps) completed failed w =
     (case tc_IsCancelled (st_R S) (st_taskID S) (ow_ctx out i) w of
        (w, True) \<Rightarrow>
          Some (fst (on_db (UpdateRunStatus runID OrchestrationRunStatusCancelled ''cancelled by user'') w), Inl (Sentinel ErrTaskCancelled))
      | (w, False) \<Rightarrow>
          (let w = h_Log S (ow_now out i) ''info'' ''executing step'' [(''step'', JNum (of_nat (i + 1))), (''total'', JNum (of_nat n)),
                 (''vm_id'', JStr (os_VMID step)), (''execution_order'', JNum (of_int (os_ExecutionOrder step)))] w
           in case execute_step S out i oper payload step w of
                None \<Rightarrow> None
              | Some (w, ok) \<Rightarrow>
                  (let completed = (if ok then completed + 1 else completed);
                       failed = (if ok then failed else failed + 1);
                       w = fst (on_db (UpdateRunProgress runID (step_progress i n) completed failed 0) w);
                       w = h_Progress S (ow_now out i) (step_progress i n)
                             (''step '' @ Itoa (int (i + 1)) @ ''/'' @ Itoa (int n) @ '': vm '' @ os_VMID step) w
                   in execute_steps S out oper payload runID n (i + 1) steps completed failed w)))"

text \<open>What happens after the last step, with the error of the handler.\<close>

definition finish_run ::
  "'r setting \<Rightarrow> int \<Rightarrow> string \<Rightarrow> string \<Rightarrow> nat \<Rightarrow> int \<Rightarrow> int \<Rightarrow> ('r, env_db) world \<Rightarrow> ('r, env_db) world \<times> go_error option" where
  "finish_run S now runID environmentID n completed failed w =
     (let final = (if failed > 0 \<and> completed = 0 then OrchestrationRunStatusFailed else OrchestrationRunStatusCompleted);
          errMsg = (if failed > 0 then Itoa failed @ '' of '' @ Itoa (int n) @ '' VMs failed'' else '''');
          w = fst (on_db (UpdateRunStatus runID final errMsg) w);
          w = fst (on_db (UpdateRunProgress runID 100 completed failed 0) w);
          w = h_Progress S now 100 (''orchestration complete: '' @ Itoa completed @ '' completed, '' @ Itoa failed @ '' failed'') w;
          w = h_Log S now ''info'' ''environment orchestration complete'' [(''environment_id'', JStr environmentID), (''run_id'', JStr runID),
                (''completed'', JNum (of_int completed)), (''failed'', JNum (of_int failed)), (''skipped'', JNum 0)] w
      in (w, if failed > 0 \<and> completed = 0 then Some (Errorf (''all '' @ Itoa failed @ '' VMs failed during orchestration'')) else None))"

definition handleEnvOperation ::
  "'r setting \<Rightarrow> 'r outside \<Rightarrow> OrchestrationOperation \<Rightarrow> Task \<Rightarrow> ('r, env_db) world \<Rightarrow> (('r, env_db) world \<times> Task \<times> go_error option) option" where
  "handleEnvOperation S out oper t w =
     (let runID = stringFromPayload (st_fmt S) (tk_Payload t) ''run_id'';
          environmentID = stringFromPayload (st_fmt S) (tk_Payload t) ''environment_id'';
          now = ow_now out 0
      in if runID = '''' \<or> environmentID = '''' then Some (w, t, Some (Errorf ''missing run_id or environment_id in payload''))
         else
           (let w = h_Log S now ''info'' ''starting environment orchestration'' [(''environment_id'', JStr environmentID),
                  (''run_id'', JStr runID), (''operation'', JStr (Operation_text oper))] w;
                w = h_Progress S now 5 ''loading orchestration plan'' w;
                w = (case on_db (UpdateRunStatus runID OrchestrationRunStatusRunning '''') w of
                       (w, Inl e) \<Rightarrow> h_Log S now ''warn'' ''failed to mark run as running'' [(''error'', JStr (Error_text e))] w
                     | (w, Inr _) \<Rightarrow> w)
            in case on_db (ostep_ListByRun runID) w of
                 (w, Inl e) \<Rightarrow>
                   Some (fst (on_db (UpdateRunStatus runID OrchestrationRunStatusFailed (Error_text e)) w), t,
                     Some (Wrapf ''loading orchestration steps'' e))
               | (w, Inr steps) \<Rightarrow>
                   if steps = [] then
                     (let w = fst (on_db (UpdateRunStatus runID OrchestrationRunStatusCompleted '''') w)
                      in Some (h_Progress S now 100 ''no VMs to orchestrate'' w, t, None))
                   else
                     (let w = h_Progress S now 10 (''executing '' @ Itoa (int (length steps)) @ '' VM steps'') w
                      in case execute_steps S out oper (tk_Payload t) runID (length steps) 0 steps 0 0 w of
                           None \<Rightarrow> None
                         | Some (w, Inl e) \<Rightarrow> Some (w, t, Some e)
                         | Some (w, Inr (completed, failed)) \<Rightarrow>
                             (case finish_run S (ow_now out (length steps)) runID environmentID (length steps) completed failed w of
                                (w, err) \<Rightarrow> Some (w, t, err)))))"


section \<open>Progress\<close>

lemma float_to_int_mono: "0 \<le> x \<Longrightarrow> x \<le> y \<Longrightarrow> float_to_int x \<le> float_to_int y"
  by (simp add: float_to_int_def floor_mono)

lemma step_progress_exact:
  assumes "i < n" "n < 2 ^ 53"
  shows "step_progress i n = 10 + float_to_int (float64 (float64 (of_int (int (i + 1)) / of_int (int n)) * 85))"
proof -
  from assms(2) have "int n < 2 ^ 53" by (metis of_nat_less_iff of_nat_numeral of_nat_power)
  with assms(1) show ?thesis by (simp add: step_progress_def float64_int [of "int (i + 1)", simplified] float64_int [of "int n", simplified])
qed

lemma step_progress_mono:
  assumes "i \<le> j" "j < n" "n < 2 ^ 53"
  shows "10 \<le> step_progress i n" "step_progress i n \<le> step_progress j n"
proof -
  let ?q = "\<lambda>i. of_int (int (i + 1)) / (of_int (int n) :: rat)"
  have nonneg: "0 \<le> float64 (float64 (?q i) * 85)" by (intro float64_nonneg mult_nonneg_nonneg divide_nonneg_nonneg) auto
  with assms show "10 \<le> step_progress i n" by (simp add: step_progress_exact float_to_int_def)
  have "?q i \<le> ?q j" using assms by (intro divide_right_mono) auto
  then have "float64 (?q i) * 85 \<le> float64 (?q j) * 85" by (intro mult_right_mono float64_mono) auto
  then have "float64 (float64 (?q i) * 85) \<le> float64 (float64 (?q j) * 85)"
    by (intro float64_mono mult_nonneg_nonneg float64_nonneg) auto
  with nonneg assms show "step_progress i n \<le> step_progress j n" by (simp add: step_progress_exact float_to_int_mono)
qed

lemma step_progress_last:
  assumes "0 < n" "n < 2 ^ 53"
  shows "step_progress (n - 1) n = 95"
proof -
  have "float64 1 = 1" "float64 85 = 85" using float64_int [of 1] float64_int [of 85] by simp_all
  with assms show ?thesis by (simp add: step_progress_exact float_to_int_def)
qed

text \<open>The progress of a run never falls while its steps are executed: it starts at 10 at the least, never exceeds 95,
  and is 95 exactly when the last machine has been dealt with, whatever the rounding of the divisions.\<close>

theorem step_progress_bounds:
  assumes "i \<le> j" "j < n" "n < 2 ^ 53"
  shows "10 \<le> step_progress i n \<and> step_progress i n \<le> step_progress j n \<and> step_progress j n \<le> 95 \<and> step_progress (n - 1) n = 95"
proof -
  have "step_progress (n - 1) n = 95" using step_progress_last assms by auto
  with assms step_progress_mono [of i j n] step_progress_mono(2) [of j "n - 1" n] show ?thesis by auto
qed

lemma step_progress_bounds_witness: "step_progress 0 3 = 38 \<and> step_progress 1 3 = 66 \<and> step_progress 1 3 \<le> 95 \<and> step_progress 2 3 = 95"
proof -
  have "step_progress 0 3 = 38" by code_simp
  moreover have "step_progress 1 3 = 66" by code_simp
  ultimately show ?thesis using step_progress_bounds [of 0 1 3] by simp
qed


section \<open>The books of a run\<close>

text \<open>
  Abstractly, the executor ticks off a board of the steps: the identifier, run and status of each. A machine's
  outcome is one mark. Of the table of runs it changes only the row of its own run.
\<close>

type_synonym step_board = "(string \<times> string \<times> OrchestrationStepStatus) list"

definition board :: "('r, env_db) world \<Rightarrow> step_board" where
  "board w = map (\<lambda>s. (os_ID s, os_RunID s, os_Status s)) (edb_steps (w_db w))"

definition check_off :: "string \<Rightarrow> OrchestrationStepStatus \<Rightarrow> step_board \<Rightarrow> step_board" where
  "check_off i st b = map (\<lambda>(j, r, s). if j = i then (j, r, st) else (j, r, s)) b"

definition step_outcome :: "bool \<Rightarrow> OrchestrationStepStatus" where
  "step_outcome ok = (if ok then OrchestrationStepStatusCompleted else OrchestrationStepStatusFailed)"

fun check_off_all :: "(string \<times> bool) list \<Rightarrow> step_board \<Rightarrow> step_board" where
  "check_off_all [] b = b"
| "check_off_all ((i, ok) # xs) b = check_off_all xs (check_off i (step_outcome ok) b)"

definition other_runs_kept :: "string \<Rightarrow> ('r, env_db) world \<Rightarrow> ('r, env_db) world \<Rightarrow> bool" where
  "other_runs_kept i w w' \<longleftrightarrow> list_all2 (\<lambda>r r'. or_ID r' = or_ID r \<and> (or_ID r \<noteq> i \<longrightarrow> r' = r)) (edb_runs (w_db w)) (edb_runs (w_db w'))"

definition clean :: "('r, env_db) world \<Rightarrow> bool" where
  "clean w \<longleftrightarrow> edb_faults (w_db w) = []"

text \<open>The other workers leave these tables alone.\<close>

definition bystander :: "('r, env_db) wait_event \<Rightarrow> bool" where
  "bystander e \<longleftrightarrow> (case e of WaitTick f \<Rightarrow>
     (\<forall>w. clean w \<longrightarrow> clean (f w) \<and> edb_steps (w_db (f w)) = edb_steps (w_db w) \<and> edb_runs (w_db (f w)) = edb_runs (w_db w)) | _ \<Rightarrow> True)"

definition same_books :: "('r, env_db) world \<Rightarrow> ('r, env_db) world \<Rightarrow> bool" where
  "same_books w w' \<longleftrightarrow>
     (clean w \<longrightarrow> clean w' \<and> edb_steps (w_db w') = edb_steps (w_db w) \<and> edb_runs (w_db w') = edb_runs (w_db w))"

lemma same_books_refl [simp]: "same_books w w" by (simp add: same_books_def)

lemma same_books_trans [trans]: "same_books w w' \<Longrightarrow> same_books w' w'' \<Longrightarrow> same_books w w''"
  by (auto simp: same_books_def)

lemma same_booksD:
  assumes "same_books w w'" "clean w"
  shows "clean w'" "board w' = board w" "other_runs_kept i w0 w' = other_runs_kept i w0 w" "edb_runs (w_db w') = edb_runs (w_db w)"
  using assms by (auto simp: same_books_def board_def other_runs_kept_def)

lemma same_db_same_books: "w_db w' = w_db w \<Longrightarrow> same_books w w'"
  by (simp add: same_books_def clean_def)

lemma tc_db [simp]:
  "w_db (h_Log S now level msg flds w) = w_db w" "w_db (h_Progress S now pct msg w) = w_db w"
  "w_db (fst (tc_IsCancelled R i e w)) = w_db w"
  by (simp_all add: h_Log_def h_Progress_def tc_Log_def tc_Progress_def tc_IsCancelled_def Let_def split: option.split)

lemma other_runs_kept_refl [simp]: "other_runs_kept i w w"
  by (simp add: other_runs_kept_def list_all2_refl)

lemma other_runs_kept_trans [trans]:
  "other_runs_kept i w w' \<Longrightarrow> other_runs_kept i w' w'' \<Longrightarrow> other_runs_kept i w w''"
  unfolding other_runs_kept_def by (erule (1) list_all2_trans [rotated]) auto

lemma same_db_kept: "w_db w' = w_db w \<Longrightarrow> other_runs_kept i w w'"
  by (simp add: other_runs_kept_def list_all2_refl)

lemma env_stmt_clean: "edb_faults d = [] \<Longrightarrow> env_stmt f d = f d"
  by (simp add: env_stmt_def)

lemma UpdateStepStatus_books:
  assumes "clean w"
  shows "clean (fst (on_db (UpdateStepStatus i st tid msg) w))"
    "board (fst (on_db (UpdateStepStatus i st tid msg) w)) = check_off i st (board w)"
    "edb_runs (w_db (fst (on_db (UpdateStepStatus i st tid msg) w))) = edb_runs (w_db w)"
  using assms by (auto simp: clean_def board_def check_off_def UpdateStepStatus_def ostep_UpdateStatus_def env_stmt_clean)

lemma UpdateRun_books:
  assumes "clean w"
  shows "clean (fst (on_db (UpdateRunStatus i st msg) w))" "clean (fst (on_db (UpdateRunProgress i p c f s) w))"
    "board (fst (on_db (UpdateRunStatus i st msg) w)) = board w" "board (fst (on_db (UpdateRunProgress i p c f s) w)) = board w"
    "edb_runs (w_db (fst (on_db (UpdateRunStatus i st msg) w))) = map (\<lambda>r. if or_ID r = i then
       r\<lparr>or_Status := st, or_ErrorMessage := (if msg \<noteq> '''' then msg else or_ErrorMessage r)\<rparr> else r) (edb_runs (w_db w))"
    "edb_runs (w_db (fst (on_db (UpdateRunProgress i p c f s) w))) = map (\<lambda>r. if or_ID r = i then
       r\<lparr>or_Progress := p, or_CompletedVMs := c, or_FailedVMs := f, or_SkippedVMs := s\<rparr> else r) (edb_runs (w_db w))"
  using assms by (auto simp: clean_def board_def UpdateRunStatus_def UpdateRunProgress_def orun_UpdateStatus_def orun_UpdateProgress_def
      update_run_def env_stmt_clean)

lemma UpdateRun_kept:
  assumes "clean w"
  shows "other_runs_kept i w (fst (on_db (UpdateRunStatus i st msg) w))" "other_runs_kept i w (fst (on_db (UpdateRunProgress i p c f s) w))"
  using UpdateRun_books(5,6) [OF assms] by (auto simp: other_runs_kept_def list_all2_conv_all_nth)

lemma on_db_same_books: "edb_steps (fst (f (w_db w))) = edb_steps (w_db w) \<Longrightarrow> edb_runs (fst (f (w_db w))) = edb_runs (w_db w) \<Longrightarrow>
   (edb_faults (w_db w) = [] \<Longrightarrow> edb_faults (fst (f (w_db w))) = []) \<Longrightarrow> on_db f w = (w', x) \<Longrightarrow> same_books w w'"
  by (auto simp: same_books_def clean_def on_db_def split: prod.splits)

lemma env_UpdateStatus_books: "same_books w (fst (on_db (repo_UpdateStatus env_TaskRepo i st res msg) w))"
  by (auto simp: same_books_def clean_def env_TaskRepo_def on_tasks_def split_beta)

lemma engine_Enqueue_books: "same_books w (fst (engine_Enqueue c R env_TaskRepo i p w))"
proof -
  show ?thesis
  proof (cases "bp_Allow (w_backpressure w)")
    case True
    obtain w1 x where q: "on_redis (q_Enqueue R i p) w = (w1, x)" by fastforce
    then have "w_db w1 = w_db w" using on_redis_sel(3) [of "q_Enqueue R i p" w] by simp
    then have "same_books w w1" by (rule same_db_same_books)
    then show ?thesis using True same_books_trans [OF _ env_UpdateStatus_books [of w1]] by (auto simp: engine_Enqueue_def q split: option.split)
  qed (simp add: engine_Enqueue_def)
qed


lemma env_stmt_edb:
  assumes "edb_faults d = []" "\<And>d. edb_faults (fst (f d)) = edb_faults d \<and> edb_steps (fst (f d)) = edb_steps d \<and> edb_runs (fst (f d)) = edb_runs d"
  shows "edb_faults (fst (env_stmt f d)) = [] \<and> edb_steps (fst (env_stmt f d)) = edb_steps d \<and> edb_runs (fst (env_stmt f d)) = edb_runs d"
  using assms by (simp add: env_stmt_clean)

lemma same_books_h [simp]:
  "same_books w (h_Log S now level msg flds w') = same_books w w'" "same_books w (h_Progress S now pct msg w') = same_books w w'"
  by (simp_all add: same_books_def clean_def)

lemma dispatchVMTask_books: "same_books w (fst (dispatchVMTask S now vmID oper payload w))"
proof -
  have get: "same_books w (fst (on_db (vm_GetByID vmID) w))" for w :: "('a, env_db) world"
    using env_stmt_edb [where d = "w_db w"] by (auto simp: same_books_def clean_def vm_GetByID_def first_row_def env_stmt_clean split: option.split)
  have draw: "same_books w (fst (on_db (draw_id U) w))" for w :: "('a, env_db) world" and U
    by (simp add: same_books_def clean_def draw_id_def)
  have create: "same_books w (fst (on_db (env_task_Create t) w))" for w :: "('a, env_db) world" and t
    by (simp add: same_books_def clean_def env_task_Create_def env_stmt_clean split: prod.split option.split)
  show ?thesis
    unfolding dispatchVMTask_def
    by (auto split: prod.split sum.split)
      (metis get draw create engine_Enqueue_books same_books_trans fst_conv)+
qed

lemma waitForTask_books:
  assumes "list_all bystander es" "waitForTask T tid es w = Some (w', r)"
  shows "same_books w w'"
  using assms
proof (induction T tid es w rule: waitForTask.induct)
  case (4 T taskID f es w)
  from "4.prems"(1) have by_f: "bystander (WaitTick f)" and es: "list_all bystander es" by auto
  from by_f have f: "same_books w (f w)" by (simp add: bystander_def same_books_def)
  obtain y where get: "repo_GetByID T taskID (w_db (f w)) = y" by blast
  show ?case
  proof (cases y)
    case (Inr t)
    have IH: "waitForTask T taskID es (f w) = Some (w', r) \<Longrightarrow> tk_Status t \<in> {TaskPending, TaskQueued, TaskRunning, TaskRetrying} \<Longrightarrow>
        same_books (f w) w'"
      using 4(1-4) [OF refl, of t] get Inr es by auto
    from "4.prems"(2) get Inr f IH show ?thesis
      by (cases "tk_Status t") (auto dest: same_books_trans)
  qed (use "4.prems"(2) get f in auto)
qed auto

lemma execute_step_books:
  assumes wt: "list_all bystander (ow_waits out i)" and c: "clean w"
    and ex: "execute_step S out i oper payload step w = Some (w', ok)"
  shows "clean w'" "board w' = check_off (os_ID step) (step_outcome ok) (board w)" "edb_runs (w_db w') = edb_runs (w_db w)"
proof -
  let ?start = "fst (on_db (UpdateStepStatus (os_ID step) OrchestrationStepStatusRunning None '''') w)"
  obtain w1 x where d: "dispatchVMTask S (ow_now out i) (os_VMID step) oper payload ?start = (w1, x)" by fastforce
  have s1: "same_books ?start w1" using dispatchVMTask_books [of ?start S "ow_now out i" "os_VMID step" oper payload] d by simp
  have *: "\<exists>w2 tid msg. same_books ?start w2 \<and> w' = fst (on_db (UpdateStepStatus (os_ID step) (step_outcome ok) tid msg) w2)"
  proof (cases x)
    case (Inl e)
    let ?w = "h_Log S (ow_now out i) ''error'' ''failed to dispatch vm task'' [(''vm_id'', JStr (os_VMID step)), (''error'', JStr (Error_text e))] w1"
    from Inl ex d have "ok = False" "w' = fst (on_db (UpdateStepStatus (os_ID step) OrchestrationStepStatusFailed None (Error_text e)) ?w)"
      by (simp_all add: execute_step_def Let_def)
    moreover have "same_books ?start ?w" using s1 by simp
    ultimately show ?thesis by (intro exI [of _ ?w] exI) (auto simp: step_outcome_def)
  next
    case (Inr taskID)
    obtain y where y: "waitForTask env_TaskRepo taskID (ow_waits out i) w1 = y" by blast
    with ex d Inr obtain w2 r where w: "waitForTask env_TaskRepo taskID (ow_waits out i) w1 = Some (w2, r)"
      by (cases y) (auto simp: execute_step_def Let_def)
    have s2: "same_books ?start w2" using waitForTask_books [OF wt w] s1 same_books_trans by blast
    show ?thesis
    proof (cases r)
      case None
      with ex d w Inr show ?thesis using s2 by (auto simp: execute_step_def Let_def step_outcome_def)
    next
      case (Some e)
      let ?w = "h_Log S (ow_now out i) ''error'' ''vm task failed'' [(''vm_id'', JStr (os_VMID step)), (''task_id'', JStr taskID),
          (''error'', JStr (Error_text e))] w2"
      from Some ex d w Inr have "ok = False"
          "w' = fst (on_db (UpdateStepStatus (os_ID step) OrchestrationStepStatusFailed (Some taskID) (Error_text e)) ?w)"
        by (simp_all add: execute_step_def Let_def)
      moreover have "same_books ?start ?w" using s2 by simp
      ultimately show ?thesis by (intro exI [of _ ?w] exI) (auto simp: step_outcome_def)
    qed
  qed
  then obtain w2 tid msg where w2: "same_books ?start w2" "w' = fst (on_db (UpdateStepStatus (os_ID step) (step_outcome ok) tid msg) w2)" by blast
  have cl: "clean w2" using same_booksD(1) [OF w2(1)] UpdateStepStatus_books(1) [OF c] by blast
  have b2: "board w2 = check_off (os_ID step) OrchestrationStepStatusRunning (board w)" "edb_runs (w_db w2) = edb_runs (w_db w)"
    using same_booksD [OF w2(1)] UpdateStepStatus_books [OF c] by auto
  show "clean w'" "board w' = check_off (os_ID step) (step_outcome ok) (board w)" "edb_runs (w_db w') = edb_runs (w_db w)"
    unfolding w2(2) using UpdateStepStatus_books [OF cl] b2 by (auto simp: check_off_def)
qed


text \<open>One round of the loop.\<close>

lemma execute_steps_step:
  assumes wt: "\<And>i. list_all bystander (ow_waits out i)" and cl: "clean w"
    and ex: "execute_steps S out oper payload runID n i (step # steps) completed failed w = Some (w', res)"
    and c: "tc_IsCancelled (st_R S) (st_taskID S) (ow_ctx out i) w = (w1, b)" "\<not> b"
  shows "\<exists>ok w3 completed' failed'. completed' = (if ok then completed + 1 else completed) \<and> failed' = (if ok then failed else failed + 1) \<and>
     clean w3 \<and> board w3 = check_off (os_ID step) (step_outcome ok) (board w) \<and> other_runs_kept runID w w3 \<and>
     execute_steps S out oper payload runID n (i + 1) steps completed' failed' w3 = Some (w', res)"
proof -
  let ?log = "h_Log S (ow_now out i) ''info'' ''executing step'' [(''step'', JNum (of_nat (i + 1))), (''total'', JNum (of_nat n)),
       (''vm_id'', JStr (os_VMID step)), (''execution_order'', JNum (of_int (os_ExecutionOrder step)))] w1"
  have "w_db w1 = w_db w" using tc_db(3) [of "st_R S" "st_taskID S" "ow_ctx out i" w] c by simp
  then have l: "same_books w ?log" by (simp add: same_db_same_books)
  obtain w2 ok where st: "execute_step S out i oper payload step ?log = Some (w2, ok)"
    using ex c by (cases "execute_step S out i oper payload step ?log") (auto simp: Let_def)
  note x = execute_step_books [OF wt same_booksD(1) [OF l cl] st]
  let ?c = "if ok then completed + 1 else completed" and ?f = "if ok then failed else failed + 1"
  let ?up = "fst (on_db (UpdateRunProgress runID (step_progress i n) ?c ?f 0) w2)"
  let ?w3 = "h_Progress S (ow_now out i) (step_progress i n) (''step '' @ Itoa (int (i + 1)) @ ''/'' @ Itoa (int n) @ '': vm '' @ os_VMID step) ?up"
  have p: "same_books ?up ?w3" by simp
  note y = UpdateRun_books(2,4) [OF x(1), where i = runID and p = "step_progress i n" and c = ?c and f = ?f and s = 0]
  have "execute_steps S out oper payload runID n (i + 1) steps ?c ?f ?w3 = Some (w', res)"
    using ex c st by (simp add: Let_def)
  moreover have "board ?w3 = check_off (os_ID step) (step_outcome ok) (board w)"
    using same_booksD(2) [OF p y(1)] y(2) x(2) same_booksD(2) [OF l cl] by simp
  moreover have "other_runs_kept runID w ?w3"
    using UpdateRun_kept(2) [OF x(1), where i = runID and p = "step_progress i n" and c = ?c and f = ?f and s = 0]
      x(3) same_booksD(4) [OF l cl] by (simp add: other_runs_kept_def)
  ultimately show ?thesis using same_booksD(1) [OF p y(1)] by blast
qed

lemma execute_steps_books:
  assumes "\<And>i. list_all bystander (ow_waits out i)" "clean w"
    "execute_steps S out oper payload runID n i steps completed failed w = Some (w', Inr (completed', failed'))"
  shows "\<exists>oks. length oks = length steps \<and> completed' = completed + int (length (filter (\<lambda>ok. ok) oks)) \<and>
     failed' = failed + int (length (filter Not oks)) \<and> clean w' \<and>
     board w' = check_off_all (zip (map os_ID steps) oks) (board w) \<and> other_runs_kept runID w w'"
  using assms(2,3)
proof (induction steps arbitrary: i completed failed w)
  case (Cons step steps)
  obtain w1 b where c: "tc_IsCancelled (st_R S) (st_taskID S) (ow_ctx out i) w = (w1, b)" by fastforce
  with Cons.prems(2) have b: "\<not> b" by auto
  from execute_steps_step [OF assms(1) Cons.prems c b] obtain ok w3 where
    nx: "clean w3" "board w3 = check_off (os_ID step) (step_outcome ok) (board w)" "other_runs_kept runID w w3"
      "execute_steps S out oper payload runID n (i + 1) steps (if ok then completed + 1 else completed)
         (if ok then failed else failed + 1) w3 = Some (w', Inr (completed', failed'))" by blast
  from Cons.IH [OF nx(1,4)] obtain oks where "length oks = length steps"
      "completed' = (if ok then completed + 1 else completed) + int (length (filter (\<lambda>ok. ok) oks))"
      "failed' = (if ok then failed else failed + 1) + int (length (filter Not oks))" "clean w'"
      "board w' = check_off_all (zip (map os_ID steps) oks) (board w3)" "other_runs_kept runID w3 w'" by blast
  with nx show ?case by (intro exI [of _ "ok # oks"]) (auto dest: other_runs_kept_trans)
qed auto

lemma length_filter_not: "length (filter (\<lambda>ok. ok) bs) + length (filter Not bs) = length bs"
  by (induction bs) auto

lemma check_off_all_map:
  assumes "distinct (map fst xs)"
  shows "check_off_all xs b = map (\<lambda>(i, r, s). (i, r, case map_of xs i of Some ok \<Rightarrow> step_outcome ok | None \<Rightarrow> s)) b"
  using assms
proof (induction xs b rule: check_off_all.induct)
  case (2 i ok xs b)
  then have "map_of xs i = None" by (simp add: map_of_eq_None_iff image_iff)
  with 2 show ?case by (auto simp: check_off_def split: option.splits)
qed (auto simp: case_prod_beta)


text \<open>How many steps of a run have a status.\<close>

definition marked :: "string \<Rightarrow> OrchestrationStepStatus \<Rightarrow> ('r, env_db) world \<Rightarrow> nat" where
  "marked runID st w = length (filter (\<lambda>s. os_RunID s = runID \<and> os_Status s = st) (edb_steps (w_db w)))"

lemma marked_board: "marked runID st w = length (filter (\<lambda>(i, r, s). r = runID \<and> s = st) (board w))"
  by (simp add: marked_def board_def filter_map comp_def)

lemma length_filter_mset: "mset xs = mset ys \<Longrightarrow> length (filter P xs) = length (filter P ys)"
  by (metis mset_filter size_mset)

lemma count_outcomes:
  assumes "length L = length oks" "distinct (map f L)"
  shows "length (filter (\<lambda>s. map_of (zip (map f L) oks) (f s) = Some b) L) = length (filter (\<lambda>ok. ok = b) oks)"
  using assms
proof (induction rule: list_induct2)
  case (Cons a L ok oks)
  then have "filter (\<lambda>s. map_of (zip (map f (a # L)) (ok # oks)) (f s) = Some b) L = filter (\<lambda>s. map_of (zip (map f L) oks) (f s) = Some b) L"
    by (intro filter_cong) (auto simp del: map_of_eq_Some_iff simp: image_iff)
  with Cons show ?case by simp
qed simp

lemma marked_check_off_all:
  assumes len: "length oks = length L" and L: "mset L = mset (filter (\<lambda>s. os_RunID s = runID) (edb_steps (w_db w)))"
    and dist: "distinct (map os_ID (edb_steps (w_db w)))"
    and b: "board w' = check_off_all (zip (map os_ID L) oks) (board w)"
  shows "marked runID (step_outcome ok) w' = length (filter (\<lambda>x. x = ok) oks)"
proof -
  let ?steps = "edb_steps (w_db w)" and ?m = "map_of (zip (map os_ID L) oks)"
  have "mset (map os_ID L) = mset (map os_ID (filter (\<lambda>s. os_RunID s = runID) ?steps))" using L by simp
  moreover have "distinct (map os_ID (filter (\<lambda>s. os_RunID s = runID) ?steps))" by (rule distinct_map_filter [OF dist])
  ultimately have dL: "distinct (map os_ID L)" by (metis mset_eq_imp_distinct_iff)
  have dom: "\<exists>x. ?m (os_ID s) = Some x" if "s \<in> set ?steps" "os_RunID s = runID" for s
  proof -
    from that L have "s \<in> set L" by (metis (mono_tags, lifting) mem_Collect_eq set_filter set_mset_mset)
    with len show ?thesis by (simp add: map_of_zip_is_Some [symmetric])
  qed
  have ticked: "check_off_all (zip (map os_ID L) oks) (board w) = map (\<lambda>(i, r, s). (i, r, case ?m i of Some ok \<Rightarrow> step_outcome ok | None \<Rightarrow> s)) (board w)"
    using dL len by (intro check_off_all_map) simp
  have inj: "(step_outcome x = step_outcome ok) = (x = ok)" for x by (auto simp: step_outcome_def)
  have "marked runID (step_outcome ok) w' = length (filter (\<lambda>s. os_RunID s = runID \<and>
      (case ?m (os_ID s) of Some x \<Rightarrow> step_outcome x | None \<Rightarrow> os_Status s) = step_outcome ok) ?steps)"
    unfolding marked_board b ticked by (simp add: board_def filter_map comp_def)
  also have "\<dots> = length (filter (\<lambda>s. os_RunID s = runID \<and> ?m (os_ID s) = Some ok) ?steps)"
  proof (intro arg_cong [where f = length] filter_cong refl conj_cong)
    fix s assume "s \<in> set ?steps" "os_RunID s = runID"
    from dom [OF this] show "((case ?m (os_ID s) of Some x \<Rightarrow> step_outcome x | None \<Rightarrow> os_Status s) = step_outcome ok) = (?m (os_ID s) = Some ok)"
      by (auto simp: inj simp del: map_of_eq_Some_iff)
  qed
  also have "\<dots> = length (filter (\<lambda>s. ?m (os_ID s) = Some ok) (filter (\<lambda>s. os_RunID s = runID) ?steps))"
    by (simp add: conj_commute)
  also have "\<dots> = length (filter (\<lambda>s. ?m (os_ID s) = Some ok) L)" by (rule length_filter_mset [OF L [symmetric]])
  also have "\<dots> = length (filter (\<lambda>x. x = ok) oks)" by (rule count_outcomes [OF len [symmetric] dL])
  finally show ?thesis .
qed


lemma execute_steps_error:
  "execute_steps S out oper payload runID n i steps completed failed w = Some (w', Inl e) \<Longrightarrow> e = Sentinel ErrTaskCancelled"
proof (induction steps arbitrary: i completed failed w)
  case (Cons step steps)
  obtain w1 b where "tc_IsCancelled (st_R S) (st_taskID S) (ow_ctx out i) w = (w1, b)" by fastforce
  with Cons.prems Cons.IH show ?case by (cases b) (auto simp: Let_def split: option.splits)
qed simp

text \<open>What the run of a handler that went through all steps says.\<close>

definition closed_run :: "string \<Rightarrow> ('r, env_db) world \<Rightarrow> bool" where
  "closed_run runID w \<longleftrightarrow> (let c = marked runID OrchestrationStepStatusCompleted w; f = marked runID OrchestrationStepStatusFailed w in
     \<forall>r \<in> set (edb_runs (w_db w)). or_ID r = runID \<longrightarrow>
       or_CompletedVMs r = int c \<and> or_FailedVMs r = int f \<and> or_SkippedVMs r = 0 \<and> or_Progress r = 100 \<and>
       or_Status r = (if c = 0 \<and> f > 0 then OrchestrationRunStatusFailed else OrchestrationRunStatusCompleted))"

lemma written_status:
  assumes "clean w" "or_ID r = i" "r \<in> set (edb_runs (w_db (fst (on_db (UpdateRunStatus i st msg) w))))"
  shows "or_Status r = st"
proof -
  let ?f = "\<lambda>r. if or_ID r = i then r\<lparr>or_Status := st, or_ErrorMessage := (if msg \<noteq> '''' then msg else or_ErrorMessage r)\<rparr> else r"
  have "r \<in> ?f ` set (edb_runs (w_db w))" using assms(3) unfolding UpdateRun_books(5) [OF assms(1)] set_map .
  then obtain r0 where "r = ?f r0" by blast
  with assms(2) show ?thesis by (cases "or_ID r0 = i") simp_all
qed

lemma written_run:
  assumes "clean w" "or_ID r = i"
    "r \<in> set (edb_runs (w_db (fst (on_db (UpdateRunProgress i p c f s) (fst (on_db (UpdateRunStatus i st msg) w))))))"
  shows "or_CompletedVMs r = c \<and> or_FailedVMs r = f \<and> or_SkippedVMs r = s \<and> or_Progress r = p \<and> or_Status r = st"
proof -
  have "r \<in> (\<lambda>r. if or_ID r = i then r\<lparr>or_Progress := p, or_CompletedVMs := c, or_FailedVMs := f, or_SkippedVMs := s\<rparr> else r)
      ` set (edb_runs (w_db (fst (on_db (UpdateRunStatus i st msg) w))))"
    using assms(3) unfolding UpdateRun_books(6) [OF UpdateRun_books(1) [OF assms(1)]] set_map .
  then obtain r1 where r1: "r1 \<in> set (edb_runs (w_db (fst (on_db (UpdateRunStatus i st msg) w))))"
      "r = (if or_ID r1 = i then r1\<lparr>or_Progress := p, or_CompletedVMs := c, or_FailedVMs := f, or_SkippedVMs := s\<rparr> else r1)" by blast
  from r1(2) assms(2) have "or_ID r1 = i" by (cases "or_ID r1 = i") simp_all
  with r1(2) written_status [OF assms(1) this r1(1)] show ?thesis by simp
qed

lemma finish_run_books:
  assumes "clean w" "finish_run S now runID e n completed failed w = (w', err)"
  shows "board w' = board w" "other_runs_kept runID w w'" "err \<noteq> None \<longleftrightarrow> failed > 0 \<and> completed = 0" "err \<noteq> Some (Sentinel ErrTaskCancelled)"
    "\<And>r. r \<in> set (edb_runs (w_db w')) \<Longrightarrow> or_ID r = runID \<Longrightarrow>
      or_CompletedVMs r = completed \<and> or_FailedVMs r = failed \<and> or_SkippedVMs r = 0 \<and> or_Progress r = 100 \<and>
      or_Status r = (if failed > 0 \<and> completed = 0 then OrchestrationRunStatusFailed else OrchestrationRunStatusCompleted)"
proof -
  let ?st = "if failed > 0 \<and> completed = 0 then OrchestrationRunStatusFailed else OrchestrationRunStatusCompleted"
    and ?msg = "if failed > 0 then Itoa failed @ '' of '' @ Itoa (int n) @ '' VMs failed'' else ''''"
  let ?w1 = "fst (on_db (UpdateRunStatus runID ?st ?msg) w)"
  let ?w2 = "fst (on_db (UpdateRunProgress runID 100 completed failed 0) ?w1)"
  have db: "w_db w' = w_db ?w2" using assms(2) by (auto simp: finish_run_def Let_def)
  note c1 = UpdateRun_books(1) [OF assms(1), of runID ?st ?msg]
  show "board w' = board w"
    using db UpdateRun_books(3) [OF assms(1), of runID ?st ?msg] UpdateRun_books(4) [OF c1, of runID 100 completed failed 0] by (simp add: board_def)
  have "other_runs_kept runID w ?w2" using UpdateRun_kept(1) [OF assms(1)] UpdateRun_kept(2) [OF c1] other_runs_kept_trans by blast
  then show "other_runs_kept runID w w'" using db by (simp add: other_runs_kept_def)
  show "err \<noteq> None \<longleftrightarrow> failed > 0 \<and> completed = 0" "err \<noteq> Some (Sentinel ErrTaskCancelled)"
    using assms(2) by (auto simp: finish_run_def Let_def split: if_splits)
  show "or_CompletedVMs r = completed \<and> or_FailedVMs r = failed \<and> or_SkippedVMs r = 0 \<and> or_Progress r = 100 \<and> or_Status r = ?st"
    if "r \<in> set (edb_runs (w_db w'))" "or_ID r = runID" for r
    using written_run [OF assms(1) that(2) that(1) [unfolded db]] .
qed

lemma start_books:
  assumes "clean w" "on_db (UpdateRunStatus i st msg) w = (w', x)"
  shows "clean w'" "board w' = board w" "edb_steps (w_db w') = edb_steps (w_db w)" "other_runs_kept i w w'" "\<exists>u. x = Inr u"
proof -
  have w': "w' = fst (on_db (UpdateRunStatus i st msg) w)" using assms(2) by simp
  show "clean w'" "board w' = board w" "other_runs_kept i w w'"
    unfolding w' using UpdateRun_books(1,3) UpdateRun_kept(1) assms(1) by blast+
  show "\<exists>u. x = Inr u" "edb_steps (w_db w') = edb_steps (w_db w)"
    using assms by (auto simp: clean_def on_db_def UpdateRunStatus_def orun_UpdateStatus_def update_run_def env_stmt_clean)
qed

text \<open>The plan of a run, and what the handler does with it.\<close>

definition plan_steps :: "string \<Rightarrow> ('r, env_db) world \<Rightarrow> OrchestrationStep list" where
  "plan_steps runID w = sort_key os_ExecutionOrder (filter (\<lambda>s. os_RunID s = runID) (edb_steps (w_db w)))"

lemma plan_steps_Nil: "plan_steps runID w = [] \<longleftrightarrow> filter (\<lambda>s. os_RunID s = runID) (edb_steps (w_db w)) = []"
  by (metis plan_steps_def length_0_conv length_sort)

definition carry_out where
  "carry_out S out oper t runID eID L w =
     (if L = [] then Some (h_Progress S (ow_now out 0) 100 ''no VMs to orchestrate''
        (fst (on_db (UpdateRunStatus runID OrchestrationRunStatusCompleted '''') w)), t, None)
      else case execute_steps S out oper (tk_Payload t) runID (length L) 0 L 0 0 w of
          None \<Rightarrow> None
        | Some (w, Inl e) \<Rightarrow> Some (w, t, Some e)
        | Some (w, Inr (completed, failed)) \<Rightarrow>
            (case finish_run S (ow_now out (length L)) runID eID (length L) completed failed w of (w, err) \<Rightarrow> Some (w, t, err)))"

lemma handler_plan:
  assumes up: "clean w" and runID: "runID = stringFromPayload (st_fmt S) (tk_Payload t) ''run_id''" "runID \<noteq> ''''"
    and env: "eID = stringFromPayload (st_fmt S) (tk_Payload t) ''environment_id''" "eID \<noteq> ''''"
  shows "\<exists>w3. clean w3 \<and> board w3 = board w \<and> other_runs_kept runID w w3 \<and>
    handleEnvOperation S out oper t w = carry_out S out oper t runID eID (plan_steps runID w) w3"
proof -
  let ?L = "plan_steps runID w"
  let ?w0 = "h_Progress S (ow_now out 0) 5 ''loading orchestration plan'' (h_Log S (ow_now out 0) ''info'' ''starting environment orchestration''
      [(''environment_id'', JStr eID), (''run_id'', JStr runID), (''operation'', JStr (Operation_text oper))] w)"
  have s0: "same_books w ?w0" by simp
  obtain w1 x where r1: "on_db (UpdateRunStatus runID OrchestrationRunStatusRunning '''') ?w0 = (w1, x)" by fastforce
  note b1 = start_books [OF same_booksD(1) [OF s0 up] r1]
  have steps1: "edb_steps (w_db w1) = edb_steps (w_db w)" using b1(3) by simp
  have kept1: "other_runs_kept runID w w1" using b1(4) by (simp add: other_runs_kept_def)
  obtain w2 where load: "on_db (ostep_ListByRun runID) w1 = (w2, Inr ?L)" "w_db w2 = w_db w1"
    using b1(1) steps1 by (auto simp: plan_steps_def clean_def on_db_def ostep_ListByRun_def env_stmt_clean)
  let ?w3 = "if ?L = [] then w2 else h_Progress S (ow_now out 0) 10 (''executing '' @ Itoa (int (length ?L)) @ '' VM steps'') w2"
  have w3: "w_db ?w3 = w_db w1" using load(2) by simp
  have "clean ?w3" using b1(1) w3 unfolding clean_def by (simp only:)
  moreover have "board ?w3 = board w" using w3 steps1 unfolding board_def by (simp only:)
  moreover have "other_runs_kept runID w ?w3" using other_runs_kept_trans [OF kept1 same_db_kept [OF w3]] .
  moreover have "handleEnvOperation S out oper t w = carry_out S out oper t runID eID ?L ?w3"
    using runID env r1 b1(5) load(1) by (auto simp: handleEnvOperation_def carry_out_def Let_def)
  ultimately show ?thesis by blast
qed

text \<open>C3. The books of a run add up. When the database answers, the other workers leave the tables of runs and steps
  alone and no cancellation is noticed, the handler of an orchestration leaves every step of its run marked completed
  or failed; the run records exactly these two numbers and a progress of 100, and has failed only if every
  machine has; only then does the handler report an error. The rows of other runs are untouched.\<close>

theorem orchestration_books:
  assumes bystanders: "\<And>i. list_all bystander (ow_waits out i)" and up: "clean w"
    and dist: "distinct (map os_ID (edb_steps (w_db w)))"
    and runID: "runID = stringFromPayload (st_fmt S) (tk_Payload t) ''run_id''" "runID \<noteq> ''''"
    and env: "stringFromPayload (st_fmt S) (tk_Payload t) ''environment_id'' \<noteq> ''''"
    and res: "handleEnvOperation S out oper t w = Some (w', t', err)" "err \<noteq> Some (Sentinel ErrTaskCancelled)"
  shows "t' = t \<and> other_runs_kept runID w w' \<and>
    marked runID OrchestrationStepStatusCompleted w' + marked runID OrchestrationStepStatusFailed w' = length (plan_steps runID w) \<and>
    (plan_steps runID w \<noteq> [] \<longrightarrow> closed_run runID w' \<and> (err \<noteq> None \<longleftrightarrow> marked runID OrchestrationStepStatusCompleted w' = 0))"
proof -
  let ?L = "plan_steps runID w" and ?e = "stringFromPayload (st_fmt S) (tk_Payload t) ''environment_id''"
  obtain w3 where w3: "clean w3" "board w3 = board w" "other_runs_kept runID w w3" and H: "handleEnvOperation S out oper t w = carry_out S out oper t runID ?e ?L w3"
    using handler_plan [OF up runID refl env, of out oper] by blast
  note R = H [unfolded carry_out_def]
  show ?thesis
  proof (cases "?L = []")
    case True
    with R res(1) have r: "w' = h_Progress S (ow_now out 0) 100 ''no VMs to orchestrate''
        (fst (on_db (UpdateRunStatus runID OrchestrationRunStatusCompleted '''') w3))" "t' = t" by simp_all
    have "board w' = board w" using UpdateRun_books(3) [OF w3(1)] w3(2) by (simp add: r(1) board_def)
    then have "marked runID st w' = 0" for st
      using True by (simp add: marked_board plan_steps_Nil) (force simp: board_def filter_empty_conv)
    moreover have "other_runs_kept runID w w'"
      using other_runs_kept_trans [OF other_runs_kept_trans [OF w3(3) UpdateRun_kept(1) [OF w3(1)]] same_db_kept [of w']] r(1) by (metis tc_db(2))
    ultimately show ?thesis using True r(2) by simp
  next
    case False
    with R res(1) obtain w4 z where ex: "execute_steps S out oper (tk_Payload t) runID (length ?L) 0 ?L 0 0 w3 = Some (w4, z)"
      by (cases "execute_steps S out oper (tk_Payload t) runID (length ?L) 0 ?L 0 0 w3") auto
    have "\<exists>cf. z = Inr cf" using execute_steps_error [of S out oper "tk_Payload t" runID "length ?L" 0 ?L 0 0 w3 w4] R res ex False
      by (cases z) auto
    then obtain c f where z: "z = Inr (c, f)" by auto
    with R res(1) False ex have t': "t' = t" and fin: "finish_run S (ow_now out (length ?L)) runID
        (stringFromPayload (st_fmt S) (tk_Payload t) ''environment_id'') (length ?L) c f w4 = (w', err)"
      by (auto split: prod.splits)
    from execute_steps_books [OF bystanders w3(1) ex [unfolded z]] obtain oks where oks: "length oks = length ?L"
        "c = int (length (filter (\<lambda>ok. ok) oks))" "f = int (length (filter Not oks))" "clean w4"
        "board w4 = check_off_all (zip (map os_ID ?L) oks) (board w3)" "other_runs_kept runID w3 w4" by auto
    note fb = finish_run_books [OF oks(4) fin]
    have board: "board w' = check_off_all (zip (map os_ID ?L) oks) (board w)" using fb(1) oks(5) w3(2) by simp
    have m: "marked runID (step_outcome ok) w' = length (filter (\<lambda>x. x = ok) oks)" for ok
      by (rule marked_check_off_all [OF oks(1) _ dist board]) (simp add: plan_steps_def)
    have mc: "int (marked runID OrchestrationStepStatusCompleted w') = c" and mf: "int (marked runID OrchestrationStepStatusFailed w') = f"
      using m [of True] m [of False] oks(2,3) by (simp_all add: step_outcome_def)
    have sum: "c + f = int (length ?L)" using length_filter_not [of oks] oks(1-3) by linarith
    have pos: "length ?L > 0" using False by blast
    have kept: "other_runs_kept runID w w'" using w3(3) oks(6) fb(2) by (blast intro: other_runs_kept_trans)
    show ?thesis using t' kept mc mf sum pos fb(3,5) by (auto simp: closed_run_def Let_def)
  qed
qed

text \<open>A cancelled run.\<close>

lemma execute_steps_cancelled:
  assumes "\<And>i. list_all bystander (ow_waits out i)" "clean w"
    "execute_steps S out oper payload runID n i steps completed failed w = Some (w', Inl e)"
  shows "\<exists>oks. length oks < length steps \<and> board w' = check_off_all (zip (map os_ID steps) oks) (board w) \<and> other_runs_kept runID w w' \<and>
     (\<forall>r \<in> set (edb_runs (w_db w')). or_ID r = runID \<longrightarrow> or_Status r = OrchestrationRunStatusCancelled)"
  using assms(2,3)
proof (induction steps arbitrary: i completed failed w)
  case (Cons step steps)
  obtain w1 b where c: "tc_IsCancelled (st_R S) (st_taskID S) (ow_ctx out i) w = (w1, b)" by fastforce
  then have w1: "w_db w1 = w_db w" using tc_db(3) [of "st_R S" "st_taskID S" "ow_ctx out i" w] by simp
  show ?case
  proof (cases b)
    case True
    let ?w' = "fst (on_db (UpdateRunStatus runID OrchestrationRunStatusCancelled ''cancelled by user'') w1)"
    have c1: "clean w1" using Cons.prems(1) w1 by (simp add: clean_def)
    from Cons.prems(2) c True have w': "w' = ?w'" by simp
    have "board ?w' = board w" using UpdateRun_books(3) [OF c1] w1 by (simp add: board_def)
    moreover have "other_runs_kept runID w ?w'" using other_runs_kept_trans [OF same_db_kept [OF w1] UpdateRun_kept(1) [OF c1]] .
    moreover have "or_Status r = OrchestrationRunStatusCancelled" if "r \<in> set (edb_runs (w_db ?w'))" "or_ID r = runID" for r
      using written_status [OF c1 that(2,1)] .
    ultimately show ?thesis unfolding w' by (intro exI [of _ "[]"]) auto
  next
    case False
    from execute_steps_step [OF assms(1) Cons.prems c False] obtain ok w3 completed' failed' where
      nx: "clean w3" "board w3 = check_off (os_ID step) (step_outcome ok) (board w)" "other_runs_kept runID w w3"
        "execute_steps S out oper payload runID n (i + 1) steps completed' failed' w3 = Some (w', Inl e)" by blast
    from Cons.IH [OF nx(1,4)] obtain oks where "length oks < length steps" "board w' = check_off_all (zip (map os_ID steps) oks) (board w3)"
        "other_runs_kept runID w3 w'" "\<forall>r \<in> set (edb_runs (w_db w')). or_ID r = runID \<longrightarrow> or_Status r = OrchestrationRunStatusCancelled" by blast
    with nx show ?thesis by (intro exI [of _ "ok # oks"]) (auto dest: other_runs_kept_trans)
  qed
qed simp

text \<open>A run whose handler notices a cancellation stops between two machines: the machines dealt with until then are
  marked, in the order of the plan, the steps of the others stay as they were, and the run, and no other, is cancelled.\<close>

theorem orchestration_cancelled:
  assumes bystanders: "\<And>i. list_all bystander (ow_waits out i)" and up: "clean w"
    and runID: "runID = stringFromPayload (st_fmt S) (tk_Payload t) ''run_id''" "runID \<noteq> ''''"
    and env: "stringFromPayload (st_fmt S) (tk_Payload t) ''environment_id'' \<noteq> ''''"
    and res: "handleEnvOperation S out oper t w = Some (w', t', Some (Sentinel ErrTaskCancelled))"
  shows "\<exists>oks. length oks < length (plan_steps runID w) \<and>
    board w' = check_off_all (zip (map os_ID (plan_steps runID w)) oks) (board w) \<and> other_runs_kept runID w w' \<and>
    (\<forall>r \<in> set (edb_runs (w_db w')). or_ID r = runID \<longrightarrow> or_Status r = OrchestrationRunStatusCancelled)"
proof -
  let ?L = "plan_steps runID w" and ?e = "stringFromPayload (st_fmt S) (tk_Payload t) ''environment_id''"
  obtain w3 where w3: "clean w3" "board w3 = board w" "other_runs_kept runID w w3" and H: "handleEnvOperation S out oper t w = carry_out S out oper t runID ?e ?L w3"
    using handler_plan [OF up runID refl env, of out oper] by blast
  note R = H [unfolded carry_out_def]
  have ne: "?L \<noteq> []" using R res by auto
  with R res obtain w4 z where ex: "execute_steps S out oper (tk_Payload t) runID (length ?L) 0 ?L 0 0 w3 = Some (w4, z)"
    by (cases "execute_steps S out oper (tk_Payload t) runID (length ?L) 0 ?L 0 0 w3") auto
  have "finish_run S now runID e n c f w4 \<noteq> (w', Some (Sentinel ErrTaskCancelled))" for now e n c f
    by (simp add: finish_run_def Let_def)
  with R res ne ex obtain e where "z = Inl e" "w4 = w'" by (cases z) (auto split: prod.splits)
  from execute_steps_cancelled [OF bystanders w3(1) ex [unfolded this]] w3(2,3) show ?thesis
    by (auto dest: other_runs_kept_trans)
qed

text \<open>The handler returns.\<close>

lemma waitForTask_returns: "WaitDone \<in> set es \<or> WaitTimeout \<in> set es \<Longrightarrow> waitForTask T taskID es w \<noteq> None"
  by (induction T taskID es w rule: waitForTask.induct) (auto simp: Let_def split: sum.splits TaskStatus.splits)

lemma execute_step_returns:
  assumes "WaitDone \<in> set (ow_waits out i) \<or> WaitTimeout \<in> set (ow_waits out i)"
  shows "execute_step S out i oper payload step w \<noteq> None"
  using waitForTask_returns [OF assms] by (auto simp: execute_step_def Let_def split: prod.splits sum.splits option.splits simp del: not_None_eq)

lemma execute_steps_returns:
  assumes "\<And>i. WaitDone \<in> set (ow_waits out i) \<or> WaitTimeout \<in> set (ow_waits out i)"
  shows "execute_steps S out oper payload runID n i steps completed failed w \<noteq> None"
proof (induction steps arbitrary: i completed failed w)
  case (Cons step steps)
  obtain w1 b where c: "tc_IsCancelled (st_R S) (st_taskID S) (ow_ctx out i) w = (w1, b)" by fastforce
  show ?case using Cons.IH execute_step_returns [OF assms, of S i] c
    by (cases b) (auto simp: Let_def split: option.splits simp del: not_None_eq)
qed simp


section \<open>A run of two machines\<close>

text \<open>The task of the machine the other depends on fails; the second is started all the same.\<close>

definition worker_reports :: "string \<Rightarrow> TaskStatus \<Rightarrow> string \<Rightarrow> (unit, env_db) wait_event" where
  "worker_reports i st msg = WaitTick (\<lambda>w. fst (on_db (repo_UpdateStatus env_TaskRepo i st None msg) w))"

lemma bystander_worker_reports [simp]: "bystander (worker_reports i st msg)"
  unfolding bystander_def worker_reports_def wait_event.case
  using env_UpdateStatus_books [unfolded same_books_def] by blast

text \<open>Redis is out of order, which the handler tolerates.\<close>

definition no_redis :: "unit redis" where
  "no_redis = (let err = Errorf ''connection refused'' in \<lparr>
     r_LPush = \<lambda>k v m. (m, Some err), r_RPush = \<lambda>k v m. (m, Some err), r_LTrim = \<lambda>k a b m. (m, Some err),
     r_LRange = \<lambda>k a b m. (m, Inl err), r_LLen = \<lambda>k m. (m, Inl err), r_BRPop = \<lambda>ks m. (m, Inl err),
     r_SetNX = \<lambda>k v ttl m. (m, Inl err), r_Set = \<lambda>k v ttl m. (m, Some err), r_Del = \<lambda>k m. (m, Some err),
     r_Expire = \<lambda>k ttl m. (m, Some err), r_Exists = \<lambda>k m. (m, Inl err), r_HSet = \<lambda>k f m. (m, Some err),
     r_HGetAll = \<lambda>k m. (m, Inl err)\<rparr>)"

definition demo_setting :: "unit setting" where
  "demo_setting = \<lparr>st_U = plain_uuids, st_cfg = sample_config, st_R = no_redis, st_fmt = (\<lambda>_. ''?''), st_taskID = ''7''\<rparr>"

definition demo_outside :: "unit outside" where
  "demo_outside = \<lparr>ow_ctx = (\<lambda>_. None), ow_now = (\<lambda>i. int i),
     ow_waits = (\<lambda>i. if i = 0 then [worker_reports ''8'' TaskRunning '''', worker_reports ''8'' TaskFailed ''no host'']
                 else [worker_reports ''9'' TaskCompleted ''''])\<rparr>"

definition demo_step :: "string \<Rightarrow> string \<Rightarrow> int \<Rightarrow> OrchestrationStep" where
  "demo_step i v k = \<lparr>os_ID = i, os_RunID = ''r'', os_VMID = v, os_ExecutionOrder = k, os_Status = OrchestrationStepStatusPending,
     os_TaskID = None, os_ErrorMessage = ''''\<rparr>"

definition demo_run_row :: OrchestrationRun where
  "demo_run_row = (new_run ''e'' OrchestrationOpStart 2 None None)\<lparr>or_ID := ''r''\<rparr>"

definition demo_db :: env_db where
  "demo_db = (initial_env_db demo_vms no_tasks)\<lparr>edb_runs := [demo_run_row], edb_steps := [demo_step ''s1'' ''app'' 1, demo_step ''s0'' ''db'' 0],
     edb_next := 8\<rparr>"

definition demo_world :: "(unit, env_db) world" where
  "demo_world = snd (NewEngine sample_config () demo_db)"

definition demo_task :: Task where
  "demo_task = orchestration_task ''7'' 0 ''e'' ''r'' OrchestrationOpStart None None"

definition demo_end :: "(unit, env_db) world \<Rightarrow> (nat \<times> nat \<times> (string \<times> OrchestrationRunStatus \<times> int \<times> int) list)" where
  "demo_end w = (marked ''r'' OrchestrationStepStatusCompleted w, marked ''r'' OrchestrationStepStatusFailed w,
     map (\<lambda>r. (or_ID r, or_Status r, or_CompletedVMs r, or_FailedVMs r)) (edb_runs (w_db w)))"


lemma demo_returns:
  "map_option (\<lambda>(w, t, e). (demo_end w, e)) (handleEnvOperation demo_setting demo_outside OrchestrationOpStart demo_task demo_world) =
    Some ((1, 1, [(''r'', OrchestrationRunStatusCompleted, 1, 1)]), None)"
  by code_simp


lemma orchestration_books_witness:
  "\<exists>w'. handleEnvOperation demo_setting demo_outside OrchestrationOpStart demo_task demo_world = Some (w', demo_task, None) \<and>
     marked ''r'' OrchestrationStepStatusFailed w' = 1 \<and> marked ''r'' OrchestrationStepStatusCompleted w' = 1 \<and> closed_run ''r'' w'"
proof -
  obtain w' t' e where res: "handleEnvOperation demo_setting demo_outside OrchestrationOpStart demo_task demo_world = Some (w', t', e)"
    "demo_end w' = (1, 1, [(''r'', OrchestrationRunStatusCompleted, 1, 1)])" "e = None" using demo_returns by auto
  have wait: "list_all bystander (ow_waits demo_outside i)" for i by (simp add: demo_outside_def)
  have run_id: "''r'' = stringFromPayload (st_fmt demo_setting) (tk_Payload demo_task) ''run_id''"
    "stringFromPayload (st_fmt demo_setting) (tk_Payload demo_task) ''environment_id'' \<noteq> ''''" by code_simp+
  have up: "clean demo_world" by code_simp
  have dist: "distinct (map os_ID (edb_steps (w_db demo_world)))" by code_simp
  have two: "plan_steps ''r'' demo_world \<noteq> []" by code_simp
  from orchestration_books [OF wait up dist run_id(1) _ run_id(2) res(1)] two res show ?thesis by (simp add: demo_end_def)
qed


text \<open>The task is cancelled while the first machine is waited for.\<close>

definition cancelled_outside :: "unit outside" where
  "cancelled_outside = \<lparr>ow_ctx = (\<lambda>i. if i = 0 then None else Some (Errorf ''context canceled'')), ow_now = (\<lambda>i. int i), ow_waits = (\<lambda>_. [WaitDone])\<rparr>"

lemma orchestration_cancelled_witness:
  "\<exists>w'. handleEnvOperation demo_setting cancelled_outside OrchestrationOpStart demo_task demo_world = Some (w', demo_task, Some (Sentinel ErrTaskCancelled)) \<and>
     (\<forall>r \<in> set (edb_runs (w_db w')). or_ID r = ''r'' \<longrightarrow> or_Status r = OrchestrationRunStatusCancelled)"
proof -
  have "map_option (\<lambda>(w, t, e). (t, e)) (handleEnvOperation demo_setting cancelled_outside OrchestrationOpStart demo_task demo_world) =
      Some (demo_task, Some (Sentinel ErrTaskCancelled))" by code_simp
  then obtain w' where res: "handleEnvOperation demo_setting cancelled_outside OrchestrationOpStart demo_task demo_world =
      Some (w', demo_task, Some (Sentinel ErrTaskCancelled))" by auto
  have wait: "list_all bystander (ow_waits cancelled_outside i)" for i by (simp add: cancelled_outside_def bystander_def)
  have run_id: "''r'' = stringFromPayload (st_fmt demo_setting) (tk_Payload demo_task) ''run_id''"
    "stringFromPayload (st_fmt demo_setting) (tk_Payload demo_task) ''environment_id'' \<noteq> ''''" by code_simp+
  have up: "clean demo_world" by code_simp
  from orchestration_cancelled [OF wait up run_id(1) _ run_id(2) res] res show ?thesis by auto
qed


end
