(* ===== verification/MachineTasks.thy ===== *)
theory MachineTasks
  imports InventoryLaws EnvHandlers
begin

text \<open>
  Operations on single machines: the service that records them as tasks (\<^verbatim>\<open>internal/service/vm_service.go\<close>), the handlers that
  carry them out (\<^verbatim>\<open>internal/task/handlers.go\<close>) and the repository of snapshots.

  A provider is remote and may answer anything: its answers are functions of the calls it has got so far, which the
  database record keeps in \<open>md_calls\<close>. What a handler is told when it asks whether its task is cancelled is an argument. A
  context that ends makes the following statements fail, which the outcomes in store of the inventory express. Logging is
  left out; the progress of a handler is kept with that of the inventory.
\<close>

section \<open>Data\<close>

record SnapshotRow =
  sn_ID :: string
  sn_VMID :: string
  sn_ProviderID :: string
  sn_Name :: string
  sn_Description :: string
  sn_IsCurrent :: bool
  sn_ParentID :: "string option"
  sn_Deleted :: bool

record SnapshotInfo =
  si_ProviderID :: string
  si_Name :: string
  si_Description :: string
  si_IsCurrent :: bool
  si_ParentID :: string

record VMSnapshotSpec =
  ss_Name :: string
  ss_Description :: string
  ss_Memory :: bool
  ss_Quiesce :: bool

record VMCreateSpec =
  vs_Name :: string
  vs_CPUCount :: int
  vs_MemoryMB :: int
  vs_DiskGB :: int
  vs_NetworkName :: string
  vs_DataStore :: string
  vs_TemplateID :: string

record VMCloneSpec =
  vl_Name :: string
  vl_DataStore :: string
  vl_Linked :: bool

record VMTemplate =
  te_ID :: string
  te_HypervisorID :: string
  te_ProviderID :: string
  te_Name :: string
  te_Description :: string
  te_GuestOS :: string
  te_CPUCount :: int
  te_MemoryMB :: int
  te_DiskGB :: int
  te_Tags :: "string list"
  te_Metadata :: "jmap option"
  te_Deleted :: bool

record TemplateInfo =
  ti_ProviderID :: string
  ti_Name :: string
  ti_Description :: string
  ti_GuestOS :: string
  ti_CPUCount :: int
  ti_MemoryMB :: int
  ti_DiskGB :: int
  ti_Tags :: "string list"
  ti_Extra :: jmap

datatype ProvisioningJobStatus =
    ProvisioningJobStatusPending | ProvisioningJobStatusRunning | ProvisioningJobStatusCompleted | ProvisioningJobStatusFailed
  | ProvisioningJobStatusCancelled

datatype ProvisioningJobType = ProvisioningJobTypeClone | ProvisioningJobTypeProvision

record ProvisioningJob =
  pj_ID :: string
  pj_Type :: ProvisioningJobType
  pj_Status :: ProvisioningJobStatus
  pj_TemplateID :: "string option"
  pj_SourceVMID :: "string option"
  pj_HypervisorID :: string
  pj_VMName :: string
  pj_CPUCount :: int
  pj_MemoryMB :: int
  pj_DiskGB :: int
  pj_NetworkName :: string
  pj_DataStore :: string
  pj_Node :: string
  pj_Linked :: bool
  pj_Tags :: "string list"
  pj_ResultVMID :: "string option"
  pj_TaskID :: "string option"
  pj_ErrorMessage :: string
  pj_CreatedBy :: "string option"
  pj_Metadata :: "jmap option"

section \<open>Providers\<close>

datatype provider_call =
    CallConnect ProviderCredentials | CallDisconnect
  | CallPowerOn string | CallPowerOff string | CallReboot string | CallSuspend string | CallDeleteVM string
  | CallCreateSnapshot string VMSnapshotSpec | CallDeleteSnapshot string string | CallRevertSnapshot string string
  | CallCloneVM string VMCloneSpec | CallCreateVM VMCreateSpec | CallListTemplates

text \<open>The answer to the last of the calls so far. Only some providers list templates.\<close>

record machine_provider =
  mp_Do :: "provider_call list \<Rightarrow> go_error option"
  mp_Snapshot :: "provider_call list \<Rightarrow> go_error + SnapshotInfo option"
  mp_Machine :: "provider_call list \<Rightarrow> go_error + VMInfo"
  mp_Templates :: "(provider_call list \<Rightarrow> go_error + TemplateInfo list) option"

section \<open>The database\<close>

record mach_db =
  md_inv :: inv_db
  md_snapshots :: "SnapshotRow list"
  md_templates :: "VMTemplate list"
  md_jobs :: "ProvisioningJob list"
  md_calls :: "provider_call list"

definition on_inv :: "(inv_db \<Rightarrow> inv_db \<times> 'a) \<Rightarrow> mach_db \<Rightarrow> mach_db \<times> 'a" where
  "on_inv f d = (case f (md_inv d) of (i, x) \<Rightarrow> (d\<lparr>md_inv := i\<rparr>, x))"

definition mach_stmt :: "(mach_db \<Rightarrow> mach_db \<times> (go_error + 'a)) \<Rightarrow> mach_db \<Rightarrow> mach_db \<times> (go_error + 'a)" where
  "mach_stmt f d =
     (case on_inv (inv_stmt (\<lambda>i. (i, Inr ()))) d of
        (d, Inl e) \<Rightarrow> (d, Inl e)
      | (d, Inr _) \<Rightarrow> f d)"

definition call_provider :: "(provider_call list \<Rightarrow> 'a) \<Rightarrow> provider_call \<Rightarrow> mach_db \<Rightarrow> mach_db \<times> 'a" where
  "call_provider f c d = (let cs = md_calls d @ [c] in (d\<lparr>md_calls := cs\<rparr>, f cs))"

definition draw_uuid :: "uuid_lib \<Rightarrow> mach_db \<Rightarrow> mach_db \<times> string" where
  "draw_uuid U = on_inv (\<lambda>i. (i\<lparr>idb_next := idb_next i + 1\<rparr>, uuid_new U (idb_next i)))"

definition mach_audit :: "string \<Rightarrow> string \<Rightarrow> string \<Rightarrow> mach_db \<Rightarrow> mach_db" where
  "mach_audit action i descr d = d\<lparr>md_inv := inv_audit action i descr True (md_inv d)\<rparr>"

definition task_Create :: "Task \<Rightarrow> mach_db \<Rightarrow> mach_db \<times> (go_error + unit)" where
  "task_Create t = on_inv (inv_stmt (\<lambda>d. case Create t (idb_tasks d) of
     (tt, Some e) \<Rightarrow> (d\<lparr>idb_tasks := tt\<rparr>, Inl e) | (tt, None) \<Rightarrow> (d\<lparr>idb_tasks := tt\<rparr>, Inr ())))"

subsection \<open>Machines\<close>

definition vmrow_GetByID :: "string \<Rightarrow> mach_db \<Rightarrow> mach_db \<times> (go_error + VMRow)" where
  "vmrow_GetByID i d =
     (case on_inv (inv_stmt (\<lambda>d. (d, case find (\<lambda>v. vm_ID v = i \<and> \<not> vm_Deleted v) (idb_vms d) of
              None \<Rightarrow> Inl (Errorf ''record not found'') | Some v \<Rightarrow> Inr v))) d of
        (d, Inl e) \<Rightarrow> (d, Inl (Wrapf ''vm not found'' e))
      | (d, Inr v) \<Rightarrow> (d, Inr v))"

definition vmrow_GetByProviderID :: "string \<Rightarrow> string \<Rightarrow> mach_db \<Rightarrow> mach_db \<times> (go_error + VMRow)" where
  "vmrow_GetByProviderID hid pid d =
     (case on_inv (inv_stmt (\<lambda>d. (d, case find (\<lambda>v. vm_HypervisorID v = hid \<and> vm_ProviderVMID v = pid \<and> \<not> vm_Deleted v) (idb_vms d) of
              None \<Rightarrow> Inl (Errorf ''record not found'') | Some v \<Rightarrow> Inr v))) d of
        (d, Inl e) \<Rightarrow> (d, Inl (Wrapf ''vm not found'' e))
      | (d, Inr v) \<Rightarrow> (d, Inr v))"

definition vmrow_GetByIDs :: "string list \<Rightarrow> mach_db \<Rightarrow> mach_db \<times> (go_error + VMRow list)" where
  "vmrow_GetByIDs ids d =
     (if ids = [] then (d, Inr [])
      else on_inv (inv_stmt (\<lambda>d. (d, Inr (filter (\<lambda>v. vm_ID v \<in> set ids \<and> \<not> vm_Deleted v) (idb_vms d))))) d)"

definition vmrow_where :: "string \<Rightarrow> (VMRow \<Rightarrow> VMRow) \<Rightarrow> mach_db \<Rightarrow> mach_db \<times> (go_error + unit)" where
  "vmrow_where i f = on_inv (inv_stmt (\<lambda>d. (d\<lparr>idb_vms := map (\<lambda>v. if vm_ID v = i \<and> \<not> vm_Deleted v then f v else v) (idb_vms d)\<rparr>, Inr ())))"

definition vmrow_UpdateStatus :: "string \<Rightarrow> VMStatus \<Rightarrow> mach_db \<Rightarrow> mach_db \<times> (go_error + unit)" where
  "vmrow_UpdateStatus i st = vmrow_where i (\<lambda>v. v\<lparr>vm_Status := st\<rparr>)"

definition vmrow_Delete :: "string \<Rightarrow> mach_db \<Rightarrow> mach_db \<times> (go_error + unit)" where
  "vmrow_Delete i = vmrow_where i (\<lambda>v. v\<lparr>vm_Deleted := True\<rparr>)"

subsection \<open>Snapshots\<close>

definition sn_find :: "(SnapshotRow \<Rightarrow> bool) \<Rightarrow> mach_db \<Rightarrow> mach_db \<times> (go_error + SnapshotRow)" where
  "sn_find P d =
     (case mach_stmt (\<lambda>d. (d, case find (\<lambda>s. P s \<and> \<not> sn_Deleted s) (md_snapshots d) of
              None \<Rightarrow> Inl (Errorf ''record not found'') | Some s \<Rightarrow> Inr s)) d of
        (d, Inl e) \<Rightarrow> (d, Inl (Wrapf ''snapshot not found'' e))
      | (d, Inr s) \<Rightarrow> (d, Inr s))"

definition sn_GetByID :: "string \<Rightarrow> mach_db \<Rightarrow> mach_db \<times> (go_error + SnapshotRow)" where
  "sn_GetByID i = sn_find (\<lambda>s. sn_ID s = i)"

definition sn_GetByProviderID :: "string \<Rightarrow> string \<Rightarrow> mach_db \<Rightarrow> mach_db \<times> (go_error + SnapshotRow)" where
  "sn_GetByProviderID vmID pid = sn_find (\<lambda>s. sn_VMID s = vmID \<and> sn_ProviderID s = pid)"

definition sn_update :: "(SnapshotRow \<Rightarrow> bool) \<Rightarrow> (SnapshotRow \<Rightarrow> SnapshotRow) \<Rightarrow> mach_db \<Rightarrow> mach_db \<times> (go_error + unit)" where
  "sn_update P f = mach_stmt (\<lambda>d. (d\<lparr>md_snapshots := map (\<lambda>s. if P s \<and> \<not> sn_Deleted s then f s else s) (md_snapshots d)\<rparr>, Inr ()))"

definition sn_Delete :: "string \<Rightarrow> mach_db \<Rightarrow> mach_db \<times> (go_error + unit)" where
  "sn_Delete i = sn_update (\<lambda>s. sn_ID s = i) (\<lambda>s. s\<lparr>sn_Deleted := True\<rparr>)"

definition sn_DeleteByProviderID :: "string \<Rightarrow> string \<Rightarrow> mach_db \<Rightarrow> mach_db \<times> (go_error + unit)" where
  "sn_DeleteByProviderID vmID pid = sn_update (\<lambda>s. sn_VMID s = vmID \<and> sn_ProviderID s = pid) (\<lambda>s. s\<lparr>sn_Deleted := True\<rparr>)"

text \<open>Both updates or none.\<close>

definition SetCurrentSnapshot :: "string \<Rightarrow> string \<Rightarrow> mach_db \<Rightarrow> mach_db \<times> (go_error + unit)" where
  "SetCurrentSnapshot vmID snapshotID d =
     (case sn_update (\<lambda>s. sn_VMID s = vmID) (\<lambda>s. s\<lparr>sn_IsCurrent := False\<rparr>) d of
        (d', Inl e) \<Rightarrow> (d', Inl e)
      | (d', Inr _) \<Rightarrow>
          (case sn_update (\<lambda>s. sn_ID s = snapshotID) (\<lambda>s. s\<lparr>sn_IsCurrent := True\<rparr>) d' of
             (d'', Inl e) \<Rightarrow> (d''\<lparr>md_snapshots := md_snapshots d\<rparr>, Inl e)
           | (d'', Inr _) \<Rightarrow> (d'', Inr ())))"

definition sn_key :: "SnapshotRow \<Rightarrow> string \<times> string" where
  "sn_key s = (sn_VMID s, sn_ProviderID s)"

definition sn_merge :: "SnapshotRow \<Rightarrow> SnapshotRow \<Rightarrow> SnapshotRow" where
  "sn_merge old new = old\<lparr>sn_Name := sn_Name new, sn_Description := sn_Description new, sn_IsCurrent := sn_IsCurrent new,
     sn_ParentID := sn_ParentID new\<rparr>"

definition sn_BulkUpsert :: "uuid_lib \<Rightarrow> SnapshotRow list \<Rightarrow> mach_db \<Rightarrow> mach_db \<times> (go_error + unit)" where
  "sn_BulkUpsert U snaps d =
     (if snaps = [] then (d, Inr ())
      else mach_stmt (\<lambda>d.
        case bulk_upsert sn_key sn_merge (md_snapshots d) (map (\<lambda>(k, s). s\<lparr>sn_ID := uuid_new U (idb_next (md_inv d) + k)\<rparr>) (enumerate 0 snaps)) of
          None \<Rightarrow> (d, Inl duplicate_in_batch)
        | Some rows \<Rightarrow> (d\<lparr>md_snapshots := rows, md_inv := (md_inv d)\<lparr>idb_next := idb_next (md_inv d) + length snaps\<rparr>\<rparr>, Inr ())) d)"

section \<open>The service\<close>

definition machine_payload :: "string \<Rightarrow> VMRow \<Rightarrow> jmap" where
  "machine_payload vmID vm = [(''vm_id'', JStr vmID), (''provider_vm_id'', JStr (vm_ProviderVMID vm)), (''hypervisor_id'', JStr (vm_HypervisorID vm))]"

definition machine_task :: "string \<Rightarrow> int \<Rightarrow> string \<Rightarrow> jmap \<Rightarrow> string \<Rightarrow> string \<Rightarrow> string option \<Rightarrow> string option \<Rightarrow> Task" where
  "machine_task taskID now ty payload vmID hid parent caller =
     \<lparr>tk_ID = taskID, tk_CreatedAt = now, tk_Deleted = False, tk_Type = ty, tk_Status = TaskPending, tk_Priority = 5, tk_Progress = 0,
      tk_Payload = payload, tk_Result = None, tk_ErrorMessage = '''', tk_RetryCount = 0, tk_MaxRetries = 3, tk_StartedAt = None,
      tk_CompletedAt = None, tk_ScheduledAt = Some now, tk_TimeoutAt = None, tk_CreatedBy = caller,
      tk_HypervisorID = Some hid, tk_VMID = Some vmID, tk_ParentTaskID = parent\<rparr>"

definition enqueueVMTask ::
  "uuid_lib \<Rightarrow> int \<Rightarrow> string option \<Rightarrow> string \<Rightarrow> string \<Rightarrow> jmap \<Rightarrow> mach_db \<Rightarrow> mach_db \<times> (go_error + string)" where
  "enqueueVMTask U now caller vmID taskType extra d =
     (case vmrow_GetByID vmID d of
        (d, Inl e) \<Rightarrow> (d, Inl (Wrapf ''vm not found'' e))
      | (d, Inr vm) \<Rightarrow>
          (case draw_uuid U d of (d, taskID) \<Rightarrow>
             (case task_Create (machine_task taskID now taskType (put_all (machine_payload vmID vm) extra) (uuid_or_nil U vmID)
                      (uuid_or_nil U (vm_HypervisorID vm)) None caller) d of
                (d, Inl e) \<Rightarrow> (d, Inl (Wrapf ''creating task'' e))
              | (d, Inr _) \<Rightarrow> (mach_audit ''execute'' vmID (''task '' @ taskType @ '' enqueued'') d, Inr taskID))))"

definition snapshot_payload_of :: "VMSnapshotSpec \<Rightarrow> jmap" where
  "snapshot_payload_of spec = [(''name'', JStr (ss_Name spec)), (''description'', JStr (ss_Description spec)),
     (''memory'', JBool (ss_Memory spec)), (''quiesce'', JBool (ss_Quiesce spec))]"

datatype machine_request =
    PowerOn | PowerOff | Reboot | Suspend | CreateSnapshot VMSnapshotSpec | RevertSnapshot string | DeleteSnapshot string

fun request_task :: "machine_request \<Rightarrow> string \<times> jmap" where
  "request_task PowerOn = (''vm.power_on'', [])"
| "request_task PowerOff = (''vm.power_off'', [])"
| "request_task Reboot = (''vm.reboot'', [])"
| "request_task Suspend = (''vm.suspend'', [])"
| "request_task (CreateSnapshot spec) = (''vm.snapshot'', snapshot_payload_of spec)"
| "request_task (RevertSnapshot i) = (''vm.restore'', [(''snapshot_id'', JStr i)])"
| "request_task (DeleteSnapshot i) = (''vm.snapshot.delete'', [(''snapshot_id'', JStr i)])"

definition vm_request :: "uuid_lib \<Rightarrow> int \<Rightarrow> string option \<Rightarrow> string \<Rightarrow> machine_request \<Rightarrow> mach_db \<Rightarrow> mach_db \<times> (go_error + string)" where
  "vm_request U now caller vmID req = enqueueVMTask U now caller vmID (fst (request_task req)) (snd (request_task req))"

text \<open>The deletion of a machine calls the provider of the registry as it is.\<close>

definition vmService_Delete :: "machine_provider Registry \<Rightarrow> string \<Rightarrow> mach_db \<Rightarrow> mach_db \<times> go_error option" where
  "vmService_Delete reg vmID d =
     (case vmrow_GetByID vmID d of
        (d, Inl e) \<Rightarrow> (d, Some (Wrapf ''vm not found'' e))
      | (d, Inr vm) \<Rightarrow>
          (case on_inv (hv_repo_GetByID (vm_HypervisorID vm)) d of
             (d, Inl e) \<Rightarrow> (d, Some (Wrapf ''hypervisor not found'' e))
           | (d, Inr h) \<Rightarrow>
               (case Get reg (hv_Provider h) of
                  Inl e \<Rightarrow> (d, Some e)
                | Inr p \<Rightarrow>
                    (case call_provider (mp_Do p) (CallDeleteVM (vm_ProviderVMID vm)) (fst (vmrow_UpdateStatus vmID VMStatusDeleting d)) of
                       (d, Some e) \<Rightarrow> (fst (vmrow_UpdateStatus vmID VMStatusError d), Some (Wrapf ''provider DeleteVM'' e))
                     | (d, None) \<Rightarrow>
                         (case vmrow_Delete vmID d of
                            (d, Inl e) \<Rightarrow> (d, Some (Wrapf ''removing vm record'' e))
                          | (d, Inr _) \<Rightarrow> (mach_audit ''delete'' vmID '''' d, None))))))"

text \<open>The children of a bulk operation: a failure to record one of them is skipped.\<close>

fun create_children :: "uuid_lib \<Rightarrow> int \<Rightarrow> string option \<Rightarrow> string \<Rightarrow> jmap \<Rightarrow> string \<Rightarrow> VMRow list \<Rightarrow> mach_db \<Rightarrow> mach_db" where
  "create_children U now caller childType extra parentID [] d = d"
| "create_children U now caller childType extra parentID (vm # vms) d =
     (case draw_uuid U d of (d, childID) \<Rightarrow>
        create_children U now caller childType extra parentID vms
          (fst (task_Create (machine_task childID now childType (put_all (machine_payload (vm_ID vm) vm) extra) (vm_ID vm) (vm_HypervisorID vm)
            (Some parentID) caller) d)))"

definition bulk_parent :: "string \<Rightarrow> int \<Rightarrow> string \<Rightarrow> string list \<Rightarrow> int \<Rightarrow> string \<Rightarrow> string option \<Rightarrow> Task" where
  "bulk_parent parentID now parentType vmIDs n childType caller =
     \<lparr>tk_ID = parentID, tk_CreatedAt = now, tk_Deleted = False, tk_Type = parentType, tk_Status = TaskPending, tk_Priority = 5, tk_Progress = 0,
      tk_Payload = [(''vm_ids'', JArr (map JStr vmIDs)), (''vm_count'', JNum (of_int n)), (''child_type'', JStr childType)],
      tk_Result = None, tk_ErrorMessage = '''', tk_RetryCount = 0, tk_MaxRetries = 0, tk_StartedAt = None,
      tk_CompletedAt = None, tk_ScheduledAt = Some now, tk_TimeoutAt = None, tk_CreatedBy = caller,
      tk_HypervisorID = None, tk_VMID = None, tk_ParentTaskID = None\<rparr>"

definition enqueueBulkTask ::
  "uuid_lib \<Rightarrow> int \<Rightarrow> string option \<Rightarrow> string list \<Rightarrow> string \<Rightarrow> string \<Rightarrow> jmap \<Rightarrow> mach_db \<Rightarrow> mach_db \<times> (go_error + string)" where
  "enqueueBulkTask U now caller vmIDs parentType childType extra d =
     (if vmIDs = [] then (d, Inl (Errorf ''no VM IDs provided''))
      else if 100 < length vmIDs then (d, Inl (Errorf ''bulk operations are limited to 100 VMs at a time''))
      else case vmrow_GetByIDs vmIDs d of
          (d, Inl e) \<Rightarrow> (d, Inl (Wrapf ''loading VMs'' e))
        | (d, Inr vms) \<Rightarrow>
            (if vms = [] then (d, Inl (Errorf ''no valid VMs found for the provided IDs''))
             else case draw_uuid U d of (d, parentID) \<Rightarrow>
               (case task_Create (bulk_parent parentID now parentType vmIDs (int (length vms)) childType caller) d of
                  (d, Inl e) \<Rightarrow> (d, Inl (Wrapf ''creating parent task'' e))
                | (d, Inr _) \<Rightarrow>
                    (mach_audit ''execute'' '''' (''bulk '' @ childType @ '' enqueued for '' @ Itoa (int (length vms)) @ '' VMs'')
                       (create_children U now caller childType extra parentID vms d), Inr parentID))))"

datatype bulk_request = BulkPowerOn | BulkPowerOff | BulkReboot | BulkSnapshot VMSnapshotSpec

fun bulk_task :: "bulk_request \<Rightarrow> string \<times> string \<times> jmap" where
  "bulk_task BulkPowerOn = (''vm.bulk.power_on'', ''vm.power_on'', [])"
| "bulk_task BulkPowerOff = (''vm.bulk.power_off'', ''vm.power_off'', [])"
| "bulk_task BulkReboot = (''vm.bulk.reboot'', ''vm.reboot'', [])"
| "bulk_task (BulkSnapshot spec) = (''vm.bulk.snapshot'', ''vm.snapshot'', snapshot_payload_of spec)"

definition vm_bulk_request :: "uuid_lib \<Rightarrow> int \<Rightarrow> string option \<Rightarrow> string list \<Rightarrow> bulk_request \<Rightarrow> mach_db \<Rightarrow> mach_db \<times> (go_error + string)" where
  "vm_bulk_request U now caller vmIDs req = enqueueBulkTask U now caller vmIDs (fst (bulk_task req)) (fst (snd (bulk_task req))) (snd (snd (bulk_task req)))"

section \<open>The handlers\<close>

record handler_env =
  he_U :: uuid_lib
  he_box :: secret_box
  he_registry :: "machine_provider Registry"
  he_sync :: "provider_calls Registry"
  he_fmt :: "jval \<Rightarrow> string"
  he_cancel1 :: bool
  he_cancel2 :: bool

definition tcProgress :: "int \<Rightarrow> string \<Rightarrow> mach_db \<Rightarrow> mach_db" where
  "tcProgress pct msg d = d\<lparr>md_inv := progress pct msg (md_inv d)\<rparr>"

definition getProviderWithCreds ::
  "secret_box \<Rightarrow> machine_provider Registry \<Rightarrow> string \<Rightarrow> mach_db \<Rightarrow> mach_db \<times> (go_error + machine_provider \<times> ProviderCredentials)" where
  "getProviderWithCreds B reg hypervisorID d =
     (case on_inv (BuildCredentials B hypervisorID) d of
        (d, Inl e) \<Rightarrow> (d, Inl (Wrapf (''building credentials for hypervisor '' @ hypervisorID) e))
      | (d, Inr (creds, providerType)) \<Rightarrow>
          (case Get reg providerType of
             Inl e \<Rightarrow> (d, Inl (Wrapf (''provider not registered for type \"'' @ providerType @ ''\"'') e))
           | Inr p \<Rightarrow> (d, Inr (p, creds))))"

text \<open>What all handlers that talk to a hypervisor do around their own part \<open>body\<close>: connect, and disconnect at the end.\<close>

definition session ::
  "handler_env \<Rightarrow> string \<Rightarrow> string \<Rightarrow> (machine_provider \<Rightarrow> mach_db \<Rightarrow> mach_db \<times> go_error option) \<Rightarrow> mach_db \<Rightarrow> mach_db \<times> go_error option" where
  "session E hypervisorID msg body d =
     (let d = tcProgress 10 ''connecting to hypervisor'' d in
      if he_cancel1 E then (d, Some (Sentinel ErrTaskCancelled))
      else case getProviderWithCreds (he_box E) (he_registry E) hypervisorID d of
          (d, Inl e) \<Rightarrow> (d, Some e)
        | (d, Inr (p, creds)) \<Rightarrow>
            (case call_provider (mp_Do p) (CallConnect creds) d of
               (d, Some e) \<Rightarrow> (d, Some (Wrapf ''provider connect'' e))
             | (d, None) \<Rightarrow>
                 (case (let d = tcProgress 30 msg d in if he_cancel2 E then (d, Some (Sentinel ErrTaskCancelled)) else body p d) of
                    (d, r) \<Rightarrow> (fst (call_provider (mp_Do p) CallDisconnect d), r))))"

abbreviation payload_string :: "handler_env \<Rightarrow> Task \<Rightarrow> string \<Rightarrow> string" where
  "payload_string E t key \<equiv> stringFromPayload (he_fmt E) (tk_Payload t) key"

definition missing_machine :: "handler_env \<Rightarrow> Task \<Rightarrow> bool" where
  "missing_machine E t \<longleftrightarrow> payload_string E t ''vm_id'' = '''' \<or> payload_string E t ''provider_vm_id'' = '''' \<or> payload_string E t ''hypervisor_id'' = ''''"

definition missing_fields :: go_error where
  "missing_fields = Errorf ''missing vm_id, provider_vm_id, or hypervisor_id in payload''"

definition handleVMPowerOn :: "handler_env \<Rightarrow> Task \<Rightarrow> mach_db \<Rightarrow> mach_db \<times> go_error option" where
  "handleVMPowerOn E t d =
     (if missing_machine E t then (d, Some missing_fields)
      else session E (payload_string E t ''hypervisor_id'') ''sending power-on command to hypervisor'' (\<lambda>p d.
        case call_provider (mp_Do p) (CallPowerOn (payload_string E t ''provider_vm_id'')) d of
          (d, Some e) \<Rightarrow> (d, Some e)
        | (d, None) \<Rightarrow>
            (tcProgress 100 ''VM powered on'' (fst (vmrow_UpdateStatus (payload_string E t ''vm_id'') VMStatusRunning
               (tcProgress 80 ''updating VM status in database'' d))), None)) d)"

definition handleVMPowerOff :: "handler_env \<Rightarrow> Task \<Rightarrow> mach_db \<Rightarrow> mach_db \<times> go_error option" where
  "handleVMPowerOff E t d =
     (if missing_machine E t then (d, Some missing_fields)
      else session E (payload_string E t ''hypervisor_id'') ''sending power-off command to hypervisor'' (\<lambda>p d.
        case call_provider (mp_Do p) (CallPowerOff (payload_string E t ''provider_vm_id'')) d of
          (d, Some e) \<Rightarrow> (d, Some e)
        | (d, None) \<Rightarrow>
            (tcProgress 100 ''VM powered off'' (fst (vmrow_UpdateStatus (payload_string E t ''vm_id'') VMStatusStopped
               (tcProgress 80 ''updating VM status in database'' d))), None)) d)"

definition handleVMReboot :: "handler_env \<Rightarrow> Task \<Rightarrow> mach_db \<Rightarrow> mach_db \<times> go_error option" where
  "handleVMReboot E t d =
     (if missing_machine E t then (d, Some missing_fields)
      else session E (payload_string E t ''hypervisor_id'') ''sending reboot command to hypervisor'' (\<lambda>p d.
        case call_provider (mp_Do p) (CallReboot (payload_string E t ''provider_vm_id'')) d of
          (d, Some e) \<Rightarrow> (d, Some e)
        | (d, None) \<Rightarrow> (tcProgress 100 ''VM rebooted'' d, None)) d)"

definition handleVMSuspend :: "handler_env \<Rightarrow> Task \<Rightarrow> mach_db \<Rightarrow> mach_db \<times> go_error option" where
  "handleVMSuspend E t d =
     (if missing_machine E t then (d, Some missing_fields)
      else session E (payload_string E t ''hypervisor_id'') ''sending suspend command to hypervisor'' (\<lambda>p d.
        case call_provider (mp_Do p) (CallSuspend (payload_string E t ''provider_vm_id'')) d of
          (d, Some e) \<Rightarrow> (d, Some e)
        | (d, None) \<Rightarrow>
            (tcProgress 100 ''VM suspended'' (fst (vmrow_UpdateStatus (payload_string E t ''vm_id'') VMStatusSuspended
               (tcProgress 80 ''updating VM status in database'' d))), None)) d)"

definition handleVMDelete :: "handler_env \<Rightarrow> Task \<Rightarrow> mach_db \<Rightarrow> mach_db \<times> go_error option" where
  "handleVMDelete E t d =
     (let vmID = payload_string E t ''vm_id'' in
      if vmID = '''' then (d, Some (Errorf ''missing vm_id in payload''))
      else let d = tcProgress 10 ''initiating VM deletion'' d in
        if he_cancel1 E then (d, Some (Sentinel ErrTaskCancelled))
        else case vmService_Delete (he_registry E) vmID d of
            (d, Some e) \<Rightarrow> (d, Some e)
          | (d, None) \<Rightarrow> (tcProgress 100 ''VM deleted'' d, None))"

definition snapshot_spec :: "handler_env \<Rightarrow> Task \<Rightarrow> VMSnapshotSpec" where
  "snapshot_spec E t = \<lparr>ss_Name = payload_string E t ''name'', ss_Description = payload_string E t ''description'',
     ss_Memory = boolFromPayload (tk_Payload t) ''memory'', ss_Quiesce = boolFromPayload (tk_Payload t) ''quiesce''\<rparr>"

definition keep_snapshot :: "uuid_lib \<Rightarrow> string \<Rightarrow> SnapshotInfo \<Rightarrow> mach_db \<Rightarrow> mach_db" where
  "keep_snapshot U vmID info d =
     (case uuid_parse U vmID of
        None \<Rightarrow> d
      | Some vmUUID \<Rightarrow>
          (case sn_BulkUpsert U [\<lparr>sn_ID = nil_uuid, sn_VMID = vmUUID, sn_ProviderID = si_ProviderID info, sn_Name = si_Name info,
                  sn_Description = si_Description info, sn_IsCurrent = True, sn_ParentID = None, sn_Deleted = False\<rparr>] d of
             (d, Inl _) \<Rightarrow> d
           | (d, Inr _) \<Rightarrow>
               (case sn_GetByProviderID vmID (si_ProviderID info) d of
                  (d, Inl _) \<Rightarrow> d
                | (d, Inr saved) \<Rightarrow> fst (SetCurrentSnapshot vmID (sn_ID saved) d))))"

definition handleVMSnapshot :: "handler_env \<Rightarrow> Task \<Rightarrow> mach_db \<Rightarrow> mach_db \<times> go_error option" where
  "handleVMSnapshot E t d =
     (if missing_machine E t then (d, Some missing_fields)
      else session E (payload_string E t ''hypervisor_id'') ''creating snapshot on hypervisor'' (\<lambda>p d.
        case call_provider (mp_Snapshot p) (CallCreateSnapshot (payload_string E t ''provider_vm_id'') (snapshot_spec E t)) d of
          (d, Inl e) \<Rightarrow> (d, Some e)
        | (d, Inr info) \<Rightarrow>
            (let d = tcProgress 80 ''persisting snapshot record'' d;
                 d = (case info of None \<Rightarrow> d | Some info \<Rightarrow> keep_snapshot (he_U E) (payload_string E t ''vm_id'') info d)
             in (tcProgress 100 ''snapshot created'' d, None))) d)"

definition missing_snapshot :: go_error where
  "missing_snapshot = Errorf ''missing vm_id, provider_vm_id, hypervisor_id, or snapshot_id in payload''"

definition handleVMSnapshotDelete :: "handler_env \<Rightarrow> Task \<Rightarrow> mach_db \<Rightarrow> mach_db \<times> go_error option" where
  "handleVMSnapshotDelete E t d =
     (let snapshotID = payload_string E t ''snapshot_id'' in
      if missing_machine E t \<or> snapshotID = '''' then (d, Some missing_snapshot)
      else session E (payload_string E t ''hypervisor_id'') ''deleting snapshot on hypervisor'' (\<lambda>p d.
        case sn_GetByID snapshotID d of (d, r) \<Rightarrow>
          (let providerSnapshotID = (case r of Inl _ \<Rightarrow> snapshotID | Inr snap \<Rightarrow> sn_ProviderID snap) in
           case call_provider (mp_Do p) (CallDeleteSnapshot (payload_string E t ''provider_vm_id'') providerSnapshotID) d of
             (d, Some e) \<Rightarrow> (d, Some e)
           | (d, None) \<Rightarrow> (tcProgress 100 ''snapshot deleted'' (fst (sn_Delete snapshotID (tcProgress 80 ''removing snapshot record from database'' d))), None))) d)"

definition handleVMRestore :: "handler_env \<Rightarrow> Task \<Rightarrow> mach_db \<Rightarrow> mach_db \<times> go_error option" where
  "handleVMRestore E t d =
     (let snapshotID = payload_string E t ''snapshot_id'' in
      if missing_machine E t \<or> snapshotID = '''' then (d, Some missing_snapshot)
      else session E (payload_string E t ''hypervisor_id'') ''reverting to snapshot on hypervisor'' (\<lambda>p d.
        case call_provider (mp_Do p) (CallRevertSnapshot (payload_string E t ''provider_vm_id'') snapshotID) d of
          (d, Some e) \<Rightarrow> (d, Some e)
        | (d, None) \<Rightarrow> (tcProgress 100 ''snapshot restored'' d, None)) d)"

definition handleInventorySync :: "handler_env \<Rightarrow> Task \<Rightarrow> mach_db \<Rightarrow> mach_db \<times> go_error option" where
  "handleInventorySync E t d =
     (let hypervisorID = payload_string E t ''hypervisor_id'' in
      if hypervisorID = '''' then (d, Some (Errorf ''missing hypervisor_id in payload''))
      else let d = tcProgress 5 ''connecting to hypervisor'' d in
        if he_cancel1 E then (d, Some (Sentinel ErrTaskCancelled))
        else case on_inv (SyncInventoryNow (he_U E) (he_box E) (he_sync E) hypervisorID) d of
            (d, Inl e) \<Rightarrow> (d, Some e)
          | (d, Inr _) \<Rightarrow> (d, None))"

section \<open>The table of handlers\<close>

type_synonym machine_handler = "handler_env \<Rightarrow> Task \<Rightarrow> mach_db \<Rightarrow> mach_db \<times> go_error option"

definition machine_handlers :: "(string \<times> machine_handler) list" where
  "machine_handlers =
    [(''vm.power_on'', handleVMPowerOn), (''vm.power_off'', handleVMPowerOff), (''vm.reboot'', handleVMReboot),
     (''vm.suspend'', handleVMSuspend), (''vm.delete'', handleVMDelete), (''vm.snapshot'', handleVMSnapshot),
     (''vm.snapshot.delete'', handleVMSnapshotDelete), (''vm.restore'', handleVMRestore),
     (''inventory.sync'', handleInventorySync), (''hypervisor.sync'', handleInventorySync)]"

end
