(* ===== verification/MachineLaws.thy ===== *)
theory MachineLaws
  imports MachineTasks
begin

section \<open>Frames\<close>

text \<open>What the provider has been told, and the tables a handler may write, through each operation.\<close>

lemma on_inv_frame [simp]:
  "md_calls (fst (on_inv f d)) = md_calls d" "md_snapshots (fst (on_inv f d)) = md_snapshots d"
  "md_templates (fst (on_inv f d)) = md_templates d" "md_jobs (fst (on_inv f d)) = md_jobs d"
  by (simp_all add: on_inv_def split: prod.split)

lemma md_inv_on_inv: "md_inv (fst (on_inv f d)) = fst (f (md_inv d))" "snd (on_inv f d) = snd (f (md_inv d))"
  by (simp_all add: on_inv_def split: prod.split)

lemma tcProgress_frame [simp]:
  "md_calls (tcProgress n m d) = md_calls d" "md_snapshots (tcProgress n m d) = md_snapshots d"
  "md_jobs (tcProgress n m d) = md_jobs d" "md_templates (tcProgress n m d) = md_templates d"
  "idb_vms (md_inv (tcProgress n m d)) = idb_vms (md_inv d)" "idb_faults (md_inv (tcProgress n m d)) = idb_faults (md_inv d)"
  "idb_tasks (md_inv (tcProgress n m d)) = idb_tasks (md_inv d)" "idb_next (md_inv (tcProgress n m d)) = idb_next (md_inv d)"
  "idb_hypervisors (md_inv (tcProgress n m d)) = idb_hypervisors (md_inv d)"
  by (simp_all add: tcProgress_def progress_def)

lemma call_provider_frame [simp]:
  "md_calls (fst (call_provider f c d)) = md_calls d @ [c]" "md_snapshots (fst (call_provider f c d)) = md_snapshots d"
  "md_jobs (fst (call_provider f c d)) = md_jobs d" "md_templates (fst (call_provider f c d)) = md_templates d"
  "md_inv (fst (call_provider f c d)) = md_inv d" "snd (call_provider f c d) = f (md_calls d @ [c])"
  by (simp_all add: call_provider_def Let_def)

text \<open>The rows of a machine's database, without what statements use up.\<close>

definition rows_of :: "mach_db \<Rightarrow> VMRow list \<times> task_table \<times> SnapshotRow list \<times> VMTemplate list \<times> ProvisioningJob list" where
  "rows_of d = (idb_vms (md_inv d), idb_tasks (md_inv d), md_snapshots d, md_templates d, md_jobs d)"

lemma rows_of_eq: "rows_of d = rows_of d' \<longleftrightarrow> idb_vms (md_inv d) = idb_vms (md_inv d') \<and> idb_tasks (md_inv d) = idb_tasks (md_inv d') \<and>
    md_snapshots d = md_snapshots d' \<and> md_templates d = md_templates d' \<and> md_jobs d = md_jobs d'"
  by (simp add: rows_of_def)

text \<open>The provider and the credentials of a hypervisor that is known.\<close>

definition serves :: "secret_box \<Rightarrow> machine_provider Registry \<Rightarrow> string \<Rightarrow> Hypervisor list \<Rightarrow> machine_provider \<Rightarrow> ProviderCredentials \<Rightarrow> bool" where
  "serves B reg i hs p c \<longleftrightarrow> (\<exists>h \<in> set hs. hv_ID h = i \<and> Get reg (hv_Provider h) = Inr p \<and> c = buildHypervisorCredentials B h)"

lemma inv_stmt_read:
  assumes "\<And>d. fst (f d) = d"
  shows "idb_vms (fst (inv_stmt f d)) = idb_vms d" "idb_tasks (fst (inv_stmt f d)) = idb_tasks d"
    "idb_hypervisors (fst (inv_stmt f d)) = idb_hypervisors d" "idb_next (fst (inv_stmt f d)) = idb_next d"
    "idb_faults d = [] \<Longrightarrow> idb_faults (fst (inv_stmt f d)) = []"
  using assms by (simp_all add: inv_stmt_def split: list.split option.split)

lemma hv_repo_GetByID_read:
  "idb_vms (fst (hv_repo_GetByID i d)) = idb_vms d" "idb_tasks (fst (hv_repo_GetByID i d)) = idb_tasks d"
  "idb_next (fst (hv_repo_GetByID i d)) = idb_next d" "idb_faults d = [] \<Longrightarrow> idb_faults (fst (hv_repo_GetByID i d)) = []"
  unfolding hv_repo_GetByID_def
  by (auto simp: inv_stmt_def split: list.split option.split sum.split prod.split)

lemma BuildCredentials_read:
  "idb_vms (fst (BuildCredentials B i d)) = idb_vms d" "idb_tasks (fst (BuildCredentials B i d)) = idb_tasks d"
  "idb_next (fst (BuildCredentials B i d)) = idb_next d" "idb_faults d = [] \<Longrightarrow> idb_faults (fst (BuildCredentials B i d)) = []"
  using hv_repo_GetByID_read [where i = i and d = d] by (auto simp: BuildCredentials_def split: sum.split prod.split)

lemma getProviderWithCreds_read:
  "rows_of (fst (getProviderWithCreds B reg i d)) = rows_of d" "md_calls (fst (getProviderWithCreds B reg i d)) = md_calls d"
  "idb_next (md_inv (fst (getProviderWithCreds B reg i d))) = idb_next (md_inv d)"
  "idb_faults (md_inv d) = [] \<Longrightarrow> idb_faults (md_inv (fst (getProviderWithCreds B reg i d))) = []"
  using BuildCredentials_read [where B = B and i = i and d = "md_inv d"]
  by (auto simp: getProviderWithCreds_def on_inv_def rows_of_def split: sum.split prod.split)

lemma getProviderWithCreds_serves:
  assumes "getProviderWithCreds B reg i d = (d', Inr (p, c))"
  shows "serves B reg i (idb_hypervisors (md_inv d)) p c"
proof -
  have "\<exists>h \<in> set (idb_hypervisors (md_inv d)). hv_ID h = i \<and> BuildCredentials B i (md_inv d) = (fst (BuildCredentials B i (md_inv d)), Inr (buildHypervisorCredentials B h, hv_Provider h))"
    if "snd (BuildCredentials B i (md_inv d)) = Inr x" for x
    using that by (auto simp: BuildCredentials_def hv_repo_GetByID_def inv_stmt_def find_Some_iff
      split: sum.splits prod.splits list.splits option.splits)
  with assms show ?thesis
    by (fastforce simp: getProviderWithCreds_def on_inv_def serves_def split: sum.splits prod.splits)
qed

section \<open>The session of a handler\<close>

text \<open>Either the part of the handler was not reached, or it ran between a connection that was accepted and its end.\<close>

lemma session_cases:
  assumes "session E i msg body d = (d', r)"
  obtains (idle) cs where "r \<noteq> None" "rows_of d' = rows_of d" "md_calls d' = md_calls d @ cs"
      "cs = [] \<or> (\<exists>p c. serves (he_box E) (he_registry E) i (idb_hypervisors (md_inv d)) p c \<and> (cs = [CallConnect c] \<or> cs = [CallConnect c, CallDisconnect]))"
      "idb_faults (md_inv d) = [] \<Longrightarrow> idb_faults (md_inv d') = []"
    | (ran) p c d1 d2 where "serves (he_box E) (he_registry E) i (idb_hypervisors (md_inv d)) p c" "rows_of d1 = rows_of d" "md_calls d1 = md_calls d @ [CallConnect c]"
      "mp_Do p (md_calls d1) = None" "idb_next (md_inv d1) = idb_next (md_inv d)" "idb_faults (md_inv d) = [] \<Longrightarrow> idb_faults (md_inv d1) = []"
      "body p d1 = (d2, r)" "d' = d2\<lparr>md_calls := md_calls d2 @ [CallDisconnect]\<rparr>"
proof -
  obtain d0 g where get: "getProviderWithCreds (he_box E) (he_registry E) i (tcProgress 10 ''connecting to hypervisor'' d) = (d0, g)" by fastforce
  have d0: "rows_of d0 = rows_of d" "md_calls d0 = md_calls d" "idb_next (md_inv d0) = idb_next (md_inv d)"
    "idb_faults (md_inv d) = [] \<Longrightarrow> idb_faults (md_inv d0) = []"
    using getProviderWithCreds_read [where B = "he_box E" and reg = "he_registry E" and i = i and d = "tcProgress 10 ''connecting to hypervisor'' d"]
    by (simp_all add: get rows_of_def)
  have known: "serves (he_box E) (he_registry E) i (idb_hypervisors (md_inv d)) p c" if "g = Inr (p, c)" for p c
    using getProviderWithCreds_serves [OF get [unfolded that]] by simp
  note s = assms [unfolded session_def Let_def get]
  show thesis
  proof (cases "he_cancel1 E")
    case True
    then show thesis using s idle [of "[]"] by (auto simp: rows_of_def)
  next
    case go: False
    show thesis
    proof (cases g)
      case (Inl e)
      then show thesis using s go d0 idle [of "[]"] by (auto simp: rows_of_def)
    next
      case (Inr pc)
      obtain p c where pc: "pc = (p, c)" by fastforce
      have reach: "\<exists>p. serves (he_box E) (he_registry E) i (idb_hypervisors (md_inv d)) p c" using known [OF Inr [unfolded pc]] by blast
      show thesis
      proof (cases "mp_Do p (md_calls d0 @ [CallConnect c])")
        case (Some e)
        then show thesis using s go d0 Inr pc reach idle [of "[CallConnect c]"] by (auto simp: rows_of_def call_provider_def Let_def)
      next
        case None
        let ?d1 = "tcProgress 30 msg (d0\<lparr>md_calls := md_calls d0 @ [CallConnect c]\<rparr>)"
        show thesis
        proof (cases "he_cancel2 E")
          case True
          then show thesis using s go d0 Inr pc None reach idle [of "[CallConnect c, CallDisconnect]"] by (auto simp: rows_of_def call_provider_def Let_def)
        next
          case False
          obtain d2 where "body p ?d1 = (d2, r)" "d' = d2\<lparr>md_calls := md_calls d2 @ [CallDisconnect]\<rparr>"
            using s go Inr pc None False by (auto simp: call_provider_def Let_def split: prod.splits)
          with d0 None known [OF Inr [unfolded pc]] show thesis by (intro ran [of p c ?d1 d2]) (simp_all add: rows_of_def)
        qed
      qed
    qed
  qed
qed

text \<open>What a provider sees of a handler that sends one of the commands \<open>K\<close> to the hypervisor \<open>i\<close>.\<close>

definition session_trace :: "handler_env \<Rightarrow> string \<Rightarrow> Hypervisor list \<Rightarrow> (provider_call \<Rightarrow> bool) \<Rightarrow> provider_call list \<Rightarrow> bool" where
  "session_trace E i hs K cs \<longleftrightarrow> cs = [] \<or>
     (\<exists>p c. serves (he_box E) (he_registry E) i hs p c \<and>
        (cs = [CallConnect c] \<or> cs = [CallConnect c, CallDisconnect] \<or> (\<exists>k. K k \<and> cs = [CallConnect c, k, CallDisconnect])))"

lemma session_trace_nil [simp]: "session_trace E i hs K []"
  by (simp add: session_trace_def)

lemma session_traced:
  assumes "session E i msg body d = (d', r)"
    and body: "\<And>p d1 d2. body p d1 = (d2, r) \<Longrightarrow> rows_of d1 = rows_of d \<Longrightarrow> \<exists>k. K k \<and> md_calls d2 = md_calls d1 @ [k]"
  shows "\<exists>cs. md_calls d' = md_calls d @ cs \<and> session_trace E i (idb_hypervisors (md_inv d)) K cs \<and> (r = None \<longrightarrow> length cs = 3)"
  using assms(1)
proof (cases rule: session_cases)
  case (idle cs)
  then show ?thesis by (auto simp: session_trace_def)
next
  case (ran p c d1 d2)
  from body [OF ran(7,2)] obtain k where "K k" "md_calls d2 = md_calls d1 @ [k]" by blast
  with ran show ?thesis by (auto simp: session_trace_def)
qed

section \<open>From a request to the provider\<close>

lemma vmrow_where_frame [simp]:
  "md_calls (fst (vmrow_where i f d)) = md_calls d" "md_snapshots (fst (vmrow_where i f d)) = md_snapshots d"
  "md_jobs (fst (vmrow_where i f d)) = md_jobs d" "md_templates (fst (vmrow_where i f d)) = md_templates d"
  by (simp_all add: vmrow_where_def)

lemma mach_stmt_read:
  assumes "\<And>d. fst (f d) = d"
  shows "rows_of (fst (mach_stmt f d)) = rows_of d" "md_calls (fst (mach_stmt f d)) = md_calls d"
    "idb_hypervisors (md_inv (fst (mach_stmt f d))) = idb_hypervisors (md_inv d)"
  using assms by (auto simp: mach_stmt_def on_inv_def inv_stmt_def rows_of_def split: list.split option.split)

lemma mach_stmt_frame:
  assumes "\<And>d. md_calls (fst (f d)) = md_calls d"
  shows "md_calls (fst (mach_stmt f d)) = md_calls d"
  using assms by (auto simp: mach_stmt_def on_inv_def inv_stmt_def split: list.split option.split)

lemma sn_frame [simp]:
  "md_calls (fst (sn_find P d)) = md_calls d" "md_calls (fst (sn_update P f d)) = md_calls d"
  "md_calls (fst (sn_BulkUpsert U xs d)) = md_calls d"
  by (auto simp: sn_find_def sn_update_def sn_BulkUpsert_def mach_stmt_def on_inv_def inv_stmt_def split: list.split option.split sum.split prod.split)

text \<open>A frame goes through a statement and the branches on its outcome.\<close>

lemma calls_case:
  assumes "\<And>e. md_calls (fst (F (fst x) e)) = cs" "\<And>y. md_calls (fst (G (fst x) y)) = cs"
  shows "md_calls (fst (case x of (d, Inl e) \<Rightarrow> F d e | (d, Inr y) \<Rightarrow> G d y)) = cs"
  using assms by (auto split: prod.split sum.split)

lemma SetCurrentSnapshot_frame [simp]: "md_calls (fst (SetCurrentSnapshot v s d)) = md_calls d"
  unfolding SetCurrentSnapshot_def by (intro calls_case) simp_all

lemma sn_Get_frame [simp]: "md_calls (fst (sn_GetByID i d)) = md_calls d" "md_calls (fst (sn_GetByProviderID v i d)) = md_calls d"
  "md_calls (fst (sn_Delete i d)) = md_calls d"
  by (simp_all add: sn_GetByID_def sn_GetByProviderID_def sn_Delete_def)

lemma keep_snapshot_frame [simp]: "md_calls (keep_snapshot U v info d) = md_calls d"
proof -
  have branch: "md_calls (case x of (d, Inl e) \<Rightarrow> F d e | (d, Inr y) \<Rightarrow> G d y) = cs"
    if "\<And>e. md_calls (F (fst x) e) = cs" "\<And>y. md_calls (G (fst x) y) = cs" for x :: "mach_db \<times> ('a + 'b)" and F G cs
    using that by (auto split: prod.split sum.split)
  show ?thesis unfolding keep_snapshot_def
    by (cases "uuid_parse U v") (auto intro!: branch)
qed



lemma enqueueVMTask_stores:
  assumes "enqueueVMTask U now caller vmID ty extra d = (d1, Inr taskID)"
  obtains vm where "vm \<in> set (idb_vms (md_inv d))" "vm_ID vm = vmID" "\<not> vm_Deleted vm" "md_calls d1 = md_calls d"
    "tt_rows (idb_tasks (md_inv d1)) = tt_rows (idb_tasks (md_inv d)) @
       [machine_task taskID now ty (put_all (machine_payload vmID vm) extra) (uuid_or_nil U vmID) (uuid_or_nil U (vm_HypervisorID vm)) None caller]"
    "taskID \<notin> set (map tk_ID (tt_rows (idb_tasks (md_inv d))))"
proof -
  obtain da g where get: "vmrow_GetByID vmID d = (da, g)" by fastforce
  have da: "idb_vms (md_inv da) = idb_vms (md_inv d)" "idb_tasks (md_inv da) = idb_tasks (md_inv d)" "md_calls da = md_calls d"
    "\<And>vm. g = Inr vm \<Longrightarrow> vm \<in> set (idb_vms (md_inv d)) \<and> vm_ID vm = vmID \<and> \<not> vm_Deleted vm"
    using get by (auto simp: vmrow_GetByID_def on_inv_def inv_stmt_def find_Some_iff split: sum.splits prod.splits list.splits option.splits)
  obtain vm where vm: "g = Inr vm" using assms get by (auto simp: enqueueVMTask_def split: sum.splits)
  from assms have "tt_rows (idb_tasks (md_inv d1)) = tt_rows (idb_tasks (md_inv d)) @
       [machine_task taskID now ty (put_all (machine_payload vmID vm) extra) (uuid_or_nil U vmID) (uuid_or_nil U (vm_HypervisorID vm)) None caller] \<and>
       taskID \<notin> set (map tk_ID (tt_rows (idb_tasks (md_inv d)))) \<and> md_calls d1 = md_calls d"
    by (auto simp: enqueueVMTask_def get vm draw_uuid_def task_Create_def on_inv_def inv_stmt_def Create_def mach_audit_def inv_audit_def da
        machine_task_def split: prod.splits sum.splits option.splits list.splits if_splits)
  with da vm show thesis by (intro that [of vm]) simp_all
qed

text \<open>The command a request stands for. The snapshot to delete may be given by its identifier here or at the provider.\<close>

fun sends :: "machine_request \<Rightarrow> string \<Rightarrow> SnapshotRow list \<Rightarrow> provider_call \<Rightarrow> bool" where
  "sends PowerOn pid sns k \<longleftrightarrow> k = CallPowerOn pid"
| "sends PowerOff pid sns k \<longleftrightarrow> k = CallPowerOff pid"
| "sends Reboot pid sns k \<longleftrightarrow> k = CallReboot pid"
| "sends Suspend pid sns k \<longleftrightarrow> k = CallSuspend pid"
| "sends (CreateSnapshot spec) pid sns k \<longleftrightarrow> k = CallCreateSnapshot pid spec"
| "sends (RevertSnapshot i) pid sns k \<longleftrightarrow> k = CallRevertSnapshot pid i"
| "sends (DeleteSnapshot i) pid sns k \<longleftrightarrow> (\<exists>j. k = CallDeleteSnapshot pid j \<and>
     (j = i \<or> (\<exists>s \<in> set sns. sn_ID s = i \<and> \<not> sn_Deleted s \<and> sn_ProviderID s = j)))"

lemma payload_of_request:
  assumes "tk_Payload t = put_all (machine_payload vmID vm) (snd (request_task req))"
  shows "payload_string E t ''vm_id'' = vmID" "payload_string E t ''provider_vm_id'' = vm_ProviderVMID vm"
    "payload_string E t ''hypervisor_id'' = vm_HypervisorID vm"
    "req = CreateSnapshot spec \<Longrightarrow> snapshot_spec E t = spec"
    "req = RevertSnapshot i \<or> req = DeleteSnapshot i \<Longrightarrow> payload_string E t ''snapshot_id'' = i"
  by (cases req; simp add: assms stringFromPayload_def boolFromPayload_def jget_def put_all_def machine_payload_def snapshot_payload_of_def snapshot_spec_def)+

lemma sn_GetByID_result:
  assumes "snd (sn_GetByID i d) = Inr s"
  shows "s \<in> set (md_snapshots d) \<and> sn_ID s = i \<and> \<not> sn_Deleted s"
  using assms by (auto simp: sn_GetByID_def sn_find_def mach_stmt_def on_inv_def inv_stmt_def find_Some_iff split: sum.splits prod.splits list.splits option.splits)

lemma request_handler_sends:
  assumes "map_of machine_handlers (fst (request_task req)) = Some h" and h: "h E t d = (d', r)"
    and payload: "tk_Payload t = put_all (machine_payload vmID vm) (snd (request_task req))"
  shows "\<exists>cs. md_calls d' = md_calls d @ cs \<and>
    session_trace E (vm_HypervisorID vm) (idb_hypervisors (md_inv d)) (sends req (vm_ProviderVMID vm) (md_snapshots d)) cs \<and> (r = None \<longrightarrow> length cs = 3)"
proof (cases req)
  case PowerOn
  with assms(1) have "h = handleVMPowerOn" by (simp add: machine_handlers_def)
  with h show ?thesis
    by (auto simp: handleVMPowerOn_def payload_of_request [OF payload] PowerOn call_provider_def Let_def vmrow_UpdateStatus_def
        elim!: session_traced split: option.splits if_splits)
next
  case PowerOff
  with assms(1) have "h = handleVMPowerOff" by (simp add: machine_handlers_def)
  with h show ?thesis
    by (auto simp: handleVMPowerOff_def payload_of_request [OF payload] PowerOff call_provider_def Let_def vmrow_UpdateStatus_def
        elim!: session_traced split: option.splits if_splits)
next
  case Reboot
  with assms(1) have "h = handleVMReboot" by (simp add: machine_handlers_def)
  with h show ?thesis
    by (auto simp: handleVMReboot_def payload_of_request [OF payload] Reboot call_provider_def Let_def vmrow_UpdateStatus_def
        elim!: session_traced split: option.splits if_splits)
next
  case Suspend
  with assms(1) have "h = handleVMSuspend" by (simp add: machine_handlers_def)
  with h show ?thesis
    by (auto simp: handleVMSuspend_def payload_of_request [OF payload] Suspend call_provider_def Let_def vmrow_UpdateStatus_def
        elim!: session_traced split: option.splits if_splits)
next
  case (CreateSnapshot spec)
  with assms(1) have "h = handleVMSnapshot" by (simp add: machine_handlers_def)
  with h show ?thesis
    by (auto simp: handleVMSnapshot_def payload_of_request [OF payload] CreateSnapshot call_provider_def Let_def
        elim!: session_traced split: option.splits sum.splits if_splits)
next
  case (RevertSnapshot i)
  with assms(1) have "h = handleVMRestore" by (simp add: machine_handlers_def)
  with h show ?thesis
    by (auto simp: handleVMRestore_def payload_of_request [OF payload] RevertSnapshot call_provider_def Let_def
        elim!: session_traced split: option.splits sum.splits if_splits)
next
  case (DeleteSnapshot i)
  let ?B = "\<lambda>p d. case sn_GetByID i d of (d, g) \<Rightarrow>
          (let j = (case g of Inl _ \<Rightarrow> i | Inr snap \<Rightarrow> sn_ProviderID snap) in
           case call_provider (mp_Do p) (CallDeleteSnapshot (vm_ProviderVMID vm) j) d of
             (d, Some e) \<Rightarrow> (d, Some e)
           | (d, None) \<Rightarrow> (tcProgress 100 ''snapshot deleted'' (fst (sn_Delete i (tcProgress 80 ''removing snapshot record from database'' d))), None))"
  have body: "\<exists>k. sends req (vm_ProviderVMID vm) (md_snapshots d) k \<and> md_calls d2 = md_calls d1 @ [k]"
    if run: "?B p d1 = (d2, r)"
      and same: "rows_of d1 = rows_of d" for p d1 d2
  proof -
    obtain d0 g where get: "sn_GetByID i d1 = (d0, g)" by fastforce
    let ?j = "case g of Inl _ \<Rightarrow> i | Inr snap \<Rightarrow> sn_ProviderID snap"
    have "sends req (vm_ProviderVMID vm) (md_snapshots d) (CallDeleteSnapshot (vm_ProviderVMID vm) ?j)"
      using sn_GetByID_result [of i d1] same by (auto simp: DeleteSnapshot get rows_of_eq split: sum.split)
    moreover have "md_calls d2 = md_calls d1 @ [CallDeleteSnapshot (vm_ProviderVMID vm) ?j]"
      using run sn_Get_frame(1) [of i d1] by (auto simp: get call_provider_def Let_def split: option.splits)
    ultimately show ?thesis by blast
  qed
  from DeleteSnapshot assms(1) have "h = handleVMSnapshotDelete" by (simp add: machine_handlers_def)
  with h have "d' = d \<and> r \<noteq> None \<or> session E (vm_HypervisorID vm) ''deleting snapshot on hypervisor'' ?B d = (d', r)"
    using payload_of_request [OF payload] DeleteSnapshot by (auto simp: handleVMSnapshotDelete_def Let_def split: if_splits)
  then show ?thesis
  proof (elim disjE conjE)
    assume "d' = d" "r \<noteq> None"
    then show ?thesis by simp
  next
    assume "session E (vm_HypervisorID vm) ''deleting snapshot on hypervisor'' ?B d = (d', r)"
    then show ?thesis by (rule session_traced) (rule body)
  qed
qed



section \<open>The status of a machine follows the command\<close>

text \<open>The status a power operation that succeeded leaves the machine with; a reboot leaves it as it is.\<close>

fun power_status :: "machine_request \<Rightarrow> (VMStatus \<Rightarrow> VMStatus) option" where
  "power_status PowerOn = Some (\<lambda>_. VMStatusRunning)"
| "power_status PowerOff = Some (\<lambda>_. VMStatusStopped)"
| "power_status Suspend = Some (\<lambda>_. VMStatusSuspended)"
| "power_status Reboot = Some (\<lambda>s. s)"
| "power_status _ = None"

definition set_vm_status :: "string \<Rightarrow> (VMStatus \<Rightarrow> VMStatus) \<Rightarrow> VMRow list \<Rightarrow> VMRow list" where
  "set_vm_status i f = map (\<lambda>v. if vm_ID v = i \<and> \<not> vm_Deleted v then v\<lparr>vm_Status := f (vm_Status v)\<rparr> else v)"

lemma set_vm_status_id [simp]: "set_vm_status i (\<lambda>s. s) vms = vms"
  by (simp add: set_vm_status_def) (rule map_idI, simp)

lemma UpdateStatus_rows:
  assumes "idb_faults (md_inv d) = []"
  shows "idb_vms (md_inv (fst (vmrow_UpdateStatus i st d))) = set_vm_status i (\<lambda>_. st) (idb_vms (md_inv d))"
  using assms by (simp add: vmrow_UpdateStatus_def vmrow_where_def md_inv_on_inv inv_stmt_def set_vm_status_def cong: if_cong)

text \<open>The command \<open>k\<close> was accepted and the rows changed, or neither.\<close>

definition outcome_of ::
  "handler_env \<Rightarrow> string \<Rightarrow> provider_call \<Rightarrow> (VMRow list \<Rightarrow> VMRow list) \<Rightarrow> mach_db \<Rightarrow> mach_db \<Rightarrow> go_error option \<Rightarrow> bool" where
  "outcome_of E i k f d d' r \<longleftrightarrow> idb_vms (md_inv d') = (if r = None then f (idb_vms (md_inv d)) else idb_vms (md_inv d)) \<and>
    (r = None \<longrightarrow> (\<exists>p c. serves (he_box E) (he_registry E) i (idb_hypervisors (md_inv d)) p c \<and>
       mp_Do p (md_calls d @ [CallConnect c]) = None \<and> mp_Do p (md_calls d @ [CallConnect c, k]) = None))"

lemma outcome_refused: "outcome_of E i k f d d (Some e)"
  by (simp add: outcome_of_def)

lemma session_effect:
  assumes "session E i msg body d = (d', r)" and "idb_faults (md_inv d) = []"
    and body: "\<And>p d1 d2. body p d1 = (d2, r) \<Longrightarrow> idb_faults (md_inv d1) = [] \<Longrightarrow> 
        idb_vms (md_inv d2) = (if r = None then f (idb_vms (md_inv d1)) else idb_vms (md_inv d1)) \<and> (r = None \<longrightarrow> mp_Do p (md_calls d1 @ [k]) = None)"
  shows "outcome_of E i k f d d' r"
  using assms(1)
proof (cases rule: session_cases)
  case (idle cs)
  then show ?thesis by (auto simp: rows_of_eq outcome_of_def)
next
  case (ran p c d1 d2)
  from body [OF ran(7) ran(6) [OF assms(2)]] ran show ?thesis by (auto simp: rows_of_eq outcome_of_def)
qed

text \<open>
  C33. The status kept for a machine follows what its hypervisor has done: when a power operation succeeds, the provider
  registered for the type of the hypervisor has accepted the connection with its credentials and then the command, and
  exactly the row of the machine in the payload has got the status the operation leads to, or kept it after a reboot; when
  the operation fails, at whatever point, no row has changed. The statements of the database are taken to succeed.
\<close>

theorem status_follows_command:
  assumes "power_status req = Some f" "map_of machine_handlers (fst (request_task req)) = Some h"
    and "h E t d = (d', r)" and "idb_faults (md_inv d) = []" and "sends req (payload_string E t ''provider_vm_id'') [] k"
  shows "idb_vms (md_inv d') = (if r = None then set_vm_status (payload_string E t ''vm_id'') f (idb_vms (md_inv d)) else idb_vms (md_inv d)) \<and>
    (r = None \<longrightarrow> (\<exists>p c. serves (he_box E) (he_registry E) (payload_string E t ''hypervisor_id'') (idb_hypervisors (md_inv d)) p c \<and>
       mp_Do p (md_calls d @ [CallConnect c]) = None \<and> mp_Do p (md_calls d @ [CallConnect c, k]) = None))"
proof -
  have "outcome_of E (payload_string E t ''hypervisor_id'') k (set_vm_status (payload_string E t ''vm_id'') f) d d' r"
  proof (cases req)
  case PowerOn
  with assms have "handleVMPowerOn E t d = (d', r)" by (simp add: machine_handlers_def)
  with assms(1,4,5) show ?thesis unfolding PowerOn
    by (auto simp: handleVMPowerOn_def UpdateStatus_rows call_provider_def Let_def elim!: session_effect intro!: outcome_refused split: option.splits if_splits)
next
  case PowerOff
  with assms have "handleVMPowerOff E t d = (d', r)" by (simp add: machine_handlers_def)
  with assms(1,4,5) show ?thesis unfolding PowerOff
    by (auto simp: handleVMPowerOff_def UpdateStatus_rows call_provider_def Let_def elim!: session_effect intro!: outcome_refused split: option.splits if_splits)
next
  case Suspend
  with assms have "handleVMSuspend E t d = (d', r)" by (simp add: machine_handlers_def)
  with assms(1,4,5) show ?thesis unfolding Suspend
    by (auto simp: handleVMSuspend_def UpdateStatus_rows call_provider_def Let_def elim!: session_effect intro!: outcome_refused split: option.splits if_splits)
next
  case Reboot
  with assms have "handleVMReboot E t d = (d', r)" by (simp add: machine_handlers_def)
  with assms(1,4,5) show ?thesis unfolding Reboot
    by (auto simp: handleVMReboot_def call_provider_def Let_def elim!: session_effect intro!: outcome_refused split: option.splits if_splits)
  qed (use assms in simp_all)
  then show ?thesis unfolding outcome_of_def .
qed

section \<open>Deleting a machine\<close>

definition live_vms :: "mach_db \<Rightarrow> string set" where
  "live_vms d = {vm_ID v | v. v \<in> set (idb_vms (md_inv d)) \<and> \<not> vm_Deleted v}"

lemma live_vms_map:
  assumes "idb_vms (md_inv d') = map (\<lambda>v. if vm_ID v = i \<and> \<not> vm_Deleted v then g v else v) (idb_vms (md_inv d))"
    and "\<And>v. vm_ID (g v) = vm_ID v"
  shows "(\<And>v. vm_Deleted (g v) = vm_Deleted v) \<Longrightarrow> live_vms d' = live_vms d" "(\<And>v. vm_Deleted (g v)) \<Longrightarrow> live_vms d' = live_vms d - {i}"
proof -
  let ?F = "\<lambda>v. if vm_ID v = i \<and> \<not> vm_Deleted v then g v else v"
  have iff: "x \<in> live_vms d' \<longleftrightarrow> (\<exists>v \<in> set (idb_vms (md_inv d)). vm_ID (?F v) = x \<and> \<not> vm_Deleted (?F v))" for x
    unfolding live_vms_def assms(1) set_map by blast
  have i: "vm_ID (?F v) = vm_ID v" for v using assms(2) by simp
  show "live_vms d' = live_vms d" if "\<And>v. vm_Deleted (g v) = vm_Deleted v"
  proof -
    have "vm_Deleted (?F v) = vm_Deleted v" for v using that by simp
    then show ?thesis by (intro set_eqI) (simp only: iff i, auto simp: live_vms_def)
  qed
  show "live_vms d' = live_vms d - {i}" if "\<And>v. vm_Deleted (g v)"
  proof -
    have "vm_Deleted (?F v) \<longleftrightarrow> vm_Deleted v \<or> vm_ID v = i" for v using that [of v] by auto
    then show ?thesis by (intro set_eqI) (simp only: iff i, auto simp: live_vms_def)
  qed
qed

lemma UpdateStatus_live [simp]: "live_vms (fst (vmrow_UpdateStatus i st d)) = live_vms d"
proof (cases "idb_vms (md_inv (fst (vmrow_UpdateStatus i st d))) = idb_vms (md_inv d)")
  case True
  then show ?thesis by (simp add: live_vms_def)
next
  case False
  then have "idb_vms (md_inv (fst (vmrow_UpdateStatus i st d))) = map (\<lambda>v. if vm_ID v = i \<and> \<not> vm_Deleted v then v\<lparr>vm_Status := st\<rparr> else v) (idb_vms (md_inv d))"
    by (auto simp: vmrow_UpdateStatus_def vmrow_where_def on_inv_def inv_stmt_def split: list.splits option.splits)
  from live_vms_map(1) [OF this] show ?thesis by simp
qed

lemma vmrow_Delete_live:
  assumes "vmrow_Delete i d = (d', r)"
  shows "r = Inr () \<Longrightarrow> live_vms d' = live_vms d - {i}" "r \<noteq> Inr () \<Longrightarrow> live_vms d' = live_vms d"
proof -
  assume "r = Inr ()"
  with assms have "idb_vms (md_inv d') = map (\<lambda>v. if vm_ID v = i \<and> \<not> vm_Deleted v then v\<lparr>vm_Deleted := True\<rparr> else v) (idb_vms (md_inv d))"
    by (auto simp: vmrow_Delete_def vmrow_where_def on_inv_def inv_stmt_def split: list.splits option.splits)
  from live_vms_map(2) [OF this] show "live_vms d' = live_vms d - {i}" by simp
next
  assume "r \<noteq> Inr ()"
  with assms show "live_vms d' = live_vms d"
    by (auto simp: vmrow_Delete_def vmrow_where_def on_inv_def inv_stmt_def live_vms_def split: list.splits option.splits)
qed

lemma vmrow_GetByID_result:
  assumes "vmrow_GetByID i d = (d', g)"
  shows "idb_vms (md_inv d') = idb_vms (md_inv d)" "md_calls d' = md_calls d" "idb_hypervisors (md_inv d') = idb_hypervisors (md_inv d)"
    "g = Inr vm \<Longrightarrow> vm \<in> set (idb_vms (md_inv d)) \<and> vm_ID vm = i \<and> \<not> vm_Deleted vm"
  using assms by (auto simp: vmrow_GetByID_def on_inv_def inv_stmt_def find_Some_iff split: sum.splits prod.splits list.splits option.splits)

lemma hv_repo_GetByID_result:
  assumes "on_inv (hv_repo_GetByID i) d = (d', g)"
  shows "idb_vms (md_inv d') = idb_vms (md_inv d)" "md_calls d' = md_calls d"
    "g = Inr h \<Longrightarrow> h \<in> set (idb_hypervisors (md_inv d)) \<and> hv_ID h = i"
  using assms by (auto simp: hv_repo_GetByID_def on_inv_def inv_stmt_def find_Some_iff split: sum.splits prod.splits list.splits option.splits)

text \<open>
  C34. The record of a machine goes only after the machine: the deletion in the VM service either fails and leaves the set of
  live machines as it is, or it succeeds, and then exactly the record asked for is gone and the provider registered for the
  type of the machine's hypervisor has just accepted the command to delete that machine, in any state and whatever
  statements fail.
\<close>

theorem record_goes_after_machine:
  "case vmService_Delete reg vmID d of
     (d', Some e) \<Rightarrow> live_vms d' = live_vms d
   | (d', None) \<Rightarrow> live_vms d' = live_vms d - {vmID} \<and>
       (\<exists>vm \<in> set (idb_vms (md_inv d)). \<exists>hv \<in> set (idb_hypervisors (md_inv d)). \<exists>p.
          vm_ID vm = vmID \<and> hv_ID hv = vm_HypervisorID vm \<and> Get reg (hv_Provider hv) = Inr p \<and>
          md_calls d' = md_calls d @ [CallDeleteVM (vm_ProviderVMID vm)] \<and> mp_Do p (md_calls d') = None)"
proof -
  obtain da g where get: "vmrow_GetByID vmID d = (da, g)" by fastforce
  note vm = vmrow_GetByID_result [OF get]
  show ?thesis
  proof (cases g)
    case (Inl e)
    then show ?thesis using vm(1) by (simp add: vmService_Delete_def get live_vms_def)
  next
    case (Inr v)
    obtain db k where hv: "on_inv (hv_repo_GetByID (vm_HypervisorID v)) da = (db, k)" by fastforce
    note h = hv_repo_GetByID_result [OF hv]
    have same: "live_vms db = live_vms d" using vm(1) h(1) by (simp add: live_vms_def)
    show ?thesis
    proof (cases "(\<exists>e. k = Inl e) \<or> (\<exists>h e. k = Inr h \<and> Get reg (hv_Provider h) = Inl e)")
      case True
      then show ?thesis using same by (auto simp: vmService_Delete_def get Inr hv)
    next
      case False
      then obtain x p where k: "k = Inr x" "Get reg (hv_Provider x) = Inr p" by (cases k) (auto, metis sum.exhaust)
      let ?dc = "(fst (vmrow_UpdateStatus vmID VMStatusDeleting db))\<lparr>md_calls := md_calls d @ [CallDeleteVM (vm_ProviderVMID v)]\<rparr>"
      have dc: "live_vms ?dc = live_vms d" using same UpdateStatus_live [of vmID VMStatusDeleting db] by (simp add: live_vms_def)
      show ?thesis
      proof (cases "mp_Do p (md_calls d @ [CallDeleteVM (vm_ProviderVMID v)])")
        case (Some e)
        then show ?thesis using dc vm h by (simp add: vmService_Delete_def get Inr hv k call_provider_def Let_def vmrow_UpdateStatus_def [of vmID VMStatusDeleting])
      next
        case None
        obtain dd r where del: "vmrow_Delete vmID ?dc = (dd, r)" by fastforce
        have calls: "md_calls dd = md_calls d @ [CallDeleteVM (vm_ProviderVMID v)]" using vmrow_where_frame(1) [of vmID "\<lambda>v. v\<lparr>vm_Deleted := True\<rparr>" ?dc, folded vmrow_Delete_def, unfolded del] by simp
        have upd: "call_provider (mp_Do p) (CallDeleteVM (vm_ProviderVMID v)) (fst (vmrow_UpdateStatus vmID VMStatusDeleting db)) = (?dc, None)"
          using None vm(2) h(2) by (simp add: call_provider_def vmrow_UpdateStatus_def)
        have run: "vmService_Delete reg vmID d = (case r of Inl e \<Rightarrow> (dd, Some (Wrapf ''removing vm record'' e)) | Inr _ \<Rightarrow> (mach_audit ''delete'' vmID '''' dd, None))"
          by (simp add: vmService_Delete_def get Inr hv k upd del)
        show ?thesis
        proof (cases r)
          case (Inl e)
          with vmrow_Delete_live(2) [OF del] dc show ?thesis by (simp add: run)
        next
          case (Inr u)
          with vmrow_Delete_live(1) [OF del] dc have "live_vms dd = live_vms d - {vmID}" by simp
          moreover have "live_vms (mach_audit ''delete'' vmID '''' dd) = live_vms dd" "md_calls (mach_audit ''delete'' vmID '''' dd) = md_calls dd"
            by (simp_all add: live_vms_def mach_audit_def inv_audit_def)
          ultimately show ?thesis using vm(3) vm(4) [of v] \<open>g = Inr v\<close> h(3) k None calls Inr by (auto simp: run)
        qed
      qed
    qed
  qed
qed

section \<open>The current snapshot\<close>

interpretation snapshot_table: upsert_table sn_key sn_merge
  by unfold_locales (simp add: sn_key_def sn_merge_def)

definition is_current :: "SnapshotRow \<Rightarrow> bool" where
  "is_current s \<longleftrightarrow> sn_IsCurrent s \<and> \<not> sn_Deleted s"

definition one_current :: "SnapshotRow list \<Rightarrow> bool" where
  "one_current rows \<longleftrightarrow> (\<forall>s \<in> set rows. \<forall>s' \<in> set rows. is_current s \<longrightarrow> is_current s' \<longrightarrow> sn_VMID s = sn_VMID s' \<longrightarrow> s = s')"

text \<open>The table of snapshots respects its unique index, its identifiers are from the supply, and a machine has one current snapshot at most.\<close>

definition rows_sound :: "uuid_lib \<Rightarrow> nat \<Rightarrow> SnapshotRow list \<Rightarrow> bool" where
  "rows_sound U n rows \<longleftrightarrow> distinct (map sn_key rows) \<and> distinct (map sn_ID rows) \<and> sn_ID ` set rows \<subseteq> uuid_new U ` {..<n}"

definition snapshots_sound :: "uuid_lib \<Rightarrow> mach_db \<Rightarrow> bool" where
  "snapshots_sound U d \<longleftrightarrow> rows_sound U (idb_next (md_inv d)) (md_snapshots d) \<and> one_current (md_snapshots d)"

text \<open>The rows after \<^verbatim>\<open>SetCurrentSnapshot\<close>.\<close>

definition set_current :: "string \<Rightarrow> string \<Rightarrow> SnapshotRow list \<Rightarrow> SnapshotRow list" where
  "set_current vmID i rows = map (\<lambda>s. if sn_ID s = i \<and> \<not> sn_Deleted s then s\<lparr>sn_IsCurrent := True\<rparr> else s)
     (map (\<lambda>s. if sn_VMID s = vmID \<and> \<not> sn_Deleted s then s\<lparr>sn_IsCurrent := False\<rparr> else s) rows)"

lemma SetCurrentSnapshot_rows:
  assumes "idb_faults (md_inv d) = []"
  shows "SetCurrentSnapshot vmID i d = (d\<lparr>md_snapshots := set_current vmID i (md_snapshots d)\<rparr>, Inr ())"
  using assms by (simp add: SetCurrentSnapshot_def sn_update_def mach_stmt_def on_inv_def inv_stmt_def set_current_def)

lemma set_current_fields:
  "map sn_key (set_current vmID i rows) = map sn_key rows" "map sn_ID (set_current vmID i rows) = map sn_ID rows"
  by (simp_all add: set_current_def sn_key_def)

lemma set_current_sound: "rows_sound U n rows \<Longrightarrow> rows_sound U n (set_current vmID i rows)"
proof -
  have "sn_ID ` set (set_current vmID i rows) = sn_ID ` set rows" by (simp only: set_map [symmetric] set_current_fields)
  then show "rows_sound U n rows \<Longrightarrow> ?thesis" by (simp add: rows_sound_def set_current_fields)
qed

lemma in_set_current:
  assumes "x \<in> set (set_current vmID i rows)"
  obtains s where "s \<in> set rows" "sn_ID x = sn_ID s" "sn_VMID x = sn_VMID s" "sn_ProviderID x = sn_ProviderID s" "sn_Deleted x = sn_Deleted s"
    "is_current x \<longleftrightarrow> \<not> sn_Deleted s \<and> (sn_ID s = i \<or> sn_VMID s \<noteq> vmID \<and> sn_IsCurrent s)" "is_current x \<Longrightarrow> sn_VMID s \<noteq> vmID \<Longrightarrow> sn_ID s \<noteq> i \<Longrightarrow> x = s"
proof -
  from assms obtain s where s: "s \<in> set rows"
    "x = (let s = if sn_VMID s = vmID \<and> \<not> sn_Deleted s then s\<lparr>sn_IsCurrent := False\<rparr> else s in if sn_ID s = i \<and> \<not> sn_Deleted s then s\<lparr>sn_IsCurrent := True\<rparr> else s)"
    by (auto simp: set_current_def Let_def)
  show thesis
    by (rule that [OF s(1)]) (auto simp: s(2) Let_def is_current_def split: if_splits)
qed

lemma upsert_sound:
  assumes "uuids U" "rows_sound U n rows" "sn_ID r = uuid_new U n"
  shows "rows_sound U (n + 1) (upsert_row sn_key sn_merge rows r)"
proof (cases "sn_key r \<in> sn_key ` set rows")
  case True
  then have "map sn_ID (upsert_row sn_key sn_merge rows r) = map sn_ID rows" by (simp add: upsert_row_def sn_merge_def)
  then have "sn_ID ` set (upsert_row sn_key sn_merge rows r) = sn_ID ` set rows" "distinct (map sn_ID (upsert_row sn_key sn_merge rows r)) = distinct (map sn_ID rows)"
    by (simp_all only: set_map [symmetric])
  with assms(2) show ?thesis by (auto simp: rows_sound_def snapshot_table.distinct_upsert_row)
next
  case False
  from uuids.new_inj [OF assms(1)] have "uuid_new U n \<notin> uuid_new U ` {..<n}" by (auto dest: injD)
  with assms(2,3) have "uuid_new U n \<notin> sn_ID ` set rows" by (auto simp: rows_sound_def)
  with False assms(2,3) snapshot_table.distinct_upsert_row [of rows r] show ?thesis by (auto simp: rows_sound_def upsert_row_def)
qed

lemma rows_sound_mono: "rows_sound U n rows \<Longrightarrow> n \<le> m \<Longrightarrow> rows_sound U m rows"
  by (auto simp: rows_sound_def)

text \<open>The row the handler keeps for a snapshot, and the rows after the upsert.\<close>

definition new_snapshot :: "uuid_lib \<Rightarrow> string \<Rightarrow> SnapshotInfo \<Rightarrow> mach_db \<Rightarrow> SnapshotRow" where
  "new_snapshot U vmID info d = \<lparr>sn_ID = uuid_new U (idb_next (md_inv d)), sn_VMID = vmID, sn_ProviderID = si_ProviderID info, sn_Name = si_Name info,
     sn_Description = si_Description info, sn_IsCurrent = True, sn_ParentID = None, sn_Deleted = False\<rparr>"

abbreviation rows_with_snapshot :: "uuid_lib \<Rightarrow> string \<Rightarrow> SnapshotInfo \<Rightarrow> mach_db \<Rightarrow> SnapshotRow list" where
  "rows_with_snapshot U vmID info d \<equiv> upsert_row sn_key sn_merge (md_snapshots d) (new_snapshot U vmID info d)"

lemma keep_snapshot_rows:
  assumes "idb_faults (md_inv d) = []" "uuid_parse U vmID = Some vmID"
  shows "idb_next (md_inv (keep_snapshot U vmID info d)) = idb_next (md_inv d) + 1"
    "md_snapshots (keep_snapshot U vmID info d) =
       (case find (\<lambda>s. sn_key s = (vmID, si_ProviderID info) \<and> \<not> sn_Deleted s) (rows_with_snapshot U vmID info d) of
          None \<Rightarrow> rows_with_snapshot U vmID info d
        | Some saved \<Rightarrow> set_current vmID (sn_ID saved) (rows_with_snapshot U vmID info d))"
proof -
  let ?d1 = "d\<lparr>md_snapshots := rows_with_snapshot U vmID info d, md_inv := (md_inv d)\<lparr>idb_next := Suc (idb_next (md_inv d))\<rparr>\<rparr>"
  have up: "sn_BulkUpsert U [\<lparr>sn_ID = nil_uuid, sn_VMID = vmID, sn_ProviderID = si_ProviderID info, sn_Name = si_Name info,
      sn_Description = si_Description info, sn_IsCurrent = True, sn_ParentID = None, sn_Deleted = False\<rparr>] d = (?d1, Inr ())"
    using assms(1) snapshot_table.bulk_Some [of "[new_snapshot U vmID info d]" "md_snapshots d"]
    by (simp add: sn_BulkUpsert_def mach_stmt_def on_inv_def inv_stmt_def new_snapshot_def)
  have get: "sn_GetByProviderID vmID (si_ProviderID info) ?d1 =
      (?d1, case find (\<lambda>s. sn_key s = (vmID, si_ProviderID info) \<and> \<not> sn_Deleted s) (rows_with_snapshot U vmID info d) of
              None \<Rightarrow> Inl (Wrapf ''snapshot not found'' (Errorf ''record not found'')) | Some s \<Rightarrow> Inr s)"
    using assms(1) by (simp add: sn_GetByProviderID_def sn_find_def mach_stmt_def on_inv_def inv_stmt_def sn_key_def conj_assoc split: option.split)
  have "keep_snapshot U vmID info d = (case find (\<lambda>s. sn_key s = (vmID, si_ProviderID info) \<and> \<not> sn_Deleted s) (rows_with_snapshot U vmID info d) of
          None \<Rightarrow> ?d1 | Some saved \<Rightarrow> ?d1\<lparr>md_snapshots := set_current vmID (sn_ID saved) (rows_with_snapshot U vmID info d)\<rparr>)"
    using assms by (simp add: keep_snapshot_def up get SetCurrentSnapshot_rows split: option.split)
  then show "idb_next (md_inv (keep_snapshot U vmID info d)) = idb_next (md_inv d) + 1"
    "md_snapshots (keep_snapshot U vmID info d) =
       (case find (\<lambda>s. sn_key s = (vmID, si_ProviderID info) \<and> \<not> sn_Deleted s) (rows_with_snapshot U vmID info d) of
          None \<Rightarrow> rows_with_snapshot U vmID info d
        | Some saved \<Rightarrow> set_current vmID (sn_ID saved) (rows_with_snapshot U vmID info d))"
    by (simp_all split: option.split)
qed

lemma rows_sound_ids: "rows_sound U n rows \<Longrightarrow> s \<in> set rows \<Longrightarrow> s' \<in> set rows \<Longrightarrow> sn_ID s = sn_ID s' \<Longrightarrow> s = s'"
  by (auto simp: rows_sound_def distinct_map dest: inj_onD)

lemma one_current_set_current:
  assumes sound: "rows_sound U n (upsert_row sn_key sn_merge rows r)" and one: "one_current rows"
    and saved: "saved \<in> set (upsert_row sn_key sn_merge rows r)" "sn_key saved = sn_key r" and r: "sn_VMID r = vmID"
  shows "one_current (set_current vmID (sn_ID saved) (upsert_row sn_key sn_merge rows r))"
  unfolding one_current_def
proof (intro ballI impI)
  fix x x' assume x: "x \<in> set (set_current vmID (sn_ID saved) (upsert_row sn_key sn_merge rows r))"
    and x': "x' \<in> set (set_current vmID (sn_ID saved) (upsert_row sn_key sn_merge rows r))"
    and cur: "is_current x" "is_current x'" "sn_VMID x = sn_VMID x'"
  note sound' = set_current_sound [OF sound, of vmID "sn_ID saved"]
  have vm: "sn_VMID saved = vmID" using saved(2) r by (simp add: sn_key_def)
  have other: "y \<in> set rows \<and> is_current y" if y: "y \<in> set (set_current vmID (sn_ID saved) (upsert_row sn_key sn_merge rows r))" "is_current y" "sn_VMID y \<noteq> vmID" for y
  proof -
    from y(1) obtain s where s: "s \<in> set (upsert_row sn_key sn_merge rows r)" "sn_VMID y = sn_VMID s"
      "is_current y \<Longrightarrow> sn_VMID s \<noteq> vmID \<Longrightarrow> sn_ID s \<noteq> sn_ID saved \<Longrightarrow> y = s" by (elim in_set_current) blast
    have "sn_ID s \<noteq> sn_ID saved" using rows_sound_ids [OF sound s(1) saved(1)] s(2) y(3) vm by auto
    with s y have "y = s" by simp
    moreover from s(1) have "s \<in> set rows"
      by (cases rule: snapshot_table.upsert_row_cases) (use s(2) y(3) r in \<open>auto simp: sn_key_def sn_merge_def\<close>)
    ultimately show ?thesis using y(2) by simp
  qed
  have mine: "sn_ID y = sn_ID saved" if y: "y \<in> set (set_current vmID (sn_ID saved) (upsert_row sn_key sn_merge rows r))" "is_current y" "sn_VMID y = vmID" for y
    using y(1) by (rule in_set_current) (use y(2,3) in auto)
  show "x = x'"
  proof (cases "sn_VMID x = vmID")
    case True
    with mine x x' cur have "sn_ID x = sn_ID x'" by simp
    with rows_sound_ids [OF sound' x x'] show ?thesis by simp
  next
    case False
    with other [OF x cur(1)] other [OF x' cur(2)] cur(3) one show ?thesis by (auto simp: one_current_def)
  qed
qed

text \<open>
  C35. The table of snapshots keeps naming one current snapshot per machine: keeping the snapshot that the provider has just
  created respects the unique index and the identifiers of the table, leaves every machine with one current snapshot at most,
  and the current one of the machine is the new one, unless the row of a snapshot with the same identifier at the provider
  had been deleted. The statements of the database are taken to succeed.
\<close>

theorem new_snapshot_is_current:
  assumes "uuids U" "snapshots_sound U d" "idb_faults (md_inv d) = []" "uuid_parse U vmID = Some vmID"
  shows "snapshots_sound U (keep_snapshot U vmID info d) \<and>
    ((\<exists>s \<in> set (md_snapshots d). sn_key s = (vmID, si_ProviderID info) \<and> sn_Deleted s) \<or>
     (\<exists>s \<in> set (md_snapshots (keep_snapshot U vmID info d)). is_current s \<and> sn_key s = (vmID, si_ProviderID info)))"
proof -
  let ?r = "new_snapshot U vmID info d" and ?n = "idb_next (md_inv d)"
  let ?rows = "rows_with_snapshot U vmID info d"
  let ?P = "\<lambda>s. sn_key s = (vmID, si_ProviderID info) \<and> \<not> sn_Deleted s"
  have r: "sn_key ?r = (vmID, si_ProviderID info)" "sn_VMID ?r = vmID" "\<not> sn_Deleted ?r" by (simp_all add: new_snapshot_def sn_key_def)
  have sound: "rows_sound U (?n + 1) ?rows" "one_current (md_snapshots d)"
    using assms(2) upsert_sound [OF assms(1), of ?n "md_snapshots d" ?r] by (simp_all add: snapshots_sound_def new_snapshot_def)
  note rows = keep_snapshot_rows [OF assms(3,4), where info = info]
  show ?thesis
  proof (cases "find ?P ?rows")
    case None
    then have none: "\<not> ?P s" if "s \<in> set ?rows" for s using that by (auto simp: find_None_iff)
    have kept: "s \<in> set (md_snapshots d)" if s: "s \<in> set ?rows" "is_current s" for s
      using s(1) by (cases rule: snapshot_table.upsert_row_cases) (use none [OF s(1)] s r in \<open>auto simp: is_current_def sn_merge_def sn_key_def\<close>)
    have "\<exists>s \<in> set (md_snapshots d). sn_key s = (vmID, si_ProviderID info) \<and> sn_Deleted s"
    proof (cases "sn_key ?r \<in> sn_key ` set (md_snapshots d)")
      case True
      then obtain s where s: "s \<in> set (md_snapshots d)" "sn_key s = (vmID, si_ProviderID info)" using r(1) by auto
      then have "sn_merge s ?r \<in> set ?rows" using True r(1) by (auto simp: upsert_row_def)
      from none [OF this] s show ?thesis by (auto simp: sn_merge_def sn_key_def)
    next
      case False
      then have "?r \<in> set ?rows" by (simp add: upsert_row_def)
      with none [OF this] r show ?thesis by simp
    qed
    with None sound kept show ?thesis by (auto simp: snapshots_sound_def rows one_current_def)
  next
    case (Some saved)
    then have saved: "saved \<in> set ?rows" "sn_key saved = sn_key ?r" "\<not> sn_Deleted saved" using r(1) by (auto simp: find_Some_iff)
    from one_current_set_current [OF sound saved(1,2) r(2)] set_current_sound [OF sound(1)]
    have "snapshots_sound U (keep_snapshot U vmID info d)" by (simp add: snapshots_sound_def rows Some)
    moreover have "saved\<lparr>sn_IsCurrent := True\<rparr> \<in> set (set_current vmID (sn_ID saved) ?rows)"
      using saved by (force simp: set_current_def image_iff)
    moreover from this have "saved\<lparr>sn_IsCurrent := True\<rparr> \<in> set (md_snapshots (keep_snapshot U vmID info d))" by (simp add: rows Some)
    moreover have "is_current (saved\<lparr>sn_IsCurrent := True\<rparr>)" "sn_key (saved\<lparr>sn_IsCurrent := True\<rparr>) = (vmID, si_ProviderID info)"
      using saved r(1) by (simp_all add: is_current_def sn_key_def)
    ultimately show ?thesis by blast
  qed
qed

section \<open>Scenarios\<close>

definition demo_answers :: machine_provider where
  "demo_answers = \<lparr>mp_Do = (\<lambda>_. None),
     mp_Snapshot = (\<lambda>_. Inr (Some \<lparr>si_ProviderID = ''snap'', si_Name = ''s'', si_Description = '''', si_IsCurrent = True, si_ParentID = ''''\<rparr>)),
     mp_Machine = (\<lambda>_. Inr (demo_machine ''c'')),
     mp_Templates = Some (\<lambda>_. Inr [\<lparr>ti_ProviderID = ''t'', ti_Name = ''small'', ti_Description = '''', ti_GuestOS = ''linux'', ti_CPUCount = 2,
       ti_MemoryMB = 1024, ti_DiskGB = 10, ti_Tags = [], ti_Extra = []\<rparr>])\<rparr>"

definition demo_handlers :: handler_env where
  "demo_handlers = \<lparr>he_U = plain_uuids, he_box = demo_box, he_registry = [(''vmware'', demo_answers)], he_sync = [], he_fmt = (\<lambda>_. ''''),
     he_cancel1 = False, he_cancel2 = False\<rparr>"

definition demo_inventory_now :: inv_db where
  "demo_inventory_now = empty_inv_db\<lparr>idb_hypervisors := [\<lparr>hv_ID = ''0'', hv_Name = ''lab'', hv_Description = '''', hv_Provider = ''vmware'', hv_Host = ''esx'',
       hv_Port = 443, hv_Username = ''root'', hv_EncryptedSecret = '''', hv_TLSVerify = True, hv_ConnectionStatus = ConnectionStatusConnected,
       hv_Tags = [], hv_Metadata = None\<rparr>],
     idb_vms := [(mapVMInfoToModel (demo_machine ''b'') ''0'')\<lparr>vm_ID := ''2''\<rparr>], idb_next := 6\<rparr>"

definition demo_machines :: mach_db where
  "demo_machines = \<lparr>md_inv = demo_inventory_now, md_snapshots = [], md_templates = [], md_jobs = [], md_calls = []\<rparr>"

definition demo_requested :: mach_db where
  "demo_requested = fst (vm_request plain_uuids 0 None ''2'' PowerOn demo_machines)"

definition demo_power_task :: Task where
  "demo_power_task = hd (tt_rows (idb_tasks (md_inv demo_requested)))"

lemma demo_request_runs:
  "snd (vm_request plain_uuids 0 None ''2'' PowerOn demo_machines) = Inr ''6''"
  "map tk_ID (tt_rows (idb_tasks (md_inv demo_requested))) = [''6'']" "tk_Type demo_power_task = ''vm.power_on''"
  "snd (handleVMPowerOn demo_handlers demo_power_task demo_requested) = None" "idb_faults (md_inv demo_requested) = []"
  "map (\<lambda>v. (vm_ID v, vm_ProviderVMID v, vm_HypervisorID v)) (idb_vms (md_inv demo_machines)) = [(''2'', ''b'', ''0'')]"
  by code_simp+

lemma demo_power_task_row: "demo_power_task \<in> set (tt_rows (idb_tasks (md_inv demo_requested)))" "tk_ID demo_power_task = ''6''"
  using demo_request_runs(2) by (cases "tt_rows (idb_tasks (md_inv demo_requested))"; simp add: demo_power_task_def)+


lemma status_follows_command_witness:
  "\<exists>d'. handleVMPowerOn demo_handlers demo_power_task demo_requested = (d', None) \<and>
     idb_vms (md_inv d') = set_vm_status (payload_string demo_handlers demo_power_task ''vm_id'') (\<lambda>_. VMStatusRunning) (idb_vms (md_inv demo_requested))"
proof -
  obtain d' where run: "handleVMPowerOn demo_handlers demo_power_task demo_requested = (d', None)"
    using demo_request_runs(4) by (metis prod.collapse)
  have "map_of machine_handlers (fst (request_task PowerOn)) = Some handleVMPowerOn" by (simp add: machine_handlers_def)
  from status_follows_command [OF _ this run demo_request_runs(5), of _ "CallPowerOn (payload_string demo_handlers demo_power_task ''provider_vm_id'')"] run
  show ?thesis by simp
qed

lemma new_snapshot_is_current_witness:
  "snapshots_sound plain_uuids (keep_snapshot plain_uuids ''2'' \<lparr>si_ProviderID = ''snap'', si_Name = ''s'', si_Description = '''', si_IsCurrent = True, si_ParentID = ''''\<rparr> demo_machines) \<and>
   (\<exists>s \<in> set (md_snapshots (keep_snapshot plain_uuids ''2'' \<lparr>si_ProviderID = ''snap'', si_Name = ''s'', si_Description = '''', si_IsCurrent = True, si_ParentID = ''''\<rparr> demo_machines)).
      is_current s \<and> sn_key s = (''2'', ''snap''))"
proof -
  have "snapshots_sound plain_uuids demo_machines" "md_snapshots demo_machines = []"
    by (simp_all add: snapshots_sound_def rows_sound_def one_current_def demo_machines_def)
  moreover have "idb_faults (md_inv demo_machines) = []" by (simp add: demo_machines_def demo_inventory_now_def empty_inv_db_def)
  moreover have "uuid_parse plain_uuids ''2'' = Some ''2''" by code_simp
  ultimately show ?thesis
    using new_snapshot_is_current [OF plain.uuids_axioms, of demo_machines "''2''"
        "\<lparr>si_ProviderID = ''snap'', si_Name = ''s'', si_Description = '''', si_IsCurrent = True, si_ParentID = ''''\<rparr>"] by simp
qed

end
