(* ===== verification/BulkTasks.thy ===== *)
theory BulkTasks
  imports MachineLaws
begin

text \<open>
  Bulk operations on machines (\<^verbatim>\<open>internal/task/bulk_handlers.go\<close>): the handler of the parent task, which dispatches the
  children that the VM service has recorded and waits until all of them have ended.

  The handler asks for the children once per round. Between two rounds it waits two seconds, in which anything may happen
  (\<open>PollTick\<close>), or its context ends (\<open>PollDone\<close>); when the list of events is used up it still waits (\<open>None\<close>). The rest of the
  world tells the time and the state of the context for each round. The children it waits for are a set; the order in which a
  round walks it shows in the log only.
\<close>

section \<open>The handler\<close>

datatype ('r, 'd) poll_event = PollDone | PollTick "('r, 'd) world \<Rightarrow> ('r, 'd) world"

record poll_outside =
  po_ctx :: "nat \<Rightarrow> go_error option"
  po_now :: "nat \<Rightarrow> int"

abbreviation bulk_Progress :: "'r setting \<Rightarrow> int \<Rightarrow> int \<Rightarrow> string \<Rightarrow> ('r, 'd) world \<Rightarrow> ('r, 'd) world" where
  "bulk_Progress S now pct message \<equiv> tc_Progress (st_R S) (st_taskID S) (cfg_TaskTTL (st_cfg S)) now pct message"

abbreviation bulk_Log :: "'r setting \<Rightarrow> int \<Rightarrow> string \<Rightarrow> string \<Rightarrow> jmap \<Rightarrow> ('r, 'd) world \<Rightarrow> ('r, 'd) world" where
  "bulk_Log S now level message flds \<equiv> tc_Log (st_R S) (cfg_MaxLogEntries (st_cfg S)) (st_taskID S) now level message [flds]"

fun enqueue_children :: "'r setting \<Rightarrow> 'd TaskRepository \<Rightarrow> int \<Rightarrow> Task list \<Rightarrow> ('r, 'd) world \<Rightarrow> ('r, 'd) world" where
  "enqueue_children S T now [] w = w"
| "enqueue_children S T now (c # cs) w =
     enqueue_children S T now cs
       (case on_redis (q_Enqueue (st_R S) (tk_ID c) (tk_Priority c)) w of
          (w, Some e) \<Rightarrow> bulk_Log S now ''warn'' ''failed to enqueue child task (poller will recover)''
            [(''child_task_id'', JStr (tk_ID c)), (''error'', JStr (Error_text e))] w
        | (w, None) \<Rightarrow> fst (on_db (repo_UpdateStatus T (tk_ID c) TaskQueued None '''') w))"

text \<open>One round over the children not seen at their end: those still missing, and those that have not completed.\<close>

fun check_children :: "'d TaskRepository \<Rightarrow> 'd \<Rightarrow> string list \<Rightarrow> string list \<times> string list" where
  "check_children T d [] = ([], [])"
| "check_children T d (i # is) =
     (case check_children T d is of (remaining, failed) \<Rightarrow>
        (case repo_GetByID T i d of
           Inl _ \<Rightarrow> (i # remaining, failed)
         | Inr child \<Rightarrow>
             (case tk_Status child of
                TaskCompleted \<Rightarrow> (remaining, failed)
              | TaskFailed \<Rightarrow> (remaining, i # failed)
              | TaskCancelled \<Rightarrow> (remaining, i # failed)
              | TaskTimedOut \<Rightarrow> (remaining, i # failed)
              | _ \<Rightarrow> (i # remaining, failed))))"

definition bulk_progress :: "nat \<Rightarrow> nat \<Rightarrow> int" where
  "bulk_progress n tot = 10 + float_to_int (float64 (float64 (float64 (of_int (int n)) / float64 (of_int (int tot))) * 85))"

fun await_children ::
  "'r setting \<Rightarrow> 'd TaskRepository \<Rightarrow> poll_outside \<Rightarrow> nat \<Rightarrow> nat \<Rightarrow> nat \<Rightarrow> string list \<Rightarrow> string list \<Rightarrow> ('r, 'd) poll_event list \<Rightarrow>
   ('r, 'd) world \<Rightarrow> (('r, 'd) world \<times> (go_error + string list)) option" where
  "await_children S T out k tot completed remaining failed es w =
     (if remaining = [] then Some (w, Inr failed)
      else case tc_IsCancelled (st_R S) (st_taskID S) (po_ctx out k) w of
          (w, True) \<Rightarrow> Some (w, Inl (Sentinel ErrTaskCancelled))
        | (w, False) \<Rightarrow>
            (case check_children T (w_db w) remaining of (remaining', failed') \<Rightarrow>
               (let completed = completed + (length remaining - length remaining');
                    failed = failed @ failed';
                    w = bulk_Progress S (po_now out k) (bulk_progress completed tot)
                      (Itoa (int completed) @ ''/'' @ Itoa (int tot) @ '' tasks completed'') w
                in if remaining' = [] then Some (w, Inr failed)
                   else (case es of
                           [] \<Rightarrow> None
                         | PollDone # es \<Rightarrow> Some (w, Inl (Sentinel ErrTaskCancelled))
                         | PollTick f # es \<Rightarrow> await_children S T out (k + 1) tot completed remaining' failed es (f w)))))"

text \<open>The parts of the handler: before and after the children are read, and after the last of them has ended.\<close>

definition bulk_start :: "'r setting \<Rightarrow> int \<Rightarrow> string \<Rightarrow> string \<Rightarrow> ('r, 'd) world \<Rightarrow> ('r, 'd) world" where
  "bulk_start S now opName parentID w =
     bulk_Progress S now 5 (''loading child tasks for bulk '' @ opName)
       (bulk_Log S now ''info'' (''starting bulk '' @ opName) [(''parent_task_id'', JStr parentID)] w)"

definition bulk_dispatch ::
  "'r setting \<Rightarrow> 'd TaskRepository \<Rightarrow> int \<Rightarrow> string \<Rightarrow> string \<Rightarrow> Task list \<Rightarrow> ('r, 'd) world \<Rightarrow> ('r, 'd) world" where
  "bulk_dispatch S T now childType parentID children w =
     (let tot = length children;
          w = bulk_Log S now ''info'' (''enqueueing '' @ Itoa (int tot) @ '' child tasks'')
            [(''parent_task_id'', JStr parentID), (''child_type'', JStr childType)] w;
          w = enqueue_children S T now children w
      in bulk_Progress S now 10 (''dispatched '' @ Itoa (int tot) @ '' tasks, waiting for completion'') w)"

definition bulk_finish :: "'r setting \<Rightarrow> int \<Rightarrow> string \<Rightarrow> nat \<Rightarrow> string list \<Rightarrow> ('r, 'd) world \<Rightarrow> ('r, 'd) world" where
  "bulk_finish S now opName tot failed w =
     (let n = int (length failed);
          w = bulk_Progress S now 100 (''bulk '' @ opName @ '' complete: '' @ Itoa (int tot - n) @ ''/'' @ Itoa (int tot) @ '' succeeded'') w
      in if failed \<noteq> [] then
           bulk_Log S now ''warn'' (''bulk '' @ opName @ '': '' @ Itoa n @ ''/'' @ Itoa (int tot) @ '' tasks failed'')
             [(''failed_task_ids'', JArr (map JStr failed))] w
         else bulk_Log S now ''info'' (''bulk '' @ opName @ '' completed successfully'') [(''total'', JNum (of_int (int tot)))] w)"

definition handleBulkParent ::
  "'r setting \<Rightarrow> 'd TaskRepository \<Rightarrow> (string \<Rightarrow> 'd \<Rightarrow> go_error + Task list) \<Rightarrow> poll_outside \<Rightarrow> ('r, 'd) poll_event list \<Rightarrow> string \<Rightarrow> string \<Rightarrow>
   Task \<Rightarrow> ('r, 'd) world \<Rightarrow> (('r, 'd) world \<times> Task \<times> go_error option) option" where
  "handleBulkParent S T L out es childType opName parent w =
     (let now = po_now out 0;
          parentID = tk_ID parent
      in case tc_IsCancelled (st_R S) (st_taskID S) (po_ctx out 0) (bulk_start S now opName parentID w) of
           (w, True) \<Rightarrow> Some (w, parent, Some (Sentinel ErrTaskCancelled))
         | (w, False) \<Rightarrow>
             (case L parentID (w_db w) of
                Inl e \<Rightarrow> Some (w, parent, Some (Wrapf ''loading child tasks'' e))
              | Inr children \<Rightarrow>
                  if children = [] then
                    Some (bulk_Log S now ''warn'' ''no child tasks found for bulk operation'' [(''parent_task_id'', JStr parentID)] w, parent, None)
                  else
                    (case await_children S T out 1 (length children) 0 (remdups (map tk_ID children)) [] es
                            (bulk_dispatch S T now childType parentID children w) of
                       None \<Rightarrow> None
                     | Some (w, Inl e) \<Rightarrow> Some (w, parent, Some e)
                     | Some (w, Inr failed) \<Rightarrow> Some (bulk_finish S now opName (length children) failed w, parent, None))))"

text \<open>The handlers registered for the types of parent tasks.\<close>

definition bulk_handlers :: "(string \<times> string \<times> string) list" where
  "bulk_handlers = [(''vm.bulk.power_on'', ''vm.power_on'', ''power-on''), (''vm.bulk.power_off'', ''vm.power_off'', ''power-off''),
     (''vm.bulk.reboot'', ''vm.reboot'', ''reboot''), (''vm.bulk.snapshot'', ''vm.snapshot'', ''snapshot'')]"

section \<open>What the handler waits for\<close>

lemma tc_keeps_db [simp]:
  "w_db (tc_Progress R i ttl now pct m w) = w_db w" "w_db (tc_Log R k i now l m f w) = w_db w"
  "w_db (fst (tc_IsCancelled R i ctx w)) = w_db w"
  by (simp_all add: tc_Progress_def tc_Log_def tc_IsCancelled_def Let_def split: option.split)

definition settled :: "TaskStatus \<Rightarrow> bool" where
  "settled s \<longleftrightarrow> s \<in> {TaskCompleted, TaskFailed, TaskCancelled, TaskTimedOut}"

definition status_of :: "'d TaskRepository \<Rightarrow> 'd \<Rightarrow> string \<Rightarrow> TaskStatus option" where
  "status_of T d i = (case repo_GetByID T i d of Inl _ \<Rightarrow> None | Inr t \<Rightarrow> Some (tk_Status t))"

definition ended :: "'d TaskRepository \<Rightarrow> 'd \<Rightarrow> string \<Rightarrow> bool" where
  "ended T d i \<longleftrightarrow> (case status_of T d i of None \<Rightarrow> False | Some s \<Rightarrow> settled s)"

lemma check_children_filter:
  "check_children T d is = (filter (\<lambda>i. \<not> ended T d i) is, filter (\<lambda>i. ended T d i \<and> status_of T d i \<noteq> Some TaskCompleted) is)"
  by (induction "is") (auto simp: ended_def status_of_def settled_def split: sum.splits TaskStatus.splits)

text \<open>What happens meanwhile leaves tasks that have ended as they are.\<close>

definition keeps_ended :: "'d TaskRepository \<Rightarrow> ('r, 'd) poll_event \<Rightarrow> bool" where
  "keeps_ended T ev \<longleftrightarrow> (case ev of PollDone \<Rightarrow> True
     | PollTick f \<Rightarrow> (\<forall>w i. ended T (w_db w) i \<longrightarrow> status_of T (w_db (f w)) i = status_of T (w_db w) i))"

declare await_children.simps [simp del]

lemma await_children_ended:
  assumes "await_children S T out k tot n remaining failed es w = Some (w', Inr failed')" "list_all (keeps_ended T) es"
    and "finite I" "set remaining \<subseteq> I" "distinct remaining" "\<forall>i \<in> I - set remaining. ended T (w_db w) i"
    and "length failed = card {i \<in> I - set remaining. status_of T (w_db w) i \<noteq> Some TaskCompleted}"
  shows "(\<forall>i \<in> I. ended T (w_db w') i) \<and> length failed' = card {i \<in> I. status_of T (w_db w') i \<noteq> Some TaskCompleted}"
  using assms
proof (induction "length es" arbitrary: es k n remaining failed w rule: less_induct)
  case (less es k n remaining failed w)
  let ?d = "w_db w"
  show ?case
  proof (cases "remaining = []")
    case True
    with less.prems show ?thesis by (auto simp: await_children.simps)
  next
    case False
    let ?rest = "filter (\<lambda>i. \<not> ended T ?d i) remaining"
    let ?bad = "filter (\<lambda>i. ended T ?d i \<and> status_of T ?d i \<noteq> Some TaskCompleted) remaining"
    obtain w1 where w1: "tc_IsCancelled (st_R S) (st_taskID S) (po_ctx out k) w = (w1, False)"
      using less.prems(1) False by (auto simp: await_children.simps split: prod.splits bool.splits)
    have "w_db w1 = w_db (fst (tc_IsCancelled (st_R S) (st_taskID S) (po_ctx out k) w))" by (simp only: w1 fst_conv)
    then have d1: "w_db w1 = ?d" by simp
    let ?n = "n + (length remaining - length ?rest)"
    let ?w2 = "bulk_Progress S (po_now out k) (bulk_progress ?n tot) (Itoa (int ?n) @ ''/'' @ Itoa (int tot) @ '' tasks completed'') w1"
    have seen: "\<forall>i \<in> I - set ?rest. ended T ?d i" using less.prems(4,6) by auto
    have split: "{i \<in> I - set ?rest. status_of T ?d i \<noteq> Some TaskCompleted} =
        {i \<in> I - set remaining. status_of T ?d i \<noteq> Some TaskCompleted} \<union> set ?bad"
      using less.prems(4) by auto
    have "card (set ?bad) = length ?bad" by (rule distinct_card) (use less.prems(5) in simp)
    then have count: "length (failed @ ?bad) = card {i \<in> I - set ?rest. status_of T ?d i \<noteq> Some TaskCompleted}"
      using less.prems(3,7) unfolding split by (subst card_Un_disjoint) auto
    show ?thesis
    proof (cases "?rest = []")
      case True
      with less.prems(1) False w1 d1 have "w' = ?w2 \<and> failed' = failed @ ?bad"
        by (simp add: await_children.simps check_children_filter Let_def)
      with seen count True d1 show ?thesis by simp
    next
      case rest: False
      with less.prems(1) False w1 d1 obtain f es' where ev: "es = PollTick f # es'"
        "await_children S T out (k + 1) tot ?n ?rest (failed @ ?bad) es' (f ?w2) = Some (w', Inr failed')"
        by (auto simp: await_children.simps [of _ _ _ _ _ _ remaining] check_children_filter Let_def split: list.splits poll_event.splits)
      have keep: "\<forall>i. ended T ?d i \<longrightarrow> status_of T (w_db (f ?w2)) i = status_of T ?d i"
        using less.prems(2) d1 by (auto simp: ev(1) keeps_ended_def dest: spec [of _ ?w2])
      have same: "status_of T (w_db (f ?w2)) i = status_of T ?d i" if "i \<in> I - set ?rest" for i using seen keep that by blast
      have "ended T (w_db (f ?w2)) i" if "i \<in> I - set ?rest" for i using bspec [OF seen that] same [OF that] by (simp only: ended_def)
      then have "\<forall>i \<in> I - set ?rest. ended T (w_db (f ?w2)) i" by blast
      moreover have "{i \<in> I - set ?rest. status_of T (w_db (f ?w2)) i \<noteq> Some TaskCompleted} = {i \<in> I - set ?rest. status_of T ?d i \<noteq> Some TaskCompleted}"
        by (rule Collect_cong) (rule conj_cong [OF refl], simp only: same)
      moreover have "length es' < length es" by (simp add: ev(1))
      note IH = less.hyps [OF this ev(2)]
      ultimately show ?thesis
        using less.prems(2-5) count by (intro IH) (auto simp: ev(1))
    qed
  qed
qed

text \<open>The children of a bulk operation that have not completed.\<close>

definition not_completed :: "'d TaskRepository \<Rightarrow> 'd \<Rightarrow> Task list \<Rightarrow> string set" where
  "not_completed T d cs = {i \<in> tk_ID ` set cs. status_of T d i \<noteq> Some TaskCompleted}"

text \<open>
  C37. A bulk operation reports success only when all its machines are done: when the handler of the parent returns without an
  error and has found children, each of them has ended, and the last progress it has published counts as succeeded exactly
  the children that have completed. It does so whether children failed or not. What happens meanwhile is arbitrary, except
  that a task that has ended is not brought back.
\<close>

theorem bulk_reports_its_children:
  assumes "handleBulkParent S T L out es childType opName parent w = Some (w', parent', None)"
    and "L (tk_ID parent) (w_db w) = Inr cs" "cs \<noteq> []" "list_all (keeps_ended T) es"
  shows "(\<forall>c \<in> set cs. ended T (w_db w') (tk_ID c)) \<and>
    (\<exists>evs log. w_events w' = evs @ [TaskProgressEvent (st_taskID S) 100 (''bulk '' @ opName @ '' complete: '' @
       Itoa (int (length cs) - int (card (not_completed T (w_db w') cs))) @ ''/'' @ Itoa (int (length cs)) @ '' succeeded''), log])"
proof -
  let ?w1 = "bulk_start S (po_now out 0) opName (tk_ID parent) w"
  obtain w2 where go: "tc_IsCancelled (st_R S) (st_taskID S) (po_ctx out 0) ?w1 = (w2, False)"
    using assms(1) by (auto simp: handleBulkParent_def Let_def split: prod.splits bool.splits)
  have "w_db w2 = w_db (fst (tc_IsCancelled (st_R S) (st_taskID S) (po_ctx out 0) ?w1))" by (simp only: go fst_conv)
  then have "w_db w2 = w_db w" by (simp add: bulk_start_def)
  with assms(2) have load: "L (tk_ID parent) (w_db w2) = Inr cs" by simp
  obtain w4 failed where await: "await_children S T out 1 (length cs) 0 (remdups (map tk_ID cs)) [] es
        (bulk_dispatch S T (po_now out 0) childType (tk_ID parent) cs w2) = Some (w4, Inr failed)"
    and w': "w' = bulk_finish S (po_now out 0) opName (length cs) failed w4"
    using assms(1,3) by (auto simp: handleBulkParent_def Let_def go load split: option.splits sum.splits prod.splits)
  have db: "w_db w' = w_db w4" by (simp add: w' bulk_finish_def Let_def)
  from await_children_ended [OF await assms(4), of "tk_ID ` set cs"]
  have ends: "\<forall>i \<in> tk_ID ` set cs. ended T (w_db w4) i" "length failed = card (not_completed T (w_db w4) cs)"
    by (auto simp: not_completed_def)
  moreover have "\<exists>evs log. w_events w' = evs @ [TaskProgressEvent (st_taskID S) 100 (''bulk '' @ opName @ '' complete: '' @
       Itoa (int (length cs) - int (length failed)) @ ''/'' @ Itoa (int (length cs)) @ '' succeeded''), log]"
    by (simp add: w' bulk_finish_def Let_def tc_Progress_def tc_Log_def)
  ultimately show ?thesis using db by auto
qed

section \<open>From the request to the children\<close>

lemma sort_key_same: "\<forall>x \<in> set xs. f x = c \<Longrightarrow> sort_key f xs = xs"
  by (induction xs) (auto simp: insort_is_Cons)

text \<open>The identifiers to come are not in use.\<close>

definition supply_fresh :: "uuid_lib \<Rightarrow> mach_db \<Rightarrow> bool" where
  "supply_fresh U d \<longleftrightarrow> (\<forall>t \<in> set (tt_rows (idb_tasks (md_inv d))). \<forall>n \<ge> idb_next (md_inv d).
     tk_ID t \<noteq> uuid_new U n \<and> tk_ParentTaskID t \<noteq> Some (uuid_new U n))"

definition bulk_child :: "int \<Rightarrow> string option \<Rightarrow> string \<Rightarrow> jmap \<Rightarrow> string \<Rightarrow> string \<Rightarrow> VMRow \<Rightarrow> Task" where
  "bulk_child now caller childType extra parentID i vm =
     machine_task i now childType (put_all (machine_payload (vm_ID vm) vm) extra) (vm_ID vm) (vm_HypervisorID vm) (Some parentID) caller"

lemma bulk_child_sel [simp]:
  "tk_ID (bulk_child now caller ty extra p i vm) = i" "tk_ParentTaskID (bulk_child now caller ty extra p i vm) = Some p"
  "tk_CreatedAt (bulk_child now caller ty extra p i vm) = now" "tk_Deleted (bulk_child now caller ty extra p i vm) = False"
  by (simp_all add: bulk_child_def machine_task_def)

lemma task_Create_clean:
  assumes "idb_faults (md_inv d) = []" "tt_fault (idb_tasks (md_inv d)) = None" "tk_ID t \<notin> tk_ID ` set (tt_rows (idb_tasks (md_inv d)))"
  shows "task_Create t d = (d\<lparr>md_inv := (md_inv d)\<lparr>idb_tasks := (idb_tasks (md_inv d))\<lparr>tt_rows := tt_rows (idb_tasks (md_inv d)) @ [t]\<rparr>\<rparr>\<rparr>, Inr ())"
  using assms by (simp add: task_Create_def on_inv_def inv_stmt_def Create_def)

lemma create_children_rows:
  assumes "uuids U" "idb_faults (md_inv d) = []" "tt_fault (idb_tasks (md_inv d)) = None"
    and "\<forall>n \<ge> idb_next (md_inv d). uuid_new U n \<notin> tk_ID ` set (tt_rows (idb_tasks (md_inv d)))"
  shows "tt_fault (idb_tasks (md_inv (create_children U now caller ty extra p vms d))) = None \<and>
    tt_rows (idb_tasks (md_inv (create_children U now caller ty extra p vms d))) = tt_rows (idb_tasks (md_inv d)) @
      map2 (bulk_child now caller ty extra p) (map (uuid_new U) [idb_next (md_inv d)..<idb_next (md_inv d) + length vms]) vms"
  using assms(2-)
proof (induction vms arbitrary: d)
  case (Cons vm vms)
  let ?n = "idb_next (md_inv d)" and ?t = "bulk_child now caller ty extra p (uuid_new U (idb_next (md_inv d))) vm"
  let ?d1 = "d\<lparr>md_inv := (md_inv d)\<lparr>idb_next := Suc ?n\<rparr>\<rparr>"
  let ?d2 = "?d1\<lparr>md_inv := (md_inv ?d1)\<lparr>idb_tasks := (idb_tasks (md_inv ?d1))\<lparr>tt_rows := tt_rows (idb_tasks (md_inv ?d1)) @ [?t]\<rparr>\<rparr>\<rparr>"
  have "task_Create ?t ?d1 = (?d2, Inr ())" by (rule task_Create_clean) (use Cons.prems in auto)
  then have step: "create_children U now caller ty extra p (vm # vms) d = create_children U now caller ty extra p vms ?d2"
    by (simp add: draw_uuid_def on_inv_def bulk_child_def)
  have "\<forall>n \<ge> idb_next (md_inv ?d2). uuid_new U n \<notin> tk_ID ` set (tt_rows (idb_tasks (md_inv ?d2)))"
    using Cons.prems(3) uuids.new_eq_iff [OF assms(1)] by auto
  from Cons.IH [OF _ _ this] Cons.prems(1,2) show ?case
    unfolding step by (simp add: upt_conv_Cons del: upt_Suc)
qed simp

text \<open>
  C36. A bulk request reaches every machine it names: when the VM service has accepted the request, the parent task is
  recorded, and the children its handler will read are exactly one task for each live machine with one of the given
  identifiers, of the type asked for and addressed to that machine; there is at least one, and no task with an identifier in
  use has been overwritten. The statements of the database are taken to succeed.
\<close>

theorem bulk_request_reaches_every_machine:
  assumes "uuids U" "supply_fresh U d" "idb_faults (md_inv d) = []" "tt_fault (idb_tasks (md_inv d)) = None"
    and "enqueueBulkTask U now caller vmIDs parentType childType extra d = (d1, Inr parentID)"
  shows "\<exists>parent ids. let vms = filter (\<lambda>v. vm_ID v \<in> set vmIDs \<and> \<not> vm_Deleted v) (idb_vms (md_inv d)) in
    vms \<noteq> [] \<and> tk_ID parent = parentID \<and> tk_Type parent = parentType \<and> distinct (parentID # ids) \<and> length ids = length vms \<and>
    ListByParentID parentID (idb_tasks (md_inv d1)) = Inr (map2 (bulk_child now caller childType extra parentID) ids vms) \<and>
    tt_rows (idb_tasks (md_inv d1)) = tt_rows (idb_tasks (md_inv d)) @ parent # map2 (bulk_child now caller childType extra parentID) ids vms"
proof -
  let ?n = "idb_next (md_inv d)" and ?rows = "tt_rows (idb_tasks (md_inv d))"
  let ?vms = "filter (\<lambda>v. vm_ID v \<in> set vmIDs \<and> \<not> vm_Deleted v) (idb_vms (md_inv d))"
  let ?ids = "map (uuid_new U) [Suc ?n..<Suc ?n + length ?vms]"
  note fresh = assms(2) [unfolded supply_fresh_def]
  have unused: "uuid_new U n \<notin> tk_ID ` set ?rows" if "?n \<le> n" for n using fresh that by fastforce
  have some: "vmIDs \<noteq> []" using assms(5) by (auto simp: enqueueBulkTask_def)
  have get: "vmrow_GetByIDs vmIDs d = (d, Inr ?vms)"
    using some assms(3) by (simp add: vmrow_GetByIDs_def on_inv_def inv_stmt_def)
  have vms: "?vms \<noteq> []" using assms(5) by (auto simp: enqueueBulkTask_def get split: if_splits)
  let ?parent = "bulk_parent (uuid_new U ?n) now parentType vmIDs (int (length ?vms)) childType caller"
  let ?d1 = "d\<lparr>md_inv := (md_inv d)\<lparr>idb_next := Suc ?n\<rparr>\<rparr>"
  let ?d2 = "?d1\<lparr>md_inv := (md_inv ?d1)\<lparr>idb_tasks := (idb_tasks (md_inv ?d1))\<lparr>tt_rows := tt_rows (idb_tasks (md_inv ?d1)) @ [?parent]\<rparr>\<rparr>\<rparr>"
  have parent: "tk_ID ?parent = uuid_new U ?n" "tk_Type ?parent = parentType" "tk_ParentTaskID ?parent = None" by (simp_all add: bulk_parent_def)
  have "task_Create ?parent ?d1 = (?d2, Inr ())" by (rule task_Create_clean) (use assms(3,4) unused [of ?n] parent(1) in auto)
  then have d1: "parentID = uuid_new U ?n" "idb_tasks (md_inv d1) = idb_tasks (md_inv (create_children U now caller childType extra (uuid_new U ?n) ?vms ?d2))"
    using assms(5) get vms by (auto simp: enqueueBulkTask_def draw_uuid_def on_inv_def mach_audit_def inv_audit_def split: if_splits)
  have "\<forall>n \<ge> idb_next (md_inv ?d2). uuid_new U n \<notin> tk_ID ` set (tt_rows (idb_tasks (md_inv ?d2)))"
    using unused parent(1) uuids.new_eq_iff [OF assms(1)] by auto
  from create_children_rows [OF assms(1) _ _ this, of now caller childType extra "uuid_new U ?n" ?vms] assms(3,4) d1
  have rows: "tt_rows (idb_tasks (md_inv d1)) = ?rows @ ?parent # map2 (bulk_child now caller childType extra parentID) ?ids ?vms"
    and ok: "tt_fault (idb_tasks (md_inv d1)) = None" by simp_all
  have dist: "distinct (parentID # ?ids)" using uuids.new_eq_iff [OF assms(1)] d1(1) by (auto simp: distinct_map inj_on_def simp del: upt_Suc)
  let ?mine = "\<lambda>ts. filter (\<lambda>t. tk_ParentTaskID t = Some parentID) (filter (\<lambda>t. \<not> tk_Deleted t) ts)"
  have "?mine ?rows = []" using fresh d1(1) by (auto simp: filter_empty_conv)
  moreover have "?mine [?parent] = []" by (simp add: parent(3))
  moreover have "?mine (map2 (bulk_child now caller childType extra parentID) is vs) = map2 (bulk_child now caller childType extra parentID) is vs" for "is" vs
    unfolding filter_filter by (rule filter_True) auto
  ultimately have "?mine (?rows @ [?parent] @ map2 (bulk_child now caller childType extra parentID) is vs) = map2 (bulk_child now caller childType extra parentID) is vs"
    for "is" vs by (simp only: filter_append append_Nil)
  then have kids: "filter (\<lambda>t. tk_ParentTaskID t = Some parentID) (live (idb_tasks (md_inv d1))) = map2 (bulk_child now caller childType extra parentID) ?ids ?vms"
    unfolding live_def rows by (simp only: append.simps)
  have "sort_key tk_CreatedAt (map2 (bulk_child now caller childType extra parentID) is vs) = map2 (bulk_child now caller childType extra parentID) is vs" for "is" vs
    by (rule sort_key_same [of _ _ now]) auto
  then have list: "ListByParentID parentID (idb_tasks (md_inv d1)) = Inr (map2 (bulk_child now caller childType extra parentID) ?ids ?vms)"
    by (simp add: ListByParentID_def ok kids)
  have len: "length ?ids = length ?vms" by (simp del: upt_Suc)
  show ?thesis unfolding Let_def
    by (rule exI [of _ ?parent], rule exI [of _ ?ids]) (intro conjI vms dist list rows len; simp add: parent d1(1))
qed

section \<open>Scenarios\<close>

definition demo_bulk :: mach_db where
  "demo_bulk = fst (enqueueBulkTask plain_uuids 0 None [''2'', ''9''] ''vm.bulk.power_on'' ''vm.power_on'' [] demo_machines)"

lemma demo_bulk_runs:
  "snd (enqueueBulkTask plain_uuids 0 None [''2'', ''9''] ''vm.bulk.power_on'' ''vm.power_on'' [] demo_machines) = Inr ''6''"
  "tt_rows (idb_tasks (md_inv demo_machines)) = []" "tt_fault (idb_tasks (md_inv demo_machines)) = None" "idb_faults (md_inv demo_machines) = []"
  by code_simp+

lemma bulk_request_reaches_every_machine_witness:
  "\<exists>child. ListByParentID ''6'' (idb_tasks (md_inv demo_bulk)) = Inr [child] \<and> tk_Type child = ''vm.power_on'' \<and> tk_ParentTaskID child = Some ''6''"
proof -
  have "supply_fresh plain_uuids demo_machines" by (simp add: supply_fresh_def demo_bulk_runs(2))
  moreover have "enqueueBulkTask plain_uuids 0 None [''2'', ''9''] ''vm.bulk.power_on'' ''vm.power_on'' [] demo_machines = (demo_bulk, Inr ''6'')"
    using demo_bulk_runs(1) by (simp add: demo_bulk_def prod_eq_iff)
  moreover have "filter (\<lambda>v. vm_ID v \<in> set [''2'', ''9''] \<and> \<not> vm_Deleted v) (idb_vms (md_inv demo_machines)) =
      [(mapVMInfoToModel (demo_machine ''b'') ''0'')\<lparr>vm_ID := ''2''\<rparr>]"
    by (simp add: demo_machines_def demo_inventory_now_def mapVMInfoToModel_def)
  ultimately obtain ids where "length ids = Suc 0" "ListByParentID ''6'' (idb_tasks (md_inv demo_bulk)) =
      Inr (map2 (bulk_child 0 None ''vm.power_on'' [] ''6'') ids [(mapVMInfoToModel (demo_machine ''b'') ''0'')\<lparr>vm_ID := ''2''\<rparr>])"
    using bulk_request_reaches_every_machine [OF plain.uuids_axioms _ demo_bulk_runs(4,3)] by (fastforce simp: Let_def)
  then show ?thesis by (cases ids) (auto simp: bulk_child_def machine_task_def)
qed

text \<open>The child of the request has failed by the time its parent looks.\<close>

definition demo_bulk_world :: "(unit, task_table) world" where
  "demo_bulk_world = snd (NewEngine sample_config () (fst (repo_UpdateStatus TaskRepo ''7'' TaskFailed None ''no host'' (idb_tasks (md_inv demo_bulk)))))"

definition demo_polls :: poll_outside where
  "demo_polls = \<lparr>po_ctx = (\<lambda>_. None), po_now = int\<rparr>"

definition demo_bulk_end :: "((unit, task_table) world \<times> Task \<times> go_error option) option" where
  "demo_bulk_end = handleBulkParent demo_setting TaskRepo ListByParentID demo_polls [] ''vm.power_on'' ''power-on''
     (hd (tt_rows (idb_tasks (md_inv demo_bulk)))) demo_bulk_world"

lemma demo_bulk_ends:
  "map_option (snd \<circ> snd) demo_bulk_end = Some None"
  "map_sum (\<lambda>_. ()) (map tk_ID) (ListByParentID (tk_ID (hd (tt_rows (idb_tasks (md_inv demo_bulk))))) (w_db demo_bulk_world)) = Inr [''7'']"
  by code_simp+

lemma bulk_reports_its_children_witness:
  "\<exists>w' parent'. demo_bulk_end = Some (w', parent', None) \<and> ended TaskRepo (w_db w') ''7''"
proof -
  obtain w' parent' where res: "demo_bulk_end = Some (w', parent', None)" using demo_bulk_ends(1) by (auto simp: comp_def)
  obtain c where cs: "ListByParentID (tk_ID (hd (tt_rows (idb_tasks (md_inv demo_bulk))))) (w_db demo_bulk_world) = Inr [c]" "tk_ID c = ''7''"
    using demo_bulk_ends(2)
    by (cases "ListByParentID (tk_ID (hd (tt_rows (idb_tasks (md_inv demo_bulk))))) (w_db demo_bulk_world)") (auto simp: map_eq_Cons_conv)
  from bulk_reports_its_children [OF res [unfolded demo_bulk_end_def] cs(1)] res cs(2) show ?thesis by auto
qed

text \<open>A parent that is run again dispatches the children that have ended once more.\<close>

lemma ended_children_are_queued_again:
  "status_of TaskRepo (w_db demo_bulk_world) ''7'' = Some TaskFailed \<and>
   status_of TaskRepo (w_db (enqueue_children (demo_setting\<lparr>st_R := no_redis\<lparr>r_LPush := (\<lambda>k v m. (m, None))\<rparr>\<rparr>) TaskRepo 0
     [hd (tl (tt_rows (idb_tasks (md_inv demo_bulk))))] demo_bulk_world)) ''7'' = Some TaskQueued"
  by code_simp

end
