(* ===== verification/Provisioning.thy ===== *)
theory Provisioning
  imports MachineLaws
begin

text \<open>
  New machines: cloning a machine and creating one from a template. The service that records a job and its task
  (\<^verbatim>\<open>internal/service/provisioning_service.go\<close>), the templates of a hypervisor and their discovery
  (\<^verbatim>\<open>internal/service/template_service.go\<close>), and the handlers of the tasks (\<^verbatim>\<open>internal/task/provisioning_handlers.go\<close>).

  The numbers of a payload have been through JSON when a handler reads them: they are floating-point numbers. Loading the
  rows that a job refers to is part of the statement that reads the job. The parts of a name that the verb \<^verbatim>\<open>%q\<close> escapes are
  not escaped in the descriptions of the audit log. The answer of a provider that has made a machine is not \<^verbatim>\<open>nil\<close>.
\<close>

section \<open>Repositories\<close>

definition job_Create :: "ProvisioningJob \<Rightarrow> mach_db \<Rightarrow> mach_db \<times> (go_error + unit)" where
  "job_Create job = mach_stmt (\<lambda>d. (d\<lparr>md_jobs := md_jobs d @ [job]\<rparr>, Inr ()))"

definition job_GetByID :: "string \<Rightarrow> mach_db \<Rightarrow> mach_db \<times> (go_error + ProvisioningJob)" where
  "job_GetByID i d =
     (case mach_stmt (\<lambda>d. (d, case find (\<lambda>j. pj_ID j = i) (md_jobs d) of
              None \<Rightarrow> Inl (Errorf ''record not found'') | Some j \<Rightarrow> Inr j)) d of
        (d, Inl e) \<Rightarrow> (d, Inl (Wrapf ''provisioning job not found'' e))
      | (d, Inr j) \<Rightarrow> (d, Inr j))"

definition job_Update :: "ProvisioningJob \<Rightarrow> mach_db \<Rightarrow> mach_db \<times> (go_error + unit)" where
  "job_Update job = mach_stmt (\<lambda>d.
     (d\<lparr>md_jobs := (if pj_ID job \<in> pj_ID ` set (md_jobs d) then map (\<lambda>j. if pj_ID j = pj_ID job then job else j) (md_jobs d)
                   else md_jobs d @ [job])\<rparr>, Inr ()))"

definition template_GetByID :: "string \<Rightarrow> mach_db \<Rightarrow> mach_db \<times> (go_error + VMTemplate)" where
  "template_GetByID i d =
     (case mach_stmt (\<lambda>d. (d, case find (\<lambda>t. te_ID t = i \<and> \<not> te_Deleted t) (md_templates d) of
              None \<Rightarrow> Inl (Errorf ''record not found'') | Some t \<Rightarrow> Inr t)) d of
        (d, Inl e) \<Rightarrow> (d, Inl (Wrapf ''template not found'' e))
      | (d, Inr t) \<Rightarrow> (d, Inr t))"

definition te_key :: "VMTemplate \<Rightarrow> string \<times> string" where
  "te_key t = (te_HypervisorID t, te_ProviderID t)"

definition te_merge :: "VMTemplate \<Rightarrow> VMTemplate \<Rightarrow> VMTemplate" where
  "te_merge old new = old\<lparr>te_Name := te_Name new, te_Description := te_Description new, te_GuestOS := te_GuestOS new,
     te_CPUCount := te_CPUCount new, te_MemoryMB := te_MemoryMB new, te_DiskGB := te_DiskGB new, te_Tags := te_Tags new,
     te_Metadata := te_Metadata new\<rparr>"

definition te_BulkUpsert :: "uuid_lib \<Rightarrow> VMTemplate list \<Rightarrow> mach_db \<Rightarrow> mach_db \<times> (go_error + unit)" where
  "te_BulkUpsert U templates d =
     (if templates = [] then (d, Inr ())
      else mach_stmt (\<lambda>d.
        case bulk_upsert te_key te_merge (md_templates d) (map (\<lambda>(k, t). t\<lparr>te_ID := uuid_new U (idb_next (md_inv d) + k)\<rparr>) (enumerate 0 templates)) of
          None \<Rightarrow> (d, Inl duplicate_in_batch)
        | Some rows \<Rightarrow> (d\<lparr>md_templates := rows, md_inv := (md_inv d)\<lparr>idb_next := idb_next (md_inv d) + length templates\<rparr>\<rparr>, Inr ())) d)"

definition te_Delete :: "string \<Rightarrow> mach_db \<Rightarrow> mach_db \<times> (go_error + unit)" where
  "te_Delete i = mach_stmt (\<lambda>d. (d\<lparr>md_templates := map (\<lambda>t. if te_ID t = i \<and> \<not> te_Deleted t then t\<lparr>te_Deleted := True\<rparr> else t) (md_templates d)\<rparr>, Inr ()))"

section \<open>Templates\<close>

definition service_task :: "string \<Rightarrow> int \<Rightarrow> string \<Rightarrow> int \<Rightarrow> int \<Rightarrow> jmap \<Rightarrow> string option \<Rightarrow> string \<Rightarrow> string option \<Rightarrow> Task" where
  "service_task taskID now ty priority retries payload vmID hid caller =
     \<lparr>tk_ID = taskID, tk_CreatedAt = now, tk_Deleted = False, tk_Type = ty, tk_Status = TaskPending, tk_Priority = priority, tk_Progress = 0,
      tk_Payload = payload, tk_Result = None, tk_ErrorMessage = '''', tk_RetryCount = 0, tk_MaxRetries = retries, tk_StartedAt = None,
      tk_CompletedAt = None, tk_ScheduledAt = Some now, tk_TimeoutAt = None, tk_CreatedBy = caller,
      tk_HypervisorID = Some hid, tk_VMID = vmID, tk_ParentTaskID = None\<rparr>"

definition SyncTemplates :: "uuid_lib \<Rightarrow> int \<Rightarrow> string option \<Rightarrow> string \<Rightarrow> mach_db \<Rightarrow> mach_db \<times> (go_error + string)" where
  "SyncTemplates U now caller hypervisorID d =
     (case on_inv (hv_repo_GetByID hypervisorID) d of
        (d, Inl e) \<Rightarrow> (d, Inl (Wrapf ''hypervisor not found'' e))
      | (d, Inr _) \<Rightarrow>
          (case draw_uuid U d of (d, taskID) \<Rightarrow>
             (case task_Create (service_task taskID now ''template.sync'' 5 3 [(''hypervisor_id'', JStr hypervisorID)] None
                      (uuid_or_nil U hypervisorID) caller) d of
                (d, Inl e) \<Rightarrow> (d, Inl (Wrapf ''creating template sync task'' e))
              | (d, Inr _) \<Rightarrow> (d, Inr taskID))))"

definition template_model :: "string \<Rightarrow> TemplateInfo \<Rightarrow> VMTemplate" where
  "template_model hypervisorUUID info =
     \<lparr>te_ID = nil_uuid, te_HypervisorID = hypervisorUUID, te_ProviderID = ti_ProviderID info, te_Name = ti_Name info,
      te_Description = ti_Description info, te_GuestOS = ti_GuestOS info, te_CPUCount = ti_CPUCount info, te_MemoryMB = ti_MemoryMB info,
      te_DiskGB = ti_DiskGB info, te_Tags = ti_Tags info, te_Metadata = (if ti_Extra info \<noteq> [] then Some (ti_Extra info) else None),
      te_Deleted = False\<rparr>"

text \<open>The part between connecting and disconnecting.\<close>

definition store_templates :: "uuid_lib \<Rightarrow> string \<Rightarrow> TemplateInfo list \<Rightarrow> mach_db \<Rightarrow> mach_db \<times> (go_error + int)" where
  "store_templates U hypervisorID infos d =
     (let d = tcProgress 60 (''discovered '' @ Itoa (int (length infos)) @ '' templates, persisting'') d;
          templates = map (template_model (uuid_or_nil U hypervisorID)) infos;
          n = int (length templates)
      in case te_BulkUpsert U templates d of
           (d, Inl e) \<Rightarrow> (d, Inl (Wrapf ''persisting templates'' e))
         | (d, Inr _) \<Rightarrow>
             (tcProgress 100 (''synced '' @ Itoa n @ '' templates'')
                (mach_audit ''execute'' hypervisorID (''template sync: discovered '' @ Itoa n @ '' templates'') d), Inr n))"

definition SyncTemplatesNow ::
  "uuid_lib \<Rightarrow> secret_box \<Rightarrow> machine_provider Registry \<Rightarrow> string \<Rightarrow> mach_db \<Rightarrow> mach_db \<times> (go_error + int)" where
  "SyncTemplatesNow U B reg hypervisorID d =
     (case on_inv (hv_repo_GetByID hypervisorID) d of
        (d, Inl e) \<Rightarrow> (d, Inl (Wrapf ''hypervisor not found'' e))
      | (d, Inr h) \<Rightarrow>
          (let d = tcProgress 10 ''connecting to hypervisor'' d;
               creds = buildHypervisorCredentials B h
           in case Get reg (hv_Provider h) of
                Inl e \<Rightarrow> (d, Inl (Wrapf ''provider not registered'' e))
              | Inr p \<Rightarrow>
                  (case call_provider (mp_Do p) (CallConnect creds) d of
                     (d, Some e) \<Rightarrow> (d, Inl (Wrapf ''provider connect'' e))
                   | (d, None) \<Rightarrow>
                       (case (let d = tcProgress 30 ''discovering templates from provider'' d in
                              case mp_Templates p of
                                None \<Rightarrow> (d, Inr 0)
                              | Some ListTemplates \<Rightarrow>
                                  (case call_provider ListTemplates CallListTemplates d of
                                     (d, Inl e) \<Rightarrow> (d, Inl (Wrapf ''listing templates'' e))
                                   | (d, Inr infos) \<Rightarrow> store_templates U hypervisorID infos d)) of
                          (d, r) \<Rightarrow> (fst (call_provider (mp_Do p) CallDisconnect d), r)))))"

definition handleTemplateSync :: machine_handler where
  "handleTemplateSync E t d =
     (let hypervisorID = payload_string E t ''hypervisor_id'' in
      if hypervisorID = '''' then (d, Some (Errorf ''missing hypervisor_id in payload''))
      else let d = tcProgress 5 ''starting template discovery'' d in
        if he_cancel1 E then (d, Some (Sentinel ErrTaskCancelled))
        else case SyncTemplatesNow (he_U E) (he_box E) (he_registry E) hypervisorID d of
            (d, Inl e) \<Rightarrow> (d, Some e)
          | (d, Inr _) \<Rightarrow> (d, None))"

section \<open>Requests\<close>

record CloneVMRequest =
  cv_SourceVMID :: string
  cv_Name :: string
  cv_DataStore :: string
  cv_Node :: string
  cv_Linked :: bool
  cv_Tags :: "string list"
  cv_Metadata :: jmap

record ProvisionVMRequest =
  pv_TemplateID :: string
  pv_Name :: string
  pv_CPUCount :: int
  pv_MemoryMB :: int
  pv_DiskGB :: int
  pv_NetworkName :: string
  pv_DataStore :: string
  pv_Node :: string
  pv_Tags :: "string list"
  pv_Metadata :: jmap

definition right_arrow :: string where
  "right_arrow = [CHR 0xE2, CHR 0x86, CHR 0x92]"

text \<open>The end of both requests: the job is recorded, then its task, then the job is linked to the task.\<close>

definition start_job ::
  "uuid_lib \<Rightarrow> string \<Rightarrow> (string \<Rightarrow> string \<Rightarrow> Task) \<Rightarrow> string \<Rightarrow> ProvisioningJob \<Rightarrow> mach_db \<Rightarrow> mach_db \<times> (go_error + ProvisioningJob)" where
  "start_job U what task descr job d =
     (case draw_uuid U d of (d, jobID) \<Rightarrow>
        (let job = job\<lparr>pj_ID := jobID\<rparr> in
         case job_Create job d of
           (d, Inl e) \<Rightarrow> (d, Inl (Wrapf ''creating provisioning job'' e))
         | (d, Inr _) \<Rightarrow>
             (case draw_uuid U d of (d, taskID) \<Rightarrow>
                (case task_Create (task taskID jobID) d of
                   (d, Inl e) \<Rightarrow> (d, Inl (Wrapf (''creating '' @ what @ '' task'') e))
                 | (d, Inr _) \<Rightarrow>
                     (let job = job\<lparr>pj_TaskID := Some taskID\<rparr>
                      in (mach_audit ''create'' jobID descr (fst (job_Update job d)), Inr job))))))"

definition clone_job :: "VMRow \<Rightarrow> CloneVMRequest \<Rightarrow> string option \<Rightarrow> ProvisioningJob" where
  "clone_job vm req caller =
     \<lparr>pj_ID = nil_uuid, pj_Type = ProvisioningJobTypeClone, pj_Status = ProvisioningJobStatusPending, pj_TemplateID = None,
      pj_SourceVMID = Some (vm_ID vm), pj_HypervisorID = vm_HypervisorID vm, pj_VMName = cv_Name req, pj_CPUCount = 0, pj_MemoryMB = 0,
      pj_DiskGB = 0, pj_NetworkName = '''', pj_DataStore = cv_DataStore req, pj_Node = cv_Node req, pj_Linked = cv_Linked req,
      pj_Tags = cv_Tags req, pj_ResultVMID = None, pj_TaskID = None, pj_ErrorMessage = '''', pj_CreatedBy = caller,
      pj_Metadata = (if cv_Metadata req \<noteq> [] then Some (cv_Metadata req) else None)\<rparr>"

definition clone_task_payload :: "VMRow \<Rightarrow> CloneVMRequest \<Rightarrow> string \<Rightarrow> jmap" where
  "clone_task_payload vm req jobID =
     [(''provisioning_job_id'', JStr jobID), (''source_vm_id'', JStr (cv_SourceVMID req)), (''provider_vm_id'', JStr (vm_ProviderVMID vm)),
      (''hypervisor_id'', JStr (vm_HypervisorID vm)), (''name'', JStr (cv_Name req)), (''data_store'', JStr (cv_DataStore req)),
      (''node'', JStr (cv_Node req)), (''linked'', JBool (cv_Linked req))]"

definition provisioning_Clone ::
  "uuid_lib \<Rightarrow> int \<Rightarrow> string option \<Rightarrow> CloneVMRequest \<Rightarrow> mach_db \<Rightarrow> mach_db \<times> (go_error + ProvisioningJob)" where
  "provisioning_Clone U now caller req d =
     (case vmrow_GetByID (cv_SourceVMID req) d of
        (d, Inl e) \<Rightarrow> (d, Inl (Wrapf ''source VM not found'' e))
      | (d, Inr vm) \<Rightarrow>
          if cv_Name req = '''' then (d, Inl (Errorf ''clone name is required''))
          else start_job U ''clone''
            (\<lambda>taskID jobID. service_task taskID now ''vm.clone'' 4 2 (clone_task_payload vm req jobID) (Some (vm_ID vm)) (vm_HypervisorID vm) caller)
            (''clone VM \"'' @ vm_Name vm @ ''\" '' @ right_arrow @ '' \"'' @ cv_Name req @ ''\"'') (clone_job vm req caller) d)"

text \<open>A size that is not given is the one of the template.\<close>

definition sized :: "ProvisionVMRequest \<Rightarrow> VMTemplate \<Rightarrow> ProvisionVMRequest" where
  "sized req tmpl = req\<lparr>pv_CPUCount := (if pv_CPUCount req \<le> 0 then te_CPUCount tmpl else pv_CPUCount req),
     pv_MemoryMB := (if pv_MemoryMB req \<le> 0 then te_MemoryMB tmpl else pv_MemoryMB req),
     pv_DiskGB := (if pv_DiskGB req \<le> 0 then te_DiskGB tmpl else pv_DiskGB req)\<rparr>"

definition provision_job :: "VMTemplate \<Rightarrow> ProvisionVMRequest \<Rightarrow> string option \<Rightarrow> ProvisioningJob" where
  "provision_job tmpl req caller =
     \<lparr>pj_ID = nil_uuid, pj_Type = ProvisioningJobTypeProvision, pj_Status = ProvisioningJobStatusPending, pj_TemplateID = Some (te_ID tmpl),
      pj_SourceVMID = None, pj_HypervisorID = te_HypervisorID tmpl, pj_VMName = pv_Name req, pj_CPUCount = pv_CPUCount req,
      pj_MemoryMB = pv_MemoryMB req, pj_DiskGB = pv_DiskGB req, pj_NetworkName = pv_NetworkName req, pj_DataStore = pv_DataStore req,
      pj_Node = pv_Node req, pj_Linked = False, pj_Tags = pv_Tags req, pj_ResultVMID = None, pj_TaskID = None, pj_ErrorMessage = '''',
      pj_CreatedBy = caller, pj_Metadata = (if pv_Metadata req \<noteq> [] then Some (pv_Metadata req) else None)\<rparr>"

definition json_int :: "int \<Rightarrow> jval" where
  "json_int n = JNum (float64 (of_int n))"

definition provision_payload :: "VMTemplate \<Rightarrow> ProvisionVMRequest \<Rightarrow> string \<Rightarrow> jmap" where
  "provision_payload tmpl req jobID =
     [(''provisioning_job_id'', JStr jobID), (''template_id'', JStr (pv_TemplateID req)), (''provider_template_id'', JStr (te_ProviderID tmpl)),
      (''hypervisor_id'', JStr (te_HypervisorID tmpl)), (''name'', JStr (pv_Name req)), (''cpu_count'', json_int (pv_CPUCount req)),
      (''memory_mb'', json_int (pv_MemoryMB req)), (''disk_gb'', json_int (pv_DiskGB req)), (''network_name'', JStr (pv_NetworkName req)),
      (''data_store'', JStr (pv_DataStore req)), (''node'', JStr (pv_Node req))]"

definition provisioning_Provision ::
  "uuid_lib \<Rightarrow> int \<Rightarrow> string option \<Rightarrow> ProvisionVMRequest \<Rightarrow> mach_db \<Rightarrow> mach_db \<times> (go_error + ProvisioningJob)" where
  "provisioning_Provision U now caller req d =
     (case template_GetByID (pv_TemplateID req) d of
        (d, Inl e) \<Rightarrow> (d, Inl (Wrapf ''template not found'' e))
      | (d, Inr tmpl) \<Rightarrow>
          if pv_Name req = '''' then (d, Inl (Errorf ''VM name is required''))
          else start_job U ''provision''
            (\<lambda>taskID jobID. service_task taskID now ''vm.provision'' 4 2 (provision_payload tmpl (sized req tmpl) jobID) None (te_HypervisorID tmpl) caller)
            (''provision VM \"'' @ pv_Name req @ ''\" from template \"'' @ te_Name tmpl @ ''\"'') (provision_job tmpl (sized req tmpl) caller) d)"

section \<open>The handlers\<close>

definition updateJobStatus :: "string \<Rightarrow> ProvisioningJobStatus \<Rightarrow> string \<Rightarrow> mach_db \<Rightarrow> mach_db" where
  "updateJobStatus jobID status errMsg d =
     (case job_GetByID jobID d of
        (d, Inl _) \<Rightarrow> d
      | (d, Inr job) \<Rightarrow> fst (job_Update (job\<lparr>pj_Status := status, pj_ErrorMessage := errMsg\<rparr>) d))"

definition intFromPayload :: "jmap \<Rightarrow> string \<Rightarrow> int" where
  "intFromPayload p key = (case jget p key of Some (JNum r) \<Rightarrow> float_to_int r | _ \<Rightarrow> 0)"

text \<open>What both handlers do around their own part \<open>body\<close>.\<close>

definition job_session ::
  "handler_env \<Rightarrow> string \<Rightarrow> string \<Rightarrow> string \<Rightarrow> (machine_provider \<Rightarrow> mach_db \<Rightarrow> mach_db \<times> go_error option) \<Rightarrow> mach_db \<Rightarrow> mach_db \<times> go_error option" where
  "job_session E jobID hypervisorID msg body d =
     (let d = tcProgress 10 ''connecting to hypervisor'' d in
      if he_cancel1 E then (d, Some (Sentinel ErrTaskCancelled))
      else case getProviderWithCreds (he_box E) (he_registry E) hypervisorID (updateJobStatus jobID ProvisioningJobStatusRunning '''' d) of
          (d, Inl e) \<Rightarrow> (updateJobStatus jobID ProvisioningJobStatusFailed (Error_text e) d, Some e)
        | (d, Inr (p, creds)) \<Rightarrow>
            (case call_provider (mp_Do p) (CallConnect creds) d of
               (d, Some e) \<Rightarrow> (updateJobStatus jobID ProvisioningJobStatusFailed (Error_text e) d, Some (Wrapf ''provider connect'' e))
             | (d, None) \<Rightarrow>
                 (case (let d = tcProgress 30 msg d in
                        if he_cancel2 E then (updateJobStatus jobID ProvisioningJobStatusCancelled ''cancelled'' d, Some (Sentinel ErrTaskCancelled))
                        else body p d) of
                    (d, r) \<Rightarrow> (fst (call_provider (mp_Do p) CallDisconnect d), r))))"

definition clone_body :: "string \<Rightarrow> string \<Rightarrow> VMCloneSpec \<Rightarrow> machine_provider \<Rightarrow> mach_db \<Rightarrow> mach_db \<times> go_error option" where
  "clone_body jobID providerVMID spec p d =
     (case call_provider (mp_Machine p) (CallCloneVM providerVMID spec) d of
        (d, Inl e) \<Rightarrow>
          (let d = updateJobStatus jobID ProvisioningJobStatusFailed (Error_text e) d in
           if errors_As_code e = Some CodeUnsupported then (d, Some (Suffixf (Sentinel ErrTaskPermanentFailure) (Error_text e)))
           else (d, Some e))
      | (d, Inr newVMInfo) \<Rightarrow>
          (let d = tcProgress 80 ''persisting cloned VM to database'' d;
               d = (case job_GetByID jobID d of
                      (d, Inl _) \<Rightarrow> d
                    | (d, Inr job) \<Rightarrow>
                        fst (job_Update (job\<lparr>pj_Status := ProvisioningJobStatusCompleted, pj_ErrorMessage := '''',
                          pj_Metadata := Some (AList.update ''result_provider_vm_id'' (JStr (vi_ProviderVMID newVMInfo))
                            (case pj_Metadata job of None \<Rightarrow> [] | Some m \<Rightarrow> m))\<rparr>) d))
           in (tcProgress 100 ''VM cloned successfully'' d, None)))"

definition handleVMClone :: machine_handler where
  "handleVMClone E t d =
     (let jobID = payload_string E t ''provisioning_job_id'';
          providerVMID = payload_string E t ''provider_vm_id'';
          hypervisorID = payload_string E t ''hypervisor_id'';
          name = payload_string E t ''name'';
          spec = \<lparr>vl_Name = name, vl_DataStore = payload_string E t ''data_store'', vl_Linked = boolFromPayload (tk_Payload t) ''linked''\<rparr>
      in if jobID = '''' \<or> providerVMID = '''' \<or> hypervisorID = '''' \<or> name = ''''
         then (d, Some (Errorf ''missing required fields in clone payload''))
         else job_session E jobID hypervisorID ''cloning VM on hypervisor'' (clone_body jobID providerVMID spec) d)"

definition new_machine :: "string \<Rightarrow> VMInfo \<Rightarrow> VMRow" where
  "new_machine hypervisorUUID info =
     \<lparr>vm_ID = nil_uuid, vm_HypervisorID = hypervisorUUID, vm_ProviderVMID = vi_ProviderVMID info, vm_Name = vi_Name info,
      vm_Status = VMStatusStopped, vm_Deleted = False, vr_Description = '''', vr_CPUCount = vi_CPUCount info, vr_MemoryMB = vi_MemoryMB info,
      vr_DiskGB = vi_DiskGB info, vr_IPAddresses = [], vr_MACAddress = '''', vr_NetworkName = '''', vr_GuestOS = vi_GuestOS info,
      vr_GuestOSType = vi_GuestOSType info, vr_ToolsStatus = '''', vr_Tags = [],
      vr_Metadata = (if vi_Extra info \<noteq> [] then Some (vi_Extra info) else None)\<rparr>"

text \<open>The new machine is kept, and its job is linked to it.\<close>

definition keep_machine :: "uuid_lib \<Rightarrow> string \<Rightarrow> string \<Rightarrow> VMInfo \<Rightarrow> mach_db \<Rightarrow> mach_db" where
  "keep_machine U jobID hypervisorID info d =
     (case uuid_parse U hypervisorID of
        None \<Rightarrow> d
      | Some hypervisorUUID \<Rightarrow>
          (case on_inv (vm_BulkUpsert U [new_machine hypervisorUUID info]) d of
             (d, Inl _) \<Rightarrow> d
           | (d, Inr _) \<Rightarrow>
               (case job_GetByID jobID d of
                  (d, Inl _) \<Rightarrow> d
                | (d, Inr job) \<Rightarrow>
                    (case vmrow_GetByProviderID hypervisorID (vi_ProviderVMID info) d of
                       (d, r) \<Rightarrow>
                         (let job = (case r of Inl _ \<Rightarrow> job | Inr vm \<Rightarrow> job\<lparr>pj_ResultVMID := Some (vm_ID vm)\<rparr>)
                          in fst (job_Update (job\<lparr>pj_Status := ProvisioningJobStatusCompleted, pj_ErrorMessage := ''''\<rparr>) d))))))"

definition provision_body :: "uuid_lib \<Rightarrow> string \<Rightarrow> string \<Rightarrow> VMCreateSpec \<Rightarrow> machine_provider \<Rightarrow> mach_db \<Rightarrow> mach_db \<times> go_error option" where
  "provision_body U jobID hypervisorID spec p d =
     (case call_provider (mp_Machine p) (CallCreateVM spec) d of
        (d, Inl e) \<Rightarrow> (updateJobStatus jobID ProvisioningJobStatusFailed (Error_text e) d, Some e)
      | (d, Inr newVMInfo) \<Rightarrow>
          (tcProgress 100 ''VM provisioned successfully''
             (keep_machine U jobID hypervisorID newVMInfo (tcProgress 80 ''persisting provisioned VM to database'' d)), None))"

definition create_spec :: "handler_env \<Rightarrow> Task \<Rightarrow> VMCreateSpec" where
  "create_spec E t =
     \<lparr>vs_Name = payload_string E t ''name'', vs_CPUCount = intFromPayload (tk_Payload t) ''cpu_count'',
      vs_MemoryMB = intFromPayload (tk_Payload t) ''memory_mb'', vs_DiskGB = intFromPayload (tk_Payload t) ''disk_gb'',
      vs_NetworkName = payload_string E t ''network_name'', vs_DataStore = payload_string E t ''data_store'',
      vs_TemplateID = payload_string E t ''provider_template_id''\<rparr>"

definition handleVMProvision :: machine_handler where
  "handleVMProvision E t d =
     (let jobID = payload_string E t ''provisioning_job_id'';
          hypervisorID = payload_string E t ''hypervisor_id''
      in if jobID = '''' \<or> payload_string E t ''provider_template_id'' = '''' \<or> hypervisorID = '''' \<or> payload_string E t ''name'' = ''''
         then (d, Some (Errorf ''missing required fields in provision payload''))
         else job_session E jobID hypervisorID ''provisioning VM from template on hypervisor''
           (provision_body (he_U E) jobID hypervisorID (create_spec E t)) d)"

end
