(* ===== verification/ProvisioningLaws.thy ===== *)
theory ProvisioningLaws
  imports Provisioning
begin

text \<open>What the jobs of new machines tell of their tasks, and what the requests for them reach.\<close>

section \<open>Writing a job\<close>

definition set_job :: "string \<Rightarrow> (ProvisioningJob \<Rightarrow> ProvisioningJob) \<Rightarrow> ProvisioningJob list \<Rightarrow> ProvisioningJob list" where
  "set_job i f = map (\<lambda>j. if pj_ID j = i then f j else j)"

definition job_state :: "ProvisioningJobStatus \<Rightarrow> string \<Rightarrow> ProvisioningJob \<Rightarrow> ProvisioningJob" where
  "job_state s m j = j\<lparr>pj_Status := s, pj_ErrorMessage := m\<rparr>"

lemma job_state_ID [simp]: "pj_ID (job_state s m j) = pj_ID j"
  by (simp add: job_state_def)

lemma job_state_comp [simp]: "job_state s m \<circ> job_state s' m' = job_state s m"
  by (simp add: job_state_def fun_eq_iff)

lemma set_job_set_job [simp]: "(\<And>j. pj_ID (g j) = pj_ID j) \<Longrightarrow> set_job i f (set_job i g jobs) = set_job i (f \<circ> g) jobs"
  by (simp add: set_job_def)

lemma set_job_ids [simp]: "(\<And>j. pj_ID (f j) = pj_ID j) \<Longrightarrow> map pj_ID (set_job i f jobs) = map pj_ID jobs"
  by (simp add: set_job_def)

lemma set_job_found:
  assumes "distinct (map pj_ID jobs)" "find (\<lambda>j. pj_ID j = i) jobs = Some j"
  shows "map (\<lambda>x. if pj_ID x = i then f j else x) jobs = set_job i f jobs"
proof -
  from assms(2) have j: "j \<in> set jobs" "pj_ID j = i" by (auto simp: find_Some_iff)
  have "x = j" if "x \<in> set jobs" "pj_ID x = i" for x
    using assms(1) j that by (auto simp: distinct_map dest: inj_onD)
  then show ?thesis by (auto simp: set_job_def)
qed

lemma set_job_missing: "find (\<lambda>j. pj_ID j = i) jobs = None \<Longrightarrow> set_job i f jobs = jobs"
  by (auto simp: set_job_def find_None_iff intro!: map_idI)

text \<open>Reading a job, changing it and writing it back.\<close>

lemma job_write:
  assumes "idb_faults (md_inv d) = []" "distinct (map pj_ID (md_jobs d))" "\<And>j. pj_ID (f j) = pj_ID j"
  shows "(case job_GetByID i d of (d, Inl _) \<Rightarrow> d | (d, Inr job) \<Rightarrow> fst (job_Update (f job) d)) = d\<lparr>md_jobs := set_job i f (md_jobs d)\<rparr>"
proof (cases "find (\<lambda>j. pj_ID j = i) (md_jobs d)")
  case None
  with assms(1) show ?thesis by (simp add: job_GetByID_def mach_stmt_def on_inv_def inv_stmt_def set_job_missing)
next
  case (Some j)
  then have j: "pj_ID j = i" "j \<in> set (md_jobs d)" by (auto simp: find_Some_iff)
  with assms(1) Some set_job_found [OF assms(2) Some, of f] show ?thesis
    by (auto simp: job_GetByID_def job_Update_def mach_stmt_def on_inv_def inv_stmt_def assms(3))
qed

lemma job_GetByID_read:
  assumes "idb_faults (md_inv d) = []"
  shows "job_GetByID i d = (d, case find (\<lambda>j. pj_ID j = i) (md_jobs d) of
    None \<Rightarrow> Inl (Wrapf ''provisioning job not found'' (Errorf ''record not found'')) | Some j \<Rightarrow> Inr j)"
  using assms by (simp add: job_GetByID_def mach_stmt_def on_inv_def inv_stmt_def split: option.split)

lemma updateJobStatus_write:
  assumes "idb_faults (md_inv d) = []" "distinct (map pj_ID (md_jobs d))"
  shows "updateJobStatus i s m d = d\<lparr>md_jobs := set_job i (job_state s m) (md_jobs d)\<rparr>"
  using job_write [OF assms, of "job_state s m" i] by (simp add: updateJobStatus_def job_state_def)

section \<open>The session of a job\<close>

text \<open>With a database whose statements succeed.\<close>

lemma job_session_cases:
  assumes "job_session E jobID i msg body d = (d', r)"
    and db: "idb_faults (md_inv d) = []" "distinct (map pj_ID (md_jobs d))" and "\<not> he_cancel1 E"
  obtains (failed) e m where "r = Some e" "md_jobs d' = set_job jobID (job_state ProvisioningJobStatusFailed m) (md_jobs d)"
      "md_calls d' = md_calls d \<or> (\<exists>p c. serves (he_box E) (he_registry E) i (idb_hypervisors (md_inv d)) p c \<and> md_calls d' = md_calls d @ [CallConnect c])"
    | (cancelled) p c where "r = Some (Sentinel ErrTaskCancelled)" "he_cancel2 E" "serves (he_box E) (he_registry E) i (idb_hypervisors (md_inv d)) p c"
      "md_jobs d' = set_job jobID (job_state ProvisioningJobStatusCancelled ''cancelled'') (md_jobs d)"
      "md_calls d' = md_calls d @ [CallConnect c, CallDisconnect]"
    | (ran) p c d1 d2 where "serves (he_box E) (he_registry E) i (idb_hypervisors (md_inv d)) p c" "mp_Do p (md_calls d @ [CallConnect c]) = None"
      "md_calls d1 = md_calls d @ [CallConnect c]" "md_jobs d1 = set_job jobID (job_state ProvisioningJobStatusRunning '''') (md_jobs d)"
      "idb_faults (md_inv d1) = []" "idb_vms (md_inv d1) = idb_vms (md_inv d)" "idb_next (md_inv d1) = idb_next (md_inv d)"
      "body p d1 = (d2, r)" "d' = d2\<lparr>md_calls := md_calls d2 @ [CallDisconnect]\<rparr>"
proof -
  let ?du = "(tcProgress 10 ''connecting to hypervisor'' d)\<lparr>md_jobs := set_job jobID (job_state ProvisioningJobStatusRunning '''') (md_jobs d)\<rparr>"
  have run: "updateJobStatus jobID ProvisioningJobStatusRunning '''' (tcProgress 10 ''connecting to hypervisor'' d) = ?du"
    using db by (subst updateJobStatus_write) simp_all
  obtain d0 g where get: "getProviderWithCreds (he_box E) (he_registry E) i ?du = (d0, g)" by fastforce
  have d0: "md_jobs d0 = md_jobs ?du" "idb_vms (md_inv d0) = idb_vms (md_inv d)" "md_calls d0 = md_calls d"
    "idb_next (md_inv d0) = idb_next (md_inv d)" "idb_faults (md_inv d0) = []"
    using getProviderWithCreds_read [where B = "he_box E" and reg = "he_registry E" and i = i and d = ?du] db
    by (simp_all add: get rows_of_def)
  have put: "updateJobStatus jobID s m d1 = d1\<lparr>md_jobs := set_job jobID (job_state s m) (md_jobs d)\<rparr>"
    if "idb_faults (md_inv d1) = []" "md_jobs d1 = md_jobs d0" for s m d1
    using that db by (subst updateJobStatus_write) (simp_all add: d0)
  have known: "serves (he_box E) (he_registry E) i (idb_hypervisors (md_inv d)) p c" if "g = Inr (p, c)" for p c
    using getProviderWithCreds_serves [OF get [unfolded that]] by simp
  note s = assms(1) [unfolded job_session_def Let_def run get]
  show thesis
  proof (cases g)
    case (Inl e)
    then have "d' = updateJobStatus jobID ProvisioningJobStatusFailed (Error_text e) d0" "r = Some e" using s assms(4) by simp_all
    with put [of d0 ProvisioningJobStatusFailed "Error_text e"] d0 show thesis by (intro failed) auto
  next
    case (Inr pc)
    obtain p c where pc: "pc = (p, c)" by fastforce
    note k = known [OF Inr [unfolded pc]]
    show thesis
    proof (cases "mp_Do p (md_calls d0 @ [CallConnect c])")
      case (Some e)
      let ?d1 = "d0\<lparr>md_calls := md_calls d @ [CallConnect c]\<rparr>"
      have "d' = updateJobStatus jobID ProvisioningJobStatusFailed (Error_text e) ?d1" "r = Some (Wrapf ''provider connect'' e)"
        using s assms(4) Inr pc Some d0(3) by (simp_all add: call_provider_def Let_def)
      with put [of ?d1 ProvisioningJobStatusFailed "Error_text e"] d0 k show thesis by (intro failed) auto
    next
      case None
      let ?d1 = "tcProgress 30 msg (d0\<lparr>md_calls := md_calls d @ [CallConnect c]\<rparr>)"
      show thesis
      proof (cases "he_cancel2 E")
        case True
        have "d' = (updateJobStatus jobID ProvisioningJobStatusCancelled ''cancelled'' ?d1)\<lparr>md_calls := md_calls d @ [CallConnect c, CallDisconnect]\<rparr>"
            "r = Some (Sentinel ErrTaskCancelled)"
          using s assms(4) Inr pc None True d0 put [of ?d1 ProvisioningJobStatusCancelled "''cancelled''"] by (simp_all add: call_provider_def Let_def)
        with put [of ?d1 ProvisioningJobStatusCancelled "''cancelled''"] d0 k True show thesis by (intro cancelled) auto
      next
        case False
        obtain d2 where "body p ?d1 = (d2, r)" "d' = d2\<lparr>md_calls := md_calls d2 @ [CallDisconnect]\<rparr>"
          using s assms(4) Inr pc None False d0(3) by (auto simp: call_provider_def Let_def split: prod.splits)
        with d0 None k show thesis by (intro ran [of p c ?d1 d2]) simp_all
      qed
    qed
  qed
qed

section \<open>Cloning\<close>

definition clone_done :: "VMInfo \<Rightarrow> ProvisioningJob \<Rightarrow> ProvisioningJob" where
  "clone_done info j = j\<lparr>pj_Status := ProvisioningJobStatusCompleted, pj_ErrorMessage := '''',
     pj_Metadata := Some (AList.update ''result_provider_vm_id'' (JStr (vi_ProviderVMID info)) (case pj_Metadata j of None \<Rightarrow> [] | Some m \<Rightarrow> m))\<rparr>"

lemma clone_done_comp: "clone_done info \<circ> job_state s m = clone_done info"
  by (simp add: clone_done_def job_state_def fun_eq_iff)

lemma clone_done_ID: "pj_ID (clone_done info j) = pj_ID j"
  by (simp add: clone_done_def)

lemma clone_body_effect:
  assumes "clone_body jobID pid spec p d = (d', r)" "idb_faults (md_inv d) = []" "distinct (map pj_ID (md_jobs d))"
  shows "md_calls d' = md_calls d @ [CallCloneVM pid spec] \<and>
    (case mp_Machine p (md_calls d @ [CallCloneVM pid spec]) of
       Inl e \<Rightarrow> md_jobs d' = set_job jobID (job_state ProvisioningJobStatusFailed (Error_text e)) (md_jobs d) \<and>
         r = Some (if errors_As_code e = Some CodeUnsupported then Suffixf (Sentinel ErrTaskPermanentFailure) (Error_text e) else e)
     | Inr info \<Rightarrow> md_jobs d' = set_job jobID (clone_done info) (md_jobs d) \<and> r = None)"
proof (cases "mp_Machine p (md_calls d @ [CallCloneVM pid spec])")
  case (Inl e)
  let ?d1 = "d\<lparr>md_calls := md_calls d @ [CallCloneVM pid spec]\<rparr>"
  have "updateJobStatus jobID ProvisioningJobStatusFailed (Error_text e) ?d1 =
      ?d1\<lparr>md_jobs := set_job jobID (job_state ProvisioningJobStatusFailed (Error_text e)) (md_jobs d)\<rparr>"
    using assms by (subst updateJobStatus_write) simp_all
  then have "clone_body jobID pid spec p d = (?d1\<lparr>md_jobs := set_job jobID (job_state ProvisioningJobStatusFailed (Error_text e)) (md_jobs d)\<rparr>,
      Some (if errors_As_code e = Some CodeUnsupported then Suffixf (Sentinel ErrTaskPermanentFailure) (Error_text e) else e))"
    using Inl by (simp add: clone_body_def call_provider_def Let_def)
  with assms(1) Inl show ?thesis by auto
next
  case (Inr info)
  let ?d1 = "tcProgress 80 ''persisting cloned VM to database'' (d\<lparr>md_calls := md_calls d @ [CallCloneVM pid spec]\<rparr>)"
  have "(case job_GetByID jobID ?d1 of (d, Inl _) \<Rightarrow> d | (d, Inr job) \<Rightarrow> fst (job_Update (clone_done info job) d)) =
      ?d1\<lparr>md_jobs := set_job jobID (clone_done info) (md_jobs d)\<rparr>"
    using assms job_write [of ?d1 "clone_done info" jobID] by (simp add: clone_done_ID)
  then have "clone_body jobID pid spec p d = (tcProgress 100 ''VM cloned successfully'' (?d1\<lparr>md_jobs := set_job jobID (clone_done info) (md_jobs d)\<rparr>), None)"
    using Inr unfolding clone_done_def by (simp add: clone_body_def call_provider_def Let_def)
  with assms(1) Inr show ?thesis by auto
qed

definition clone_spec :: "handler_env \<Rightarrow> Task \<Rightarrow> VMCloneSpec" where
  "clone_spec E t = \<lparr>vl_Name = payload_string E t ''name'', vl_DataStore = payload_string E t ''data_store'',
     vl_Linked = boolFromPayload (tk_Payload t) ''linked''\<rparr>"

text \<open>
  C9. The job of a clone tells what has become of its task. When the handler of a complete task that was not cancelled at its
  start returns, its job is completed exactly if the handler reports success, which it does only if the provider of the
  hypervisor has accepted the connection and has cloned the machine as specified, and then the job names the new machine;
  otherwise the job has failed, or is cancelled when the task was. No other job has changed, and the provider has been told
  nothing but to connect, to make this clone once and to disconnect. The statements of the database are taken to succeed.
\<close>

theorem clone_job_tells_outcome:
  assumes "handleVMClone E t d = (d', r)" "\<not> he_cancel1 E"
    and "\<forall>key \<in> {''provisioning_job_id'', ''provider_vm_id'', ''hypervisor_id'', ''name''}. payload_string E t key \<noteq> ''''"
    and "idb_faults (md_inv d) = []" "distinct (map pj_ID (md_jobs d))"
  shows "\<exists>f cs. md_jobs d' = set_job (payload_string E t ''provisioning_job_id'') f (md_jobs d) \<and> md_calls d' = md_calls d @ cs \<and>
    session_trace E (payload_string E t ''hypervisor_id'') (idb_hypervisors (md_inv d))
      (\<lambda>k. k = CallCloneVM (payload_string E t ''provider_vm_id'') (clone_spec E t)) cs \<and>
    (case r of
       None \<Rightarrow> \<exists>p c info. cs = [CallConnect c, CallCloneVM (payload_string E t ''provider_vm_id'') (clone_spec E t), CallDisconnect] \<and>
         serves (he_box E) (he_registry E) (payload_string E t ''hypervisor_id'') (idb_hypervisors (md_inv d)) p c \<and>
         mp_Machine p (md_calls d @ butlast cs) = Inr info \<and> f = clone_done info
     | Some e \<Rightarrow> (\<exists>m. f = job_state ProvisioningJobStatusFailed m) \<or>
         e = Sentinel ErrTaskCancelled \<and> he_cancel2 E \<and> f = job_state ProvisioningJobStatusCancelled ''cancelled'')"
proof -
  let ?job = "payload_string E t ''provisioning_job_id''" and ?pid = "payload_string E t ''provider_vm_id''" and ?i = "payload_string E t ''hypervisor_id''"
  have "job_session E ?job ?i ''cloning VM on hypervisor'' (clone_body ?job ?pid (clone_spec E t)) d = (d', r)"
    using assms(1,3) by (simp add: handleVMClone_def clone_spec_def Let_def)
  then show ?thesis
    using assms(4,5,2)
  proof (cases rule: job_session_cases)
    case (failed e m)
    then obtain cs where "md_calls d' = md_calls d @ cs" "cs = [] \<or> (\<exists>p c. serves (he_box E) (he_registry E) ?i (idb_hypervisors (md_inv d)) p c \<and> cs = [CallConnect c])"
      by (metis append_Nil2)
    with failed show ?thesis
      by (intro exI [of _ "job_state ProvisioningJobStatusFailed m"] exI [of _ cs]) (auto simp: session_trace_def)
  next
    case (cancelled p c)
    then show ?thesis
      by (intro exI [of _ "job_state ProvisioningJobStatusCancelled ''cancelled''"] exI [of _ "[CallConnect c, CallDisconnect]"])
         (auto simp: session_trace_def)
  next
    case (ran p c d1 d2)
    let ?k = "CallCloneVM ?pid (clone_spec E t)"
    have effect: "md_calls d2 = md_calls d1 @ [?k] \<and>
      (case mp_Machine p (md_calls d1 @ [?k]) of
         Inl e \<Rightarrow> md_jobs d2 = set_job ?job (job_state ProvisioningJobStatusFailed (Error_text e)) (md_jobs d1) \<and>
           r = Some (if errors_As_code e = Some CodeUnsupported then Suffixf (Sentinel ErrTaskPermanentFailure) (Error_text e) else e)
       | Inr info \<Rightarrow> md_jobs d2 = set_job ?job (clone_done info) (md_jobs d1) \<and> r = None)"
      by (rule clone_body_effect [OF ran(8,5)]) (use assms(5) ran(4) in simp)
    have calls: "md_calls d' = md_calls d @ [CallConnect c, ?k, CallDisconnect]" using effect ran(3,9) by simp
    show ?thesis
    proof (cases "mp_Machine p (md_calls d1 @ [?k])")
      case (Inl e)
      with effect ran calls show ?thesis
        by (intro exI [of _ "job_state ProvisioningJobStatusFailed (Error_text e)"] exI [of _ "[CallConnect c, ?k, CallDisconnect]"])
           (auto simp: session_trace_def)
    next
      case (Inr info)
      with effect ran calls show ?thesis
        by (intro exI [of _ "clone_done info"] exI [of _ "[CallConnect c, ?k, CallDisconnect]"])
           (auto simp: session_trace_def clone_done_comp)
    qed
  qed
qed

text \<open>
  A clone the provider does not support is not tried again: the error of the handler is one that the engine takes as a
  permanent failure, whatever the number of retries left, while its text still says what the provider said.
\<close>

theorem unsupported_clone_is_final:
  assumes "mp_Machine p (md_calls d @ [CallCloneVM pid spec]) = Inl e" "errors_As_code e = Some CodeUnsupported"
  shows "\<exists>err. snd (clone_body jobID pid spec p d) = Some err \<and> final_status (Some err) t = TaskFailed \<and>
    Error_text err = Error_text (Sentinel ErrTaskPermanentFailure) @ '': '' @ Error_text e"
  using assms by (simp add: clone_body_def call_provider_def Let_def final_status_def)

text \<open>
  C38. The clone operation on an environment never clones a machine: the task that the orchestrator records for a machine has
  no provisioning job in its payload, and the handler of its type refuses it at once, whatever else the payload says.
\<close>

theorem environment_clone_never_works:
  "tk_Type (child_task taskID now vm (vm_task fmt_v now vm OrchestrationOpClone payload)) = ''vm.clone'' \<and>
   handleVMClone E (child_task taskID now vm (vm_task fmt_v now vm OrchestrationOpClone payload)) d =
     (d, Some (Errorf ''missing required fields in clone payload''))"
  by (simp add: handleVMClone_def child_task_def vm_task_def base_payload_def stringFromPayload_def jget_def Let_def)

section \<open>Creating from a template\<close>

definition machine_row :: "uuid_lib \<Rightarrow> string \<Rightarrow> VMInfo \<Rightarrow> mach_db \<Rightarrow> VMRow" where
  "machine_row U i info d = (new_machine i info)\<lparr>vm_ID := uuid_new U (idb_next (md_inv d))\<rparr>"

definition job_linked :: "string option \<Rightarrow> ProvisioningJob \<Rightarrow> ProvisioningJob" where
  "job_linked v j = job_state ProvisioningJobStatusCompleted '''' (case v of None \<Rightarrow> j | Some i \<Rightarrow> j\<lparr>pj_ResultVMID := Some i\<rparr>)"

lemma job_linked_ID: "pj_ID (job_linked v j) = pj_ID j"
  by (simp add: job_linked_def split: option.split)

lemma job_linked_comp: "job_linked v \<circ> job_state s m = job_linked v"
  by (simp add: job_linked_def job_state_def fun_eq_iff split: option.split)

text \<open>The machine is found again under its key unless its row was deleted.\<close>

lemma keep_machine_effect:
  assumes "idb_faults (md_inv d) = []" "distinct (map pj_ID (md_jobs d))" "uuid_parse U i = Some i"
  shows "md_calls (keep_machine U jobID i info d) = md_calls d"
    "idb_vms (md_inv (keep_machine U jobID i info d)) = upsert_row vm_key vm_merge (idb_vms (md_inv d)) (machine_row U i info d)"
    "md_jobs (keep_machine U jobID i info d) = set_job jobID
       (job_linked (map_option vm_ID (find (\<lambda>v. vm_key v = (i, vi_ProviderVMID info) \<and> \<not> vm_Deleted v)
          (upsert_row vm_key vm_merge (idb_vms (md_inv d)) (machine_row U i info d))))) (md_jobs d)"
proof -
  let ?rows = "upsert_row vm_key vm_merge (idb_vms (md_inv d)) (machine_row U i info d)"
  let ?d1 = "d\<lparr>md_inv := (md_inv d)\<lparr>idb_vms := ?rows, idb_next := Suc (idb_next (md_inv d))\<rparr>\<rparr>"
  let ?v = "find (\<lambda>v. vm_key v = (i, vi_ProviderVMID info) \<and> \<not> vm_Deleted v) ?rows"
  have up: "on_inv (vm_BulkUpsert U [new_machine i info]) d = (?d1, Inr ())"
    using assms(1) vm_table.bulk_Some [of "[machine_row U i info d]" "idb_vms (md_inv d)"]
    by (simp add: vm_BulkUpsert_def on_inv_def inv_stmt_def machine_row_def)
  have get: "vmrow_GetByProviderID i (vi_ProviderVMID info) d2 =
      (d2, case ?v of None \<Rightarrow> Inl (Wrapf ''vm not found'' (Errorf ''record not found'')) | Some v \<Rightarrow> Inr v)"
    if "md_inv d2 = md_inv ?d1" for d2
    using that assms(1) by (simp add: vmrow_GetByProviderID_def on_inv_def inv_stmt_def vm_key_def conj_assoc split: option.split)
  have "keep_machine U jobID i info d = ?d1\<lparr>md_jobs := set_job jobID (job_linked (map_option vm_ID ?v)) (md_jobs d)\<rparr>"
  proof -
    have "keep_machine U jobID i info d = (case job_GetByID jobID ?d1 of (d, Inl _) \<Rightarrow> d
        | (d, Inr job) \<Rightarrow> fst (job_Update (job_linked (map_option vm_ID ?v) job) d))"
      using assms(1,3) get [of ?d1] job_GetByID_read [of ?d1 jobID]
      by (cases "find (\<lambda>j. pj_ID j = jobID) (md_jobs d)"; cases ?v) (simp_all add: keep_machine_def up job_linked_def job_state_def Let_def)
    with assms job_write [of ?d1 "job_linked (map_option vm_ID ?v)" jobID] show ?thesis by (simp add: job_linked_ID)
  qed
  then show "md_calls (keep_machine U jobID i info d) = md_calls d" "idb_vms (md_inv (keep_machine U jobID i info d)) = ?rows"
    "md_jobs (keep_machine U jobID i info d) = set_job jobID (job_linked (map_option vm_ID ?v)) (md_jobs d)"
    by simp_all
qed

lemma machine_row_fields:
  assumes "v \<in> set (upsert_row vm_key vm_merge rows (machine_row U i info d))" "vm_key v = (i, vi_ProviderVMID info)"
  shows "vm_Name v = vi_Name info \<and> vr_CPUCount v = vi_CPUCount info \<and> vr_MemoryMB v = vi_MemoryMB info \<and> vr_DiskGB v = vi_DiskGB info \<and>
    vm_Status v = VMStatusStopped"
  using assms(1) by (cases rule: vm_table.upsert_row_cases)
    (use assms(2) in \<open>auto simp: machine_row_def new_machine_def vm_key_def vm_merge_def\<close>)

lemma upsert_finds:
  assumes "find (\<lambda>v. vm_key v = k \<and> \<not> vm_Deleted v) (upsert_row vm_key vm_merge rows r) = None" "vm_key r = k" "\<not> vm_Deleted r"
  shows "\<exists>v \<in> set rows. vm_key v = k \<and> vm_Deleted v"
proof (cases "vm_key r \<in> vm_key ` set rows")
  case True
  then obtain v where v: "v \<in> set rows" "vm_key v = k" using assms(2) by auto
  with True assms(2) have "vm_merge v r \<in> set (upsert_row vm_key vm_merge rows r)" by (auto simp: upsert_row_def)
  with assms(1) v assms(2) have "vm_Deleted (vm_merge v r)" by (auto simp: find_None_iff vm_key_def vm_merge_def)
  with v show ?thesis by (auto simp: vm_merge_def)
next
  case False
  with assms show ?thesis by (auto simp: upsert_row_def find_None_iff)
qed

text \<open>
  C39. A provisioned machine is in the inventory and its job leads to it: when the handler of a task reports success, the
  provider has created the machine that the payload describes, the job is completed, and the job is linked to a live row of
  the table of machines that has the machine's key, name and sizes, unless the row with this key had been deleted. No other
  job has changed. The statements of the database are taken to succeed.
\<close>

theorem provisioned_machine_is_linked:
  assumes "handleVMProvision E t d = (d', None)" "\<not> he_cancel1 E"
    and "uuid_parse (he_U E) (payload_string E t ''hypervisor_id'') = Some (payload_string E t ''hypervisor_id'')"
    and "idb_faults (md_inv d) = []" "distinct (map pj_ID (md_jobs d))"
  shows "\<exists>p c info.
    serves (he_box E) (he_registry E) (payload_string E t ''hypervisor_id'') (idb_hypervisors (md_inv d)) p c \<and>
    md_calls d' = md_calls d @ [CallConnect c, CallCreateVM (create_spec E t), CallDisconnect] \<and>
    mp_Machine p (md_calls d @ [CallConnect c, CallCreateVM (create_spec E t)]) = Inr info \<and>
    ((\<exists>v \<in> set (idb_vms (md_inv d)). vm_key v = (payload_string E t ''hypervisor_id'', vi_ProviderVMID info) \<and> vm_Deleted v) \<or>
     (\<exists>v \<in> set (idb_vms (md_inv d')). vm_key v = (payload_string E t ''hypervisor_id'', vi_ProviderVMID info) \<and> \<not> vm_Deleted v \<and>
        vm_Name v = vi_Name info \<and> vr_CPUCount v = vi_CPUCount info \<and> vr_MemoryMB v = vi_MemoryMB info \<and> vr_DiskGB v = vi_DiskGB info \<and>
        md_jobs d' = set_job (payload_string E t ''provisioning_job_id'') (job_linked (Some (vm_ID v))) (md_jobs d)))"
proof -
  let ?job = "payload_string E t ''provisioning_job_id''" and ?i = "payload_string E t ''hypervisor_id''"
  let ?k = "CallCreateVM (create_spec E t)"
  have "job_session E ?job ?i ''provisioning VM from template on hypervisor'' (provision_body (he_U E) ?job ?i (create_spec E t)) d = (d', None)"
    using assms(1) by (simp add: handleVMProvision_def Let_def split: if_splits)
  then show ?thesis
    using assms(4,5,2)
  proof (cases rule: job_session_cases)
    case (ran p c d1 d2)
    then obtain info where info: "mp_Machine p (md_calls d1 @ [?k]) = Inr info"
      by (auto simp: provision_body_def call_provider_def Let_def split: sum.splits)
    let ?d1 = "tcProgress 80 ''persisting provisioned VM to database'' (d1\<lparr>md_calls := md_calls d1 @ [?k]\<rparr>)"
    let ?rows = "upsert_row vm_key vm_merge (idb_vms (md_inv ?d1)) (machine_row (he_U E) ?i info ?d1)"
    let ?v = "find (\<lambda>v. vm_key v = (?i, vi_ProviderVMID info) \<and> \<not> vm_Deleted v) ?rows"
    have d2: "d2 = tcProgress 100 ''VM provisioned successfully'' (keep_machine (he_U E) ?job ?i info ?d1)"
      using ran(8) info by (simp add: provision_body_def call_provider_def Let_def)
    have keep: "md_calls (keep_machine (he_U E) ?job ?i info ?d1) = md_calls ?d1"
      "idb_vms (md_inv (keep_machine (he_U E) ?job ?i info ?d1)) = ?rows"
      "md_jobs (keep_machine (he_U E) ?job ?i info ?d1) = set_job ?job (job_linked (map_option vm_ID ?v)) (md_jobs ?d1)"
      by (rule keep_machine_effect; use ran(4,5) assms(3,5) in simp)+
    have base: "serves (he_box E) (he_registry E) ?i (idb_hypervisors (md_inv d)) p c" "md_calls d' = md_calls d @ [CallConnect c, ?k, CallDisconnect]"
      "mp_Machine p (md_calls d @ [CallConnect c, ?k]) = Inr info"
      using ran(1,3,9) info keep(1) by (simp_all add: d2)
    show ?thesis
    proof (cases ?v)
      case None
      have row: "vm_key (machine_row (he_U E) ?i info ?d1) = (?i, vi_ProviderVMID info)" "\<not> vm_Deleted (machine_row (he_U E) ?i info ?d1)"
        by (simp_all add: machine_row_def new_machine_def vm_key_def)
      from upsert_finds [OF None row] ran(6) base show ?thesis by auto
    next
      case (Some v)
      then have v: "v \<in> set ?rows" "vm_key v = (?i, vi_ProviderVMID info)" "\<not> vm_Deleted v" by (auto simp: find_Some_iff)
      have "md_jobs d' = set_job ?job (job_linked (Some (vm_ID v))) (md_jobs d)"
        using ran(4,9) keep(3) [unfolded Some option.map] by (simp add: d2 job_linked_comp)
      moreover have "v \<in> set (idb_vms (md_inv d'))" using v(1) ran(9) keep(2) by (simp add: d2)
      ultimately show ?thesis using v machine_row_fields [OF v(1,2)] base by blast
    qed
  qed simp_all
qed

section \<open>Requests\<close>

text \<open>What both requests leave behind: the task and the job name each other.\<close>

lemma start_job_stores:
  assumes "start_job U what task descr job d = (d1, Inr job')" and id: "\<And>i j. tk_ID (task i j) = i"
    and t: "t \<in> set (tt_rows (idb_tasks (md_inv d1)))" "pj_TaskID job' = Some (tk_ID t)"
  shows "t = task (tk_ID t) (pj_ID job') \<and> job' = job\<lparr>pj_ID := pj_ID job', pj_TaskID := Some (tk_ID t)\<rparr>"
proof -
  obtain i da db where draw: "draw_uuid U d = (da, i)" "job_Create (job\<lparr>pj_ID := i\<rparr>) da = (db, Inr ())"
    using assms(1) by (auto simp: start_job_def Let_def split: prod.splits sum.splits)
  obtain j dc dd where task: "draw_uuid U db = (dc, j)" "task_Create (task j i) dc = (dd, Inr ())"
    using assms(1) draw by (auto simp: start_job_def Let_def split: prod.splits sum.splits)
  let ?job = "job\<lparr>pj_ID := i, pj_TaskID := Some j\<rparr>"
  have res: "d1 = mach_audit ''create'' i descr (fst (job_Update ?job dd))" "job' = ?job"
    using assms(1) by (auto simp: start_job_def Let_def draw task)
  have "idb_tasks (md_inv d1) = idb_tasks (md_inv dd)"
    by (auto simp: res mach_audit_def inv_audit_def job_Update_def mach_stmt_def on_inv_def inv_stmt_def split: list.split option.split)
  moreover have "tt_rows (idb_tasks (md_inv dd)) = tt_rows (idb_tasks (md_inv dc)) @ [task j i] \<and> j \<notin> set (map tk_ID (tt_rows (idb_tasks (md_inv dc))))"
    using task(2) by (auto simp: task_Create_def on_inv_def inv_stmt_def Create_def id split: prod.splits list.splits option.splits if_splits)
  ultimately have "t = task j i" using t res(2) by (auto simp: id)
  then show ?thesis by (simp add: res id)
qed

lemma json_int_read: "0 \<le> n \<Longrightarrow> n < 2 ^ 53 \<Longrightarrow> jget p key = Some (json_int n) \<Longrightarrow> intFromPayload p key = n"
  using float64_int [of n] by (simp add: intFromPayload_def json_int_def float_to_int_def)

lemma template_GetByID_result:
  assumes "template_GetByID i d = (d', Inr t)"
  shows "t \<in> set (md_templates d) \<and> te_ID t = i \<and> \<not> te_Deleted t"
  using assms by (auto simp: template_GetByID_def mach_stmt_def on_inv_def inv_stmt_def find_Some_iff split: sum.splits prod.splits list.splits option.splits)

definition machine_size :: "int \<Rightarrow> bool" where
  "machine_size n \<longleftrightarrow> 0 \<le> n \<and> n < 2 ^ 53"

text \<open>
  C40. What a request for a machine from a template asks for survives its way through the stored task: the handler reads back
  from the payload of the recorded task the very specification requested, with the sizes that were not given taken from the
  template, for the hypervisor of the template and for the job that was returned, and the job records the same sizes; this
  holds as long as the sizes are exact as floating-point numbers, through which JSON takes them.
\<close>

theorem provision_request_survives:
  assumes "provisioning_Provision U now caller req d = (d1, Inr job)"
    and "t \<in> set (tt_rows (idb_tasks (md_inv d1)))" "pj_TaskID job = Some (tk_ID t)"
    and "machine_size (pj_CPUCount job)" "machine_size (pj_MemoryMB job)" "machine_size (pj_DiskGB job)"
  shows "\<exists>tmpl \<in> set (md_templates d). te_ID tmpl = pv_TemplateID req \<and> \<not> te_Deleted tmpl \<and> tk_Type t = ''vm.provision'' \<and>
    create_spec E t = \<lparr>vs_Name = pv_Name req,
      vs_CPUCount = (if pv_CPUCount req \<le> 0 then te_CPUCount tmpl else pv_CPUCount req),
      vs_MemoryMB = (if pv_MemoryMB req \<le> 0 then te_MemoryMB tmpl else pv_MemoryMB req),
      vs_DiskGB = (if pv_DiskGB req \<le> 0 then te_DiskGB tmpl else pv_DiskGB req),
      vs_NetworkName = pv_NetworkName req, vs_DataStore = pv_DataStore req, vs_TemplateID = te_ProviderID tmpl\<rparr> \<and>
    pj_CPUCount job = vs_CPUCount (create_spec E t) \<and> pj_MemoryMB job = vs_MemoryMB (create_spec E t) \<and>
    pj_DiskGB job = vs_DiskGB (create_spec E t) \<and>
    payload_string E t ''hypervisor_id'' = te_HypervisorID tmpl \<and> payload_string E t ''provisioning_job_id'' = pj_ID job"
proof -
  obtain da tmpl where get: "template_GetByID (pv_TemplateID req) d = (da, Inr tmpl)" and "pv_Name req \<noteq> ''''"
    using assms(1) by (auto simp: provisioning_Provision_def split: prod.splits sum.splits if_splits)
  let ?task = "\<lambda>taskID jobID. service_task taskID now ''vm.provision'' 4 2 (provision_payload tmpl (sized req tmpl) jobID) None (te_HypervisorID tmpl) caller"
  have start: "start_job U ''provision'' ?task (''provision VM \"'' @ pv_Name req @ ''\" from template \"'' @ te_Name tmpl @ ''\"'')
      (provision_job tmpl (sized req tmpl) caller) da = (d1, Inr job)"
    using assms(1) get \<open>pv_Name req \<noteq> ''''\<close> by (simp add: provisioning_Provision_def)
  have "t = ?task (tk_ID t) (pj_ID job) \<and> job = (provision_job tmpl (sized req tmpl) caller)\<lparr>pj_ID := pj_ID job, pj_TaskID := Some (tk_ID t)\<rparr>"
    by (rule start_job_stores [OF start _ assms(2,3)]) (simp add: service_task_def)
  then have t: "tk_Type t = ''vm.provision''" "tk_Payload t = provision_payload tmpl (sized req tmpl) (pj_ID job)"
    and job: "pj_CPUCount job = pv_CPUCount (sized req tmpl)" "pj_MemoryMB job = pv_MemoryMB (sized req tmpl)" "pj_DiskGB job = pv_DiskGB (sized req tmpl)"
    by (auto simp: service_task_def provision_job_def dest: arg_cong [of t _ tk_Type] arg_cong [of t _ tk_Payload] arg_cong [of job _ pj_CPUCount]
        arg_cong [of job _ pj_MemoryMB] arg_cong [of job _ pj_DiskGB])
  have ints: "intFromPayload (tk_Payload t) ''cpu_count'' = pj_CPUCount job" "intFromPayload (tk_Payload t) ''memory_mb'' = pj_MemoryMB job"
    "intFromPayload (tk_Payload t) ''disk_gb'' = pj_DiskGB job"
    by (rule json_int_read; use assms(4-6) in \<open>simp add: t job machine_size_def provision_payload_def jget_def\<close>)+
  have "create_spec E t = \<lparr>vs_Name = pv_Name req, vs_CPUCount = pj_CPUCount job, vs_MemoryMB = pj_MemoryMB job, vs_DiskGB = pj_DiskGB job,
      vs_NetworkName = pv_NetworkName req, vs_DataStore = pv_DataStore req, vs_TemplateID = te_ProviderID tmpl\<rparr>"
    by (simp add: create_spec_def ints) (simp add: t provision_payload_def stringFromPayload_def jget_def sized_def)
  moreover have "payload_string E t ''hypervisor_id'' = te_HypervisorID tmpl" "payload_string E t ''provisioning_job_id'' = pj_ID job"
    by (simp_all add: t provision_payload_def stringFromPayload_def jget_def sized_def)
  ultimately show ?thesis using template_GetByID_result [OF get] job t(1) by (intro bexI [of _ tmpl]) (simp_all add: sized_def)
qed

section \<open>Discovering templates\<close>

interpretation template_table: upsert_table te_key te_merge
  by unfold_locales (simp add: te_key_def te_merge_def)

definition describes :: "VMTemplate \<Rightarrow> TemplateInfo \<Rightarrow> bool" where
  "describes t info \<longleftrightarrow> te_Name t = ti_Name info \<and> te_Description t = ti_Description info \<and> te_GuestOS t = ti_GuestOS info \<and>
     te_CPUCount t = ti_CPUCount info \<and> te_MemoryMB t = ti_MemoryMB info \<and> te_DiskGB t = ti_DiskGB info \<and> te_Tags t = ti_Tags info"

lemma store_templates_effect:
  assumes "store_templates U i infos d = (d', Inr n)" "idb_faults (md_inv d) = []" "distinct (map ti_ProviderID infos)"
  shows "n = int (length infos) \<and>
    (\<forall>info \<in> set infos. \<exists>t \<in> set (md_templates d'). te_key t = (uuid_or_nil U i, ti_ProviderID info) \<and> describes t info) \<and>
    (\<forall>t \<in> set (md_templates d). te_ProviderID t \<notin> ti_ProviderID ` set infos \<longrightarrow> t \<in> set (md_templates d'))"
proof -
  let ?i = "uuid_or_nil U i"
  define news where "news = map (\<lambda>(k, t). t\<lparr>te_ID := uuid_new U (idb_next (md_inv d) + k)\<rparr>) (enumerate 0 (map (template_model ?i) infos))"
  have keys: "map te_key news = map (\<lambda>info. (?i, ti_ProviderID info)) infos"
    by (rule nth_equalityI) (simp_all add: news_def nth_enumerate_eq te_key_def template_model_def)
  then have "map snd (map te_key news) = map ti_ProviderID infos" by (simp add: comp_def)
  with assms(3) have dist: "distinct (map te_key news)" by (metis distinct_map)
  have "md_templates d' = foldl (upsert_row te_key te_merge) (md_templates d) news \<and> n = int (length infos)"
  proof (cases "infos = []")
    case True
    with assms(1) show ?thesis
      by (auto simp: store_templates_def te_BulkUpsert_def mach_audit_def news_def enumerate_eq_zip Let_def)
  next
    case False
    with assms(1,2) show ?thesis
      using template_table.bulk_Some [OF dist, of "md_templates d"]
      by (auto simp: store_templates_def te_BulkUpsert_def mach_stmt_def on_inv_def inv_stmt_def mach_audit_def news_def Let_def split: option.splits)
  qed
  then have rows: "md_templates d' = foldl (upsert_row te_key te_merge) (md_templates d) news" "n = int (length infos)" by simp_all
  have "\<exists>t \<in> set (md_templates d'). te_key t = (?i, ti_ProviderID info) \<and> describes t info" if "info \<in> set infos" for info
  proof -
    from that have "(?i, ti_ProviderID info) \<in> te_key ` set news" using keys by (metis (mono_tags, lifting) imageI image_set)
    then have "(?i, ti_ProviderID info) \<in> te_key ` set (md_templates d')"
      by (simp only: rows(1) template_table.keys_foldl Un_iff simp_thms)
    then obtain t where t: "t \<in> set (md_templates d')" "te_key t = (?i, ti_ProviderID info)" by (elim imageE) simp
    have "te_key t \<in> te_key ` set news" using t(2) \<open>(?i, ti_ProviderID info) \<in> te_key ` set news\<close> by simp
    with template_table.foldl_cases [OF dist t(1) [unfolded rows(1)]] t(2)
    obtain r where r: "r \<in> set news" "te_key r = (?i, ti_ProviderID info)" "t = r \<or> (\<exists>old. t = te_merge old r)" by metis
    from r(1) obtain k where k: "k < length infos" "r = (template_model ?i (infos ! k))\<lparr>te_ID := uuid_new U (idb_next (md_inv d) + k)\<rparr>"
      by (auto simp: news_def in_set_conv_nth nth_enumerate_eq)
    with r(2) have "ti_ProviderID (infos ! k) = ti_ProviderID info" by (simp add: te_key_def template_model_def)
    with assms(3) that k(1) have "infos ! k = info" by (metis distinct_map inj_onD nth_mem)
    with r(3) k(2) have "describes t info" by (auto simp: describes_def template_model_def te_merge_def)
    with t show ?thesis by blast
  qed
  moreover have "t \<in> set (md_templates d')" if "t \<in> set (md_templates d)" "te_ProviderID t \<notin> ti_ProviderID ` set infos" for t
  proof -
    have "te_key t \<notin> set (map te_key news)" using that(2) by (auto simp: keys te_key_def)
    with template_table.foldl_kept [OF that(1)] rows(1) show ?thesis by simp
  qed
  ultimately show ?thesis using rows(2) by blast
qed

text \<open>
  A discovery of templates that succeeds describes what the provider lists: the provider of the hypervisor has accepted
  the connection, and every template it lists has a row under its key with the attributes listed, while the rows of templates
  that it does not list are kept as they are. A provider that cannot list templates leaves the table as it is. The statements
  of the database are taken to succeed.
\<close>

theorem templates_follow_provider:
  assumes "SyncTemplatesNow U B reg i d = (d', Inr n)" "idb_faults (md_inv d) = []"
  shows "\<exists>p c. serves B reg i (idb_hypervisors (md_inv d)) p c \<and> mp_Do p (md_calls d @ [CallConnect c]) = None \<and>
    (case mp_Templates p of
       None \<Rightarrow> n = 0 \<and> md_templates d' = md_templates d
     | Some ListTemplates \<Rightarrow> (\<exists>infos. ListTemplates (md_calls d @ [CallConnect c, CallListTemplates]) = Inr infos \<and>
         (distinct (map ti_ProviderID infos) \<longrightarrow> n = int (length infos) \<and>
          (\<forall>info \<in> set infos. \<exists>t \<in> set (md_templates d'). te_key t = (uuid_or_nil U i, ti_ProviderID info) \<and> describes t info) \<and>
          (\<forall>t \<in> set (md_templates d). te_ProviderID t \<notin> ti_ProviderID ` set infos \<longrightarrow> t \<in> set (md_templates d')))))"
proof -
  obtain da g where get: "on_inv (hv_repo_GetByID i) d = (da, g)" by fastforce
  note read = hv_repo_GetByID_result [OF get] hv_repo_GetByID_read [where i = i and d = "md_inv d"]
  have da: "md_templates da = md_templates d" "idb_faults (md_inv da) = []"
    using get read(7) assms(2) on_inv_frame(3) [of "hv_repo_GetByID i" d] by (auto simp: on_inv_def split: prod.splits)
  obtain h where h: "g = Inr h" "h \<in> set (idb_hypervisors (md_inv d))" "hv_ID h = i"
    using assms(1) get read(3) by (cases g) (auto simp: SyncTemplatesNow_def)
  let ?c = "buildHypervisorCredentials B h"
  obtain p where p: "Get reg (hv_Provider h) = Inr p" using assms(1) get h(1) by (cases "Get reg (hv_Provider h)") (auto simp: SyncTemplatesNow_def Let_def)
  have conn: "mp_Do p (md_calls d @ [CallConnect ?c]) = None"
    using assms(1) get h(1) p read(2) by (auto simp: SyncTemplatesNow_def Let_def call_provider_def split: option.splits)
  have serves: "serves B reg i (idb_hypervisors (md_inv d)) p ?c" using h p by (auto simp: serves_def)
  let ?d1 = "tcProgress 30 ''discovering templates from provider'' ((tcProgress 10 ''connecting to hypervisor'' da)\<lparr>md_calls := md_calls d @ [CallConnect ?c]\<rparr>)"
  show ?thesis
  proof (cases "mp_Templates p")
    case None
    with assms(1) get h(1) p conn read(2) da(1) have "n = 0 \<and> md_templates d' = md_templates d"
      by (auto simp: SyncTemplatesNow_def Let_def call_provider_def)
    with None serves conn show ?thesis by (intro exI [of _ p] exI [of _ ?c]) simp
  next
    case (Some L)
    then obtain infos where L: "L (md_calls d @ [CallConnect ?c, CallListTemplates]) = Inr infos"
      using assms(1) get h(1) p conn read(2) by (cases "L (md_calls d @ [CallConnect ?c, CallListTemplates])") (auto simp: SyncTemplatesNow_def Let_def call_provider_def)
    let ?d2 = "?d1\<lparr>md_calls := md_calls d @ [CallConnect ?c, CallListTemplates]\<rparr>"
    obtain d3 where store: "store_templates U i infos ?d2 = (d3, Inr n)" "md_templates d' = md_templates d3"
      using assms(1) get h(1) p conn read(2) Some L by (auto simp: SyncTemplatesNow_def Let_def call_provider_def split: prod.splits)
    have "n = int (length infos) \<and>
        (\<forall>info \<in> set infos. \<exists>t \<in> set (md_templates d'). te_key t = (uuid_or_nil U i, ti_ProviderID info) \<and> describes t info) \<and>
        (\<forall>t \<in> set (md_templates d). te_ProviderID t \<notin> ti_ProviderID ` set infos \<longrightarrow> t \<in> set (md_templates d'))"
      if "distinct (map ti_ProviderID infos)"
      using store_templates_effect [OF store(1) _ that] da store(2) by simp
    with Some L serves conn show ?thesis by (intro exI [of _ p] exI [of _ ?c]) simp
  qed
qed

section \<open>Scenarios\<close>

definition demo_clone_request :: CloneVMRequest where
  "demo_clone_request = \<lparr>cv_SourceVMID = ''2'', cv_Name = ''copy'', cv_DataStore = ''ds'', cv_Node = '''', cv_Linked = False, cv_Tags = [], cv_Metadata = []\<rparr>"

definition demo_cloning :: mach_db where
  "demo_cloning = fst (provisioning_Clone plain_uuids 0 None demo_clone_request demo_machines)"

definition demo_clone_task :: Task where
  "demo_clone_task = hd (tt_rows (idb_tasks (md_inv demo_cloning)))"

lemma demo_clone_runs:
  "snd (handleVMClone demo_handlers demo_clone_task demo_cloning) = None" "map pj_ID (md_jobs demo_cloning) = [''6'']"
  "idb_faults (md_inv demo_cloning) = []"
  "\<forall>key \<in> {''provisioning_job_id'', ''provider_vm_id'', ''hypervisor_id'', ''name''}. payload_string demo_handlers demo_clone_task key \<noteq> ''''"
  "payload_string demo_handlers demo_clone_task ''provisioning_job_id'' = ''6''"
  by code_simp+

lemma clone_job_tells_outcome_witness:
  "\<exists>d' info. handleVMClone demo_handlers demo_clone_task demo_cloning = (d', None) \<and>
     md_jobs d' = set_job ''6'' (clone_done info) (md_jobs demo_cloning) \<and> map pj_ID (md_jobs demo_cloning) = [''6'']"
proof -
  obtain d' where run: "handleVMClone demo_handlers demo_clone_task demo_cloning = (d', None)" using demo_clone_runs(1) by (metis prod.collapse)
  have go: "\<not> he_cancel1 demo_handlers" by (simp add: demo_handlers_def)
  have "distinct (map pj_ID (md_jobs demo_cloning))" by (simp add: demo_clone_runs(2))
  from clone_job_tells_outcome [OF run go demo_clone_runs(4,3) this] run show ?thesis
    by (auto simp: demo_clone_runs(2,5))
qed

definition demo_unsupported :: go_error where
  "demo_unsupported = ProviderError CodeUnsupported ''esxi'' ''CloneVM'' ''not supported'' None"

lemma unsupported_clone_is_final_witness:
  "\<exists>err. snd (clone_body ''6'' ''b'' (clone_spec demo_handlers demo_clone_task) (demo_answers\<lparr>mp_Machine := (\<lambda>_. Inl demo_unsupported)\<rparr>) demo_cloning) = Some err \<and>
     final_status (Some err) demo_clone_task = TaskFailed"
proof -
  let ?p = "demo_answers\<lparr>mp_Machine := (\<lambda>_. Inl demo_unsupported)\<rparr>"
  have "mp_Machine ?p (md_calls demo_cloning @ [CallCloneVM ''b'' (clone_spec demo_handlers demo_clone_task)]) = Inl demo_unsupported"
    "errors_As_code demo_unsupported = Some CodeUnsupported" by (simp_all add: demo_unsupported_def)
  from unsupported_clone_is_final [OF this, of "''6''" demo_clone_task] show ?thesis by blast
qed

definition demo_templates :: mach_db where
  "demo_templates = fst (SyncTemplatesNow plain_uuids demo_box (he_registry demo_handlers) ''0'' demo_machines)"

definition demo_provision_request :: ProvisionVMRequest where
  "demo_provision_request = \<lparr>pv_TemplateID = ''6'', pv_Name = ''new'', pv_CPUCount = 0, pv_MemoryMB = 2048, pv_DiskGB = 0, pv_NetworkName = '''',
     pv_DataStore = '''', pv_Node = '''', pv_Tags = [], pv_Metadata = []\<rparr>"

definition demo_provisioning :: "mach_db \<times> (go_error + ProvisioningJob)" where
  "demo_provisioning = provisioning_Provision plain_uuids 0 None demo_provision_request demo_templates"

definition demo_provision_task :: Task where
  "demo_provision_task = hd (tt_rows (idb_tasks (md_inv (fst demo_provisioning))))"

lemma demo_templates_run:
  "snd (SyncTemplatesNow plain_uuids demo_box (he_registry demo_handlers) ''0'' demo_machines) = Inr 1"
  "idb_faults (md_inv demo_machines) = []"
  by code_simp+

lemma demo_provision_runs:
  "map_sum (\<lambda>_. ()) (\<lambda>job. (pj_TaskID job, pj_CPUCount job, pj_MemoryMB job, pj_DiskGB job)) (snd demo_provisioning) = Inr (Some ''8'', 2, 2048, 10)"
  "map tk_ID (tt_rows (idb_tasks (md_inv (fst demo_provisioning)))) = [''8'']"
  "snd (handleVMProvision demo_handlers demo_provision_task (fst demo_provisioning)) = None"
  "idb_faults (md_inv (fst demo_provisioning)) = []" "map pj_ID (md_jobs (fst demo_provisioning)) = [''7'']"
  "payload_string demo_handlers demo_provision_task ''hypervisor_id'' = ''0''"
  by code_simp+

lemma templates_follow_provider_witness:
  "\<exists>p c. serves demo_box (he_registry demo_handlers) ''0'' (idb_hypervisors (md_inv demo_machines)) p c \<and>
     mp_Do p (md_calls demo_machines @ [CallConnect c]) = None"
proof -
  have "SyncTemplatesNow plain_uuids demo_box (he_registry demo_handlers) ''0'' demo_machines = (demo_templates, Inr 1)"
    using demo_templates_run(1) by (simp add: demo_templates_def prod_eq_iff)
  from templates_follow_provider [OF this demo_templates_run(2)] show ?thesis by auto
qed

lemma provision_request_survives_witness:
  "\<exists>tmpl \<in> set (md_templates demo_templates). te_ID tmpl = ''6'' \<and> vs_CPUCount (create_spec demo_handlers demo_provision_task) = te_CPUCount tmpl \<and>
     vs_MemoryMB (create_spec demo_handlers demo_provision_task) = 2048"
proof -
  obtain job where job: "snd demo_provisioning = Inr job" using demo_provision_runs(1) by (cases "snd demo_provisioning") auto
  with demo_provision_runs(1) have f: "pj_TaskID job = Some ''8''" "pj_CPUCount job = 2" "pj_MemoryMB job = 2048" "pj_DiskGB job = 10" by simp_all
  have t: "demo_provision_task \<in> set (tt_rows (idb_tasks (md_inv (fst demo_provisioning))))" "tk_ID demo_provision_task = ''8''"
    using demo_provision_runs(2) by (cases "tt_rows (idb_tasks (md_inv (fst demo_provisioning)))"; simp add: demo_provision_task_def)+
  have "provisioning_Provision plain_uuids 0 None demo_provision_request demo_templates = (fst demo_provisioning, Inr job)"
    using job by (simp add: demo_provisioning_def prod_eq_iff)
  from provision_request_survives [OF this t(1), of demo_handlers] f t(2) show ?thesis
    by (auto simp: machine_size_def demo_provision_request_def)
qed

lemma provisioned_machine_is_linked_witness:
  "\<exists>d' (p :: machine_provider) c info. handleVMProvision demo_handlers demo_provision_task (fst demo_provisioning) = (d', None) \<and>
     md_calls d' = md_calls (fst demo_provisioning) @ [CallConnect c, CallCreateVM (create_spec demo_handlers demo_provision_task), CallDisconnect] \<and>
     mp_Machine p (md_calls (fst demo_provisioning) @ [CallConnect c, CallCreateVM (create_spec demo_handlers demo_provision_task)]) = Inr info"
proof -
  obtain d' where run: "handleVMProvision demo_handlers demo_provision_task (fst demo_provisioning) = (d', None)"
    using demo_provision_runs(3) by (metis prod.collapse)
  have go: "\<not> he_cancel1 demo_handlers" by (simp add: demo_handlers_def)
  have canonical: "uuid_parse (he_U demo_handlers) (payload_string demo_handlers demo_provision_task ''hypervisor_id'') =
      Some (payload_string demo_handlers demo_provision_task ''hypervisor_id'')" by code_simp
  have "distinct (map pj_ID (md_jobs (fst demo_provisioning)))" by (simp add: demo_provision_runs(5))
  from provisioned_machine_is_linked [OF run go canonical demo_provision_runs(4) this] run show ?thesis by blast
qed

end
