(* ===== verification/Spec2Isabelle.thy ===== *)
theory Spec2Isabelle
  imports TaskEngine RateLimit Policy Workflow Hub BulkTasks ProvisioningLaws
begin

text \<open>
  VMOrbit manages virtual machines on several hypervisor platforms. This library models the parts of
  its Go backend that carry its own logic and proves what they guarantee. All paths are relative to
  \<^verbatim>\<open>src/\<close>.

  \<^bold>\<open>The program.\<close> Users call HTTP handlers, behind rate limiters and circuit breakers
  (\<^verbatim>\<open>internal/api/middleware/ratelimit.go\<close>). Services record work as tasks in the database and push their
  identifiers into a Redis queue; workers of the task engine (\<^verbatim>\<open>internal/task\<close>) take them out, run the
  handler of the task's type against a provider (\<^verbatim>\<open>internal/provider\<close>) and record the outcome, retrying
  with backoff. The schedule engine (\<^verbatim>\<open>internal/scheduler/engine.go\<close>) polls for schedules whose cron expression or
  time is due and dispatches their operations; the workflow engine (\<^verbatim>\<open>workflow_engine.go\<close>) runs lists of actions
  when an event of the platform matches. Events reach the browsers over an event bus and the WebSocket
  hub (\<^verbatim>\<open>internal/websocket/hub.go\<close>). Policies
  (\<^verbatim>\<open>internal/policy\<close>, \<^verbatim>\<open>internal/service/policy_service.go\<close>) may deny an operation or ask for an approval
  (\<^verbatim>\<open>internal/service/approval_service.go\<close>). Machines that belong together form an environment, whose machines are started,
  stopped, restarted, copied or snapshotted one after the other (\<^verbatim>\<open>internal/service/environment_service.go\<close>).

  \<^bold>\<open>The theories.\<close>

  \<^item> \<open>Prelude\<close>: 64-bit integers with wrap-around, Go's string functions on bytes, decimal numerals, JSON values,
    and the locale \<open>component\<close> of state machines with an invariant, which several theories interpret.

  \<^item> \<open>Calendar\<close>: the civil calendar and \<^verbatim>\<open>time.Date\<close> over locations with zone transitions; the locale
    \<open>civil_calendar\<close> is interpreted on the day numbers.

  \<^item> \<open>Cron\<close>: \<^verbatim>\<open>internal/scheduler/cron.go\<close>. The parser is total and denotes the usual meaning; a step close to the
    largest integer makes it panic. \<open>Next\<close> is a partial function, since its loop need not end: in a zone of
    constant offset it returns the first matching minute of its window, and where clocks are set back it
    runs forever. Expressions built by the constructors parse back.

  \<^item> \<open>ProviderCore\<close>: \<^verbatim>\<open>internal/provider/errors.go\<close>, \<^verbatim>\<open>base.go\<close>, \<^verbatim>\<open>registry.go\<close>, \<^verbatim>\<open>health_tracker.go\<close>. Error chains and
    their HTTP status, the registry, and the health statistics as a function of the history of calls.

  \<^item> \<open>Retry\<close>: \<^verbatim>\<open>internal/task/retry.go\<close> and the \<^verbatim>\<open>retry.go\<close> of three providers. The retry loop over an arbitrary operation
    and context ends after at most the configured attempts; locale \<open>retry_classes\<close> with one interpretation
    per provider.

  \<^item> \<open>TaskQueue\<close>, \<open>Throttle\<close>, \<open>TaskStore\<close>, \<open>TaskEngine\<close>: \<^verbatim>\<open>internal/task/queue.go\<close>, \<^verbatim>\<open>throttle.go\<close>, \<^verbatim>\<open>engine.go\<close>, \<^verbatim>\<open>context.go\<close>, the task
    model and repository. The Redis server is the locale \<open>redis_server\<close>, whose laws are the documented
    behaviour of its commands and which is interpreted on an in-memory server; \<open>priority_queue\<close> and \<open>task_store\<close>
    are the interfaces the engine uses. The queue refines a stable sort by priority; a processed task
    gets the status of its outcome, its lock and its provider slot are always released, a locked task is
    skipped; the retry limit turns out not to be enforced.

  \<^item> \<open>RateLimit\<close>: \<^verbatim>\<open>internal/api/middleware/ratelimit.go\<close>. Bounds on admitted requests, the circuit breaker as a function of
    its history, and the deduplication of synchronisations.

  \<^item> \<open>Approval\<close>: \<^verbatim>\<open>internal/service/approval_service.go\<close> with its repositories and the expiry worker, on tables where
    any statement may fail. Decided requests are final; without faults an approved request was approved
    at every step by its designated approvers; a fault at the wrong moment approves. The locale \<open>uuids\<close>
    states what is used of the UUID library.

  \<^item> \<open>Policy\<close>: \<^verbatim>\<open>internal/policy/engine.go\<close> with the model, repositories and service of policies. The applicable policy of
    highest priority decides; the engine fails open; the locale \<open>approval_service\<close> is the interface to the
    approval service, interpreted on the theory \<open>Approval\<close>.

  \<^item> \<open>Scheduler\<close>: \<^verbatim>\<open>internal/scheduler/engine.go\<close> with the model, repository and service of schedules. Polls and firings are
    steps; firing a recurring schedule moves it to the next match of its expression, idle schedules never
    fire, and the limit on runs holds as long as firings keep up with the polls, but not when they overlap.

  \<^item> \<open>Workflow\<close>: \<^verbatim>\<open>internal/scheduler/workflow_engine.go\<close> with the model, repositories and service of workflows. A run logs a
    prefix of its actions and fails exactly when it stopped at a failed one; events respect the limit on
    concurrent runs; an update of the actions keeps the old ones.

  \<^item> \<open>Hub\<close>: \<^verbatim>\<open>internal/websocket/hub.go\<close> and \<^verbatim>\<open>internal/infrastructure/messaging/eventbus.go\<close>. As long as only connected clients
    subscribe, no interleaving makes the hub panic; a slow client that subscribes again does.

  \<^item> \<open>ExecutionOrder\<close>: \<^verbatim>\<open>computeExecutionOrder\<close> of \<^verbatim>\<open>internal/service/environment_service.go\<close>. The order of the machines of an
    environment is a permutation that puts dependencies first as far as no cycle is in the way; locale \<open>slice_sort\<close>
    is the contract of \<^verbatim>\<open>sort.Slice\<close>, which need not be stable.

  \<^item> \<open>Environment\<close>: the model and repositories of environments and the rest of \<^verbatim>\<open>environment_service.go\<close>. A run that is
    created has one step per machine, in that order; the times of runs are never recorded.

  \<^item> \<open>Float64\<close> and \<open>EnvHandlers\<close>: the arithmetic of binary floating-point numbers, and the executor of orchestration
    runs, \<^verbatim>\<open>internal/task/environment_handlers.go\<close>, as a handler over the database of environments. It returns, its progress is
    monotone in spite of rounding, and the steps, counts and status of a run agree; a failed machine does
    not keep those that require it from starting.

  \<^item> \<open>Secrets\<close>: \<^verbatim>\<open>internal/crypto/secrets.go\<close> with its hexadecimal and base64 codecs, over any authenticated cipher, and
    the checks before the start, \<^verbatim>\<open>internal/startup/validate.go\<close>.

  \<^item> \<open>Upsert\<close>, \<open>Inventory\<close> and \<open>InventoryLaws\<close>: bulk inserts that update rows whose key exists, with the locale \<open>upsert_table\<close> interpreted
    for every table that is synchronised, and \<^verbatim>\<open>internal/service/hypervisor_service.go\<close> with its models and
    repositories: registration, credentials, deletion and the synchronisation of machines, data stores, networks, clusters and
    hosts. A synchronisation mirrors the report of the provider, except that a machine once removed never comes back, which
    holds for every sequence of operations and faults.

  \<^item> \<open>MachineTasks\<close> and \<open>MachineLaws\<close>: \<^verbatim>\<open>internal/service/vm_service.go\<close>, the repository of snapshots and
    \<^verbatim>\<open>internal/task/handlers.go\<close>. A request is followed through its task to the commands a provider gets: they reach the machine
    asked for, between an accepted connection and its end; the status kept for a machine follows the accepted command, its record
    goes only after the machine, and one snapshot is the current one.

  \<^item> \<open>BulkTasks\<close>: \<^verbatim>\<open>internal/task/bulk_handlers.go\<close>. A bulk request records one task for each machine, and its handler succeeds only
    when all of them have ended; between two polls anything may happen that does not bring back a task that has ended.

  \<^item> \<open>Provisioning\<close> and \<open>ProvisioningLaws\<close>: \<^verbatim>\<open>internal/service/provisioning_service.go\<close>, \<^verbatim>\<open>template_service.go\<close> and
    \<^verbatim>\<open>internal/task/provisioning_handlers.go\<close>. The job of a new machine ends as its task does and leads to the machine; the specification
    survives the stored payload; cloning an environment never works.

  \<^bold>\<open>Conventions.\<close> Structs are records, enumerations datatypes, Go's error values the datatype \<open>go_error\<close>; a function that
  returns a value and an error returns a sum with the error on the left; panics and loops without end
  are outcomes of their own where they can occur. State is passed explicitly. Strings are lists of bytes and
  the case of letters outside ASCII is not folded. Times are integers, in seconds in \<open>Calendar\<close> and \<open>Cron\<close> and
  in nanoseconds elsewhere. Third-party code (the Redis server, the UUID library, the regular
  expression matcher, the task handlers) and the JSON parser are arguments of the definitions; where a theorem
  needs something of them it is a hypothesis, and the witness of the theorem instantiates it.

  \<^bold>\<open>Not modelled.\<close> The clients of the hypervisor platforms and the copying of their records, the HTTP
  handlers and the router, the services that only load and store rows, analytics, notifications and
  the start-up code: they are I/O or calls of third-party libraries. Reads that return one page of a
  table are left out of the repositories. Goroutines are modelled as interleaved steps: each operation that
  holds the mutex of its structure is one step.
\<close>

end
